(* ===== verification/LF_Prelude.thy ===== *)
theory LF_Prelude
  imports Complex_Main "HOL-Library.List_Lexorder" "HOL-Library.Char_ord"
    "HOL-Library.Product_Lexorder"
begin

text \<open>
  Shared vocabulary of the LocalFlow development: the error values the Python code raises,
  fallible computations as sums, the parts of Python's string and dictionary library the
  sources call, JSON values, and the generic lemmas about them.

  A Python string is a \<^typ>\<open>string\<close>: a list of characters with code points below 256.
  A dictionary is an association list with distinct keys, in insertion order.
  A floating point number inside a JSON value is kept as its Python \<open>repr\<close>.
\<close>

section \<open>Automation collections\<close>

named_theorems py_simps \<open>equations of the Python library model\<close>
named_theorems store_simps \<open>what the store operations do to each table\<close>
named_theorems task_inv \<open>preservation of the task lifecycle invariants\<close>

section \<open>Errors and fallible computations\<close>

datatype error =
    ValueError string
  | ValidationError "string list"
  | KeyError string
  | VariableError string
  | TypeError string
  | AttributeError string
  | RuntimeError string
  | IntegrityError string
  | FileNotFoundError string
  | FileExistsError string
  | Conflict string
  | OSError string
  | TimeoutError string

type_synonym 'a result = "error + 'a"

definition bindR :: "'e + 'a \<Rightarrow> ('a \<Rightarrow> 'e + 'b) \<Rightarrow> 'e + 'b" where
  "bindR m f = (case m of Inl e \<Rightarrow> Inl e | Inr a \<Rightarrow> f a)"

lemma bindR_simps [simp]:
  "bindR (Inl e) f = Inl e"
  "bindR (Inr a) f = f a"
  by (simp_all add: bindR_def)

lemma bindR_Inr_iff: "bindR m f = Inr b \<longleftrightarrow> (\<exists>a. m = Inr a \<and> f a = Inr b)"
  by (cases m) auto

lemma bindR_cong [fundef_cong]:
  "m = m' \<Longrightarrow> (\<And>a. m' = Inr a \<Longrightarrow> f a = f' a) \<Longrightarrow> bindR m f = bindR m' f'"
  by (cases m') auto

fun mapR :: "('a \<Rightarrow> 'e + 'b) \<Rightarrow> 'a list \<Rightarrow> 'e + 'b list" where
  "mapR f [] = Inr []"
| "mapR f (x # xs) = bindR (f x) (\<lambda>y. bindR (mapR f xs) (\<lambda>ys. Inr (y # ys)))"

lemma mapR_Inr_list_all2:
  "mapR f xs = Inr ys \<longleftrightarrow> list_all2 (\<lambda>x y. f x = Inr y) xs ys"
proof (induction xs arbitrary: ys)
  case Nil
  then show ?case by auto
next
  case (Cons x xs)
  then show ?case by (cases ys) (auto simp: bindR_Inr_iff)
qed

lemma mapR_length: "mapR f xs = Inr ys \<Longrightarrow> length ys = length xs"
  by (auto simp: mapR_Inr_list_all2 list_all2_lengthD)

lemma mapR_pure: "(\<And>x. x \<in> set xs \<Longrightarrow> f x = Inr (g x)) \<Longrightarrow> mapR f xs = Inr (map g xs)"
  by (induction xs) auto

definition the_inr :: "'e + 'a \<Rightarrow> 'a option" where
  "the_inr m = (case m of Inl _ \<Rightarrow> None | Inr a \<Rightarrow> Some a)"

text \<open>
  Computations that read and write a state and may raise. A raised error keeps the writes
  made before it, as an exception in the source does.
\<close>

type_synonym ('s, 'a) op = "'s \<Rightarrow> 'a result \<times> 's"

definition retS :: "'a \<Rightarrow> ('s, 'a) op" where
  "retS a s = (Inr a, s)"

definition failS :: "error \<Rightarrow> ('s, 'a) op" where
  "failS e s = (Inl e, s)"

definition bindS :: "('s, 'a) op \<Rightarrow> ('a \<Rightarrow> ('s, 'b) op) \<Rightarrow> ('s, 'b) op" where
  "bindS m f s = (case m s of (Inl e, s') \<Rightarrow> (Inl e, s') | (Inr a, s') \<Rightarrow> f a s')"

definition liftS :: "'a result \<Rightarrow> ('s, 'a) op" where
  "liftS r s = (r, s)"

lemma bindS_cong [fundef_cong]:
  "m s = m' s' \<Longrightarrow> (\<And>a t. m' s' = (Inr a, t) \<Longrightarrow> f a t = f' a t) \<Longrightarrow> bindS m f s = bindS m' f' s'"
  by (auto simp: bindS_def split: prod.splits sum.splits)

lemma bindS_Inr_iff:
  "bindS m f s = (Inr b, t) \<longleftrightarrow> (\<exists>a u. m s = (Inr a, u) \<and> f a u = (Inr b, t))"
  by (auto simp: bindS_def split: prod.splits sum.splits)

fun mapS :: "('x \<Rightarrow> ('s, 'y) op) \<Rightarrow> 'x list \<Rightarrow> ('s, 'y list) op" where
  "mapS f [] s = (Inr [], s)"
| "mapS f (x # xs) s = bindS (f x) (\<lambda>y. bindS (mapS f xs) (\<lambda>ys. retS (y # ys))) s"

text \<open>
  Triples for such computations: from a state with \<open>P\<close>, a result satisfies \<open>Q\<close> together
  with the state it leaves, and after an error the state satisfies \<open>R\<close>.
\<close>

definition hoare :: "('s \<Rightarrow> bool) \<Rightarrow> ('s, 'a) op \<Rightarrow> ('a \<Rightarrow> 's \<Rightarrow> bool) \<Rightarrow> ('s \<Rightarrow> bool) \<Rightarrow> bool" where
  "hoare P f Q R \<longleftrightarrow> (\<forall>s. P s \<longrightarrow> (case f s of (Inr a, t) \<Rightarrow> Q a t | (Inl e, t) \<Rightarrow> R t))"

lemma hoareI:
  "(\<And>s a t. P s \<Longrightarrow> f s = (Inr a, t) \<Longrightarrow> Q a t) \<Longrightarrow> (\<And>s e t. P s \<Longrightarrow> f s = (Inl e, t) \<Longrightarrow> R t)
   \<Longrightarrow> hoare P f Q R"
  by (auto simp: hoare_def split: prod.splits sum.splits)

lemma hoareD:
  assumes "hoare P f Q R" and "P s"
  shows "f s = (Inr a, t) \<Longrightarrow> Q a t" and "f s = (Inl e, t) \<Longrightarrow> R t"
  using assms by (auto simp: hoare_def split: prod.splits)

lemma hoare_weaken:
  "hoare P f Q R \<Longrightarrow> (\<And>s. P' s \<Longrightarrow> P s) \<Longrightarrow> (\<And>a s. Q a s \<Longrightarrow> Q' a s) \<Longrightarrow> (\<And>s. R s \<Longrightarrow> R' s)
   \<Longrightarrow> hoare P' f Q' R'"
  unfolding hoare_def by (fastforce split: prod.splits sum.splits)

lemma hoare_retS: "(\<And>s. P s \<Longrightarrow> Q a s) \<Longrightarrow> hoare P (retS a) Q R"
  by (simp add: hoare_def retS_def)

lemma hoare_failS: "(\<And>s. P s \<Longrightarrow> R s) \<Longrightarrow> hoare P (failS e) Q R"
  by (simp add: hoare_def failS_def)

lemma hoare_liftS:
  "(\<And>a s. P s \<Longrightarrow> r = Inr a \<Longrightarrow> Q a s) \<Longrightarrow> (\<And>s. P s \<Longrightarrow> R s) \<Longrightarrow> hoare P (liftS r) Q R"
  by (auto simp: hoare_def liftS_def split: sum.splits)

lemma hoare_bindS:
  assumes "hoare P f Q R" and "\<And>a. hoare (Q a) (g a) S R"
  shows "hoare P (bindS f g) S R"
proof (unfold hoare_def, intro allI impI)
  fix s
  assume s: "P s"
  obtain r t where fs: "f s = (r, t)" by fastforce
  show "case bindS f g s of (Inr b, u) \<Rightarrow> S b u | (Inl e, u) \<Rightarrow> R u"
  proof (cases r)
    case (Inl e)
    with assms(1) s fs show ?thesis by (auto simp: hoare_def bindS_def)
  next
    case (Inr a)
    with assms(1) s fs have "Q a t" by (auto simp: hoare_def)
    with assms(2)[of a] fs Inr show ?thesis by (auto simp: hoare_def bindS_def)
  qed
qed

lemma hoare_mapS:
  assumes "\<And>x. x \<in> set xs \<Longrightarrow> hoare I (f x) (\<lambda>_. I) I"
  shows "hoare I (mapS f xs) (\<lambda>_. I) I"
  using assms
proof (induction xs)
  case Nil
  show ?case by (simp add: hoare_def)
next
  case (Cons x xs)
  have "hoare I (bindS (f x) (\<lambda>y. bindS (mapS f xs) (\<lambda>ys. retS (y # ys)))) (\<lambda>_. I) I"
    using Cons by (auto intro!: hoare_bindS hoare_retS)
  then show ?case by (simp add: hoare_def)
qed

lemma mapS_comp: "mapS (\<lambda>x. f (g x)) xs = mapS f (map g xs)"
proof (induction xs)
  case Nil
  show ?case by (simp add: fun_eq_iff)
next
  case (Cons x xs)
  show ?case
  proof
    fix s
    show "mapS (\<lambda>x. f (g x)) (x # xs) s = mapS f (map g (x # xs)) s" by (simp add: Cons)
  qed
qed

text \<open>An operation that only reads.\<close>

lemma mapS_reads:
  assumes "\<And>x s. snd (f x s) = s"
  shows "snd (mapS f xs s) = s"
proof (induction xs)
  case Nil
  show ?case by simp
next
  case (Cons x xs)
  obtain r where "f x s = (r, s)" using assms[of x s] by (cases "f x s") auto
  with Cons show ?case
    by (auto simp: bindS_def retS_def split: prod.splits sum.splits)
qed

text \<open>An operation that keeps an invariant, whether it returns or raises.\<close>

lemma hoare_inv: "hoare I f (\<lambda>_. I) I \<Longrightarrow> I s \<Longrightarrow> I (snd (f s))"
  by (cases "f s"; cases "fst (f s)") (auto simp: hoare_def)

definition keeps :: "('s \<Rightarrow> bool) \<Rightarrow> ('s, 'a) op \<Rightarrow> bool" where
  "keeps I f \<longleftrightarrow> (\<forall>s. I s \<longrightarrow> I (snd (f s)))"

lemma keepsD: "keeps I f \<Longrightarrow> I s \<Longrightarrow> I (snd (f s))"
  by (simp add: keeps_def)

lemma keeps_retS [task_inv]: "keeps I (retS a)"
  by (simp add: keeps_def retS_def)

lemma keeps_failS [task_inv]: "keeps I (failS e)"
  by (simp add: keeps_def failS_def)

lemma keeps_liftS [task_inv]: "keeps I (liftS r)"
  by (simp add: keeps_def liftS_def)

lemma keeps_bindS [task_inv]: "keeps I f \<Longrightarrow> (\<And>a. keeps I (g a)) \<Longrightarrow> keeps I (bindS f g)"
  unfolding keeps_def bindS_def by (fastforce split: prod.splits sum.splits)

lemma keeps_if [task_inv]: "(b \<Longrightarrow> keeps I f) \<Longrightarrow> (\<not> b \<Longrightarrow> keeps I g) \<Longrightarrow> keeps I (if b then f else g)"
  by simp

lemma keeps_option [task_inv]:
  "keeps I f \<Longrightarrow> (\<And>a. keeps I (g a)) \<Longrightarrow> keeps I (case x of None \<Rightarrow> f | Some a \<Rightarrow> g a)"
  by (cases x) auto

lemma keeps_prod [task_inv]: "(\<And>a b. keeps I (g a b)) \<Longrightarrow> keeps I (case x of (a, b) \<Rightarrow> g a b)"
  by (cases x) auto

lemma keeps_mapS [task_inv]: "(\<And>x. keeps I (f x)) \<Longrightarrow> keeps I (mapS f xs)"
proof (induction xs)
  case Nil
  show ?case by (simp add: keeps_def)
next
  case (Cons x xs)
  then have "keeps I (mapS f xs)" by blast
  then have "keeps I (bindS (f x) (\<lambda>y. bindS (mapS f xs) (\<lambda>ys. retS (y # ys))))"
    by (intro task_inv Cons.prems)
  then show ?case by (simp add: keeps_def)
qed

section \<open>Python strings\<close>

definition NUL :: char where
  "NUL = CHR 0x00"

definition NL :: char where
  "NL = CHR 0x0A"

definition DQ :: char where
  "DQ = CHR 0x22"

definition SQ :: char where
  "SQ = CHR 0x27"

definition BACKSLASH :: char where
  "BACKSLASH = CHR 0x5C"

text \<open>The characters below code point 256 that \<open>str.isspace\<close> accepts.\<close>

definition py_space :: "char \<Rightarrow> bool" where
  "py_space c \<longleftrightarrow> (let n = of_char c :: nat in
     (9 \<le> n \<and> n \<le> 13) \<or> (28 \<le> n \<and> n \<le> 32) \<or> n = 133 \<or> n = 160)"

definition lstrip :: "string \<Rightarrow> string" where
  "lstrip s = dropWhile py_space s"

definition rstrip :: "string \<Rightarrow> string" where
  "rstrip s = rev (dropWhile py_space (rev s))"

definition strip :: "string \<Rightarrow> string" where
  "strip s = rstrip (lstrip s)"

fun starts_with :: "'a list \<Rightarrow> 'a list \<Rightarrow> bool" where
  "starts_with s [] = True"
| "starts_with [] (p # ps) = False"
| "starts_with (c # cs) (p # ps) = (c = p \<and> starts_with cs ps)"

text \<open>\<open>s.split(needle, 1)\<close>: the text before and after the first occurrence, if there is one.\<close>

fun split_first :: "'a list \<Rightarrow> 'a list \<Rightarrow> ('a list \<times> 'a list) option" where
  "split_first needle [] = (if needle = [] then Some ([], []) else None)"
| "split_first needle (c # cs) =
     (if starts_with (c # cs) needle then Some ([], drop (length needle) (c # cs))
      else map_option (\<lambda>(a, b). (c # a, b)) (split_first needle cs))"

definition contains :: "'a list \<Rightarrow> 'a list \<Rightarrow> bool" where
  "contains hay needle \<longleftrightarrow> split_first needle hay \<noteq> None"

fun split_on :: "char \<Rightarrow> string \<Rightarrow> string list" where
  "split_on sep [] = [[]]"
| "split_on sep (c # cs) =
     (if c = sep then [] # split_on sep cs
      else (case split_on sep cs of [] \<Rightarrow> [[c]] | w # ws \<Rightarrow> (c # w) # ws))"

fun join :: "string \<Rightarrow> string list \<Rightarrow> string" where
  "join sep [] = []"
| "join sep [w] = w"
| "join sep (w # v # ws) = w @ sep @ join sep (v # ws)"

definition replace_char :: "char \<Rightarrow> string \<Rightarrow> string \<Rightarrow> string" where
  "replace_char c r s = concat (map (\<lambda>x. if x = c then r else [x]) s)"

fun nat_str :: "nat \<Rightarrow> string" where
  "nat_str n = (if n < 10 then [char_of (48 + n)]
                else nat_str (n div 10) @ [char_of (48 + n mod 10)])"

declare nat_str.simps [simp del]

definition int_str :: "int \<Rightarrow> string" where
  "int_str i = (if i < 0 then ''-'' @ nat_str (nat (- i)) else nat_str (nat i))"

text \<open>The UTF-8 encoding of a text, a byte being a character below 256, and its length.\<close>

definition utf8 :: "string \<Rightarrow> string" where
  "utf8 s = concat (map (\<lambda>c. let n = of_char c :: nat in
     if n < 128 then [c] else [char_of (192 + n div 64), char_of (128 + n mod 64)]) s)"

definition utf8_len :: "string \<Rightarrow> nat" where
  "utf8_len s = length (utf8 s)"

lemma starts_with_iff: "starts_with s p \<longleftrightarrow> (\<exists>t. s = p @ t)"
  by (induction s p rule: starts_with.induct) auto

lemma starts_with_append [simp]: "starts_with (p @ t) p"
  by (auto simp: starts_with_iff)

lemma starts_with_take: "starts_with s p \<longleftrightarrow> take (length p) s = p"
  by (auto simp: starts_with_iff) (metis append_take_drop_id)

lemma split_first_Some:
  "split_first needle s = Some (a, b) \<Longrightarrow> s = a @ needle @ b"
proof (induction s arbitrary: a)
  case Nil
  then show ?case by (auto split: if_splits)
next
  case (Cons c cs)
  show ?case
  proof (cases "starts_with (c # cs) needle")
    case True
    then obtain t where t: "c # cs = needle @ t" by (auto simp: starts_with_iff)
    from True Cons.prems have "a = []" "b = drop (length needle) (c # cs)" by auto
    with t show ?thesis by simp
  next
    case False
    with Cons show ?thesis by auto
  qed
qed

lemma split_first_None_iff: "split_first needle s = None \<longleftrightarrow> (\<nexists>a b. s = a @ needle @ b)"
proof (induction s)
  case Nil
  then show ?case by auto
next
  case (Cons c cs)
  show ?case
  proof (cases "starts_with (c # cs) needle")
    case True
    then show ?thesis by (auto simp: starts_with_iff) (metis append_Nil)
  next
    case False
    have "(\<exists>a b. c # cs = a @ needle @ b) \<longleftrightarrow> (\<exists>a b. cs = a @ needle @ b)"
      using False by (auto simp: starts_with_iff Cons_eq_append_conv)
    with False Cons.IH show ?thesis by simp
  qed
qed

lemma contains_iff: "contains s needle \<longleftrightarrow> (\<exists>a b. s = a @ needle @ b)"
  by (simp add: contains_def split_first_None_iff)

text \<open>
  Where a needle ends in a marker that the text before it lacks in every overlapping
  position, the first occurrence is the one that was inserted.
\<close>

lemma split_first_insert:
  assumes "\<And>k. k < length a \<Longrightarrow> \<not> starts_with (drop k (a @ needle @ b)) needle"
  shows "split_first needle (a @ needle @ b) = Some (a, b)"
  using assms
proof (induction a)
  case Nil
  show ?case
  proof (cases "needle @ b")
    case Nil
    then show ?thesis by simp
  next
    case (Cons c cs)
    then have "starts_with (c # cs) needle" and "drop (length needle) (c # cs) = b"
      by (metis starts_with_append) (metis append_eq_conv_conj Cons)
    with Cons show ?thesis by simp
  qed
next
  case (Cons c a)
  have "\<not> starts_with ((c # a) @ needle @ b) needle"
    using Cons.prems[of 0] by simp
  moreover have "split_first needle (a @ needle @ b) = Some (a, b)"
    using Cons.prems[of "Suc _"] by (intro Cons.IH) auto
  ultimately show ?case by simp
qed

lemma rstrip_prefix: "\<exists>t. s = rstrip s @ t"
  by (metis rev_append rev_rev_ident rstrip_def takeWhile_dropWhile_id)

lemma strip_ends:
  assumes "strip s \<noteq> []"
  shows "\<not> py_space (hd (strip s))" and "\<not> py_space (last (strip s))"
proof -
  obtain t where t: "lstrip s = strip s @ t"
    using rstrip_prefix[of "lstrip s"] by (auto simp: strip_def)
  with assms have "hd (strip s) = hd (lstrip s)" and "lstrip s \<noteq> []"
    by (auto simp: hd_append2)
  then show "\<not> py_space (hd (strip s))"
    by (metis hd_dropWhile lstrip_def)
  from assms show "\<not> py_space (last (strip s))"
    by (simp add: strip_def rstrip_def last_rev hd_dropWhile)
qed

lemma strip_fixed:
  assumes "\<not> py_space (hd t)" and "\<not> py_space (last t)"
  shows "strip t = t"
proof (cases t)
  case Nil
  then show ?thesis by (simp add: strip_def lstrip_def rstrip_def)
next
  case (Cons c cs)
  with assms have l: "lstrip t = t" by (simp add: lstrip_def)
  from Cons have "rev t \<noteq> []" by simp
  then obtain d ds where d: "rev t = d # ds" by (cases "rev t") auto
  then have "d = last t" using Cons by (metis last_rev list.sel(1) rev_rev_ident rev_is_Nil_conv)
  with assms(2) have "dropWhile py_space (d # ds) = d # ds" by simp
  then have "dropWhile py_space (rev t) = rev t" by (simp only: d)
  with l show ?thesis by (simp add: strip_def rstrip_def)
qed

lemma strip_idem [simp]: "strip (strip s) = strip s"
proof (cases "strip s = []")
  case True
  have "strip [] = []" by (simp add: strip_def lstrip_def rstrip_def)
  with True show ?thesis by simp
next
  case False
  then show ?thesis by (simp add: strip_fixed strip_ends)
qed

lemma split_on_nonempty [simp]: "split_on sep s \<noteq> []"
  by (induction s) (auto split: list.splits)

lemma join_split_on: "join [sep] (split_on sep s) = s"
proof (induction s)
  case Nil
  show ?case by simp
next
  case (Cons c cs)
  obtain w ws where ws: "split_on sep cs = w # ws" by (cases "split_on sep cs") auto
  with Cons show ?case by (cases ws) auto
qed

lemma nat_str_nonempty [simp]: "nat_str n \<noteq> []"
  by (subst nat_str.simps) simp

lemma nat_str_digits: "c \<in> set (nat_str n) \<Longrightarrow> 48 \<le> (of_char c :: nat) \<and> (of_char c :: nat) \<le> 57"
proof (induction n rule: nat_str.induct)
  case (1 n)
  have "(of_char (char_of (48 + k :: nat)) :: nat) = 48 + k" if "k < 10" for k
    using that by (simp add: of_char_of)
  with 1 show ?case
    by (subst (asm) nat_str.simps) (auto split: if_splits)
qed

lemma int_str_clean: "int_str i \<noteq> []" "NUL \<notin> set (int_str i)"
proof -
  show "int_str i \<noteq> []" by (simp add: int_str_def)
  have "NUL \<notin> set (nat_str n)" for n
    using nat_str_digits[of NUL n] by (auto simp: NUL_def)
  then show "NUL \<notin> set (int_str i)" by (simp add: int_str_def NUL_def)
qed

section \<open>Dictionaries\<close>

type_synonym ('k, 'v) dict = "('k \<times> 'v) list"

fun dict_set :: "'k \<Rightarrow> 'v \<Rightarrow> ('k, 'v) dict \<Rightarrow> ('k, 'v) dict" where
  "dict_set k v [] = [(k, v)]"
| "dict_set k v ((k', v') # d) = (if k = k' then (k, v) # d else (k', v') # dict_set k v d)"

definition dict_update :: "('k, 'v) dict \<Rightarrow> ('k, 'v) dict \<Rightarrow> ('k, 'v) dict" where
  "dict_update d e = foldl (\<lambda>acc (k, v). dict_set k v acc) d e"

definition dict_pop :: "'k \<Rightarrow> ('k, 'v) dict \<Rightarrow> ('k, 'v) dict" where
  "dict_pop k d = filter (\<lambda>p. fst p \<noteq> k) d"

definition dict_has :: "'k \<Rightarrow> ('k, 'v) dict \<Rightarrow> bool" where
  "dict_has k d \<longleftrightarrow> k \<in> fst ` set d"

lemma map_of_dict_set: "map_of (dict_set k v d) = (map_of d)(k \<mapsto> v)"
  by (induction k v d rule: dict_set.induct) (auto simp: fun_eq_iff)

lemma dict_set_keys [simp]: "fst ` set (dict_set k v d) = insert k (fst ` set d)"
  by (induction k v d rule: dict_set.induct) (auto simp: insert_commute)

lemma distinct_dict_set [simp]:
  "distinct (map fst (dict_set k v d)) \<longleftrightarrow> distinct (map fst d)"
  by (induction k v d rule: dict_set.induct) auto

lemma dict_update_simps [simp]:
  "dict_update d [] = d"
  "dict_update d ((k, v) # e) = dict_update (dict_set k v d) e"
  by (simp_all add: dict_update_def)

lemma map_of_dict_update:
  "distinct (map fst e) \<Longrightarrow> map_of (dict_update d e) = map_of d ++ map_of e"
proof (induction e arbitrary: d)
  case Nil
  show ?case by simp
next
  case (Cons p e)
  obtain k v where p: "p = (k, v)" by (cases p)
  with Cons.prems have "map_of e k = None" by (simp add: map_of_eq_None_iff)
  with Cons p show ?case by (auto simp: map_of_dict_set fun_eq_iff map_add_def split: option.splits)
qed

lemma map_of_rev_distinct: "distinct (map fst d) \<Longrightarrow> map_of (rev d) = map_of d"
  by (simp add: map_of_inject_set rev_map[symmetric])

lemma map_of_dict_pop: "map_of (dict_pop k d) = (map_of d)(k := None)"
  by (induction d) (auto simp: dict_pop_def fun_eq_iff)

lemma dict_has_iff: "dict_has k d \<longleftrightarrow> map_of d k \<noteq> None"
  by (simp add: dict_has_def map_of_eq_None_iff)

section \<open>JSON values\<close>

datatype json =
    JNull
  | JBool bool
  | JInt int
  | JFloat string
  | JStr string
  | JList "json list"
  | JObj "(string \<times> json) list"

type_synonym jdict = "(string, json) dict"

fun truthy :: "json \<Rightarrow> bool" where
  "truthy JNull = False"
| "truthy (JBool b) = b"
| "truthy (JInt i) = (i \<noteq> 0)"
| "truthy (JFloat r) = (r \<noteq> ''0.0'' \<and> r \<noteq> ''-0.0'')"
| "truthy (JStr s) = (s \<noteq> [])"
| "truthy (JList xs) = (xs \<noteq> [])"
| "truthy (JObj d) = (d \<noteq> [])"

definition jget :: "string \<Rightarrow> jdict \<Rightarrow> json \<Rightarrow> json" where
  "jget k d dflt = (case map_of d k of Some v \<Rightarrow> v | None \<Rightarrow> dflt)"

definition as_obj :: "json \<Rightarrow> jdict option" where
  "as_obj j = (case j of JObj d \<Rightarrow> Some d | _ \<Rightarrow> None)"

definition as_str :: "json \<Rightarrow> string option" where
  "as_str j = (case j of JStr s \<Rightarrow> Some s | _ \<Rightarrow> None)"

definition as_list :: "json \<Rightarrow> json list" where
  "as_list j = (case j of JList xs \<Rightarrow> xs | _ \<Rightarrow> [])"

lemma as_simps [simp]:
  "as_str (JStr s) = Some s" "as_list (JList xs) = xs" "as_obj (JObj d) = Some d"
  by (simp_all add: as_str_def as_list_def as_obj_def)

text \<open>Python's \<open>repr\<close> and \<open>str\<close> of the values that JSON decodes to.\<close>

definition hex_digit :: "nat \<Rightarrow> char" where
  "hex_digit n = (if n < 10 then char_of (48 + n) else char_of (87 + n))"

definition repr_char :: "char \<Rightarrow> char \<Rightarrow> string" where
  "repr_char q c = (let n = of_char c :: nat in
     if c = q \<or> c = BACKSLASH then [BACKSLASH, c]
     else if n = 10 then [BACKSLASH, CHR ''n'']
     else if n = 13 then [BACKSLASH, CHR ''r'']
     else if n = 9 then [BACKSLASH, CHR ''t'']
     else if n < 32 \<or> (127 \<le> n \<and> n \<le> 160) \<or> n = 173
       then [BACKSLASH, CHR ''x'', hex_digit (n div 16), hex_digit (n mod 16)]
     else [c])"

definition repr_str :: "string \<Rightarrow> string" where
  "repr_str s = (let q = (if SQ \<in> set s \<and> DQ \<notin> set s then DQ else SQ)
                 in [q] @ concat (map (repr_char q) s) @ [q])"

fun py_repr :: "json \<Rightarrow> string"
  and py_repr_items :: "(string \<times> json) list \<Rightarrow> string list"
  and py_repr_list :: "json list \<Rightarrow> string list" where
  "py_repr JNull = ''None''"
| "py_repr (JBool b) = (if b then ''True'' else ''False'')"
| "py_repr (JInt i) = int_str i"
| "py_repr (JFloat r) = r"
| "py_repr (JStr s) = repr_str s"
| "py_repr (JList xs) = ''['' @ join '', '' (py_repr_list xs) @ '']''"
| "py_repr (JObj d) = ''{'' @ join '', '' (py_repr_items d) @ ''}''"
| "py_repr_items [] = []"
| "py_repr_items ((k, v) # d) = (repr_str k @ '': '' @ py_repr v) # py_repr_items d"
| "py_repr_list [] = []"
| "py_repr_list (x # xs) = py_repr x # py_repr_list xs"

definition py_str :: "json \<Rightarrow> string" where
  "py_str j = (case j of JStr s \<Rightarrow> s | _ \<Rightarrow> py_repr j)"

lemma py_str_JStr [simp]: "py_str (JStr s) = s"
  by (simp add: py_str_def)

section \<open>Paths\<close>

text \<open>
  A \<open>pathlib.PurePosixPath\<close>: its root (empty, one slash, or exactly two leading slashes)
  and its parts without empty and dot components. Symbolic links are resolved by the
  operating system: \<open>Path.resolve\<close> is a parameter of the definitions that call it.
\<close>

datatype ppath = PPath (root_of: string) (parts_of: "string list")

definition parse_path :: "string \<Rightarrow> ppath" where
  "parse_path s =
     PPath (if starts_with s ''//'' \<and> \<not> starts_with s ''///'' then ''//''
            else if starts_with s ''/'' then ''/'' else [])
           (filter (\<lambda>p. p \<noteq> [] \<and> p \<noteq> ''.'') (split_on (CHR ''/'') s))"

definition path_str :: "ppath \<Rightarrow> string" where
  "path_str p = (if root_of p = [] \<and> parts_of p = [] then ''.''
                 else root_of p @ join ''/'' (parts_of p))"

definition is_absolute :: "ppath \<Rightarrow> bool" where
  "is_absolute p \<longleftrightarrow> root_of p \<noteq> []"

definition path_join :: "ppath \<Rightarrow> ppath \<Rightarrow> ppath" where
  "path_join p q = (if is_absolute q then q else PPath (root_of p) (parts_of p @ parts_of q))"

definition path_name :: "ppath \<Rightarrow> string" where
  "path_name p = (if parts_of p = [] then [] else last (parts_of p))"

lemma path_join_absolute: "is_absolute p \<Longrightarrow> is_absolute (path_join p q)"
  by (auto simp: path_join_def is_absolute_def)

section \<open>Lists\<close>

lemma sorted_list_filter: "sorted (map f xs) \<Longrightarrow> sorted (map f (filter P xs))"
  by (induction xs) auto

lemma find_append: "find P (xs @ ys) = (case find P xs of Some x \<Rightarrow> Some x | None \<Rightarrow> find P ys)"
  by (induction xs) auto

lemma find_key: "distinct (map k xs) \<Longrightarrow> x \<in> set xs \<Longrightarrow> find (\<lambda>y. k y = k x) xs = Some x"
  by (induction xs) auto

lemma filter_all_eq: "(\<And>x. x \<in> set xs \<Longrightarrow> P x) \<Longrightarrow> filter P xs = xs"
  by (induction xs) auto

lemma sort_key_sorted_id: "sorted (map f xs) \<Longrightarrow> sort_key f xs = xs"
  by (induction xs) (auto simp: insort_is_Cons)

text \<open>
  Keyset pagination: a listing in the strict order \<open>before\<close> of its keys, read page by page, each
  page starting after the last key of the one before. The client remembers one key. Two clients:
  one takes a short page for the last one, the other asks for one item more than it shows and
  goes on while that item is there.
\<close>

locale keyset_pages =
  fixes before :: "'k \<Rightarrow> 'k \<Rightarrow> bool"
    and key :: "'a \<Rightarrow> 'k"
    and items :: "'a list"
    and page :: "'k option \<Rightarrow> 'a list"
    and page_size :: nat
  assumes strict: "before x y \<Longrightarrow> \<not> before y x"
    and page_size: "0 < page_size"
    and first_page: "page None = take page_size items"
    and page_after: "page (Some k) = take page_size (filter (\<lambda>x. before k (key x)) items)"
begin

definition cursor :: "'a list \<Rightarrow> 'k option" where
  "cursor seen = (if seen = [] then None else Some (key (last seen)))"

primrec read_all :: "nat \<Rightarrow> 'k option \<Rightarrow> 'a list option" where
  "read_all 0 c = None"
| "read_all (Suc fuel) c =
     (if length (page c) < page_size then Some (page c)
      else map_option ((@) (page c)) (read_all fuel (Some (key (last (page c))))))"

primrec peek_all :: "nat \<Rightarrow> 'k option \<Rightarrow> 'a list option" where
  "peek_all 0 c = None"
| "peek_all (Suc fuel) c =
     (if length (page c) < page_size then Some (page c)
      else map_option ((@) (butlast (page c))) (peek_all fuel (Some (key (last (butlast (page c)))))))"

lemma after_last_seen:
  assumes "sorted_wrt before (map key (seen @ rest))" and "seen \<noteq> []"
  shows "filter (\<lambda>x. before (key (last seen)) (key x)) (seen @ rest) = rest"
proof -
  obtain front x where seen: "seen = front @ [x]" using assms(2) by (cases seen rule: rev_cases) auto
  have "\<not> before (key x) (key y)" if "y \<in> set seen" for y
    using assms(1) that strict by (auto simp: seen sorted_wrt_append)
  moreover have "before (key x) (key y)" if "y \<in> set rest" for y
    using assms(1) that by (simp add: seen sorted_wrt_append)
  ultimately show ?thesis by (simp add: seen filter_all_eq)
qed

lemma page_cursor:
  assumes "sorted_wrt before (map key items)" and "items = seen @ rest"
  shows "page (cursor seen) = take page_size rest"
proof (cases "seen = []")
  case True
  with assms(2) show ?thesis by (simp add: cursor_def first_page)
next
  case False
  with assms have "filter (\<lambda>x. before (key (last seen)) (key x)) items = rest"
    using after_last_seen by simp
  with False show ?thesis by (simp add: cursor_def page_after)
qed

theorem read_all_complete:
  assumes "sorted_wrt before (map key items)" and "items = seen @ rest" and "length rest < fuel"
  shows "read_all fuel (cursor seen) = Some rest"
  using assms(2,3)
proof (induction fuel arbitrary: seen rest)
  case (Suc fuel)
  note p = page_cursor[OF assms(1) Suc.prems(1)]
  show ?case
  proof (cases "length rest < page_size")
    case True
    then show ?thesis by (simp add: p)
  next
    case False
    have ne: "take page_size rest \<noteq> []" using False page_size by auto
    then have "cursor (seen @ take page_size rest) = Some (key (last (take page_size rest)))"
      by (simp add: cursor_def)
    moreover have "read_all fuel (cursor (seen @ take page_size rest)) = Some (drop page_size rest)"
      using Suc.prems False page_size by (intro Suc.IH) auto
    ultimately show ?thesis using False by (simp add: p)
  qed
qed simp

theorem peek_all_complete:
  assumes "sorted_wrt before (map key items)" and "1 < page_size" and "items = seen @ rest" and "length rest < fuel"
  shows "peek_all fuel (cursor seen) = Some rest"
  using assms(3,4)
proof (induction fuel arbitrary: seen rest)
  case (Suc fuel)
  note p = page_cursor[OF assms(1) Suc.prems(1)]
  show ?case
  proof (cases "length rest < page_size")
    case True
    then show ?thesis by (simp add: p)
  next
    case False
    define n where "n = page_size - 1"
    have n: "0 < n" "butlast (take page_size rest) = take n rest"
      using assms(2) False by (simp_all add: n_def butlast_take)
    have "take n rest \<noteq> []" using n(1) False page_size by auto
    then have "cursor (seen @ take n rest) = Some (key (last (take n rest)))" by (simp add: cursor_def)
    moreover have "peek_all fuel (cursor (seen @ take n rest)) = Some (drop n rest)"
    proof (rule Suc.IH)
      show "items = (seen @ take n rest) @ drop n rest" using Suc.prems(1) by simp
      have "rest \<noteq> []" using False page_size by auto
      then have "length (drop n rest) < length rest" using n(1) by simp
      then show "length (drop n rest) < fuel" using Suc.prems(2) by simp
    qed
    ultimately show ?thesis using False by (simp add: p n(2))
  qed
qed simp

end

end
