(* ===== verification/LF_Variables.thy ===== *)
theory LF_Variables
  imports LF_Prelude
begin

text \<open>
  Variable interpolation, \<^verbatim>\<open>src/src/localflow/variables.py\<close>: the flattening of nested layers,
  the references \<open>${name}\<close>, and \<open>VariableResolver\<close> with its memo table and its cycle check.
  The resolver is defined with the memo table threaded through, as the code does it, and
  is shown equal to a reference definition without one.
\<close>

section \<open>References\<close>

definition ref_start :: "char \<Rightarrow> bool" where
  "ref_start c \<longleftrightarrow> (let n = of_char c :: nat in
     (65 \<le> n \<and> n \<le> 90) \<or> (97 \<le> n \<and> n \<le> 122) \<or> n = 95)"

definition ref_char :: "char \<Rightarrow> bool" where
  "ref_char c \<longleftrightarrow> (let n = of_char c :: nat in
     ref_start c \<or> (48 \<le> n \<and> n \<le> 57) \<or> n = 46 \<or> n = 45)"

text \<open>
  A match of the pattern at the beginning of the text: the name and the text after it. The
  characters of a name exclude the closing brace, so the greedy repetition takes the longest
  run of them and never gives any back.
\<close>

definition match_ref :: "string \<Rightarrow> (string \<times> string) option" where
  "match_ref s =
     (if starts_with s ''${'' then
        (let rest = drop 2 s;
             name = takeWhile ref_char rest;
             after = dropWhile ref_char rest
         in if name \<noteq> [] \<and> ref_start (hd name) \<and> starts_with after ''}''
            then Some (name, tl after) else None)
      else None)"

lemma match_ref_shorter: "match_ref s = Some (name, after) \<Longrightarrow> length after < length s"
proof -
  assume a: "match_ref s = Some (name, after)"
  let ?rest = "drop 2 s"
  from a have "starts_with s ''${''" and after: "after = tl (dropWhile ref_char ?rest)"
    by (auto simp: match_ref_def Let_def split: if_splits)
  then have "2 \<le> length s" by (auto simp: starts_with_iff)
  moreover have "length after \<le> length ?rest"
    using after length_dropWhile_le[of ref_char ?rest] by simp
  ultimately show ?thesis by simp
qed

lemma match_ref_suffix: "match_ref s = Some (name, after) \<Longrightarrow> set after \<subseteq> set s"
  unfolding match_ref_def Let_def
  by (auto split: if_splits dest!: list.set_sel(2)[rotated] set_dropWhileD in_set_dropD)

text \<open>\<open>REFERENCE.fullmatch\<close>.\<close>

definition full_ref :: "string \<Rightarrow> string option" where
  "full_ref s = (case match_ref s of Some (name, []) \<Rightarrow> Some name | _ \<Rightarrow> None)"

text \<open>\<open>REFERENCE.finditer\<close>: the names, left to right, not overlapping.\<close>

function ref_names :: "string \<Rightarrow> string list" where
  "ref_names s = (case match_ref s of
       Some (name, after) \<Rightarrow> name # ref_names after
     | None \<Rightarrow> (case s of [] \<Rightarrow> [] | c # cs \<Rightarrow> ref_names cs))"
  by pat_completeness auto
termination
  by (relation "measure length") (auto dest: match_ref_shorter)

declare ref_names.simps [simp del]

section \<open>Flattening\<close>

fun flatten :: "jdict \<Rightarrow> string \<Rightarrow> jdict" where
  "flatten [] prefix = []"
| "flatten ((key, item) # d) prefix =
     (let path = (if prefix = [] then key else prefix @ ''.'' @ key);
          here = (path, item) # (case item of JObj e \<Rightarrow> flatten e path | _ \<Rightarrow> [])
      in here @ flatten d prefix)"

text \<open>The entries in the order they are assigned; a later assignment to the same path wins.\<close>

definition layer_values :: "jdict \<Rightarrow> jdict" where
  "layer_values layer = dict_update [] (flatten layer [])"

record resolver =
  rv_values :: jdict
  rv_sources :: "(string, string) dict"
  rv_deferred :: "string list"

definition new_resolver :: "(string \<times> jdict) list \<Rightarrow> string list \<Rightarrow> resolver" where
  "new_resolver layers deferred =
     foldl (\<lambda>r (layer_name, layer).
        foldl (\<lambda>r (key, v). r\<lparr>rv_values := dict_set key v (rv_values r),
                               rv_sources := dict_set key layer_name (rv_sources r)\<rparr>)
          r (layer_values layer))
      \<lparr>rv_values = [], rv_sources = [], rv_deferred = deferred\<rparr> layers"

section \<open>Resolution without the memo table\<close>

text \<open>
  The traversal of a value, for any way of looking a variable up. The replacement of the
  references inside a text raises at the first one that fails.
\<close>

function sub_refs :: "(string \<Rightarrow> json result) \<Rightarrow> string \<Rightarrow> string result" where
  "sub_refs var s = (case match_ref s of
       Some (name, after) \<Rightarrow>
         bindR (var name) (\<lambda>v.
           case v of
             JObj _ \<Rightarrow> Inl (VariableError (''structured variable cannot be embedded in text: '' @ name))
           | JList _ \<Rightarrow> Inl (VariableError (''structured variable cannot be embedded in text: '' @ name))
           | _ \<Rightarrow> bindR (sub_refs var after) (\<lambda>rest. Inr (py_str v @ rest)))
     | None \<Rightarrow> (case s of [] \<Rightarrow> Inr []
                | c # cs \<Rightarrow> bindR (sub_refs var cs) (\<lambda>rest. Inr (c # rest))))"
  by pat_completeness auto
termination
  by (relation "measure (\<lambda>(var, s). length s)") (auto dest: match_ref_shorter)

declare sub_refs.simps [simp del]

definition resolve_str :: "(string \<Rightarrow> json result) \<Rightarrow> string \<Rightarrow> json result" where
  "resolve_str var s = (case full_ref s of
       Some name \<Rightarrow> var name
     | None \<Rightarrow> bindR (sub_refs var s) (\<lambda>t. Inr (JStr t)))"

fun resolve_with :: "(string \<Rightarrow> json result) \<Rightarrow> json \<Rightarrow> json result"
  and resolve_items :: "(string \<Rightarrow> json result) \<Rightarrow> jdict \<Rightarrow> jdict result"
  and resolve_list :: "(string \<Rightarrow> json result) \<Rightarrow> json list \<Rightarrow> json list result" where
  "resolve_with var (JObj d) = bindR (resolve_items var d) (\<lambda>e. Inr (JObj e))"
| "resolve_with var (JList xs) = bindR (resolve_list var xs) (\<lambda>ys. Inr (JList ys))"
| "resolve_with var (JStr s) = resolve_str var s"
| "resolve_with var v = Inr v"
| "resolve_items var [] = Inr []"
| "resolve_items var ((k, v) # d) =
     bindR (resolve_with var v) (\<lambda>w. bindR (resolve_items var d) (\<lambda>e. Inr ((k, w) # e)))"
| "resolve_list var [] = Inr []"
| "resolve_list var (x # xs) =
     bindR (resolve_with var x) (\<lambda>y. bindR (resolve_list var xs) (\<lambda>ys. Inr (y # ys)))"

definition unresolved :: "jdict \<Rightarrow> string list \<Rightarrow> nat" where
  "unresolved values stack = card (fst ` set values - set stack)"

lemma unresolved_less:
  assumes "map_of values name = Some v" and "name \<notin> set stack"
  shows "unresolved values (stack @ [name]) < unresolved values stack"
proof -
  have "name \<in> fst ` set values" using assms(1) by (force dest: map_of_SomeD)
  with assms(2) have "fst ` set values - set (stack @ [name]) \<subset> fst ` set values - set stack"
    by auto
  then show ?thesis unfolding unresolved_def by (intro psubset_card_mono) auto
qed

function pure_variable :: "jdict \<Rightarrow> string list \<Rightarrow> string list \<Rightarrow> string \<Rightarrow> json result" where
  "pure_variable values deferred stack name =
     (if name \<in> set deferred then Inr (JStr (''${'' @ name @ ''}''))
      else if name \<in> set stack
      then Inl (VariableError (''variable cycle: '' @ join '' -> '' (stack @ [name])))
      else (case map_of values name of
              None \<Rightarrow> Inl (VariableError (''unknown variable: '' @ name))
            | Some v \<Rightarrow> resolve_with (\<lambda>n. pure_variable values deferred (stack @ [name]) n) v))"
  by pat_completeness auto
termination
  by (relation "measure (\<lambda>(values, deferred, stack, name). unresolved values stack)")
    (auto intro: unresolved_less)

declare pure_variable.simps [simp del]

definition pure_resolve :: "jdict \<Rightarrow> string list \<Rightarrow> json \<Rightarrow> json result" where
  "pure_resolve values deferred v = resolve_with (pure_variable values deferred []) v"

section \<open>Resolution with the memo table\<close>

function sub_refs_c :: "(string \<Rightarrow> (jdict, json) op) \<Rightarrow> string \<Rightarrow> (jdict, string) op" where
  "sub_refs_c var s cache = (case match_ref s of
       Some (name, after) \<Rightarrow>
         bindS (var name) (\<lambda>v.
           case v of
             JObj _ \<Rightarrow> failS (VariableError (''structured variable cannot be embedded in text: '' @ name))
           | JList _ \<Rightarrow> failS (VariableError (''structured variable cannot be embedded in text: '' @ name))
           | _ \<Rightarrow> bindS (sub_refs_c var after) (\<lambda>rest. retS (py_str v @ rest))) cache
     | None \<Rightarrow> (case s of [] \<Rightarrow> retS [] cache
                | c # cs \<Rightarrow> bindS (sub_refs_c var cs) (\<lambda>rest. retS (c # rest)) cache))"
  by pat_completeness auto
termination
  by (relation "measure (\<lambda>(var, s, cache). length s)") (auto dest: match_ref_shorter)

declare sub_refs_c.simps [simp del]

definition resolve_str_c :: "(string \<Rightarrow> (jdict, json) op) \<Rightarrow> string \<Rightarrow> (jdict, json) op" where
  "resolve_str_c var s = (case full_ref s of
       Some name \<Rightarrow> var name
     | None \<Rightarrow> bindS (sub_refs_c var s) (\<lambda>t. retS (JStr t)))"

fun resolve_c :: "(string \<Rightarrow> (jdict, json) op) \<Rightarrow> json \<Rightarrow> (jdict, json) op"
  and resolve_items_c :: "(string \<Rightarrow> (jdict, json) op) \<Rightarrow> jdict \<Rightarrow> (jdict, jdict) op"
  and resolve_list_c :: "(string \<Rightarrow> (jdict, json) op) \<Rightarrow> json list \<Rightarrow> (jdict, json list) op" where
  "resolve_c var (JObj d) cache = bindS (resolve_items_c var d) (\<lambda>e. retS (JObj e)) cache"
| "resolve_c var (JList xs) cache = bindS (resolve_list_c var xs) (\<lambda>ys. retS (JList ys)) cache"
| "resolve_c var (JStr s) cache = resolve_str_c var s cache"
| "resolve_c var v cache = retS v cache"
| "resolve_items_c var [] cache = retS [] cache"
| "resolve_items_c var ((k, v) # d) cache =
     bindS (resolve_c var v) (\<lambda>w. bindS (resolve_items_c var d) (\<lambda>e. retS ((k, w) # e))) cache"
| "resolve_list_c var [] cache = retS [] cache"
| "resolve_list_c var (x # xs) cache =
     bindS (resolve_c var x) (\<lambda>y. bindS (resolve_list_c var xs) (\<lambda>ys. retS (y # ys))) cache"

function variable :: "jdict \<Rightarrow> string list \<Rightarrow> string list \<Rightarrow> string \<Rightarrow> (jdict, json) op" where
  "variable values deferred stack name cache =
     (case map_of cache name of
        Some v \<Rightarrow> (Inr v, cache)
      | None \<Rightarrow>
          if name \<in> set deferred then (Inr (JStr (''${'' @ name @ ''}'')), cache)
          else if name \<in> set stack
          then (Inl (VariableError (''variable cycle: '' @ join '' -> '' (stack @ [name]))), cache)
          else (case map_of values name of
                  None \<Rightarrow> (Inl (VariableError (''unknown variable: '' @ name)), cache)
                | Some v \<Rightarrow>
                    bindS (resolve_c (\<lambda>n. variable values deferred (stack @ [name]) n) v)
                      (\<lambda>resolved cache. (Inr resolved, dict_set name resolved cache)) cache))"
  by pat_completeness auto
termination
  by (relation "measure (\<lambda>(values, deferred, stack, name, cache). unresolved values stack)")
    (auto intro: unresolved_less)

declare variable.simps [simp del]

text \<open>\<open>VariableResolver.resolve\<close> at the top level, starting from the memo table left by earlier calls.\<close>

definition resolve :: "resolver \<Rightarrow> json \<Rightarrow> (jdict, json) op" where
  "resolve r v = resolve_c (variable (rv_values r) (rv_deferred r) []) v"

text \<open>\<open>VariableResolver.resolution\<close>: the value, and the layer each mentioned variable came from.\<close>

definition resolution :: "resolver \<Rightarrow> json \<Rightarrow> (jdict, json \<times> (string, string) dict) op" where
  "resolution r v =
     bindS (resolve r v) (\<lambda>resolved.
       retS (resolved, filter (\<lambda>(name, _). name \<in> set (ref_names (py_str v))) (rv_sources r)))"

section \<open>The memo table changes nothing\<close>

text \<open>
  A lookup with a memo table meets a specification when its answers are those of the
  specification, it keeps the table's invariant, and the table afterwards knows the answer.
  Then the traversal of a whole value does so too.
\<close>

locale memo_lookup =
  fixes inv :: "jdict \<Rightarrow> bool"
    and look :: "jdict \<Rightarrow> string \<Rightarrow> json result"
    and var :: "string \<Rightarrow> (jdict, json) op"
    and spec :: "string \<Rightarrow> json result"
  assumes var_spec: "inv c \<Longrightarrow> fst (var n c) = spec n"
    and var_inv: "inv c \<Longrightarrow> inv (snd (var n c))"
    and var_look: "inv c \<Longrightarrow> fst (var n c) = Inr v \<Longrightarrow> look (snd (var n c)) n = Inr v"
    and var_grow: "inv c \<Longrightarrow> look c m = Inr u \<Longrightarrow> look (snd (var n c)) m = Inr u"
begin

text \<open>What a traversal \<open>f\<close> with the table shares with the traversals \<open>g\<close> of a pure lookup.\<close>

definition simulates :: "(jdict, 'a) op \<Rightarrow> ((string \<Rightarrow> json result) \<Rightarrow> 'a result) \<Rightarrow> bool" where
  "simulates f g \<longleftrightarrow> (\<forall>c. inv c \<longrightarrow>
     fst (f c) = g spec \<and> inv (snd (f c)) \<and>
     (\<forall>v. fst (f c) = Inr v \<longrightarrow> g (look (snd (f c))) = Inr v) \<and>
     (\<forall>m u. look c m = Inr u \<longrightarrow> look (snd (f c)) m = Inr u))"

lemma simulates_var: "simulates (var n) (\<lambda>l. l n)"
  using var_spec var_inv var_look var_grow by (simp add: simulates_def)

lemma simulates_ret: "simulates (retS a) (\<lambda>_. Inr a)"
  by (simp add: simulates_def retS_def)

lemma simulates_fail: "simulates (failS e) (\<lambda>_. Inl e)"
  by (simp add: simulates_def failS_def)

definition grows :: "((string \<Rightarrow> json result) \<Rightarrow> 'a result) \<Rightarrow> bool" where
  "grows g \<longleftrightarrow> (\<forall>l l' v. (\<forall>m u. l m = Inr u \<longrightarrow> l' m = Inr u) \<longrightarrow> g l = Inr v \<longrightarrow> g l' = Inr v)"

lemma simulates_bind:
  assumes f: "simulates f g" and mono: "grows g"
    and k: "\<And>a. simulates (k a) (h a)"
  shows "simulates (bindS f k) (\<lambda>l. bindR (g l) (\<lambda>a. h a l))"
  unfolding simulates_def
proof (intro allI impI)
  fix c
  assume c: "inv c"
  obtain r d where fc: "f c = (r, d)" by (cases "f c")
  note F = f[unfolded simulates_def, rule_format, OF c, unfolded fc fst_conv snd_conv]
  show "fst (bindS f k c) = bindR (g spec) (\<lambda>a. h a spec) \<and> inv (snd (bindS f k c)) \<and>
     (\<forall>v. fst (bindS f k c) = Inr v \<longrightarrow>
        bindR (g (look (snd (bindS f k c)))) (\<lambda>a. h a (look (snd (bindS f k c)))) = Inr v) \<and>
     (\<forall>m u. look c m = Inr u \<longrightarrow> look (snd (bindS f k c)) m = Inr u)"
  proof (cases r)
    case (Inl e)
    have "bindS f k c = (Inl e, d)" using fc Inl by (simp add: bindS_def)
    moreover have "g spec = Inl e" using F Inl by simp
    ultimately show ?thesis using F by simp
  next
    case (Inr a)
    have b: "bindS f k c = k a d" using fc Inr by (simp add: bindS_def)
    from F Inr have gs: "g spec = Inr a" and d: "inv d" and gl: "g (look d) = Inr a"
      and grow: "\<And>m u. look c m = Inr u \<Longrightarrow> look d m = Inr u"
      by simp_all
    note K = k[of a, unfolded simulates_def, rule_format, OF d]
    have "g (look (snd (k a d))) = Inr a"
      using mono gl K unfolding grows_def by blast
    with K gs b grow show ?thesis by simp
  qed
qed

lemma grows_var: "grows (\<lambda>l. l n)"
  by (simp add: grows_def)

lemma grows_const: "grows (\<lambda>_. r)"
  by (simp add: grows_def)

lemma grows_bind: "grows g \<Longrightarrow> (\<And>a. grows (h a)) \<Longrightarrow> grows (\<lambda>l. bindR (g l) (\<lambda>a. h a l))"
  unfolding grows_def by (fastforce simp: bindR_Inr_iff)

lemma grows_sub_refs: "grows (\<lambda>l. sub_refs l s)"
proof (induction s rule: length_induct)
  case (1 s)
  show ?case
  proof (cases "match_ref s")
    case None
    show ?thesis
    proof (cases s)
      case Nil
      with None show ?thesis by (simp add: sub_refs.simps[of _ "[]"] grows_const)
    next
      case (Cons c cs)
      with 1 None show ?thesis
        by (auto simp: sub_refs.simps[of _ "c # cs"] intro!: grows_bind grows_const)
    qed
  next
    case (Some p)
    obtain name after where p: "p = (name, after)" by (cases p)
    with Some have "length after < length s" by (auto dest: match_ref_shorter)
    with 1 have "grows (\<lambda>l. sub_refs l after)" by blast
    then have "grows (\<lambda>l. case v of
        JObj _ \<Rightarrow> Inl (VariableError (''structured variable cannot be embedded in text: '' @ name))
      | JList _ \<Rightarrow> Inl (VariableError (''structured variable cannot be embedded in text: '' @ name))
      | _ \<Rightarrow> bindR (sub_refs l after) (\<lambda>rest. Inr (py_str v @ rest)))" for v
      by (cases v) (auto intro!: grows_bind grows_const)
    with Some p show ?thesis
      by (auto simp: sub_refs.simps[of _ s] intro!: grows_bind grows_var)
  qed
qed

lemma grows_resolve_str: "grows (\<lambda>l. resolve_str l s)"
  by (cases "full_ref s")
    (auto simp: resolve_str_def intro!: grows_var grows_bind grows_sub_refs grows_const)

lemma grows_resolve:
  "grows (\<lambda>l. resolve_with l v)" "grows (\<lambda>l. resolve_items l d)" "grows (\<lambda>l. resolve_list l xs)"
  by (induction v and d and xs rule: py_repr_py_repr_items_py_repr_list.induct)
    (auto intro!: grows_bind grows_const grows_resolve_str)

lemma simulates_sub_refs: "simulates (sub_refs_c var s) (\<lambda>l. sub_refs l s)"
proof (induction s rule: length_induct)
  case (1 s)
  show ?case
  proof (cases "match_ref s")
    case None
    show ?thesis
    proof (cases s)
      case Nil
      with None have "sub_refs_c var s = retS []" and "(\<lambda>l. sub_refs l s) = (\<lambda>_. Inr [])"
        by (auto simp: fun_eq_iff sub_refs_c.simps[of _ "[]"] sub_refs.simps[of _ "[]"])
      then show ?thesis by (simp add: simulates_ret)
    next
      case (Cons c cs)
      with 1 have "simulates (sub_refs_c var cs) (\<lambda>l. sub_refs l cs)" by simp
      moreover have "sub_refs_c var s = bindS (sub_refs_c var cs) (\<lambda>rest. retS (c # rest))"
        using None Cons by (simp add: fun_eq_iff sub_refs_c.simps[of _ "c # cs"])
      moreover have "(\<lambda>l. sub_refs l s) = (\<lambda>l. bindR (sub_refs l cs) (\<lambda>rest. Inr (c # rest)))"
        using None Cons by (simp add: fun_eq_iff sub_refs.simps[of _ "c # cs"])
      ultimately show ?thesis
        by (simp add: simulates_bind grows_sub_refs simulates_ret)
    qed
  next
    case (Some p)
    obtain name after where p: "p = (name, after)" by (cases p)
    with Some have "length after < length s" by (auto dest: match_ref_shorter)
    with 1 have IH: "simulates (sub_refs_c var after) (\<lambda>l. sub_refs l after)" by blast
    let ?k = "\<lambda>v. case v of
        JObj _ \<Rightarrow> failS (VariableError (''structured variable cannot be embedded in text: '' @ name))
      | JList _ \<Rightarrow> failS (VariableError (''structured variable cannot be embedded in text: '' @ name))
      | _ \<Rightarrow> bindS (sub_refs_c var after) (\<lambda>rest. retS (py_str v @ rest))"
    let ?h = "\<lambda>v l. case v of
        JObj _ \<Rightarrow> Inl (VariableError (''structured variable cannot be embedded in text: '' @ name))
      | JList _ \<Rightarrow> Inl (VariableError (''structured variable cannot be embedded in text: '' @ name))
      | _ \<Rightarrow> bindR (sub_refs l after) (\<lambda>rest. Inr (py_str v @ rest))"
    have "simulates (?k v) (?h v)" for v
      by (cases v) (simp_all add: simulates_fail simulates_bind[OF IH] grows_sub_refs simulates_ret)
    then have "simulates (bindS (var name) ?k) (\<lambda>l. bindR (l name) (\<lambda>v. ?h v l))"
      by (rule simulates_bind[OF simulates_var grows_var])
    moreover have "sub_refs_c var s = bindS (var name) ?k"
      using Some p by (simp add: fun_eq_iff sub_refs_c.simps[of _ s])
    moreover have "(\<lambda>l. sub_refs l s) = (\<lambda>l. bindR (l name) (\<lambda>v. ?h v l))"
      using Some p by (simp add: fun_eq_iff sub_refs.simps[of _ s])
    ultimately show ?thesis by simp
  qed
qed

lemma simulates_resolve_str: "simulates (resolve_str_c var s) (\<lambda>l. resolve_str l s)"
  by (cases "full_ref s")
    (simp_all add: resolve_str_c_def resolve_str_def simulates_var simulates_bind
      simulates_sub_refs grows_sub_refs simulates_ret)

lemma resolve_c_eta:
  "resolve_c var (JObj d) = bindS (resolve_items_c var d) (\<lambda>e. retS (JObj e))"
  "resolve_c var (JList xs) = bindS (resolve_list_c var xs) (\<lambda>ys. retS (JList ys))"
  "resolve_c var (JStr s) = resolve_str_c var s"
  "resolve_c var JNull = retS JNull"
  "resolve_c var (JBool b) = retS (JBool b)"
  "resolve_c var (JInt i) = retS (JInt i)"
  "resolve_c var (JFloat f) = retS (JFloat f)"
  "resolve_items_c var [] = retS []"
  "resolve_items_c var ((k, v) # d) =
     bindS (resolve_c var v) (\<lambda>w. bindS (resolve_items_c var d) (\<lambda>e. retS ((k, w) # e)))"
  "resolve_list_c var [] = retS []"
  "resolve_list_c var (x # xs) =
     bindS (resolve_c var x) (\<lambda>y. bindS (resolve_list_c var xs) (\<lambda>ys. retS (y # ys)))"
  by (simp_all add: fun_eq_iff)

lemma simulates_resolve:
  "simulates (resolve_c var v) (\<lambda>l. resolve_with l v)"
  "simulates (resolve_items_c var d) (\<lambda>l. resolve_items l d)"
  "simulates (resolve_list_c var xs) (\<lambda>l. resolve_list l xs)"
  by (induction v and d and xs rule: py_repr_py_repr_items_py_repr_list.induct)
    (simp_all add: resolve_c_eta simulates_bind simulates_ret simulates_resolve_str grows_resolve
      del: resolve_c.simps resolve_items_c.simps resolve_list_c.simps)

end


section \<open>The code's memo table\<close>

text \<open>What a memo table answers for a name, and the tables the code builds from an empty one.\<close>

definition cache_look :: "string list \<Rightarrow> jdict \<Rightarrow> string \<Rightarrow> json result" where
  "cache_look deferred c n =
     (if n \<in> set deferred then Inr (JStr (''${'' @ n @ ''}''))
      else case map_of c n of Some v \<Rightarrow> Inr v | None \<Rightarrow> Inl (VariableError n))"

inductive cache_ok :: "jdict \<Rightarrow> string list \<Rightarrow> jdict \<Rightarrow> bool" for vals deferred where
  empty: "cache_ok vals deferred []"
| add: "cache_ok vals deferred c \<Longrightarrow> n \<notin> set deferred \<Longrightarrow> map_of c n = None \<Longrightarrow>
        map_of vals n = Some raw \<Longrightarrow> resolve_with (cache_look deferred c) raw = Inr v \<Longrightarrow>
        cache_ok vals deferred (dict_set n v c)"

definition off_stack :: "string list \<Rightarrow> jdict \<Rightarrow> bool" where
  "off_stack stack c \<longleftrightarrow> (\<forall>n \<in> set stack. map_of c n = None)"

lemma resolve_with_mono:
  assumes "\<And>m u. l m = Inr u \<Longrightarrow> l' m = Inr u" and "resolve_with l v = Inr w"
  shows "resolve_with l' v = Inr w"
proof -
  have "memo_lookup (\<lambda>_. False) (\<lambda>_. l) (\<lambda>_. retS JNull) l" by unfold_locales auto
  from memo_lookup.grows_resolve(1)[OF this, of v] assms show ?thesis
    unfolding memo_lookup.grows_def[OF \<open>memo_lookup _ _ _ _\<close>] by blast
qed

lemma cached_correct:
  assumes "cache_ok vals deferred c" and "map_of c n = Some v" and "off_stack stack c"
  shows "pure_variable vals deferred stack n = Inr v"
  using assms
proof (induction arbitrary: n v stack)
  case empty
  then show ?case by simp
next
  case (add c m raw w)
  have "off_stack stack c" and m: "m \<notin> set stack"
    using add.prems(2) by (auto simp: off_stack_def map_of_dict_set split: if_splits)
  show ?case
  proof (cases "n = m")
    case False
    with add.prems add.IH \<open>off_stack stack c\<close> show ?thesis by (simp add: map_of_dict_set)
  next
    case True
    have "off_stack (stack @ [m]) c"
      using \<open>off_stack stack c\<close> add.hyps(3) by (auto simp: off_stack_def)
    then have "pure_variable vals deferred (stack @ [m]) k = Inr u"
      if "cache_look deferred c k = Inr u" for k u
    proof (cases "k \<in> set deferred")
      case True
      with that show ?thesis by (simp add: cache_look_def pure_variable.simps[of _ _ _ k])
    next
      case False
      with that add.IH \<open>off_stack (stack @ [m]) c\<close> show ?thesis
        by (simp add: cache_look_def split: option.splits)
    qed
    then have "resolve_with (pure_variable vals deferred (stack @ [m])) raw = Inr w"
      using add.hyps(5) by (rule resolve_with_mono)
    with True m add.hyps add.prems(1) show ?thesis
      by (simp add: pure_variable.simps[of _ _ stack] map_of_dict_set)
  qed
qed

text \<open>One lookup, given that the lookups one level deeper meet their specification.\<close>

lemma variable_step:
  assumes deeper: "\<And>v. map_of vals n = Some v \<Longrightarrow> n \<notin> set stack \<Longrightarrow>
      memo_lookup (\<lambda>c. cache_ok vals deferred c \<and> off_stack (stack @ [n]) c) (cache_look deferred)
        (variable vals deferred (stack @ [n])) (pure_variable vals deferred (stack @ [n]))"
    and ok: "cache_ok vals deferred c" and off: "off_stack stack c"
  shows "fst (variable vals deferred stack n c) = pure_variable vals deferred stack n \<and>
     cache_ok vals deferred (snd (variable vals deferred stack n c)) \<and>
     off_stack stack (snd (variable vals deferred stack n c)) \<and>
     (\<forall>v. fst (variable vals deferred stack n c) = Inr v \<longrightarrow>
        cache_look deferred (snd (variable vals deferred stack n c)) n = Inr v) \<and>
     (\<forall>m u. cache_look deferred c m = Inr u \<longrightarrow>
        cache_look deferred (snd (variable vals deferred stack n c)) m = Inr u)"
    (is "?goal (variable vals deferred stack n c)")
proof (cases "map_of c n = None \<and> n \<notin> set deferred \<and> n \<notin> set stack \<and> map_of vals n \<noteq> None")
  case False
  then show ?thesis
  proof (cases "map_of c n")
    case (Some v)
    from ok Some have "n \<notin> set deferred"
      by (induction arbitrary: v) (auto simp: map_of_dict_set split: if_splits)
    with Some ok off cached_correct[OF ok Some off] show ?thesis
      by (simp add: variable.simps[of _ _ _ n] cache_look_def)
  next
    case None
    with False ok off show ?thesis
      by (auto simp: variable.simps[of _ _ _ n] pure_variable.simps[of _ _ _ n] cache_look_def
          split: option.splits)
  qed
next
  case True
  then obtain raw where new: "map_of c n = None" "n \<notin> set deferred" "n \<notin> set stack"
    and raw: "map_of vals n = Some raw" by auto
  let ?var = "variable vals deferred (stack @ [n])"
  note memo = deeper[OF raw new(3)]
  have off': "off_stack (stack @ [n]) c" using off new by (auto simp: off_stack_def)
  obtain r d where rd: "resolve_c ?var raw c = (r, d)" by fastforce
  note S = memo_lookup.simulates_resolve(1)[OF memo, of raw,
      unfolded memo_lookup.simulates_def[OF memo], rule_format, of c, unfolded rd fst_conv snd_conv]
  have S1: "r = resolve_with (pure_variable vals deferred (stack @ [n])) raw"
    and S2: "cache_ok vals deferred d" "off_stack (stack @ [n]) d"
    and S3: "\<And>v. r = Inr v \<Longrightarrow> resolve_with (cache_look deferred d) raw = Inr v"
    and S4: "\<And>m u. cache_look deferred c m = Inr u \<Longrightarrow> cache_look deferred d m = Inr u"
    using S ok off' by auto
  have pure: "pure_variable vals deferred stack n = r"
    using new raw S1 by (simp add: pure_variable.simps[of _ _ _ n])
  have offd: "off_stack stack d" and nd: "map_of d n = None"
    using S2(2) by (auto simp: off_stack_def)
  show ?thesis
  proof (cases r)
    case (Inl e)
    then have "variable vals deferred stack n c = (Inl e, d)"
      using new raw rd by (simp add: variable.simps[of _ _ _ n] bindS_def)
    with Inl pure S2 S4 offd show ?thesis by simp
  next
    case (Inr v)
    then have eq: "variable vals deferred stack n c = (Inr v, dict_set n v d)"
      using new raw rd by (simp add: variable.simps[of _ _ _ n] bindS_def)
    have "cache_ok vals deferred (dict_set n v d)"
      using S2(1) new(2) nd raw S3[OF Inr] by (rule cache_ok.add)
    moreover have "off_stack stack (dict_set n v d)"
      using offd new(3) by (auto simp: off_stack_def map_of_dict_set)
    moreover have "cache_look deferred (dict_set n v d) m = Inr u"
      if "cache_look deferred c m = Inr u" for m u
      using S4[OF that] nd by (auto simp: cache_look_def map_of_dict_set split: if_splits option.splits)
    ultimately show ?thesis
      using eq Inr pure new(2) by (simp add: cache_look_def map_of_dict_set)
  qed
qed

lemma memo_lookup_variable:
  "memo_lookup (\<lambda>c. cache_ok vals deferred c \<and> off_stack stack c) (cache_look deferred)
     (variable vals deferred stack) (pure_variable vals deferred stack)"
proof (induction "unresolved vals stack" arbitrary: stack rule: less_induct)
  case less
  note step = variable_step[OF less]
  show ?case
    by unfold_locales (use step unresolved_less in \<open>blast+\<close>)
qed

interpretation memo: memo_lookup "\<lambda>c. cache_ok vals deferred c \<and> off_stack [] c"
  "cache_look deferred" "variable vals deferred []" "pure_variable vals deferred []"
  for vals deferred
  by (rule memo_lookup_variable)

lemma resolve_correct:
  assumes "cache_ok (rv_values r) (rv_deferred r) c"
  shows "fst (resolve r v c) = pure_resolve (rv_values r) (rv_deferred r) v"
    and "cache_ok (rv_values r) (rv_deferred r) (snd (resolve r v c))"
  using memo.simulates_resolve(1)[of "rv_values r" "rv_deferred r" v,
      unfolded memo.simulates_def, rule_format, of c] assms
  by (auto simp: off_stack_def resolve_def pure_resolve_def)

definition cache_after :: "resolver \<Rightarrow> json list \<Rightarrow> jdict" where
  "cache_after r earlier = foldl (\<lambda>c v. snd (resolve r v c)) [] earlier"

lemma cache_after_ok: "cache_ok (rv_values r) (rv_deferred r) (cache_after r earlier)"
  by (induction earlier rule: rev_induct)
    (simp_all add: cache_after_def cache_ok.empty resolve_correct(2))

subsection \<open>Texts stay clean\<close>

definition clean :: "string \<Rightarrow> bool" where
  "clean s \<longleftrightarrow> s \<noteq> [] \<and> NUL \<notin> set s"

lemma sub_refs_clean:
  assumes "\<And>n v. var n = Inr v \<Longrightarrow> clean (py_str v)"
  shows "sub_refs var s = Inr t \<Longrightarrow> NUL \<notin> set s \<Longrightarrow> NUL \<notin> set t \<and> (s \<noteq> [] \<longrightarrow> t \<noteq> [])"
proof (induction s arbitrary: t rule: length_induct)
  case (1 s)
  show ?case
  proof (cases "match_ref s")
    case None
    then show ?thesis
      using 1 by (cases s) (auto simp: sub_refs.simps[of _ "[]"] sub_refs.simps[of _ "_ # _"] bindR_Inr_iff)
  next
    case (Some p)
    obtain name after where p: "p = (name, after)" by (cases p)
    with Some have short: "length after < length s" and sub: "set after \<subseteq> set s"
      by (auto dest: match_ref_shorter match_ref_suffix)
    from "1.prems"(1) Some p obtain v where v: "var name = Inr v"
      by (auto simp: sub_refs.simps[of _ s] bindR_Inr_iff)
    with "1.prems"(1) Some p obtain rest where
      rest: "sub_refs var after = Inr rest" and t: "t = py_str v @ rest"
      by (cases v) (auto simp: sub_refs.simps[of _ s] bindR_Inr_iff)
    have "NUL \<notin> set rest" using 1 short sub rest by blast
    with assms[OF v] t show ?thesis by (simp add: clean_def)
  qed
qed

lemma resolve_str_clean:
  assumes "\<And>n v. var n = Inr v \<Longrightarrow> clean (py_str v)"
    and "resolve_str var s = Inr v" and "clean s"
  shows "clean (py_str v)"
  using assms sub_refs_clean[OF assms(1)]
  by (auto simp: resolve_str_def clean_def bindR_Inr_iff split: option.splits)

lemma resolve_list_clean:
  assumes "\<And>n v. var n = Inr v \<Longrightarrow> clean (py_str v)"
    and "resolve_list var (map JStr xs) = Inr ys" and "list_all clean xs"
  shows "list_all clean (map py_str ys) \<and> length ys = length xs"
  using assms(2,3)
proof (induction xs arbitrary: ys)
  case Nil
  then show ?case by simp
next
  case (Cons x xs)
  then show ?case
    using resolve_str_clean[OF assms(1)] by (auto simp: bindR_Inr_iff)
qed

section \<open>Properties\<close>

text \<open>
  C38. Memoisation is transparent. Whatever values a resolver resolved before, failed attempts
  included, the next call returns exactly what the definition without a memo table returns,
  errors and their messages included; being total, that definition also shows that every
  call ends, however the variables refer to one another.
\<close>

theorem resolve_memo_transparent:
  "fst (resolve r v (cache_after r earlier)) = pure_resolve (rv_values r) (rv_deferred r) v"
  by (rule resolve_correct(1)) (rule cache_after_ok)

lemma layer_fold:
  "map_of (rv_values (foldl (\<lambda>r (key, v). r\<lparr>rv_values := dict_set key v (rv_values r),
       rv_sources := dict_set key nm (rv_sources r)\<rparr>) r kvs)) = map_of (rv_values (r :: resolver)) ++ map_of (rev kvs)"
  "map_of (rv_sources (foldl (\<lambda>r (key, v). r\<lparr>rv_values := dict_set key v (rv_values r),
       rv_sources := dict_set key nm (rv_sources r)\<rparr>) r kvs))
     = map_of (rv_sources r) ++ (\<lambda>k. map_option (\<lambda>_. nm) (map_of (rev kvs) k))"
  by (induction kvs arbitrary: r)
    (auto simp: map_of_dict_set fun_eq_iff map_add_def split: option.splits)

lemma distinct_layer_values: "distinct (map fst (layer_values l))"
proof -
  have "distinct (map fst d) \<Longrightarrow> distinct (map fst (dict_update d e))" for d e :: jdict
    by (induction e arbitrary: d) auto
  then show ?thesis by (simp add: layer_values_def)
qed

text \<open>
  Later layers take precedence. Adding a layer changes exactly the paths that layer
  defines: they get its value and its name as their source, and every other path keeps both.
\<close>

theorem layers_override:
  "map_of (rv_values (new_resolver (ls @ [(name, l)]) deferred)) k
     = (case map_of (layer_values l) k of
          Some v \<Rightarrow> Some v
        | None \<Rightarrow> map_of (rv_values (new_resolver ls deferred)) k)
   \<and> map_of (rv_sources (new_resolver (ls @ [(name, l)]) deferred)) k
     = (if map_of (layer_values l) k = None
        then map_of (rv_sources (new_resolver ls deferred)) k else Some name)"
  using map_of_rev_distinct[OF distinct_layer_values[of l]]
  by (simp add: new_resolver_def layer_fold map_add_def split: option.splits)

text \<open>A chain of variables, each a reference to the next.\<close>

definition ref_to :: "string \<Rightarrow> string" where
  "ref_to n = ''${'' @ n @ ''}''"

lemma pure_chain:
  assumes link: "\<And>i. i < length ns \<Longrightarrow>
      map_of vals (ns ! i) = Some (JStr (ref_to (ns ! (Suc i mod length ns))))"
    and names: "\<And>n. n \<in> set ns \<Longrightarrow> full_ref (ref_to n) = Some n \<and> n \<notin> set deferred"
    and "distinct ns" and "k \<le> length ns" and "0 < length ns"
  shows "pure_variable vals deferred (take k ns) (ns ! (k mod length ns)) =
           Inl (VariableError (''variable cycle: '' @ join '' -> '' (ns @ [hd ns])))"
  using \<open>k \<le> length ns\<close>
proof (induction "length ns - k" arbitrary: k)
  case 0
  then have "k = length ns" by simp
  with names[of "ns ! 0"] \<open>0 < length ns\<close> show ?case
    by (simp add: pure_variable.simps[of _ _ ns] hd_conv_nth)
next
  case (Suc d)
  then have k: "k < length ns" by simp
  then have notin: "ns ! k \<notin> set (take k ns)"
    using \<open>distinct ns\<close> by (auto simp: in_set_conv_nth nth_eq_iff_index_eq)
  have next_in: "ns ! (Suc k mod length ns) \<in> set ns" using \<open>0 < length ns\<close> by simp
  have "pure_variable vals deferred (take k ns) (ns ! k) =
      pure_variable vals deferred (take (Suc k) ns) (ns ! (Suc k mod length ns))"
    using k notin link[OF k] names[OF next_in] names[of "ns ! k"]
    by (simp add: pure_variable.simps[of _ _ "take k ns"] resolve_str_def take_Suc_conv_app_nth)
  with Suc k show ?case by simp
qed

text \<open>
  Cycles are reported, not followed. When variables refer to one another in a circle
  of any length, resolving a reference to one of them fails with the error that spells the
  circle out in the order it was walked.
\<close>

theorem cycle_reported:
  assumes "ns \<noteq> []" and "distinct ns"
    and "\<forall>n \<in> set ns. full_ref (ref_to n) = Some n \<and> n \<notin> set (rv_deferred r)"
    and "\<forall>i < length ns. map_of (rv_values r) (ns ! i) = Some (JStr (ref_to (ns ! (Suc i mod length ns))))"
  shows "fst (resolve r (JStr (ref_to (hd ns))) (cache_after r earlier)) =
           Inl (VariableError (''variable cycle: '' @ join '' -> '' (ns @ [hd ns])))"
proof -
  have "full_ref (ref_to (hd ns)) = Some (hd ns)" using assms by simp
  then have "pure_resolve (rv_values r) (rv_deferred r) (JStr (ref_to (hd ns))) =
      pure_variable (rv_values r) (rv_deferred r) [] (hd ns)"
    by (simp add: pure_resolve_def resolve_str_def)
  moreover have "pure_variable (rv_values r) (rv_deferred r) (take 0 ns) (ns ! (0 mod length ns)) =
      Inl (VariableError (''variable cycle: '' @ join '' -> '' (ns @ [hd ns])))"
    by (rule pure_chain) (use assms in auto)
  ultimately show ?thesis
    using \<open>ns \<noteq> []\<close> resolve_correct(1)[OF cache_after_ok] by (simp add: hd_conv_nth)
qed

theorem cycle_reported_witness:
  "fst (resolve (new_resolver [(''task'', [(''a'', JStr ''${b}''), (''b'', JStr ''${a}'')])] [])
      (JStr ''${a}'') []) = Inl (VariableError ''variable cycle: a -> b -> a'')"
proof -
  let ?r = "new_resolver [(''task'', [(''a'', JStr ''${b}''), (''b'', JStr ''${a}'')])] []"
  have vals: "rv_values ?r = [(''a'', JStr ''${b}''), (''b'', JStr ''${a}'')]" "rv_deferred ?r = []"
    by (simp_all add: new_resolver_def layer_values_def)
  have refs: "full_ref (ref_to ''a'') = Some ''a''" "full_ref (ref_to ''b'') = Some ''b''"
    by code_simp+
  have "\<forall>i < length [''a'', ''b'']. map_of (rv_values ?r) ([''a'', ''b''] ! i) =
      Some (JStr (ref_to ([''a'', ''b''] ! (Suc i mod length [''a'', ''b'']))))"
    by (auto simp: vals ref_to_def less_Suc_eq numeral_2_eq_2)
  from cycle_reported[of "[''a'', ''b'']" ?r "[]", OF _ _ _ this]
  show ?thesis using refs vals by (simp add: cache_after_def ref_to_def)
qed

end
