(* ===== verification/LF_Models.thy ===== *)
theory LF_Models
  imports LF_Prelude
begin

text \<open>
  The data model of \<^verbatim>\<open>src/src/localflow/models.py\<close>: task states, stop strategies, the
  validation of a submitted task, and the rewriting of a shell command that binds it to the
  frozen working directory, with its inverse that shows the user's command again.

  The operating system appears as parameters: \<open>realpath\<close> is \<open>Path.resolve\<close>, and
  \<open>login_shell\<close> is the shell \<open>detected_login_shell\<close> found.
\<close>

section \<open>States and statuses\<close>

datatype task_state =
  QUEUED | STARTING | RUNNING | STOPPING | SUCCEEDED | FAILED | CANCELLED | LOST

fun state_value :: "task_state \<Rightarrow> string" where
  "state_value QUEUED = ''queued''"
| "state_value STARTING = ''starting''"
| "state_value RUNNING = ''running''"
| "state_value STOPPING = ''stopping''"
| "state_value SUCCEEDED = ''succeeded''"
| "state_value FAILED = ''failed''"
| "state_value CANCELLED = ''cancelled''"
| "state_value LOST = ''lost''"

definition TERMINAL_STATES :: "task_state list" where
  "TERMINAL_STATES = [SUCCEEDED, FAILED, CANCELLED, LOST]"

definition terminal :: "task_state \<Rightarrow> bool" where
  "terminal s \<longleftrightarrow> s \<in> set TERMINAL_STATES"

lemma terminal_simps [simp]:
  "\<not> terminal QUEUED" "\<not> terminal STARTING" "\<not> terminal RUNNING" "\<not> terminal STOPPING"
  "terminal SUCCEEDED" "terminal FAILED" "terminal CANCELLED" "terminal LOST"
  by (simp_all add: terminal_def TERMINAL_STATES_def)

text \<open>The states whose task owns a process, its mutex keys and a concurrency slot.\<close>

definition active :: "task_state \<Rightarrow> bool" where
  "active s \<longleftrightarrow> s \<in> {STARTING, RUNNING, STOPPING}"

lemma active_simps [simp]:
  "\<not> active QUEUED" "active STARTING" "active RUNNING" "active STOPPING"
  "\<not> active SUCCEEDED" "\<not> active FAILED" "\<not> active CANCELLED" "\<not> active LOST"
  by (simp_all add: active_def)

lemma terminal_not_active: "terminal s \<Longrightarrow> \<not> active s"
  by (cases s) auto

lemma state_cases: "s = QUEUED \<or> active s \<or> terminal s"
  by (cases s) auto

lemma state_value_inject [simp]: "state_value s = state_value t \<longleftrightarrow> s = t"
  by (cases s; cases t) auto

record task_status =
  ts_key :: string
  ts_label :: string
  ts_tone :: string
  ts_finished :: bool

section \<open>Stop strategies\<close>

datatype stop_kind = StopSignal | StopInput | StopExec

datatype stop_signal = SIGINT | SIGTERM

record stop_action =
  sa_type :: stop_kind
  sa_signal :: "stop_signal option"
  sa_data :: "string option"
  sa_command :: "string list option"
  sa_timeout_seconds :: real
  sa_extend_timeout_on_output :: bool
  sa_max_timeout_seconds :: "real option"
  sa_output_contains :: "string option"
  sa_label :: "string option"

text \<open>\<open>StopAction(type="signal", signal=sig, timeout_seconds=t)\<close>, the other fields at their defaults.\<close>

definition signal_action :: "stop_signal \<Rightarrow> real \<Rightarrow> stop_action" where
  "signal_action sig t =
     \<lparr>sa_type = StopSignal, sa_signal = Some sig, sa_data = None, sa_command = None,
      sa_timeout_seconds = t, sa_extend_timeout_on_output = False,
      sa_max_timeout_seconds = None, sa_output_contains = None, sa_label = None\<rparr>"

definition opt_ok :: "('a \<Rightarrow> bool) \<Rightarrow> 'a option \<Rightarrow> bool" where
  "opt_ok p v = (case v of None \<Rightarrow> True | Some x \<Rightarrow> p x)"

definition in_range :: "real \<Rightarrow> real \<Rightarrow> real \<Rightarrow> bool" where
  "in_range lo hi x \<longleftrightarrow> lo \<le> x \<and> x \<le> hi"

text \<open>The constraints of the single fields, in the order of their declaration.\<close>

definition stop_action_field_errors :: "stop_action \<Rightarrow> string list" where
  "stop_action_field_errors a =
     (if opt_ok (\<lambda>d. length d \<le> 4096) (sa_data a) then [] else [''data'']) @
     (if opt_ok (\<lambda>c. 1 \<le> length c \<and> length c \<le> 64) (sa_command a) then [] else [''command'']) @
     (if in_range 0 86400 (sa_timeout_seconds a) then [] else [''timeout_seconds'']) @
     (if opt_ok (in_range 0 86400) (sa_max_timeout_seconds a) then [] else [''max_timeout_seconds'']) @
     (if opt_ok (\<lambda>o'. 1 \<le> length o' \<and> length o' \<le> 512) (sa_output_contains a)
      then [] else [''output_contains'']) @
     (if opt_ok (\<lambda>l. length l \<le> 80) (sa_label a) then [] else [''label''])"

definition populated :: "stop_action \<Rightarrow> nat" where
  "populated a = of_bool (sa_signal a \<noteq> None) + of_bool (sa_data a \<noteq> None)
                 + of_bool (sa_command a \<noteq> None)"

definition action_matches_type :: "stop_action \<Rightarrow> stop_action result" where
  "action_matches_type a =
     (if populated a \<noteq> 1
      then Inl (ValueError ''stop action requires exactly one signal, data, or command'')
      else if sa_type a = StopSignal \<and> sa_signal a = None
      then Inl (ValueError ''signal stop action requires signal'')
      else if sa_type a = StopInput \<and> sa_data a = None
      then Inl (ValueError ''input stop action requires data'')
      else if sa_type a = StopExec \<and> sa_command a = None
      then Inl (ValueError ''exec stop action requires command'')
      else if \<not> opt_ok (\<lambda>d. NUL \<notin> set d \<and> utf8_len d \<le> 4096) (sa_data a)
      then Inl (ValueError ''stop input must be at most 4096 bytes and contain no NUL'')
      else if \<not> opt_ok (list_all (\<lambda>item. item \<noteq> [] \<and> NUL \<notin> set item)) (sa_command a)
      then Inl (ValueError ''stop command arguments must be non-empty and contain no NUL'')
      else if sa_extend_timeout_on_output a \<and> sa_max_timeout_seconds a = None
      then Inl (ValueError ''max_timeout_seconds is required when extend_timeout_on_output is enabled'')
      else if \<not> opt_ok (\<lambda>m. sa_timeout_seconds a \<le> m) (sa_max_timeout_seconds a)
      then Inl (ValueError ''max_timeout_seconds must be at least timeout_seconds'')
      else Inr a)"

definition validate_stop_action :: "stop_action \<Rightarrow> stop_action result" where
  "validate_stop_action a =
     (if stop_action_field_errors a \<noteq> [] then Inl (ValidationError (stop_action_field_errors a))
      else action_matches_type a)"

type_synonym stop_strategy = "stop_action list"

definition validate_stop_strategy :: "stop_strategy \<Rightarrow> stop_strategy result" where
  "validate_stop_strategy as =
     bindR (mapR validate_stop_action as)
       (\<lambda>bs. if 1 \<le> length bs \<and> length bs \<le> 8 then Inr bs else Inl (ValidationError [''actions'']))"

section \<open>Commands\<close>

datatype command_input = CmdStr string | CmdList "string list"

definition SHELL_CWD_SENTINEL :: string where
  "SHELL_CWD_SENTINEL = ''__LOCALFLOW_RESTORE_FROZEN_CWD__''"

definition SHELL_USER_COMMAND_BOUNDARY :: string where
  "SHELL_USER_COMMAND_BOUNDARY = [NL] @ ''# localflow:user-command'' @ [NL]"

fun first_shell :: "string list \<Rightarrow> string" where
  "first_shell [] = ''/bin/sh''"
| "first_shell (c # cs) =
     (let candidate = strip c in
      if starts_with candidate ''/'' \<and> NUL \<notin> set candidate
         \<and> path_name (parse_path candidate) \<notin> {''false'', ''nologin''}
      then candidate else first_shell cs)"

definition detected_login_shell :: "string option \<Rightarrow> string option \<Rightarrow> string" where
  "detected_login_shell shell_env pw_shell =
     first_shell ((case shell_env of None \<Rightarrow> [] | Some s \<Rightarrow> s)
                  # (case pw_shell of None \<Rightarrow> [] | Some s \<Rightarrow> [s]))"

definition normalize_command :: "string \<Rightarrow> command_input \<Rightarrow> string option \<Rightarrow> string list result" where
  "normalize_command login_shell v shell =
     (case v of
        CmdStr s \<Rightarrow>
          if strip s = [] \<or> NUL \<in> set s
          then Inl (ValueError ''command must be non-empty and contain no NUL'')
          else Inr [case shell of Some sh \<Rightarrow> (if sh = [] then login_shell else sh)
                                | None \<Rightarrow> login_shell,
                    ''-ic'', SHELL_CWD_SENTINEL @ s]
      | CmdList items \<Rightarrow>
          if items = [] \<or> \<not> list_all (\<lambda>item. item \<noteq> [] \<and> NUL \<notin> set item) items
          then Inl (ValueError ''command arguments must be non-empty strings and contain no NUL'')
          else Inr items)"

definition normalize_source_files :: "string list option \<Rightarrow> string list result" where
  "normalize_source_files v =
     (case v of
        None \<Rightarrow> Inr []
      | Some entries \<Rightarrow>
          if entries = []
          then Inl (ValueError ''source must contain one or more non-empty paths without NUL'')
          else if length entries > 64
          then Inl (ValueError ''source must contain at most 64 paths'')
          else mapR (\<lambda>entry. let stripped = strip entry in
                 if stripped = [] \<or> NUL \<in> set stripped
                 then Inl (ValueError ''source paths must be non-empty and contain no NUL'')
                 else Inr stripped) entries)"

definition resolve_source_files ::
    "(ppath \<Rightarrow> ppath) \<Rightarrow> string list option \<Rightarrow> string \<Rightarrow> string list result" where
  "resolve_source_files realpath v working_directory =
     bindR (normalize_source_files v)
       (\<lambda>items. Inr (map (\<lambda>item.
          let path = parse_path item;
              path = (if is_absolute path then path
                      else path_join (parse_path working_directory) path)
          in path_str (realpath path)) items))"

subsection \<open>Shell quoting\<close>

definition shell_safe :: "char \<Rightarrow> bool" where
  "shell_safe c \<longleftrightarrow> (let n = of_char c :: nat in
     (48 \<le> n \<and> n \<le> 57) \<or> (65 \<le> n \<and> n \<le> 90) \<or> (97 \<le> n \<and> n \<le> 122)
     \<or> c \<in> set ''_@%+=:,./-'')"

definition shlex_quote :: "string \<Rightarrow> string" where
  "shlex_quote s =
     (if s = [] then [SQ, SQ]
      else if list_all shell_safe s then s
      else [SQ] @ replace_char SQ [SQ, DQ, SQ, DQ, SQ] s @ [SQ])"

definition shlex_join :: "string list \<Rightarrow> string" where
  "shlex_join words = join '' '' (map shlex_quote words)"

subsection \<open>Binding a shell command to its working directory\<close>

definition source_file_command :: "string \<Rightarrow> string \<Rightarrow> string" where
  "source_file_command path shell_name =
     shlex_join [if shell_name \<in> {''sh'', ''dash''} then ''localflow_source'' else ''source'', path]"

definition csh_lines :: "string list \<Rightarrow> string \<Rightarrow> string \<Rightarrow> string list" where
  "csh_lines source_files shell_name working_directory =
     [''if ( ! $?prompt ) set prompt = '' @ [DQ] @ ''localflow'' @ [DQ]] @
     concat (map (\<lambda>path. [source_file_command path shell_name,
                          ''if ( $status != 0 ) exit $status'']) source_files) @
     [''cd '' @ shlex_quote working_directory, ''if ( $status != 0 ) exit $status'']"

definition fish_lines :: "string list \<Rightarrow> string \<Rightarrow> string \<Rightarrow> string list" where
  "fish_lines source_files shell_name working_directory =
     concat (map (\<lambda>path. [source_file_command path shell_name,
                          ''set localflow_source_status $status'',
                          ''if test $localflow_source_status -ne 0'',
                          ''exit $localflow_source_status'',
                          ''end'']) source_files) @
     [''cd '' @ shlex_quote working_directory]"

definition sh_helper_lines :: "string list" where
  "sh_helper_lines =
     [''localflow_source() {'',
      ''if [ '' @ [DQ] @ ''$#'' @ [DQ] @ '' -eq 0 ]; then return 2; fi'',
      ''case '' @ [DQ] @ ''$1'' @ [DQ] @ '' in'',
      ''*/*) [ -r '' @ [DQ] @ ''$1'' @ [DQ] @ '' ] || return 127 ;;'',
      ''*) command -v '' @ [DQ] @ ''$1'' @ [DQ] @ '' >/dev/null 2>&1 || '' @
        ''[ -r '' @ [DQ] @ ''$1'' @ [DQ] @ '' ] || return 127 ;;'',
      ''esac'',
      ''. '' @ [DQ] @ ''$@'' @ [DQ],
      ''}'']"

definition sh_lines :: "string list \<Rightarrow> string \<Rightarrow> string \<Rightarrow> string list" where
  "sh_lines source_files shell_name working_directory =
     (if shell_name \<in> {''sh'', ''dash''} then sh_helper_lines else []) @
     concat (map (\<lambda>path. [source_file_command path shell_name,
                          ''localflow_source_status=$?'',
                          ''if [ '' @ [DQ] @ ''$localflow_source_status'' @ [DQ] @ '' -ne 0 ]; then '' @
                          ''exit '' @ [DQ] @ ''$localflow_source_status'' @ [DQ] @ ''; fi'']) source_files) @
     [''cd '' @ shlex_quote working_directory]"

definition source_lines :: "string list \<Rightarrow> string \<Rightarrow> string \<Rightarrow> string list" where
  "source_lines source_files shell_name working_directory =
     (if shell_name \<in> {''csh'', ''tcsh''} then csh_lines source_files shell_name working_directory
      else if shell_name = ''fish'' then fish_lines source_files shell_name working_directory
      else sh_lines source_files shell_name working_directory)"

definition has_sentinel :: "string list \<Rightarrow> bool" where
  "has_sentinel command \<longleftrightarrow>
     3 \<le> length command \<and> command ! 1 = ''-ic'' \<and> starts_with (command ! 2) SHELL_CWD_SENTINEL"

text \<open>The texts \<open>f"cd {quoted} && "\<close> and \<open>f" && cd {quoted} &&\n"\<close> the two functions share.\<close>

definition cd_prefix :: "string \<Rightarrow> string" where
  "cd_prefix working_directory = ''cd '' @ shlex_quote working_directory @ '' && ''"

definition source_boundary :: "string \<Rightarrow> string" where
  "source_boundary working_directory = '' && cd '' @ shlex_quote working_directory @ '' &&'' @ [NL]"

definition freeze_command_working_directory ::
    "(ppath \<Rightarrow> ppath) \<Rightarrow> string list \<Rightarrow> string \<Rightarrow> string list option \<Rightarrow> string list result" where
  "freeze_command_working_directory realpath command working_directory source =
     (if has_sentinel command then
        (let user_command = drop (length SHELL_CWD_SENTINEL) (command ! 2) in
         bindR (resolve_source_files realpath source working_directory)
           (\<lambda>source_files.
              let shell_name = path_name (parse_path (command ! 0));
                  body = (if source_files = [] then user_command
                          else join [NL] (source_lines source_files shell_name working_directory)
                               @ SHELL_USER_COMMAND_BOUNDARY @ user_command)
              in Inr (take 2 command @ [cd_prefix working_directory @ body] @ drop 3 command)))
      else Inr command)"

definition command_for_log :: "string list \<Rightarrow> string \<Rightarrow> string" where
  "command_for_log command working_directory =
     (let prefix = cd_prefix working_directory in
      if 3 \<le> length command \<and> command ! 1 = ''-ic'' \<and> starts_with (command ! 2) prefix
      then (let visible = drop (length prefix) (command ! 2)
            in case split_first SHELL_USER_COMMAND_BOUNDARY visible of
                 Some (before, after) \<Rightarrow> after
               | None \<Rightarrow> (case split_first (source_boundary working_directory) visible of
                            Some (before, after) \<Rightarrow> after
                          | None \<Rightarrow> visible))
      else shlex_join command)"

section \<open>Submitted tasks\<close>

record deferred_value =
  dv_source :: string
  dv_namespace :: string

text \<open>
  A \<open>TaskCreate\<close>, or a \<open>TaskDraft\<close> when \<open>td_deferred_values\<close> is not empty (the only
  difference the code looks at).
\<close>

record task_draft =
  td_name :: string
  td_working_directory :: string
  td_shell :: "string option"
  td_source :: "string list option"
  td_command :: "string list"
  td_labels :: "string list"
  td_mutex_keys :: "string list"
  td_custom :: jdict
  td_template :: "string option"
  td_plugin_snapshot :: jdict
  td_stop :: "stop_strategy option"
  td_deferred_values :: "(string, deferred_value) dict"

text \<open>
  The body of a new task. Where a value of another type can arrive (a deferred number in the
  place of a text) the field is a JSON value, and validation asks for a text. A field the body does not mention is \<^const>\<open>None\<close>; for
  \<open>shell\<close> and \<open>source\<close>, which accept \<open>null\<close>, the inner option is the mentioned value.
\<close>

record task_payload =
  tp_name :: json
  tp_working_directory :: json
  tp_shell :: "string option option"
  tp_source :: "string list option option"
  tp_command :: command_input
  tp_labels :: "json list"
  tp_mutex_keys :: "json list"
  tp_custom :: jdict
  tp_template :: "string option"
  tp_plugin_snapshot :: jdict
  tp_stop :: "stop_strategy option"

definition validate_shell :: "string option \<Rightarrow> string option result" where
  "validate_shell v =
     (case v of
        None \<Rightarrow> Inr None
      | Some s \<Rightarrow> if length s < 1 then Inl (ValidationError [''shell''])
                  else if strip s = [] \<or> NUL \<in> set s
                  then Inl (ValueError ''shell must be non-empty and contain no NUL'')
                  else Inr (Some s))"

definition normalized_unique :: "string list \<Rightarrow> string list result" where
  "normalized_unique v =
     (let normalized = map strip v in
      if list_ex (\<lambda>item. item = [] \<or> 128 < length item) normalized
      then Inl (ValueError ''items must be 1..128 characters'')
      else if card (set normalized) \<noteq> length normalized
      then Inl (ValueError ''items must be unique'')
      else Inr normalized)"

definition validate_names :: "string \<Rightarrow> nat \<Rightarrow> json list \<Rightarrow> string list result" where
  "validate_names field max_items v =
     (if max_items < length v \<or> list_ex (\<lambda>j. as_str j = None) v
      then Inl (ValidationError [field])
      else normalized_unique (map (\<lambda>j. the (as_str j)) v))"

definition validate_text :: "string \<Rightarrow> nat option \<Rightarrow> json \<Rightarrow> string result" where
  "validate_text field max_length v =
     (case v of
        JStr s \<Rightarrow> if 1 \<le> length s \<and> opt_ok (\<lambda>m. length s \<le> m) max_length then Inr s
                  else Inl (ValidationError [field])
      | _ \<Rightarrow> Inl (ValidationError [field]))"

text \<open>
  The validator of \<open>command\<close> reads the fields validated before it (\<open>info.data\<close>): a
  rejected \<open>shell\<close> or \<open>source\<close> is absent there.
\<close>

definition non_empty_arguments ::
    "string \<Rightarrow> command_input \<Rightarrow> string option \<Rightarrow> string list option \<Rightarrow> string list result" where
  "non_empty_arguments login_shell v shell source =
     (case v of
        CmdList items \<Rightarrow>
          if shell \<noteq> None then Inl (ValueError ''shell is only valid with a string command'')
          else if (case source of None \<Rightarrow> False | Some entries \<Rightarrow> entries \<noteq> [])
          then Inl (ValueError ''source is only valid with a string command'')
          else normalize_command login_shell v shell
      | CmdStr _ \<Rightarrow> normalize_command login_shell v shell)"

definition field_error :: "string \<Rightarrow> 'a result \<Rightarrow> string list" where
  "field_error field r = (case r of Inl _ \<Rightarrow> [field] | Inr _ \<Rightarrow> [])"

text \<open>
  \<open>TaskCreate.model_validate\<close>: every field is validated, the rejected ones are reported
  together, in the order of declaration.
\<close>

definition validate_task_create :: "string \<Rightarrow> task_payload \<Rightarrow> task_draft result" where
  "validate_task_create login_shell p =
     (let name = validate_text ''name'' (Some 200) (tp_name p);
          directory = validate_text ''working_directory'' None (tp_working_directory p);
          shell = (case tp_shell p of None \<Rightarrow> Inr None | Some v \<Rightarrow> validate_shell v);
          source = (case tp_source p of None \<Rightarrow> Inr None
                      | Some v \<Rightarrow> bindR (normalize_source_files v) (\<lambda>files. Inr (Some files)));
          command = non_empty_arguments login_shell (tp_command p)
                      (case shell of Inl _ \<Rightarrow> None | Inr v \<Rightarrow> v)
                      (case source of Inl _ \<Rightarrow> None | Inr v \<Rightarrow> v);
          labels = validate_names ''labels'' 64 (tp_labels p);
          mutex_keys = validate_names ''mutex_keys'' 32 (tp_mutex_keys p);
          stop = (case tp_stop p of None \<Rightarrow> Inr None
                    | Some s \<Rightarrow> bindR (validate_stop_strategy s) (\<lambda>v. Inr (Some v)));
          errors = field_error ''name'' name @ field_error ''working_directory'' directory @
                   field_error ''shell'' shell @ field_error ''source'' source @
                   field_error ''command'' command @ field_error ''labels'' labels @
                   field_error ''mutex_keys'' mutex_keys @ field_error ''stop'' stop
      in case (name, directory, shell, source, command, labels, mutex_keys, stop) of
           (Inr nm, Inr wd, Inr sh, Inr src, Inr cmd, Inr ls, Inr ks, Inr st) \<Rightarrow>
             Inr \<lparr>td_name = nm, td_working_directory = wd,
                  td_shell = sh, td_source = src, td_command = cmd, td_labels = ls,
                  td_mutex_keys = ks, td_custom = tp_custom p, td_template = tp_template p,
                  td_plugin_snapshot = tp_plugin_snapshot p, td_stop = st,
                  td_deferred_values = []\<rparr>
         | _ \<Rightarrow> Inl (ValidationError errors))"

text \<open>
  Validating the dump of a draft again: \<open>shell\<close> and \<open>source\<close> are excluded from a dump, the
  deferred values are left out by the caller.
\<close>

definition dump_payload :: "task_draft \<Rightarrow> task_payload" where
  "dump_payload d =
     \<lparr>tp_name = JStr (td_name d), tp_working_directory = JStr (td_working_directory d),
      tp_shell = None, tp_source = None, tp_command = CmdList (td_command d),
      tp_labels = map JStr (td_labels d), tp_mutex_keys = map JStr (td_mutex_keys d),
      tp_custom = td_custom d,
      tp_template = td_template d, tp_plugin_snapshot = td_plugin_snapshot d,
      tp_stop = td_stop d\<rparr>"

section \<open>Facts about validation\<close>

lemma normalized_unique_Inr:
  assumes "normalized_unique v = Inr w"
  shows "w = map strip v" and "distinct w" and "\<forall>item \<in> set w. 1 \<le> length item \<and> length item \<le> 128"
  using assms
  by (fastforce simp: normalized_unique_def Let_def list_ex_iff not_less card_distinct
      Suc_le_eq split: if_splits)+

lemma normalized_unique_idem:
  assumes "normalized_unique v = Inr w"
  shows "normalized_unique w = Inr w"
proof -
  note facts = normalized_unique_Inr[OF assms]
  have "map strip w = w" using facts(1) by (simp add: strip_idem)
  with facts(2,3) show ?thesis
    by (auto simp: normalized_unique_def Let_def list_ex_iff distinct_card)
qed

lemma normalize_command_list_Inr:
  "normalize_command sh (CmdList items) shell = Inr c \<longleftrightarrow>
     c = items \<and> items \<noteq> [] \<and> (\<forall>item \<in> set items. item \<noteq> [] \<and> NUL \<notin> set item)"
  by (auto simp: normalize_command_def list_all_iff)

lemma validate_stop_action_Inr:
  "validate_stop_action a = Inr b \<longleftrightarrow>
     b = a \<and> stop_action_field_errors a = [] \<and> action_matches_type a = Inr a"
  by (auto simp: validate_stop_action_def action_matches_type_def split: if_splits)

lemma validate_stop_strategy_Inr:
  assumes "validate_stop_strategy as = Inr bs"
  shows "bs = as" and "1 \<le> length as" and "length as \<le> 8"
    and "\<forall>a \<in> set as. validate_stop_action a = Inr a"
proof -
  from assms have m: "mapR validate_stop_action as = Inr bs"
    and l: "1 \<le> length bs" "length bs \<le> 8"
    by (auto simp: validate_stop_strategy_def bindR_Inr_iff split: if_splits)
  from m have all2: "list_all2 (\<lambda>a b. validate_stop_action a = Inr b) as bs"
    by (simp add: mapR_Inr_list_all2)
  then show "bs = as"
    by (simp add: validate_stop_action_Inr list_all2_conv_all_nth nth_equalityI)
  with all2 show "\<forall>a \<in> set as. validate_stop_action a = Inr a"
    by (auto simp: validate_stop_action_Inr list_all2_conv_all_nth set_conv_nth)
  from \<open>bs = as\<close> l show "1 \<le> length as" "length as \<le> 8" by auto
qed

text \<open>What validation guarantees of a draft, in the terms of the source's constraints.\<close>

definition valid_names :: "nat \<Rightarrow> string list \<Rightarrow> bool" where
  "valid_names max_items v \<longleftrightarrow>
     length v \<le> max_items \<and> distinct v \<and>
     list_all (\<lambda>item. strip item = item \<and> 1 \<le> length item \<and> length item \<le> 128) v"

definition valid_stop :: "stop_strategy \<Rightarrow> bool" where
  "valid_stop s \<longleftrightarrow> 1 \<le> length s \<and> length s \<le> 8 \<and>
     list_all (\<lambda>a. stop_action_field_errors a = [] \<and> action_matches_type a = Inr a) s"

definition command_ok :: "string list \<Rightarrow> bool" where
  "command_ok c \<longleftrightarrow> c \<noteq> [] \<and> list_all (\<lambda>item. item \<noteq> [] \<and> NUL \<notin> set item) c"

definition shell_ok :: "string \<Rightarrow> bool" where
  "shell_ok sh \<longleftrightarrow> sh \<noteq> [] \<and> NUL \<notin> set sh"

definition valid_draft :: "task_draft \<Rightarrow> bool" where
  "valid_draft d \<longleftrightarrow>
     1 \<le> length (td_name d) \<and> length (td_name d) \<le> 200 \<and> 1 \<le> length (td_working_directory d) \<and>
     command_ok (td_command d) \<and> valid_names 64 (td_labels d) \<and> valid_names 32 (td_mutex_keys d) \<and>
     opt_ok valid_stop (td_stop d)"

lemma validate_names_Inr: "validate_names f m v = Inr w \<Longrightarrow> valid_names m w"
  using normalized_unique_Inr[of "map (\<lambda>j. the (as_str j)) v" w] mapR_length
  by (auto simp: validate_names_def valid_names_def list_all_iff split: if_splits)

lemma validate_names_valid: "valid_names m w \<Longrightarrow> validate_names f m (map JStr w) = Inr w"
proof -
  assume v: "valid_names m w"
  then have "map strip w = w" by (auto simp: valid_names_def list_all_iff intro!: map_idI)
  with v show ?thesis
    by (auto simp: validate_names_def valid_names_def normalized_unique_def list_ex_iff list_all_iff
        distinct_card comp_def)
qed

lemma validate_stop_strategy_valid: "validate_stop_strategy s = Inr t \<longleftrightarrow> t = s \<and> valid_stop s"
proof
  assume a: "validate_stop_strategy s = Inr t"
  note f = validate_stop_strategy_Inr[OF a]
  from f show "t = s \<and> valid_stop s"
    by (auto simp: valid_stop_def list_all_iff validate_stop_action_Inr)
next
  assume "t = s \<and> valid_stop s"
  then have "mapR validate_stop_action s = Inr (map id s)"
    by (intro mapR_pure) (auto simp: valid_stop_def list_all_iff validate_stop_action_Inr)
  with \<open>t = s \<and> valid_stop s\<close> show "validate_stop_strategy s = Inr t"
    by (simp add: validate_stop_strategy_def valid_stop_def)
qed

lemma sentinel_no_NUL: "NUL \<notin> set SHELL_CWD_SENTINEL" "SHELL_CWD_SENTINEL \<noteq> []"
  by (simp_all add: SHELL_CWD_SENTINEL_def NUL_def)

lemma normalize_command_ok:
  assumes "normalize_command sh v shell = Inr c" and "shell_ok sh" and "opt_ok (\<lambda>s. NUL \<notin> set s) shell"
  shows "command_ok c"
proof (cases v)
  case (CmdList items)
  with assms show ?thesis by (auto simp: normalize_command_def command_ok_def split: if_splits)
next
  case (CmdStr s)
  then have "NUL \<notin> set s"
    and c: "c = [case shell of Some x \<Rightarrow> (if x = [] then sh else x) | None \<Rightarrow> sh, ''-ic'',
                SHELL_CWD_SENTINEL @ s]"
    using assms(1) by (auto simp: normalize_command_def split: if_splits)
  moreover have "NUL \<notin> set ''-ic''" by (simp add: NUL_def)
  ultimately show ?thesis
    using assms(2,3) sentinel_no_NUL
    by (auto simp: command_ok_def shell_ok_def opt_ok_def split: option.splits)
qed

lemma validate_shell_Inr: "validate_shell v = Inr w \<Longrightarrow> w = v \<and> opt_ok (\<lambda>s. NUL \<notin> set s) w"
  by (auto simp: validate_shell_def opt_ok_def split: option.splits if_splits)

lemma validate_text_Inr:
  "validate_text f m v = Inr s \<longleftrightarrow> v = JStr s \<and> 1 \<le> length s \<and> opt_ok (\<lambda>k. length s \<le> k) m"
  by (auto simp: validate_text_def split: json.splits if_splits)

lemma non_empty_arguments_Inr:
  "non_empty_arguments sh v shell source = Inr c \<Longrightarrow> normalize_command sh v shell = Inr c"
  by (auto simp: non_empty_arguments_def split: command_input.splits if_splits)

lemma validate_task_create_Inr:
  assumes "validate_task_create sh p = Inr d"
  shows "tp_name p = JStr (td_name d)" "tp_working_directory p = JStr (td_working_directory d)"
    "td_custom d = tp_custom p" "td_template d = tp_template p"
    "td_plugin_snapshot d = tp_plugin_snapshot p" "td_stop d = tp_stop p"
    "td_deferred_values d = []"
    "normalize_command sh (tp_command p) (td_shell d) = Inr (td_command d)"
  using assms
  by (auto simp: validate_task_create_def Let_def validate_text_Inr bindR_Inr_iff
      validate_stop_strategy_valid dest!: non_empty_arguments_Inr
      split: sum.splits option.splits)

lemma validate_task_create_parts:
  assumes "validate_task_create sh p = Inr d"
  shows "1 \<le> length (td_name d) \<and> length (td_name d) \<le> 200 \<and> 1 \<le> length (td_working_directory d)"
    "valid_names 64 (td_labels d)" "valid_names 32 (td_mutex_keys d)" "opt_ok valid_stop (td_stop d)"
    "opt_ok (\<lambda>s. NUL \<notin> set s) (td_shell d)"
  using assms
  by (auto simp: validate_task_create_def Let_def validate_text_Inr bindR_Inr_iff opt_ok_def
      validate_stop_strategy_valid dest!: validate_names_Inr validate_shell_Inr
      split: sum.splits option.splits)

lemma validate_task_create_valid:
  assumes "validate_task_create sh p = Inr d"
    and "shell_ok sh \<or> (\<exists>items. tp_command p = CmdList items)"
  shows "valid_draft d"
proof -
  have "command_ok (td_command d)"
    using assms(2)
  proof
    assume "shell_ok sh"
    with validate_task_create_Inr(8)[OF assms(1)] validate_task_create_parts(5)[OF assms(1)]
    show ?thesis by (blast intro: normalize_command_ok)
  next
    assume "\<exists>items. tp_command p = CmdList items"
    with validate_task_create_Inr(8)[OF assms(1)] show ?thesis
      by (auto simp: normalize_command_list_Inr command_ok_def list_all_iff)
  qed
  with validate_task_create_parts[OF assms(1)] show ?thesis by (simp add: valid_draft_def)
qed

lemma revalidate:
  assumes "valid_draft d"
  shows "validate_task_create sh (dump_payload d) =
           Inr (d\<lparr>td_shell := None, td_source := None, td_deferred_values := []\<rparr>)"
proof -
  have texts: "validate_text ''name'' (Some 200) (JStr (td_name d)) = Inr (td_name d)"
    "validate_text ''working_directory'' None (JStr (td_working_directory d)) = Inr (td_working_directory d)"
    using assms by (auto simp: valid_draft_def validate_text_def opt_ok_def)
  have names: "validate_names ''labels'' 64 (map JStr (td_labels d)) = Inr (td_labels d)"
    "validate_names ''mutex_keys'' 32 (map JStr (td_mutex_keys d)) = Inr (td_mutex_keys d)"
    using assms by (auto simp: valid_draft_def intro: validate_names_valid)
  have command: "non_empty_arguments sh (CmdList (td_command d)) None None = Inr (td_command d)"
    using assms by (auto simp: valid_draft_def command_ok_def non_empty_arguments_def normalize_command_def)
  have stop: "(case td_stop d of None \<Rightarrow> Inr None
        | Some s \<Rightarrow> bindR (validate_stop_strategy s) (\<lambda>v. Inr (Some v))) = Inr (td_stop d)"
    using assms validate_stop_strategy_valid
    by (auto simp: valid_draft_def opt_ok_def bindR_Inr_iff split: option.splits)
  show ?thesis
    by (simp add: validate_task_create_def dump_payload_def texts names command stop)
qed

text \<open>
  Validation accepts exactly normal forms. An accepted task has a name of 1 to 200
  characters, a directory, a command of non-empty arguments without NUL, at most 64 labels and
  32 mutex keys, trimmed, distinct and of 1 to 128 characters, and a stop strategy of 1 to 8
  well-formed actions; validating its dump again, as the store does before it writes, accepts
  it unchanged apart from the fields a dump leaves out.
\<close>

theorem validation_normalizes:
  assumes "validate_task_create login_shell p = Inr d" and "shell_ok login_shell"
  shows "valid_draft d \<and>
    validate_task_create login_shell' (dump_payload d) = Inr (d\<lparr>td_shell := None, td_source := None\<rparr>)"
proof -
  have v: "valid_draft d" using validate_task_create_valid assms by blast
  have "td_deferred_values d = []" by (rule validate_task_create_Inr(7)[OF assms(1)])
  then have "d\<lparr>td_shell := None, td_source := None, td_deferred_values := []\<rparr> =
      d\<lparr>td_shell := None, td_source := None\<rparr>"
    by (cases d) simp
  with v revalidate[OF v] show ?thesis by simp
qed

theorem validation_normalizes_witness:
  "\<exists>d. validate_task_create ''/bin/sh''
     \<lparr>tp_name = JStr ''job'', tp_working_directory = JStr ''work'', tp_shell = None,
      tp_source = Some (Some ['' env.sh '']), tp_command = CmdStr ''make'', tp_labels = [JStr '' ci ''],
      tp_mutex_keys = [JStr ''gpu''], tp_custom = [], tp_template = None, tp_plugin_snapshot = [],
      tp_stop = Some [signal_action SIGINT 5]\<rparr> = Inr d
   \<and> td_labels d = [''ci''] \<and> td_source d = Some [''env.sh''] \<and> valid_draft d"
proof -
  let ?p = "\<lparr>tp_name = JStr ''job'', tp_working_directory = JStr ''work'', tp_shell = None,
      tp_source = Some (Some ['' env.sh '']), tp_command = CmdStr ''make'', tp_labels = [JStr '' ci ''],
      tp_mutex_keys = [JStr ''gpu''], tp_custom = [], tp_template = None, tp_plugin_snapshot = [],
      tp_stop = Some [signal_action SIGINT 5]\<rparr>"
  let ?d = "\<lparr>td_name = ''job'', td_working_directory = ''work'', td_shell = None,
      td_source = Some [''env.sh''], td_command = [''/bin/sh'', ''-ic'', SHELL_CWD_SENTINEL @ ''make''],
      td_labels = [''ci''], td_mutex_keys = [''gpu''], td_custom = [], td_template = None,
      td_plugin_snapshot = [], td_stop = Some [signal_action SIGINT 5], td_deferred_values = []\<rparr>"
  have d: "validate_task_create ''/bin/sh'' ?p = Inr ?d" by code_simp
  have "shell_ok ''/bin/sh''" by code_simp
  from validation_normalizes[OF d this] d show ?thesis by simp
qed

section \<open>Freezing a command and showing it again\<close>

fun nl_hash_free :: "string \<Rightarrow> bool" where
  "nl_hash_free (a # b # s) \<longleftrightarrow> \<not> (a = NL \<and> b = CHR ''#'') \<and> nl_hash_free (b # s)"
| "nl_hash_free _ \<longleftrightarrow> True"

lemma NL_neq_hash [simp]: "NL \<noteq> CHR ''#''"
  by (simp add: NL_def)

lemma nl_hash_free_append:
  "NL \<notin> set l \<Longrightarrow> nl_hash_free (l @ NL # t) \<longleftrightarrow> nl_hash_free (NL # t)"
proof (induction l)
  case Nil
  then show ?case by simp
next
  case (Cons c l)
  then have "c \<noteq> NL" by auto
  with Cons show ?case by (cases l) auto
qed

lemma nl_hash_free_NL: "l \<noteq> [] \<Longrightarrow> hd l \<noteq> CHR ''#'' \<Longrightarrow> nl_hash_free (NL # l) \<longleftrightarrow> nl_hash_free l"
  by (cases l) auto

lemma boundary_Cons:
  "SHELL_USER_COMMAND_BOUNDARY = NL # CHR ''#'' # '' localflow:user-command'' @ [NL]"
  by (simp add: SHELL_USER_COMMAND_BOUNDARY_def)

lemma split_first_boundary:
  assumes "nl_hash_free (pre @ [NL])"
  shows "split_first SHELL_USER_COMMAND_BOUNDARY (pre @ SHELL_USER_COMMAND_BOUNDARY @ u) = Some (pre, u)"
  using assms
proof (induction pre)
  case Nil
  show ?case by (rule split_first_insert) simp
next
  case (Cons c pre)
  have "\<not> starts_with (c # pre @ SHELL_USER_COMMAND_BOUNDARY @ u) SHELL_USER_COMMAND_BOUNDARY"
    using Cons.prems by (cases pre) (auto simp: boundary_Cons)
  moreover have "nl_hash_free (pre @ [NL])"
    using Cons.prems by (cases pre) auto
  ultimately show ?case using Cons.IH by simp
qed

text \<open>A line that neither opens a comment nor breaks in two.\<close>

definition plain_line :: "string \<Rightarrow> bool" where
  "plain_line l \<longleftrightarrow> l \<noteq> [] \<and> hd l \<noteq> CHR ''#'' \<and> NL \<notin> set l"

lemma nl_hash_free_lines:
  "list_all plain_line ls \<Longrightarrow> nl_hash_free (join [NL] ls @ [NL])"
proof (induction "[NL]" ls rule: join.induct)
  case 1
  show ?case by simp
next
  case (2 w)
  then show ?case by (simp add: plain_line_def nl_hash_free_append)
next
  case (3 w v ws)
  then have w: "NL \<notin> set w" and v: "v \<noteq> []" "hd v \<noteq> CHR ''#''"
    and IH: "nl_hash_free (join [NL] (v # ws) @ [NL])"
    by (auto simp: plain_line_def)
  let ?rest = "join [NL] (v # ws) @ [NL]"
  have "hd ?rest = hd v" and "?rest \<noteq> []"
    using v by (cases ws; simp)+
  with v IH have "nl_hash_free (NL # ?rest)" by (simp add: nl_hash_free_NL)
  with w have "nl_hash_free (w @ NL # ?rest)" by (simp add: nl_hash_free_append)
  then show ?case by simp
qed

lemma set_replace_char: "set (replace_char c r s) \<subseteq> set s \<union> set r"
  by (auto simp: replace_char_def split: if_splits)

lemma quote_no_NL: "NL \<notin> set s \<Longrightarrow> NL \<notin> set (shlex_quote s)"
  using set_replace_char[of SQ "[SQ, DQ, SQ, DQ, SQ]" s]
  by (auto simp: shlex_quote_def SQ_def DQ_def NL_def)

lemma source_keyword_quote:
  "shlex_quote ''source'' = ''source''" "shlex_quote ''localflow_source'' = ''localflow_source''"
  by (simp_all add: shlex_quote_def shell_safe_def Let_def)

lemma source_file_command_plain: "NL \<notin> set path \<Longrightarrow> plain_line (source_file_command path shell_name)"
  using quote_no_NL[of path]
  by (auto simp: plain_line_def source_file_command_def shlex_join_def source_keyword_quote NL_def)

lemma cd_line_plain: "NL \<notin> set wd \<Longrightarrow> plain_line (''cd '' @ shlex_quote wd)"
  using quote_no_NL[of wd] by (auto simp: plain_line_def NL_def)

lemma sh_helper_lines_plain: "list_all plain_line sh_helper_lines"
  by code_simp

lemma fixed_lines_plain:
  "plain_line (''if ( ! $?prompt ) set prompt = '' @ [DQ] @ ''localflow'' @ [DQ])"
  "plain_line ''if ( $status != 0 ) exit $status''"
  "plain_line ''set localflow_source_status $status''"
  "plain_line ''if test $localflow_source_status -ne 0''"
  "plain_line ''exit $localflow_source_status''"
  "plain_line ''end''"
  "plain_line ''localflow_source_status=$?''"
  "plain_line (''if [ '' @ [DQ] @ ''$localflow_source_status'' @ [DQ] @ '' -ne 0 ]; then '' @
               ''exit '' @ [DQ] @ ''$localflow_source_status'' @ [DQ] @ ''; fi'')"
  by code_simp+

lemma list_all_concat_map:
  "list_all P (concat (map f xs)) \<longleftrightarrow> (\<forall>x \<in> set xs. list_all P (f x))"
  by (auto simp: list_all_iff)

lemma source_lines_plain:
  assumes wd: "NL \<notin> set wd" and files: "\<forall>f \<in> set files. NL \<notin> set f"
  shows "list_all plain_line (source_lines files shell_name wd)"
proof -
  have src: "\<forall>f \<in> set files. plain_line (source_file_command f sn)" for sn
    using files by (blast intro: source_file_command_plain)
  note plain = src fixed_lines_plain cd_line_plain[OF wd] sh_helper_lines_plain
  show ?thesis
    by (simp only: source_lines_def csh_lines_def fish_lines_def sh_lines_def list_all_append
        list_all_concat_map list.pred_inject plain if_True if_False simp_thms ball_simps split: if_split)
      (simp add: src)
qed

lemma command_for_log_frozen:
  assumes "length command \<ge> 3" and "command ! 1 = ''-ic''"
    and "command ! 2 = cd_prefix wd @ body"
  shows "command_for_log command wd =
    (case split_first SHELL_USER_COMMAND_BOUNDARY body of
       Some (before, after) \<Rightarrow> after
     | None \<Rightarrow> (case split_first (source_boundary wd) body of
                  Some (before, after) \<Rightarrow> after | None \<Rightarrow> body))"
  using assms by (simp add: command_for_log_def)

lemma freeze_shape:
  assumes "has_sentinel command"
    and "freeze_command_working_directory realpath command wd source = Inr frozen"
  obtains files body where
    "resolve_source_files realpath source wd = Inr files"
    "body = (if files = [] then drop (length SHELL_CWD_SENTINEL) (command ! 2)
             else join [NL] (source_lines files (path_name (parse_path (command ! 0))) wd)
                  @ SHELL_USER_COMMAND_BOUNDARY @ drop (length SHELL_CWD_SENTINEL) (command ! 2))"
    "frozen = take 2 command @ [cd_prefix wd @ body] @ drop 3 command"
  using assms
  by (auto simp: freeze_command_working_directory_def Let_def bindR_Inr_iff)

lemma frozen_positions:
  assumes "3 \<le> length command" and "frozen = take 2 command @ [line] @ drop 3 command"
  shows "length frozen = length command" "frozen ! 1 = command ! 1" "frozen ! 2 = line"
    "frozen ! 0 = command ! 0"
  using assms by (auto simp: nth_append min_def)

text \<open>
  A string command that was normalized, bound to its working directory and stored is
  shown to the user exactly as the user wrote it: with source files, for every command text,
  when neither the directory nor a source path contains a line break; without source files,
  when the text does not contain one of the wrapper's own markers.
\<close>

theorem command_shown_as_written:
  assumes normalized: "normalize_command login_shell (CmdStr s) shell = Inr command"
    and frozen: "freeze_command_working_directory realpath command wd source = Inr frozen"
    and files: "resolve_source_files realpath source wd = Inr files"
    and with_source: "files \<noteq> [] \<Longrightarrow> NL \<notin> set wd \<and> (\<forall>f \<in> set files. NL \<notin> set f)"
    and without_source: "files = [] \<Longrightarrow> \<not> contains s SHELL_USER_COMMAND_BOUNDARY
       \<and> \<not> contains s (source_boundary wd)"
  shows "command_for_log frozen wd = s"
proof -
  from normalized obtain sh where command: "command = [sh, ''-ic'', SHELL_CWD_SENTINEL @ s]"
    by (auto simp: normalize_command_def split: if_splits)
  then have sentinel: "has_sentinel command" by (simp add: has_sentinel_def)
  obtain files' body where files': "resolve_source_files realpath source wd = Inr files'"
    and body': "body = (if files' = [] then drop (length SHELL_CWD_SENTINEL) (command ! 2)
             else join [NL] (source_lines files' (path_name (parse_path (command ! 0))) wd)
                  @ SHELL_USER_COMMAND_BOUNDARY @ drop (length SHELL_CWD_SENTINEL) (command ! 2))"
    and frozen': "frozen = take 2 command @ [cd_prefix wd @ body] @ drop 3 command"
    by (rule freeze_shape[OF sentinel frozen])
  have "files' = files" using files files' by simp
  moreover have "drop (length SHELL_CWD_SENTINEL) (command ! 2) = s" and "command ! 0 = sh"
    unfolding command by simp_all
  ultimately have body: "body = (if files = [] then s
             else join [NL] (source_lines files (path_name (parse_path sh)) wd)
                  @ SHELL_USER_COMMAND_BOUNDARY @ s)"
    using body' by (simp only:)
  have shape: "frozen = [sh, ''-ic'', cd_prefix wd @ body]"
    unfolding frozen' command by simp
  note log = command_for_log_frozen[of frozen wd body]
  show ?thesis
  proof (cases "files = []")
    case True
    with without_source body show ?thesis
      by (subst log) (auto simp: shape contains_def split: option.splits)
  next
    case False
    with with_source have "nl_hash_free (join [NL] (source_lines files (path_name (parse_path sh)) wd) @ [NL])"
      by (intro nl_hash_free_lines source_lines_plain) auto
    from split_first_boundary[OF this] False body show ?thesis
      by (subst log) (auto simp: shape)
  qed
qed

theorem command_shown_as_written_witness:
  "command_for_log
     [''/bin/bash'', ''-ic'',
      ''cd /srv/a && source /opt/env.sh'' @ [NL] @ ''localflow_source_status=$?'' @ [NL] @
      ''if [ '' @ [DQ] @ ''$localflow_source_status'' @ [DQ] @ '' -ne 0 ]; then exit '' @ [DQ] @
      ''$localflow_source_status'' @ [DQ] @ ''; fi'' @ [NL] @ ''cd /srv/a'' @
      SHELL_USER_COMMAND_BOUNDARY @ ''make all''] ''/srv/a'' = ''make all''"
proof -
  have n: "normalize_command ''/bin/sh'' (CmdStr ''make all'') (Some ''/bin/bash'')
     = Inr [''/bin/bash'', ''-ic'', SHELL_CWD_SENTINEL @ ''make all'']"
    by code_simp
  have f: "freeze_command_working_directory id [''/bin/bash'', ''-ic'', SHELL_CWD_SENTINEL @ ''make all'']
       ''/srv/a'' (Some [''/opt/env.sh'']) =
     Inr [''/bin/bash'', ''-ic'',
      ''cd /srv/a && source /opt/env.sh'' @ [NL] @ ''localflow_source_status=$?'' @ [NL] @
      ''if [ '' @ [DQ] @ ''$localflow_source_status'' @ [DQ] @ '' -ne 0 ]; then exit '' @ [DQ] @
      ''$localflow_source_status'' @ [DQ] @ ''; fi'' @ [NL] @ ''cd /srv/a'' @
      SHELL_USER_COMMAND_BOUNDARY @ ''make all'']"
    by code_simp
  have r: "resolve_source_files id (Some [''/opt/env.sh'']) ''/srv/a'' = Inr [''/opt/env.sh'']"
    by code_simp
  show ?thesis
    by (rule command_shown_as_written[OF n f r]) (simp_all add: NL_def)
qed

text \<open>
  Binding a command to a working directory happens once: a command that went through
  \<open>freeze_command_working_directory\<close> (in the plugin registry) is left alone when it goes
  through it again (in the task service), whatever directory and sources are given then.
\<close>

lemma freeze_idempotent:
  assumes "freeze_command_working_directory realpath command wd source = Inr frozen"
  shows "freeze_command_working_directory realpath' frozen wd' source' = Inr frozen"
proof (cases "has_sentinel command")
  case False
  with assms show ?thesis by (simp add: freeze_command_working_directory_def)
next
  case True
  then have len: "3 \<le> length command" by (simp add: has_sentinel_def)
  from freeze_shape[OF True assms] obtain body where
    "frozen = take 2 command @ [cd_prefix wd @ body] @ drop 3 command" .
  from frozen_positions(3)[OF len this] have "\<not> has_sentinel frozen"
    by (simp add: has_sentinel_def SHELL_CWD_SENTINEL_def cd_prefix_def)
  then show ?thesis by (simp add: freeze_command_working_directory_def)
qed

end
