(* ===== verification/LF_Store.thy ===== *)
theory LF_Store
  imports LF_Models LF_Variables
begin

text \<open>
  The store, \<^verbatim>\<open>src/src/localflow/storage.py\<close>: the SQLite tables as lists of rows and one
  definition per method of \<open>Store\<close>.

  A column that holds JSON text holds the value it decodes to; the values of the
  \<open>metadata\<close> table, all integers in decimal, are kept as integers. SQLite's constraints that
  the code runs into are primary keys (a violation raises \<open>IntegrityError\<close>); a transaction
  that raises leaves every table as it was. Each call of a clock (\<open>time.time\<close>,
  \<open>time.monotonic\<close>, \<open>datetime.now\<close>) reads the next instant of an arbitrary sequence \<open>clk\<close>: nothing is assumed
  about how the clock moves. \<open>sh\<close> is the login shell the validation of a command refers to.
\<close>

section \<open>Tables\<close>

record instant =
  i_unix :: int
  i_iso :: string
  i_mono :: real

type_synonym clock = "nat \<Rightarrow> instant"

record task_row =
  r_id :: string
  r_state :: task_state
  r_name :: string
  r_working_directory :: string
  r_command :: "string list"
  r_labels :: "string list"
  r_mutex_keys :: "string list"
  r_custom :: jdict
  r_template :: "string option"
  r_plugin_snapshot :: jdict
  r_stop :: "stop_strategy option"
  r_created_at :: string
  r_started_at :: "string option"
  r_ended_at :: "string option"
  r_exit_code :: "int option"
  r_pid :: "int option"
  r_executor_ref :: "string option"
  r_interrupt_stage :: "string option"
  r_blocked_by :: "string list"
  r_blocked_keys :: "string list"
  r_log_size :: int
  r_started_monotonic :: "real option"
  r_elapsed_seconds :: "real option"
  r_status :: task_status

text \<open>The data of an event: JSON values, and the clock readings of a transition.\<close>

datatype ev_value = EV json | EF "real option"

record event =
  e_id :: nat
  e_task_id :: "string option"
  e_kind :: string
  e_at :: string
  e_data :: "(string \<times> ev_value) list"

record idem_row =
  im_actor :: string
  im_route :: string
  im_key :: string
  im_response :: jdict
  im_created_at :: string

record batch_row =
  b_id :: string
  b_template :: string
  b_values :: jdict
  b_created_at :: string
  b_configuration_path :: "string option"

record batch_task =
  bt_batch_id :: string
  bt_task_id :: string
  bt_sequence :: nat

record db =
  db_tasks :: "task_row list"
  db_events :: "event list"
  db_event_seq :: nat
  db_acks :: "(string \<times> string \<times> string) list"
  db_idem :: "idem_row list"
  db_meta :: "(string, int) dict"
  db_batches :: "batch_row list"
  db_batch_tasks :: "batch_task list"
  db_ticks :: nat

definition empty_db :: db where
  "empty_db = \<lparr>db_tasks = [], db_events = [], db_event_seq = 0, db_acks = [], db_idem = [],
               db_meta = [], db_batches = [], db_batch_tasks = [], db_ticks = 0\<rparr>"

text \<open>Reading the clock, and \<open>BEGIN IMMEDIATE\<close> with \<open>COMMIT\<close> or, on an error, \<open>ROLLBACK\<close>.\<close>

definition tick :: "clock \<Rightarrow> (db, instant) op" where
  "tick clk d = (Inr (clk (db_ticks d)), d\<lparr>db_ticks := Suc (db_ticks d)\<rparr>)"

definition transaction :: "(db, 'a) op \<Rightarrow> (db, 'a) op" where
  "transaction f d = (case f d of
      (Inr a, d') \<Rightarrow> (Inr a, d')
    | (Inl e, d') \<Rightarrow> (Inl e, d\<lparr>db_ticks := db_ticks d'\<rparr>))"

section \<open>Display statuses\<close>

definition core_entry :: "string \<Rightarrow> string \<Rightarrow> bool \<Rightarrow> json" where
  "core_entry label tone finished =
     JObj [(''label'', JStr label), (''tone'', JStr tone), (''finished'', JBool finished)]"

definition core_statuses :: jdict where
  "core_statuses =
     [(''queued'', core_entry [CHR 0xE7, CHR 0xAD, CHR 0x89, CHR 0xE5, CHR 0xBE, CHR 0x85] ''neutral'' False),
      (''starting'', core_entry [CHR 0xE5, CHR 0x90, CHR 0xAF, CHR 0xE5, CHR 0x8A, CHR 0xA8, CHR 0xE4, CHR 0xB8, CHR 0xAD] ''info'' False),
      (''running'', core_entry [CHR 0xE8, CHR 0xBF, CHR 0x90, CHR 0xE8, CHR 0xA1, CHR 0x8C, CHR 0xE4, CHR 0xB8, CHR 0xAD] ''info'' False),
      (''stopping'', core_entry [CHR 0xE9, CHR 0x80, CHR 0x80, CHR 0xE5, CHR 0x87, CHR 0xBA, CHR 0xE4, CHR 0xB8, CHR 0xAD] ''warning'' False),
      (''succeeded'', core_entry [CHR 0xE5, CHR 0xAE, CHR 0x8C, CHR 0xE6, CHR 0x88, CHR 0x90] ''success'' True),
      (''failed'', core_entry [CHR 0xE5, CHR 0xA4, CHR 0xB1, CHR 0xE8, CHR 0xB4, CHR 0xA5] ''danger'' True),
      (''cancelled'', core_entry [CHR 0xE5, CHR 0xB7, CHR 0xB2, CHR 0xE4, CHR 0xB8, CHR 0xAD, CHR 0xE6, CHR 0x96, CHR 0xAD] ''warning'' True),
      (''lost'', core_entry [CHR 0xE7, CHR 0x8A, CHR 0xB6, CHR 0xE6, CHR 0x80, CHR 0x81, CHR 0xE4, CHR 0xB8, CHR 0xA2, CHR 0xE5, CHR 0xA4, CHR 0xB1] ''danger'' True)]"

text \<open>
  The dictionary lookup \<open>d.get(key, default)\<close> for a key that is itself a JSON value: only
  a text can be found, a list or an object is not hashable.
\<close>

definition hashable :: "json \<Rightarrow> bool" where
  "hashable j = (case j of JList _ \<Rightarrow> False | JObj _ \<Rightarrow> False | _ \<Rightarrow> True)"

definition jget_key :: "json \<Rightarrow> jdict \<Rightarrow> json \<Rightarrow> json" where
  "jget_key key d dflt = (case key of JStr k \<Rightarrow> jget k d dflt | _ \<Rightarrow> dflt)"

definition no_get :: "json \<Rightarrow> error" where
  "no_get j = AttributeError ''get''"

definition status_key :: "jdict \<Rightarrow> task_state \<Rightarrow> int option \<Rightarrow> string option \<Rightarrow> json result" where
  "status_key snapshot state exit_code interrupt_stage =
     (if state \<in> {QUEUED, STARTING, RUNNING, STOPPING, LOST} then
        (case jget ''lifecycle_statuses'' snapshot (JObj []) of
           JObj lifecycle \<Rightarrow> Inr (jget (state_value state) lifecycle (JStr (state_value state)))
         | j \<Rightarrow> Inl (no_get j))
      else if state = CANCELLED \<or> (interrupt_stage \<noteq> None \<and> interrupt_stage \<noteq> Some []) then
        Inr (jget ''interrupt_status'' snapshot (JStr ''cancelled''))
      else
        (case jget ''result_statuses'' snapshot (JObj []) of
           JObj rules \<Rightarrow>
             Inr (jget (case exit_code of None \<Rightarrow> ''None'' | Some c \<Rightarrow> int_str c) rules
                    (jget ''default'' rules (JStr (state_value state))))
         | j \<Rightarrow> Inl (no_get j)))"

definition display_status :: "jdict \<Rightarrow> task_state \<Rightarrow> int option \<Rightarrow> string option \<Rightarrow> task_status result" where
  "display_status snapshot state exit_code interrupt_stage =
     bindR (status_key snapshot state exit_code interrupt_stage) (\<lambda>key.
       let core_state = jget (state_value state) core_statuses JNull in
       case jget ''statuses'' snapshot (JObj []) of
         JObj statuses \<Rightarrow>
           if \<not> hashable key then Inl (TypeError ''unhashable type'')
           else
             (let found = jget_key key statuses (jget_key key core_statuses core_state);
                  (key, entry) = (case found of JObj e \<Rightarrow> (key, e)
                                  | _ \<Rightarrow> (JStr (state_value state),
                                          case core_state of JObj e \<Rightarrow> e | _ \<Rightarrow> []))
              in Inr \<lparr>ts_key = py_str key, ts_label = py_str (jget ''label'' entry key),
                      ts_tone = py_str (jget ''tone'' entry (JStr ''neutral'')),
                      ts_finished = truthy (jget ''finished'' entry (JBool (terminal state)))\<rparr>)
       | j \<Rightarrow> Inl (no_get j))"

section \<open>Rows and records\<close>

text \<open>
  \<open>_task\<close>: the record of a row. \<open>TaskRecord\<close> inherits the validators of \<open>TaskCreate\<close>, so
  reading a row validates it once more.
\<close>

definition row_draft :: "task_row \<Rightarrow> task_draft" where
  "row_draft r =
     \<lparr>td_name = r_name r, td_working_directory = r_working_directory r, td_shell = None,
      td_source = None, td_command = r_command r, td_labels = r_labels r,
      td_mutex_keys = r_mutex_keys r, td_custom = r_custom r, td_template = r_template r,
      td_plugin_snapshot = r_plugin_snapshot r, td_stop = r_stop r, td_deferred_values = []\<rparr>"

definition task_of :: "task_row \<Rightarrow> task_row result" where
  "task_of r =
     bindR (if ts_key (r_status r) \<noteq> [] then Inr (r_status r)
            else display_status (r_plugin_snapshot r) (r_state r) (r_exit_code r) (r_interrupt_stage r))
       (\<lambda>status. bindR (validate_task_create [] (dump_payload (row_draft r))) (\<lambda>v.
          Inr (r\<lparr>r_name := td_name v, r_working_directory := td_working_directory v,
                 r_command := td_command v, r_labels := td_labels v,
                 r_mutex_keys := td_mutex_keys v, r_custom := td_custom v,
                 r_template := td_template v, r_plugin_snapshot := td_plugin_snapshot v,
                 r_stop := td_stop v, r_status := status\<rparr>)))"

definition find_row :: "string \<Rightarrow> db \<Rightarrow> task_row option" where
  "find_row task_id d = find (\<lambda>r. r_id r = task_id) (db_tasks d)"

definition get_task :: "string \<Rightarrow> (db, task_row) op" where
  "get_task task_id d =
     ((case find_row task_id d of None \<Rightarrow> Inl (KeyError task_id) | Some r \<Rightarrow> task_of r), d)"

definition update_rows :: "(task_row \<Rightarrow> bool) \<Rightarrow> (task_row \<Rightarrow> task_row) \<Rightarrow> db \<Rightarrow> db" where
  "update_rows p f d = d\<lparr>db_tasks := map (\<lambda>r. if p r then f r else r) (db_tasks d)\<rparr>"

section \<open>Events\<close>

definition add_event ::
    "clock \<Rightarrow> string option \<Rightarrow> string \<Rightarrow> (string \<times> ev_value) list \<Rightarrow> (db, nat) op" where
  "add_event clk task_id kind data =
     bindS (tick clk) (\<lambda>now d.
       (Inr (Suc (db_event_seq d)),
        d\<lparr>db_events := db_events d @
             [\<lparr>e_id = Suc (db_event_seq d), e_task_id = task_id, e_kind = kind,
               e_at = i_iso now, e_data = data\<rparr>],
          db_event_seq := Suc (db_event_seq d)\<rparr>))"

definition events_after :: "nat \<Rightarrow> nat \<Rightarrow> db \<Rightarrow> event list" where
  "events_after after limit d =
     take limit (sort_key e_id (filter (\<lambda>e. after < e_id e) (db_events d)))"

definition latest_event_id :: "db \<Rightarrow> nat" where
  "latest_event_id d = fold max (map e_id (db_events d)) 0"

definition latest_event :: "string \<Rightarrow> db \<Rightarrow> event option" where
  "latest_event kind d =
     (case rev (sort_key e_id (filter (\<lambda>e. e_kind e = kind) (db_events d))) of
        [] \<Rightarrow> None | e # _ \<Rightarrow> Some e)"

section \<open>Deferred values\<close>

definition deferred_key :: "string \<Rightarrow> string \<Rightarrow> string" where
  "deferred_key source namespace = ''deferred:'' @ source @ '':'' @ namespace"

definition allocate_deferred :: "clock \<Rightarrow> string \<Rightarrow> string \<Rightarrow> (db, int) op" where
  "allocate_deferred clk source namespace d =
     (let previous = (case map_of (db_meta d) (deferred_key source namespace) of
                        Some v \<Rightarrow> v | None \<Rightarrow> 0)
      in if source = ''monotonic_unix'' then
           bindS (tick clk) (\<lambda>now d.
             let v = max (i_unix now) (previous + 1)
             in (Inr v, d\<lparr>db_meta := dict_set (deferred_key source namespace) v (db_meta d)\<rparr>)) d
         else (Inl (ValueError (''unsupported deferred value source: '' @ source)), d))"

text \<open>The six fields of a draft that are resolved, in the order of the code.\<close>

definition resolve_fields :: "resolver \<Rightarrow> task_draft \<Rightarrow> (jdict, json list) op" where
  "resolve_fields rv t =
     mapS (resolve rv)
       [JStr (td_name t), JStr (td_working_directory t), JList (map JStr (td_command t)),
        JList (map JStr (td_labels t)), JList (map JStr (td_mutex_keys t)), JObj (td_custom t)]"

definition resolved_payload :: "task_draft \<Rightarrow> (string, int) dict \<Rightarrow> task_payload result" where
  "resolved_payload t allocated =
     bindR (fst (resolve_fields (new_resolver
              [(''deferred'', map (\<lambda>(k, v). (k, JInt v)) allocated)] []) t [])) (\<lambda>vs.
       let custom = (case as_obj (vs ! 5) of Some c \<Rightarrow> c | None \<Rightarrow> []);
           collisions = filter (\<lambda>k. dict_has k allocated) (map fst custom)
       in if collisions \<noteq> []
          then Inl (ValueError (''deferred values collide with task custom fields: '' @
                      py_repr (JList (map JStr (sort collisions)))))
          else Inr \<lparr>tp_name = vs ! 0, tp_working_directory = vs ! 1, tp_shell = None,
                    tp_source = None, tp_command = CmdList (map py_str (as_list (vs ! 2))),
                    tp_labels = as_list (vs ! 3), tp_mutex_keys = as_list (vs ! 4),
                    tp_custom = dict_update custom (map (\<lambda>(k, v). (k, JInt v)) allocated),
                    tp_template = td_template t, tp_plugin_snapshot = td_plugin_snapshot t,
                    tp_stop = td_stop t\<rparr>)"

definition materialize_draft :: "string \<Rightarrow> clock \<Rightarrow> task_draft \<Rightarrow> (db, task_draft) op" where
  "materialize_draft sh clk t =
     (if td_deferred_values t = [] then liftS (validate_task_create sh (dump_payload t))
      else
        bindS (mapS (\<lambda>(name, request).
                 bindS (allocate_deferred clk (dv_source request) (dv_namespace request))
                   (\<lambda>v. retS (name, v))) (td_deferred_values t)) (\<lambda>allocated.
        bindS (liftS (resolved_payload t allocated)) (\<lambda>p.
          liftS (validate_task_create sh p))))"

section \<open>Creating tasks\<close>

definition new_row :: "string \<Rightarrow> task_draft \<Rightarrow> string \<Rightarrow> task_status \<Rightarrow> task_row" where
  "new_row task_id t created_at status =
     \<lparr>r_id = task_id, r_state = QUEUED, r_name = td_name t,
      r_working_directory = td_working_directory t, r_command = td_command t,
      r_labels = td_labels t, r_mutex_keys = td_mutex_keys t, r_custom = td_custom t,
      r_template = td_template t, r_plugin_snapshot = td_plugin_snapshot t, r_stop = td_stop t,
      r_created_at = created_at, r_started_at = None, r_ended_at = None, r_exit_code = None,
      r_pid = None, r_executor_ref = None, r_interrupt_stage = None, r_blocked_by = [],
      r_blocked_keys = [], r_log_size = 0, r_started_monotonic = None, r_elapsed_seconds = None,
      r_status = status\<rparr>"

definition insert_task :: "task_row \<Rightarrow> (db, unit) op" where
  "insert_task r d =
     (if r_id r \<in> r_id ` set (db_tasks d)
      then (Inl (IntegrityError ''UNIQUE constraint failed: tasks.id''), d)
      else (Inr (), d\<lparr>db_tasks := db_tasks d @ [r]\<rparr>))"

definition create_task :: "string \<Rightarrow> clock \<Rightarrow> string \<Rightarrow> task_draft \<Rightarrow> (db, task_row) op" where
  "create_task sh clk task_id draft =
     bindS (transaction (
       bindS (materialize_draft sh clk draft) (\<lambda>t.
       bindS (liftS (display_status (td_plugin_snapshot t) QUEUED None None)) (\<lambda>status.
       bindS (tick clk) (\<lambda>now.
       bindS (insert_task (new_row task_id t (i_iso now) status)) (\<lambda>_.
         add_event clk (Some task_id) ''task.queued'' [(''state'', EV (JStr ''queued''))])))))) (\<lambda>_.
     get_task task_id)"

definition insert_batch :: "batch_row \<Rightarrow> (db, unit) op" where
  "insert_batch b d =
     (if b_id b \<in> b_id ` set (db_batches d)
      then (Inl (IntegrityError ''UNIQUE constraint failed: batches.id''), d)
      else (Inr (), d\<lparr>db_batches := db_batches d @ [b]\<rparr>))"

definition insert_batch_task :: "string \<Rightarrow> string \<Rightarrow> nat \<Rightarrow> (db, unit) op" where
  "insert_batch_task batch_id task_id sequence d =
     (if \<exists>bt \<in> set (db_batch_tasks d). bt_batch_id bt = batch_id \<and> bt_task_id bt = task_id
      then (Inl (IntegrityError ''UNIQUE constraint failed: batch_tasks''), d)
      else (Inr (), d\<lparr>db_batch_tasks := db_batch_tasks d @
              [\<lparr>bt_batch_id = batch_id, bt_task_id = task_id, bt_sequence = sequence\<rparr>]\<rparr>))"

definition find_idem :: "string \<Rightarrow> string \<Rightarrow> string \<Rightarrow> db \<Rightarrow> idem_row option" where
  "find_idem actor route key d =
     find (\<lambda>i. im_actor i = actor \<and> im_route i = route \<and> im_key i = key) (db_idem d)"

definition insert_idem :: "string \<Rightarrow> string \<Rightarrow> string \<Rightarrow> jdict \<Rightarrow> string \<Rightarrow> (db, unit) op" where
  "insert_idem actor route key response created_at d =
     (if find_idem actor route key d \<noteq> None
      then (Inl (IntegrityError ''UNIQUE constraint failed: idempotency''), d)
      else (Inr (), d\<lparr>db_idem := db_idem d @
              [\<lparr>im_actor = actor, im_route = route, im_key = key, im_response = response,
                im_created_at = created_at\<rparr>]\<rparr>))"

text \<open>The ids listed by a stored response.\<close>

definition response_task_ids :: "jdict \<Rightarrow> string list result" where
  "response_task_ids response =
     (case map_of response ''task_ids'' of
        None \<Rightarrow> Inl (KeyError ''task_ids'')
      | Some ids \<Rightarrow> Inr (map py_str (as_list ids)))"

fun create_batch_tasks ::
    "string \<Rightarrow> clock \<Rightarrow> string \<Rightarrow> string \<Rightarrow> nat \<Rightarrow> (string \<times> task_draft) list \<Rightarrow> (db, unit) op" where
  "create_batch_tasks sh clk batch_id created_at sequence [] d = (Inr (), d)"
| "create_batch_tasks sh clk batch_id created_at sequence ((task_id, draft) # rest) d =
     bindS (materialize_draft sh clk draft) (\<lambda>t.
     bindS (liftS (display_status (td_plugin_snapshot t) QUEUED None None)) (\<lambda>status.
     bindS (insert_task (new_row task_id t created_at status)) (\<lambda>_.
     bindS (insert_batch_task batch_id task_id sequence) (\<lambda>_.
     bindS (add_event clk (Some task_id) ''task.queued''
             [(''state'', EV (JStr ''queued'')), (''batch_id'', EV (JStr batch_id)),
              (''sequence'', EV (JInt (int sequence)))]) (\<lambda>_.
       create_batch_tasks sh clk batch_id created_at (Suc sequence) rest))))) d"

definition new_batch ::
    "string \<Rightarrow> clock \<Rightarrow> string \<Rightarrow> string \<Rightarrow> jdict \<Rightarrow> (string \<times> task_draft) list \<Rightarrow>
     (string \<times> string \<times> string \<times> jdict) option \<Rightarrow> string \<Rightarrow> (db, unit) op" where
  "new_batch sh clk batch_id template request_values tasks idempotency created_at =
     bindS (insert_batch \<lparr>b_id = batch_id, b_template = template, b_values = request_values,
              b_created_at = created_at,
              b_configuration_path =
                (case map_of request_values ''configuration_path'' of
                   Some v \<Rightarrow> as_str v | None \<Rightarrow> None)\<rparr>) (\<lambda>_.
     bindS (create_batch_tasks sh clk batch_id created_at 0 tasks) (\<lambda>_.
     bindS (add_event clk None ''batch.created''
             [(''batch_id'', EV (JStr batch_id)), (''count'', EV (JInt (int (length tasks))))]) (\<lambda>_.
       (case idempotency of
          None \<Rightarrow> retS ()
        | Some (actor, route, key, response) \<Rightarrow> insert_idem actor route key response created_at))))"

definition create_batch ::
    "string \<Rightarrow> clock \<Rightarrow> string \<Rightarrow> string \<Rightarrow> jdict \<Rightarrow> (string \<times> task_draft) list \<Rightarrow>
     (string \<times> string \<times> string \<times> jdict) option \<Rightarrow> (db, task_row list \<times> jdict option) op" where
  "create_batch sh clk batch_id template request_values tasks idempotency =
     bindS (tick clk) (\<lambda>now d.
       case (case idempotency of None \<Rightarrow> None
             | Some (actor, route, key, _) \<Rightarrow> find_idem actor route key d) of
         Some existing \<Rightarrow>
           bindS (liftS (response_task_ids (im_response existing))) (\<lambda>ids.
           bindS (mapS get_task ids) (\<lambda>records.
             retS (records, Some (im_response existing)))) d
       | None \<Rightarrow>
           bindS (transaction
               (new_batch sh clk batch_id template request_values tasks idempotency (i_iso now))) (\<lambda>_.
           bindS (mapS (\<lambda>(task_id, _). get_task task_id) tasks) (\<lambda>records.
             retS (records, None))) d)"

section \<open>Batches and the configuration history\<close>

definition get_batch :: "string \<Rightarrow> db \<Rightarrow> (batch_row \<times> string list) result" where
  "get_batch batch_id d =
     (case find (\<lambda>b. b_id b = batch_id) (db_batches d) of
        None \<Rightarrow> Inl (KeyError batch_id)
      | Some b \<Rightarrow> Inr (b, map bt_task_id (sort_key bt_sequence
                      (filter (\<lambda>bt. bt_batch_id bt = batch_id) (db_batch_tasks d)))))"

text \<open>
  \<open>GROUP BY configuration_path\<close> with the latest use of each, newest first and then by path:
  a stable sort by path followed by a stable descending sort by the time.
\<close>

definition config_uses :: "db \<Rightarrow> (string \<times> string) list" where
  "config_uses d = List.map_filter (\<lambda>b. map_option (\<lambda>p. (p, b_created_at b)) (b_configuration_path b))
                     (db_batches d)"

definition list_recent_configurations :: "db \<Rightarrow> (string \<times> string) list" where
  "list_recent_configurations d =
     (let uses = config_uses d;
          paths = sort (remdups (map fst uses));
          latest = map (\<lambda>p. (p, fold max (map snd (filter (\<lambda>u. fst u = p) uses)) [])) paths
      in rev (sort_key snd (rev latest)))"

text \<open>\<open>LIKE\<close> ignores the case of ASCII letters.\<close>

definition ascii_lower :: "char \<Rightarrow> char" where
  "ascii_lower c = (let n = of_char c :: nat in if 65 \<le> n \<and> n \<le> 90 then char_of (n + 32) else c)"

definition like_prefix :: "string \<Rightarrow> string \<Rightarrow> bool" where
  "like_prefix s prefix \<longleftrightarrow> starts_with (map ascii_lower s) (map ascii_lower prefix)"

definition like_infix :: "string \<Rightarrow> string \<Rightarrow> bool" where
  "like_infix s needle \<longleftrightarrow> contains (map ascii_lower s) (map ascii_lower needle)"

definition remap_configuration_history :: "string \<Rightarrow> string \<Rightarrow> db \<Rightarrow> db" where
  "remap_configuration_history source target d =
     d\<lparr>db_batches := map (\<lambda>b. case b_configuration_path b of
          None \<Rightarrow> b
        | Some p \<Rightarrow> if p = source \<or> like_prefix p (source @ ''/'')
                    then b\<lparr>b_configuration_path := Some (target @ drop (length source) p)\<rparr>
                    else b) (db_batches d)\<rparr>"

section \<open>Listing tasks\<close>

record task_query =
  q_states :: "string list"
  q_labels :: "string list"
  q_name :: "string option"
  q_created_from :: "string option"
  q_created_to :: "string option"
  q_started_from :: "string option"
  q_started_to :: "string option"
  q_ended_from :: "string option"
  q_ended_to :: "string option"
  q_limit :: int
  q_before :: "(string \<times> string) option"
  q_after :: "(string \<times> string) option"
  q_ascending :: bool

definition any_query :: task_query where
  "any_query = \<lparr>q_states = [], q_labels = [], q_name = None, q_created_from = None,
     q_created_to = None, q_started_from = None, q_started_to = None, q_ended_from = None,
     q_ended_to = None, q_limit = 100, q_before = None, q_after = None, q_ascending = False\<rparr>"

text \<open>A comparison with an SQL \<open>NULL\<close> is not true.\<close>

definition from_bound :: "string option \<Rightarrow> string option \<Rightarrow> bool" where
  "from_bound column bound = (case bound of None \<Rightarrow> True
     | Some b \<Rightarrow> (case column of None \<Rightarrow> False | Some v \<Rightarrow> b \<le> v))"

definition to_bound :: "string option \<Rightarrow> string option \<Rightarrow> bool" where
  "to_bound column bound = (case bound of None \<Rightarrow> True
     | Some b \<Rightarrow> (case column of None \<Rightarrow> False | Some v \<Rightarrow> v \<le> b))"

definition row_key :: "task_row \<Rightarrow> string \<times> string" where
  "row_key r = (r_created_at r, r_id r)"

definition query_matches :: "task_query \<Rightarrow> task_row \<Rightarrow> bool" where
  "query_matches q r \<longleftrightarrow>
     (q_states q = [] \<or> state_value (r_state r) \<in> set (q_states q)) \<and>
     (case q_name q of None \<Rightarrow> True | Some n \<Rightarrow> n = [] \<or> like_infix (r_name r) n) \<and>
     list_all (\<lambda>l. l \<in> set (r_labels r)) (q_labels q) \<and>
     from_bound (Some (r_created_at r)) (q_created_from q) \<and>
     to_bound (Some (r_created_at r)) (q_created_to q) \<and>
     from_bound (r_started_at r) (q_started_from q) \<and>
     to_bound (r_started_at r) (q_started_to q) \<and>
     from_bound (r_ended_at r) (q_ended_from q) \<and>
     to_bound (r_ended_at r) (q_ended_to q) \<and>
     (case q_before q of None \<Rightarrow> True | Some (c, i) \<Rightarrow>
        r_created_at r < c \<or> (r_created_at r = c \<and> r_id r < i)) \<and>
     (case q_after q of None \<Rightarrow> True | Some (c, i) \<Rightarrow>
        c < r_created_at r \<or> (r_created_at r = c \<and> i < r_id r))"

definition clamp_limit :: "int \<Rightarrow> nat" where
  "clamp_limit limit = nat (min (max limit 1) 10000)"

definition select_rows :: "task_query \<Rightarrow> db \<Rightarrow> task_row list" where
  "select_rows q d =
     (let found = sort_key row_key (filter (query_matches q) (db_tasks d))
      in take (clamp_limit (q_limit q)) (if q_ascending q then found else rev found))"

text \<open>For evaluation: the limit is compared as an integer.\<close>

lemma select_rows_code [code]:
  "select_rows q d =
     (let found = sort_key row_key (filter (query_matches q) (db_tasks d));
          found = (if q_ascending q then found else rev found);
          limit = min (max (q_limit q) 1) 10000
      in if int (length found) \<le> limit then found else take (nat limit) found)"
  by (simp add: select_rows_def clamp_limit_def Let_def) (simp add: le_nat_iff)

definition list_tasks :: "task_query \<Rightarrow> (db, task_row list) op" where
  "list_tasks q d = (mapR task_of (select_rows q d), d)"

section \<open>Changing the state of a task\<close>

text \<open>
  The keyword arguments of \<open>transition\<close>: one constructor per column it may assign, and any
  other name.
\<close>

datatype task_field =
    F_started_at "string option"
  | F_ended_at "string option"
  | F_exit_code "int option"
  | F_pid "int option"
  | F_executor_ref "string option"
  | F_interrupt_stage "string option"
  | F_blocked_by_json "string list"
  | F_log_size int
  | F_started_monotonic "real option"
  | F_elapsed_seconds "real option"
  | F_custom_json jdict
  | F_other string json

fun set_field :: "task_field \<Rightarrow> task_row \<Rightarrow> task_row" where
  "set_field (F_started_at v) r = r\<lparr>r_started_at := v\<rparr>"
| "set_field (F_ended_at v) r = r\<lparr>r_ended_at := v\<rparr>"
| "set_field (F_exit_code v) r = r\<lparr>r_exit_code := v\<rparr>"
| "set_field (F_pid v) r = r\<lparr>r_pid := v\<rparr>"
| "set_field (F_executor_ref v) r = r\<lparr>r_executor_ref := v\<rparr>"
| "set_field (F_interrupt_stage v) r = r\<lparr>r_interrupt_stage := v\<rparr>"
| "set_field (F_blocked_by_json v) r = r\<lparr>r_blocked_by := v\<rparr>"
| "set_field (F_log_size v) r = r\<lparr>r_log_size := v\<rparr>"
| "set_field (F_started_monotonic v) r = r\<lparr>r_started_monotonic := v\<rparr>"
| "set_field (F_elapsed_seconds v) r = r\<lparr>r_elapsed_seconds := v\<rparr>"
| "set_field (F_custom_json v) r = r\<lparr>r_custom := v\<rparr>"
| "set_field (F_other k v) r = r"

definition opt_json :: "('a \<Rightarrow> json) \<Rightarrow> 'a option \<Rightarrow> ev_value" where
  "opt_json f v = EV (case v of None \<Rightarrow> JNull | Some x \<Rightarrow> f x)"

text \<open>The entry of a field in the event; \<open>custom_json\<close> and \<open>blocked_by_json\<close> are there as JSON text.\<close>

fun field_entry :: "task_field \<Rightarrow> string \<times> ev_value" where
  "field_entry (F_started_at v) = (''started_at'', opt_json JStr v)"
| "field_entry (F_ended_at v) = (''ended_at'', opt_json JStr v)"
| "field_entry (F_exit_code v) = (''exit_code'', opt_json JInt v)"
| "field_entry (F_pid v) = (''pid'', opt_json JInt v)"
| "field_entry (F_executor_ref v) = (''executor_ref'', opt_json JStr v)"
| "field_entry (F_interrupt_stage v) = (''interrupt_stage'', opt_json JStr v)"
| "field_entry (F_blocked_by_json v) = (''blocked_by_json'', EV (JList (map JStr v)))"
| "field_entry (F_log_size v) = (''log_size'', EV (JInt v))"
| "field_entry (F_started_monotonic v) = (''started_monotonic'', EF v)"
| "field_entry (F_elapsed_seconds v) = (''elapsed_seconds'', EF v)"
| "field_entry (F_custom_json v) = (''custom_json'', EV (JObj v))"
| "field_entry (F_other k v) = (k, EV v)"

definition new_exit_code :: "task_field list \<Rightarrow> int option \<Rightarrow> int option" where
  "new_exit_code flds old = foldl (\<lambda>c f. case f of F_exit_code v \<Rightarrow> v | _ \<Rightarrow> c) old flds"

definition new_interrupt_stage :: "task_field list \<Rightarrow> string option \<Rightarrow> string option" where
  "new_interrupt_stage flds old =
     foldl (\<lambda>c f. case f of F_interrupt_stage v \<Rightarrow> v | _ \<Rightarrow> c) old flds"

definition unsupported_field :: "task_field list \<Rightarrow> string option" where
  "unsupported_field flds =
     (case List.map_filter (\<lambda>f. case f of F_other k _ \<Rightarrow> Some k | _ \<Rightarrow> None) flds of
        [] \<Rightarrow> None | k # _ \<Rightarrow> Some k)"

definition apply_transition :: "task_state \<Rightarrow> task_status \<Rightarrow> task_field list \<Rightarrow> task_row \<Rightarrow> task_row" where
  "apply_transition state status flds r =
     foldl (\<lambda>r f. set_field f r) (r\<lparr>r_state := state, r_status := status\<rparr>) flds"

definition transition ::
    "clock \<Rightarrow> string \<Rightarrow> task_state list \<Rightarrow> task_state \<Rightarrow> task_status option \<Rightarrow>
     task_field list \<Rightarrow> (db, bool) op" where
  "transition clk task_id expected state status_override flds d =
     (if expected = [] then (Inr False, d)
      else case find_row task_id d of
        None \<Rightarrow> (Inr False, d)
      | Some r \<Rightarrow>
          bindS (liftS (case status_override of
                   Some status \<Rightarrow> Inr status
                 | None \<Rightarrow> display_status (r_plugin_snapshot r) state
                             (new_exit_code flds (r_exit_code r))
                             (new_interrupt_stage flds (r_interrupt_stage r)))) (\<lambda>status.
            case unsupported_field flds of
              Some k \<Rightarrow> failS (ValueError (''unsupported task field: '' @ k))
            | None \<Rightarrow>
                transaction (\<lambda>d.
                  if \<exists>r \<in> set (db_tasks d). r_id r = task_id \<and> r_state r \<in> set expected
                  then bindS (add_event clk (Some task_id) (''task.'' @ state_value state)
                               ((''state'', EV (JStr (state_value state))) # map field_entry flds))
                         (\<lambda>_. retS True)
                         (update_rows (\<lambda>r. r_id r = task_id \<and> r_state r \<in> set expected)
                            (apply_transition state status flds) d)
                  else (Inr False, d))) d)"

definition set_blocked_by :: "clock \<Rightarrow> string \<Rightarrow> string list \<Rightarrow> string list \<Rightarrow> (db, unit) op" where
  "set_blocked_by clk task_id blockers keys d =
     (let encoded = sort (remdups blockers);
          encoded_keys = sort (remdups keys)
      in case find (\<lambda>r. r_id r = task_id \<and> r_state r = QUEUED) (db_tasks d) of
           None \<Rightarrow> (Inr (), d)
         | Some r \<Rightarrow>
             if r_blocked_by r = encoded \<and> r_blocked_keys r = encoded_keys then (Inr (), d)
             else bindS (add_event clk (Some task_id) ''task.blocked''
                          [(''blocked_by'', EV (JList (map JStr blockers))),
                           (''blocked_keys'', EV (JList (map JStr keys)))])
                    (\<lambda>_. retS ())
                    (update_rows (\<lambda>r. r_id r = task_id \<and> r_state r = QUEUED)
                       (\<lambda>r. r\<lparr>r_blocked_by := encoded, r_blocked_keys := encoded_keys\<rparr>) d))"

definition snapshot_stop :: "string \<Rightarrow> stop_strategy \<Rightarrow> db \<Rightarrow> db" where
  "snapshot_stop task_id strategy =
     update_rows (\<lambda>r. r_id r = task_id \<and> r_stop r = None) (\<lambda>r. r\<lparr>r_stop := Some strategy\<rparr>)"

definition set_log_size :: "string \<Rightarrow> int \<Rightarrow> db \<Rightarrow> db" where
  "set_log_size task_id n =
     update_rows (\<lambda>r. r_id r = task_id) (\<lambda>r. r\<lparr>r_log_size := max n 0\<rparr>)"

section \<open>Acknowledgements and idempotency\<close>

definition acknowledge :: "clock \<Rightarrow> string \<Rightarrow> string \<Rightarrow> (db, unit) op" where
  "acknowledge clk task_id viewer =
     bindS (get_task task_id) (\<lambda>_.
     bindS (tick clk) (\<lambda>now d.
       (Inr (), d\<lparr>db_acks := filter (\<lambda>(t, v, _). \<not> (t = task_id \<and> v = viewer)) (db_acks d)
                            @ [(task_id, viewer, i_iso now)]\<rparr>)))"

definition is_acknowledged :: "string \<Rightarrow> string \<Rightarrow> db \<Rightarrow> bool" where
  "is_acknowledged task_id viewer d \<longleftrightarrow> list_ex (\<lambda>(t, v, _). t = task_id \<and> v = viewer) (db_acks d)"

definition idempotency_get :: "string \<Rightarrow> string \<Rightarrow> string \<Rightarrow> db \<Rightarrow> jdict option" where
  "idempotency_get actor route key d = map_option im_response (find_idem actor route key d)"

definition idempotency_put :: "clock \<Rightarrow> string \<Rightarrow> string \<Rightarrow> string \<Rightarrow> jdict \<Rightarrow> (db, unit) op" where
  "idempotency_put clk actor route key response =
     bindS (tick clk) (\<lambda>now d.
       if find_idem actor route key d \<noteq> None then (Inr (), d)
       else insert_idem actor route key response (i_iso now) d)"

section \<open>Retention\<close>

definition expired :: "string \<Rightarrow> task_row \<Rightarrow> bool" where
  "expired ended_before r \<longleftrightarrow>
     (case r_ended_at r of None \<Rightarrow> False | Some t \<Rightarrow> t < ended_before) \<and> terminal (r_state r)"

definition terminal_task_ids_before :: "string \<Rightarrow> db \<Rightarrow> string list" where
  "terminal_task_ids_before ended_before d = map r_id (filter (expired ended_before) (db_tasks d))"

definition terminal_task_ids_oldest :: "db \<Rightarrow> string list" where
  "terminal_task_ids_oldest d =
     map r_id (sort_key (\<lambda>r. (the (r_ended_at r), r_id r))
       (filter (\<lambda>r. r_ended_at r \<noteq> None \<and> terminal (r_state r)) (db_tasks d)))"

definition delete_tasks :: "string list \<Rightarrow> db \<Rightarrow> db" where
  "delete_tasks task_ids d =
     (let batch_tasks = filter (\<lambda>bt. bt_task_id bt \<notin> set task_ids) (db_batch_tasks d)
      in d\<lparr>db_acks := filter (\<lambda>(t, _). t \<notin> set task_ids) (db_acks d),
           db_batch_tasks := batch_tasks,
           db_events := filter (\<lambda>e. case e_task_id e of None \<Rightarrow> True | Some t \<Rightarrow> t \<notin> set task_ids)
                          (db_events d),
           db_tasks := filter (\<lambda>r. r_id r \<notin> set task_ids) (db_tasks d),
           db_batches := filter (\<lambda>b. b_id b \<in> bt_batch_id ` set batch_tasks) (db_batches d)\<rparr>)"

definition purge_retention :: "string \<Rightarrow> string \<Rightarrow> string \<Rightarrow> (db, string list) op" where
  "purge_retention tasks_before events_before idempotency_before d =
     (let task_ids = terminal_task_ids_before tasks_before d;
          d = (if task_ids \<noteq> [] then delete_tasks task_ids d else d)
      in (Inr task_ids,
          d\<lparr>db_events := filter (\<lambda>e. \<not> e_at e < events_before) (db_events d),
            db_idem := filter (\<lambda>i. \<not> im_created_at i < idempotency_before) (db_idem d)\<rparr>))"

definition purge_terminal_task :: "string \<Rightarrow> (db, bool) op" where
  "purge_terminal_task task_id =
     bindS (get_task task_id) (\<lambda>task d.
       if \<not> terminal (r_state task) then (Inr False, d)
       else (Inr True, delete_tasks [task_id] d))"

section \<open>Opening an older database\<close>

definition migrate_row :: "clock \<Rightarrow> task_row \<Rightarrow> (db, unit) op" where
  "migrate_row clk r =
     (if map_of (r_custom r) ''_runtime_seed'' \<noteq> Some (JStr ''unix'') then retS ()
      else
        bindS (allocate_deferred clk ''monotonic_unix'' ''verification.seed'') (\<lambda>seed.
        let rv = new_resolver [(''deferred'', [(''seed'', JInt seed)])] [] in
        bindS (liftS (fst (mapS (resolve rv)
                  [JList (map JStr (r_command r)), JObj (r_custom r)] []))) (\<lambda>vs d.
          let command = map py_str (as_list (vs ! 0));
              custom = (case as_obj (vs ! 1) of Some c \<Rightarrow> c | None \<Rightarrow> []);
              custom = dict_set ''seed'' (JInt seed) (dict_pop ''_runtime_seed'' custom)
          in (Inr (), update_rows (\<lambda>q. r_id q = r_id r \<and> r_state q = QUEUED)
                        (\<lambda>q. q\<lparr>r_command := command, r_custom := custom\<rparr>) d))))"

definition migrate_legacy_runtime_seeds :: "clock \<Rightarrow> (db, unit) op" where
  "migrate_legacy_runtime_seeds clk =
     transaction (\<lambda>d. bindS (mapS (migrate_row clk) (filter (\<lambda>r. r_state r = QUEUED) (db_tasks d)))
                        (\<lambda>_. retS ()) d)"

end
