(* ===== verification/LF_Service.thy ===== *)
theory LF_Service
  imports LF_Store
begin

text \<open>
  The task service, \<^verbatim>\<open>src/src/localflow/service.py\<close>. The code runs on one asyncio event
  loop: a coroutine runs without interruption from one \<open>await\<close> to the next. Every such segment
  is a definition here, a function on the state of the service; the coroutine that waits at an
  \<open>await\<close> is a value of \<open>coro\<close> in the state, with the local variables it still needs.
  What the executor, the clock, the file system and the result evaluator answer are inputs.
\<close>

section \<open>State\<close>

text \<open>What a coroutine that is suspended waits for, with its local variables.\<close>

datatype coro =
    C_start string
  | C_start_exec task_row
  | C_wait_exec string nat
  | C_wait_running string nat task_row
  | C_wait_completed string nat task_row bool
  | C_wait_sleep string nat
  | C_wait_eval string int task_row
  | C_int_begin string real real
  | C_int_apply string nat stop_action "stop_action list" task_row int
  | C_int_wait string nat stop_action "stop_action list" int real real string
  | C_int_poll string nat
  | C_int_kill string
  | C_conf_sleep string nat bool
  | C_conf_running string nat bool task_row
  | C_conf_completed string nat bool task_row bool
  | C_conf_kill string nat bool
  | C_shut_kill string
  | C_rec_page "(string \<times> string) option"
  | C_rec_completed task_row "task_row list" "(string \<times> string) option"
  | C_rec_running task_row "int option" "task_row list" "(string \<times> string) option"
  | C_rec_eval task_row int "task_row list" "(string \<times> string) option"

text \<open>
  The attributes of \<open>TaskService\<close>, the log directories, the number of calls of the terminal
  callback, the tasks \<open>executor.start\<close> was called for, in order, the task ids handed out by
  \<open>new_id\<close>, and the suspended coroutines.
\<close>

record svc =
  sv_db :: db
  sv_starters :: "string list"
  sv_waiters :: "string list"
  sv_interrupts :: "string list"
  sv_advances :: "(string, bool) dict"
  sv_wake :: bool
  sv_stopping :: bool
  sv_queue_cursor :: "(string \<times> string) option"
  sv_log_dirs :: "(string, int) dict"
  sv_terminals :: nat
  sv_launched :: "string list"
  sv_issued :: "string list"
  sv_coros :: "coro list"

text \<open>
  What the service is given: the login shell, the clock, \<open>Path.resolve\<close>, the working root, the
  admission limit, whether a result evaluator is installed, the boot ids found at start (the
  host's and the one recorded by the last start, when they could be read), and the size and the content of a
  task's \<open>output.log\<close> at the moments they are read.
\<close>

record env =
  en_sh :: string
  en_clock :: clock
  en_realpath :: "ppath \<Rightarrow> ppath"
  en_working_root :: ppath
  en_max_concurrency :: "int option"
  en_has_evaluator :: bool
  en_boot_id :: "string option"
  en_previous_boot :: "string option"
  en_log_size :: "nat \<Rightarrow> string \<Rightarrow> int"
  en_read_log :: "nat \<Rightarrow> string \<Rightarrow> int \<Rightarrow> string \<times> int"

text \<open>What an \<open>await\<close> returns; \<open>Inl\<close> is an exception raised there.\<close>

datatype answer =
    A_go
  | A_cancel
  | A_started "(int option \<times> string option) result"
  | A_exit "int result"
  | A_running "bool result"
  | A_completed "int option result"
  | A_done "unit result"
  | A_applied "real result"
  | A_evaluated "(task_status \<times> jdict) option result"

definition onDb :: "(db, 'a) op \<Rightarrow> (svc, 'a) op" where
  "onDb f s = (case f (sv_db s) of (r, d) \<Rightarrow> (r, s\<lparr>sv_db := d\<rparr>))"

definition upd :: "(svc \<Rightarrow> svc) \<Rightarrow> (svc, unit) op" where
  "upd f s = (Inr (), f s)"

definition getS :: "(svc \<Rightarrow> 'a) \<Rightarrow> (svc, 'a) op" where
  "getS f s = (Inr (f s), s)"

definition spawn :: "coro \<Rightarrow> (svc, unit) op" where
  "spawn c = upd (\<lambda>s. s\<lparr>sv_coros := sv_coros s @ [c]\<rparr>)"

definition set_add :: "'a \<Rightarrow> 'a list \<Rightarrow> 'a list" where
  "set_add x xs = (if x \<in> set xs then xs else xs @ [x])"

definition wake :: "(svc, unit) op" where
  "wake = upd (\<lambda>s. s\<lparr>sv_wake := True\<rparr>)"

text \<open>\<open>_terminal\<close>: the callback, counted.\<close>

definition on_terminal :: "(svc, unit) op" where
  "on_terminal = upd (\<lambda>s. s\<lparr>sv_terminals := Suc (sv_terminals s)\<rparr>)"

definition now_iso :: "env \<Rightarrow> (svc, string) op" where
  "now_iso e = bindS (onDb (tick (en_clock e))) (\<lambda>t. retS (i_iso t))"

definition monotonic :: "env \<Rightarrow> (svc, real) op" where
  "monotonic e = bindS (onDb (tick (en_clock e))) (\<lambda>t. retS (i_mono t))"

definition log_size :: "env \<Rightarrow> string \<Rightarrow> (svc, int) op" where
  "log_size e i = getS (\<lambda>s. en_log_size e (db_ticks (sv_db s)) i)"

definition append_event :: "env \<Rightarrow> string option \<Rightarrow> string \<Rightarrow> (string \<times> ev_value) list \<Rightarrow> (svc, nat) op" where
  "append_event e i kind data = onDb (add_event (en_clock e) i kind data)"

definition svc_transition ::
    "env \<Rightarrow> string \<Rightarrow> task_state list \<Rightarrow> task_state \<Rightarrow> task_status option \<Rightarrow> task_field list \<Rightarrow> (svc, bool) op" where
  "svc_transition e i expected st ov flds = onDb (transition (en_clock e) i expected st ov flds)"

definition OWNED :: "task_state list" where
  "OWNED = [STARTING, RUNNING, STOPPING]"

definition elapsed :: "env \<Rightarrow> task_row \<Rightarrow> (svc, real option) op" where
  "elapsed e task =
     (case r_started_monotonic task of
        None \<Rightarrow> retS None
      | Some started \<Rightarrow>
          bindS (monotonic e) (\<lambda>current.
            retS (if current < started then None else Some (current - started))))"

definition interrupted :: "task_row \<Rightarrow> bool" where
  "interrupted task \<longleftrightarrow> r_interrupt_stage task \<noteq> None \<and> r_interrupt_stage task \<noteq> Some []"

section \<open>Listing without a ceiling\<close>

definition TASK_PAGE_SIZE :: nat where
  "TASK_PAGE_SIZE = 10000"

definition page_query :: "string list \<Rightarrow> (string \<times> string) option \<Rightarrow> task_query" where
  "page_query states cursor =
     any_query\<lparr>q_states := states, q_limit := int TASK_PAGE_SIZE, q_after := cursor, q_ascending := True\<rparr>"

text \<open>
  \<open>_all_tasks\<close>, read to its end. \<open>fuel\<close> bounds the number of pages; one more than the number
  of tasks is always enough.
\<close>

fun all_tasks :: "nat \<Rightarrow> string list \<Rightarrow> (string \<times> string) option \<Rightarrow> db \<Rightarrow> task_row list result option" where
  "all_tasks 0 states cursor d = None"
| "all_tasks (Suc fuel) states cursor d =
     (case fst (list_tasks (page_query states cursor) d) of
        Inl err \<Rightarrow> Some (Inl err)
      | Inr page \<Rightarrow>
          if page = [] then Some (Inr [])
          else if length page < TASK_PAGE_SIZE then Some (Inr page)
          else map_option (\<lambda>r. bindR r (\<lambda>rest. Inr (page @ rest)))
                 (all_tasks fuel states (Some (row_key (last page))) d))"

lemma page_query_code [code]:
  "page_query states cursor =
     any_query\<lparr>q_states := states, q_limit := 10000, q_after := cursor, q_ascending := True\<rparr>"
  by (simp add: page_query_def TASK_PAGE_SIZE_def)

lemma all_tasks_code [code]:
  "all_tasks fuel states cursor d =
     (if fuel = 0 then None
      else case fst (list_tasks (page_query states cursor) d) of
        Inl err \<Rightarrow> Some (Inl err)
      | Inr page \<Rightarrow>
          if page = [] then Some (Inr [])
          else if int (length page) < 10000 then Some (Inr page)
          else map_option (\<lambda>r. bindR r (\<lambda>rest. Inr (page @ rest)))
                 (all_tasks (fuel - 1) states (Some (row_key (last page))) d))"
  by (cases fuel) (simp_all add: TASK_PAGE_SIZE_def split: sum.split)

definition OWNED_NAMES :: "string list" where
  "OWNED_NAMES = [''starting'', ''running'', ''stopping'']"

definition owned_tasks :: "db \<Rightarrow> task_row list result" where
  "owned_tasks d =
     (case all_tasks (Suc (length (db_tasks d))) OWNED_NAMES None d of
        Some r \<Rightarrow> r | None \<Rightarrow> Inl (RuntimeError ''fuel''))"

section \<open>Submission\<close>

definition source_custom :: "string list \<Rightarrow> jdict" where
  "source_custom files =
     (if files = [] then []
      else [(''_source_files'', JList (map JStr files)),
            (''_source_invocations'', JList (map (\<lambda>path. JObj [(''path'', JStr path)]) files))])"

definition prepare_draft :: "env \<Rightarrow> task_draft \<Rightarrow> task_draft result" where
  "prepare_draft e draft =
     (let path = parse_path (td_working_directory draft);
          path = (if is_absolute path then path else path_join (en_working_root e) path);
          frozen = path_str (en_realpath e path)
      in bindR (resolve_source_files (en_realpath e) (td_source draft) frozen) (\<lambda>files.
         bindR (freeze_command_working_directory (en_realpath e) (td_command draft) frozen (td_source draft))
           (\<lambda>command.
             Inr (draft\<lparr>td_working_directory := frozen, td_command := command,
                        td_custom := dict_update (td_custom draft) (source_custom files)\<rparr>))))"

text \<open>\<open>new_id\<close> draws a random id: it is an argument.\<close>

definition submit :: "env \<Rightarrow> string \<Rightarrow> task_draft \<Rightarrow> (svc, task_row) op" where
  "submit e new_id draft =
     bindS (liftS (prepare_draft e draft)) (\<lambda>draft.
     bindS (onDb (create_task (en_sh e) (en_clock e) new_id draft)) (\<lambda>record.
     bindS wake (\<lambda>_. retS record)))"

definition batch_response :: "string \<Rightarrow> string list \<Rightarrow> jdict" where
  "batch_response batch_id ids =
     [(''batch_id'', JStr batch_id), (''task_ids'', JList (map JStr ids)),
      (''count'', JInt (int (length ids)))]"

definition submit_batch ::
    "env \<Rightarrow> string \<Rightarrow> string list \<Rightarrow> string \<Rightarrow> jdict \<Rightarrow> task_draft list \<Rightarrow>
     (string \<times> string \<times> string) option \<Rightarrow> (svc, string \<times> task_row list) op" where
  "submit_batch e batch_id new_ids template request_values drafts idempotency =
     bindS (liftS (mapR (prepare_draft e) drafts)) (\<lambda>drafts.
     let task_drafts = zip new_ids drafts;
         response = batch_response batch_id (map fst task_drafts)
     in bindS (onDb (create_batch (en_sh e) (en_clock e) batch_id template request_values task_drafts
              (map_option (\<lambda>(actor, route, key). (actor, route, key, response)) idempotency)))
          (\<lambda>(records, previous).
            case previous of
              Some old \<Rightarrow>
                (case map_of old ''batch_id'' of
                   None \<Rightarrow> failS (KeyError ''batch_id'')
                 | Some b \<Rightarrow> retS (py_str b, records))
            | None \<Rightarrow> bindS wake (\<lambda>_. retS (batch_id, records))))"

section \<open>Scheduling\<close>

text \<open>
  One pass over the queue. \<open>holders\<close> maps a mutex key to the tasks that hold it; the set
  \<open>held\<close> of the code is its keys. \<open>mark\<close> and \<open>admit\<close> are the two store calls of the loop.
\<close>

definition blocked_keys :: "(string, string list) dict \<Rightarrow> string list \<Rightarrow> string list" where
  "blocked_keys holders keys = sort (remdups (filter (\<lambda>k. dict_has k holders) keys))"

definition blockers :: "(string, string list) dict \<Rightarrow> string list \<Rightarrow> string list" where
  "blockers holders keys = concat (map (\<lambda>k. case map_of holders k of Some os \<Rightarrow> os | None \<Rightarrow> []) keys)"

definition hold :: "string \<Rightarrow> string list \<Rightarrow> (string, string list) dict \<Rightarrow> (string, string list) dict" where
  "hold i keys holders =
     foldl (\<lambda>h k. dict_set k ((case map_of h k of Some os \<Rightarrow> os | None \<Rightarrow> []) @ [i]) h) holders keys"

fun scan :: "(string \<Rightarrow> string list \<Rightarrow> string list \<Rightarrow> ('s, unit) op) \<Rightarrow> (string \<Rightarrow> ('s, bool) op) \<Rightarrow>
    int option \<Rightarrow> (string, string list) dict \<Rightarrow> task_row list \<Rightarrow> task_row option \<Rightarrow>
    ('s, task_row option \<times> bool) op" where
  "scan mark admit capacity holders [] last_scanned s = (Inr (last_scanned, True), s)"
| "scan mark admit capacity holders (task # queued) last_scanned s =
     (if capacity = Some 0 then (Inr (last_scanned, False), s)
      else if list_ex (\<lambda>k. dict_has k holders) (r_mutex_keys task) then
        bindS (mark (r_id task) (blockers holders (r_mutex_keys task)) (blocked_keys holders (r_mutex_keys task)))
          (\<lambda>_. scan mark admit capacity holders queued (Some task)) s
      else
        bindS (mark (r_id task) [] []) (\<lambda>_.
        bindS (admit (r_id task)) (\<lambda>admitted.
          if admitted
          then scan mark admit (map_option (\<lambda>c. c - 1) capacity)
                 (hold (r_id task) (r_mutex_keys task) holders) queued (Some task)
          else scan mark admit capacity holders queued (Some task))) s)"

definition mark_blocked :: "env \<Rightarrow> string \<Rightarrow> string list \<Rightarrow> string list \<Rightarrow> (svc, unit) op" where
  "mark_blocked e i bs ks = onDb (set_blocked_by (en_clock e) i bs ks)"

text \<open>The transition of a queued task to \<open>starting\<close> and, when it succeeds, its starter.\<close>

definition admit_task :: "env \<Rightarrow> string \<Rightarrow> (svc, bool) op" where
  "admit_task e i =
     bindS (now_iso e) (\<lambda>now. bindS (monotonic e) (\<lambda>mono.
     bindS (svc_transition e i [QUEUED] STARTING None
         [F_started_at (Some now), F_started_monotonic (Some mono)]) (\<lambda>admitted.
     if admitted
     then bindS (spawn (C_start i)) (\<lambda>_.
          bindS (upd (\<lambda>s. s\<lparr>sv_starters := set_add i (sv_starters s)\<rparr>)) (\<lambda>_. retS True))
     else retS False)))"

definition queue_query :: "int \<Rightarrow> (string \<times> string) option \<Rightarrow> task_query" where
  "queue_query limit cursor =
     any_query\<lparr>q_states := [''queued''], q_limit := limit, q_after := cursor, q_ascending := True\<rparr>"

definition free_capacity :: "int option \<Rightarrow> task_row list \<Rightarrow> int option" where
  "free_capacity limit owned = map_option (\<lambda>c. max 0 (c - int (length owned))) limit"

definition scan_limit :: "int option \<Rightarrow> int" where
  "scan_limit capacity =
     (case capacity of None \<Rightarrow> int TASK_PAGE_SIZE
      | Some c \<Rightarrow> min (int TASK_PAGE_SIZE) (max 500 (c * 4)))"

lemma scan_limit_code [code]:
  "scan_limit capacity =
     (case capacity of None \<Rightarrow> 10000 | Some c \<Rightarrow> min 10000 (max 500 (c * 4)))"
  by (simp add: scan_limit_def TASK_PAGE_SIZE_def split: option.split)

definition svc_list :: "task_query \<Rightarrow> (svc, task_row list) op" where
  "svc_list q = onDb (list_tasks q)"

definition set_cursor :: "(string \<times> string) option \<Rightarrow> (svc, unit) op" where
  "set_cursor c = upd (\<lambda>s. s\<lparr>sv_queue_cursor := c\<rparr>)"

definition queue_page :: "int \<Rightarrow> (svc, task_row list) op" where
  "queue_page limit =
     bindS (getS sv_queue_cursor) (\<lambda>cursor.
     bindS (svc_list (queue_query limit cursor)) (\<lambda>queued.
       if queued = [] \<and> cursor \<noteq> None
       then bindS (set_cursor None) (\<lambda>_. svc_list (queue_query limit None))
       else retS queued))"

definition holders_of :: "task_row list \<Rightarrow> (string, string list) dict" where
  "holders_of owned = foldl (\<lambda>h t. hold (r_id t) (r_mutex_keys t) h) [] owned"

definition schedule :: "env \<Rightarrow> (svc, unit) op" where
  "schedule e =
     bindS (getS (\<lambda>s. owned_tasks (sv_db s))) (\<lambda>r. bindS (liftS r) (\<lambda>owned.
       let capacity = free_capacity (en_max_concurrency e) owned
       in if capacity = Some 0 then retS ()
          else
            bindS (queue_page (scan_limit capacity)) (\<lambda>queued.
            bindS (scan (mark_blocked e) (admit_task e) capacity (holders_of owned) queued None)
              (\<lambda>(last_scanned, scanned_all).
                bindS (case last_scanned of None \<Rightarrow> retS () | Some t \<Rightarrow> set_cursor (Some (row_key t))) (\<lambda>_.
                if scanned_all \<and> int (length queued) < scan_limit capacity then set_cursor None
                else retS ())))))"

section \<open>Texts\<close>

text \<open>\<open>str\<close> of a raised exception, and two labels shown to the user.\<close>

fun error_text :: "error \<Rightarrow> string" where
  "error_text (KeyError k) = repr_str k"
| "error_text (ValidationError es) = join '', '' es"
| "error_text (ValueError m) = m"
| "error_text (VariableError m) = m"
| "error_text (TypeError m) = m"
| "error_text (AttributeError m) = m"
| "error_text (RuntimeError m) = m"
| "error_text (IntegrityError m) = m"
| "error_text (FileNotFoundError m) = m"
| "error_text (FileExistsError m) = m"
| "error_text (Conflict m) = m"
| "error_text (OSError m) = m"
| "error_text (TimeoutError m) = m"

fun error_class :: "error \<Rightarrow> string" where
  "error_class (KeyError _) = ''KeyError''"
| "error_class (ValidationError _) = ''ValidationError''"
| "error_class (ValueError _) = ''ValueError''"
| "error_class (VariableError _) = ''VariableError''"
| "error_class (TypeError _) = ''TypeError''"
| "error_class (AttributeError _) = ''AttributeError''"
| "error_class (RuntimeError _) = ''RuntimeError''"
| "error_class (IntegrityError _) = ''IntegrityError''"
| "error_class (FileNotFoundError _) = ''FileNotFoundError''"
| "error_class (FileExistsError _) = ''FileExistsError''"
| "error_class (Conflict _) = ''HTTPException''"
| "error_class (OSError _) = ''OSError''"
| "error_class (TimeoutError _) = ''TimeoutError''"

definition PROCESS_FAILED :: string where
  "PROCESS_FAILED = [CHR 0xE8, CHR 0xBF, CHR 0x9B, CHR 0xE7, CHR 0xA8, CHR 0x8B, CHR 0xE5, CHR 0xA4, CHR 0xB1, CHR 0xE8, CHR 0xB4, CHR 0xA5]"

definition PARSE_FAILED :: string where
  "PARSE_FAILED = [CHR 0xE7, CHR 0xBB, CHR 0x93, CHR 0xE6, CHR 0x9E, CHR 0x9C, CHR 0xE8, CHR 0xA7, CHR 0xA3, CHR 0xE6, CHR 0x9E, CHR 0x90, CHR 0xE5, CHR 0xA4, CHR 0xB1, CHR 0xE8, CHR 0xB4, CHR 0xA5]"

section \<open>Starting a task\<close>

definition end_starter :: "string \<Rightarrow> (svc, unit) op" where
  "end_starter i = upd (\<lambda>s. s\<lparr>sv_starters := remove1 i (sv_starters s)\<rparr>)"

text \<open>An exception that leaves a coroutine runs its \<open>finally\<close> clause and ends it.\<close>

definition with_finally :: "(svc, unit) op \<Rightarrow> (svc, unit) op \<Rightarrow> (svc, unit) op" where
  "with_finally f cleanup s = (case f s of
      (Inr u, t) \<Rightarrow> (Inr u, t)
    | (Inl err, t) \<Rightarrow> (Inl err, snd (cleanup t)))"

definition start_begin :: "env \<Rightarrow> string \<Rightarrow> (svc, unit) op" where
  "start_begin e i =
     with_finally (bindS (onDb (get_task i)) (\<lambda>task.
       bindS (upd (\<lambda>s. s\<lparr>sv_launched := sv_launched s @ [i]\<rparr>)) (\<lambda>_.
         spawn (C_start_exec task)))) (end_starter i)"

definition start_failed :: "env \<Rightarrow> task_row \<Rightarrow> error \<Rightarrow> (svc, unit) op" where
  "start_failed e task err =
     bindS (append_event e (Some (r_id task)) ''task.start_error'' [(''error'', EV (JStr (error_text err)))]) (\<lambda>_.
     bindS (now_iso e) (\<lambda>now.
     bindS (log_size e (r_id task)) (\<lambda>size.
     bindS (elapsed e task) (\<lambda>el.
     bindS (svc_transition e (r_id task) [STARTING] FAILED None
              [F_ended_at (Some now), F_exit_code (Some 127), F_log_size size, F_elapsed_seconds el]) (\<lambda>_.
     bindS on_terminal (\<lambda>_. wake))))))"

definition start_succeeded :: "env \<Rightarrow> task_row \<Rightarrow> int option \<Rightarrow> string option \<Rightarrow> (svc, unit) op" where
  "start_succeeded e task pid reference =
     bindS (svc_transition e (r_id task) [STARTING] RUNNING None
              [F_pid pid, F_executor_ref reference]) (\<lambda>_.
     bindS (upd (\<lambda>s. s\<lparr>sv_waiters := set_add (r_id task) (sv_waiters s)\<rparr>)) (\<lambda>_.
       spawn (C_wait_exec (r_id task) 0)))"

definition start_exec :: "env \<Rightarrow> task_row \<Rightarrow> answer \<Rightarrow> (svc, unit) op" where
  "start_exec e task ans =
     with_finally (bindS (case ans of
        A_started (Inr (pid, reference)) \<Rightarrow> start_succeeded e task pid reference
      | A_started (Inl err) \<Rightarrow> start_failed e task err
      | _ \<Rightarrow> retS ()) (\<lambda>_. end_starter (r_id task))) (end_starter (r_id task))"

section \<open>Waiting for a task\<close>

definition end_waiter :: "string \<Rightarrow> (svc, unit) op" where
  "end_waiter i = bindS (upd (\<lambda>s. s\<lparr>sv_waiters := remove1 i (sv_waiters s)\<rparr>)) (\<lambda>_. wake)"

definition attempt_data :: "nat \<Rightarrow> error \<Rightarrow> (string \<times> ev_value) list" where
  "attempt_data n err = [(''attempt'', EV (JInt (int n))), (''error'', EV (JStr (error_text err)))]"

definition exit_state :: "task_row \<Rightarrow> int \<Rightarrow> task_state" where
  "exit_state task code =
     (if interrupted task then CANCELLED else if code = 0 then SUCCEEDED else FAILED)"

definition wait_code :: "env \<Rightarrow> string \<Rightarrow> int \<Rightarrow> (svc, unit) op" where
  "wait_code e i code =
     bindS (onDb (get_task i)) (\<lambda>task.
       if terminal (r_state task) then end_waiter i
       else spawn (C_wait_eval i code task))"

definition wait_decide :: "env \<Rightarrow> string \<Rightarrow> nat \<Rightarrow> task_row \<Rightarrow> bool \<Rightarrow> int option \<Rightarrow> (svc, unit) op" where
  "wait_decide e i failures current running completed =
     (case (completed, running) of
        (Some code, False) \<Rightarrow> wait_code e i code
      | (_, False) \<Rightarrow>
          bindS (now_iso e) (\<lambda>now. bindS (elapsed e current) (\<lambda>el.
          bindS (svc_transition e i [RUNNING, STARTING, STOPPING] LOST None
                   [F_ended_at (Some now), F_elapsed_seconds el]) (\<lambda>_.
          bindS on_terminal (\<lambda>_. end_waiter i))))
      | (_, True) \<Rightarrow>
          bindS (append_event e (Some i) ''task.wait_retry''
                   [(''attempt'', EV (JInt (int failures))), (''process_tree_running'', EV (JBool True))]) (\<lambda>_.
            spawn (C_wait_sleep i failures)))"

definition wait_probe_error :: "env \<Rightarrow> string \<Rightarrow> nat \<Rightarrow> task_row \<Rightarrow> error \<Rightarrow> (svc, unit) op" where
  "wait_probe_error e i failures current err =
     bindS (append_event e (Some i) ''task.wait_probe_error'' (attempt_data failures err)) (\<lambda>_.
       wait_decide e i failures current True None)"

definition wait_exec :: "env \<Rightarrow> string \<Rightarrow> nat \<Rightarrow> answer \<Rightarrow> (svc, unit) op" where
  "wait_exec e i failures ans =
     with_finally (case ans of
        A_exit (Inr code) \<Rightarrow> wait_code e i code
      | A_exit (Inl err) \<Rightarrow>
          bindS (append_event e (Some i) ''task.wait_error'' (attempt_data (Suc failures) err)) (\<lambda>_.
          bindS (onDb (get_task i)) (\<lambda>current. spawn (C_wait_running i (Suc failures) current)))
      | _ \<Rightarrow> end_waiter i) (end_waiter i)"

definition wait_running :: "env \<Rightarrow> string \<Rightarrow> nat \<Rightarrow> task_row \<Rightarrow> answer \<Rightarrow> (svc, unit) op" where
  "wait_running e i failures current ans =
     with_finally (case ans of
        A_running (Inr running) \<Rightarrow> spawn (C_wait_completed i failures current running)
      | A_running (Inl err) \<Rightarrow> wait_probe_error e i failures current err
      | _ \<Rightarrow> end_waiter i) (end_waiter i)"

definition wait_completed :: "env \<Rightarrow> string \<Rightarrow> nat \<Rightarrow> task_row \<Rightarrow> bool \<Rightarrow> answer \<Rightarrow> (svc, unit) op" where
  "wait_completed e i failures current running ans =
     with_finally (case ans of
        A_completed (Inr completed) \<Rightarrow> wait_decide e i failures current running completed
      | A_completed (Inl err) \<Rightarrow> wait_probe_error e i failures current err
      | _ \<Rightarrow> end_waiter i) (end_waiter i)"

definition wait_sleep :: "env \<Rightarrow> string \<Rightarrow> nat \<Rightarrow> answer \<Rightarrow> (svc, unit) op" where
  "wait_sleep e i failures ans =
     (case ans of A_cancel \<Rightarrow> end_waiter i | _ \<Rightarrow> spawn (C_wait_exec i failures))"

subsection \<open>Evaluating the result\<close>

definition failed_status :: "string \<Rightarrow> string \<Rightarrow> task_status" where
  "failed_status key label = \<lparr>ts_key = key, ts_label = label, ts_tone = ''danger'', ts_finished = True\<rparr>"

definition status_dump :: "task_status \<Rightarrow> json" where
  "status_dump st = JObj [(''key'', JStr (ts_key st)), (''label'', JStr (ts_label st)),
     (''tone'', JStr (ts_tone st)), (''finished'', JBool (ts_finished st))]"

definition evaluate_result ::
    "env \<Rightarrow> task_row \<Rightarrow> int \<Rightarrow> (task_status \<times> jdict) option result \<Rightarrow> (svc, task_status option \<times> jdict) op" where
  "evaluate_result e task code evaluated =
     (if interrupted task \<or> \<not> en_has_evaluator e then retS (None, r_custom task)
      else case evaluated of
        Inr None \<Rightarrow> retS (None, r_custom task)
      | Inr (Some (status, custom)) \<Rightarrow>
          if code \<noteq> 0 \<and> ts_tone status = ''success''
          then retS (Some (failed_status ''execution_failed'' PROCESS_FAILED),
                     dict_set ''reported_result_status'' (status_dump status) custom)
          else retS (Some status, custom)
      | Inl err \<Rightarrow>
          bindS (append_event e (Some (r_id task)) ''task.result_evaluation_error''
                   [(''error'', EV (JStr (error_text err)))]) (\<lambda>_.
            retS (Some (failed_status ''evaluation_error'' PARSE_FAILED),
                  dict_set ''result_evaluation_error'' (JStr (error_text err)) (r_custom task))))"

definition finish_task ::
    "env \<Rightarrow> task_row \<Rightarrow> task_state list \<Rightarrow> task_state \<Rightarrow> int \<Rightarrow> task_status option \<Rightarrow> jdict \<Rightarrow> (svc, unit) op" where
  "finish_task e task expected st code ov custom =
     bindS (now_iso e) (\<lambda>now.
     bindS (log_size e (r_id task)) (\<lambda>size.
     bindS (elapsed e task) (\<lambda>el.
     bindS (svc_transition e (r_id task) expected st ov
              [F_ended_at (Some now), F_exit_code (Some code), F_log_size size, F_elapsed_seconds el,
               F_custom_json custom]) (\<lambda>_.
       on_terminal))))"

definition wait_eval :: "env \<Rightarrow> string \<Rightarrow> int \<Rightarrow> task_row \<Rightarrow> answer \<Rightarrow> (svc, unit) op" where
  "wait_eval e i code task ans =
     with_finally (case ans of
        A_evaluated evaluated \<Rightarrow>
          bindS (evaluate_result e task code evaluated) (\<lambda>(ov, custom).
          bindS (finish_task e task [RUNNING, STARTING, STOPPING] (exit_state task code) code ov custom) (\<lambda>_.
            end_waiter i))
      | _ \<Rightarrow> end_waiter i) (end_waiter i)"

section \<open>Interrupting a task\<close>

definition default_actions :: "real \<Rightarrow> real \<Rightarrow> stop_strategy" where
  "default_actions sigint_grace sigterm_grace =
     [signal_action SIGINT sigint_grace, signal_action SIGTERM sigterm_grace]"

definition start_interrupt :: "string \<Rightarrow> real \<Rightarrow> real \<Rightarrow> (svc, unit) op" where
  "start_interrupt i sigint_grace sigterm_grace =
     bindS (upd (\<lambda>s. s\<lparr>sv_advances := dict_set i False (sv_advances s),
                      sv_interrupts := set_add i (sv_interrupts s)\<rparr>)) (\<lambda>_.
       spawn (C_int_begin i sigint_grace sigterm_grace))"

definition request_stop :: "env \<Rightarrow> string \<Rightarrow> task_row \<Rightarrow> real \<Rightarrow> real \<Rightarrow> (svc, unit) op" where
  "request_stop e i task sigint_grace sigterm_grace =
     bindS (if r_stop task = None
            then bindS (liftS (validate_stop_strategy (default_actions sigint_grace sigterm_grace))) (\<lambda>strategy.
                   upd (\<lambda>s. s\<lparr>sv_db := snapshot_stop i strategy (sv_db s)\<rparr>))
            else retS ()) (\<lambda>_.
     bindS (svc_transition e i [STARTING, RUNNING] STOPPING None
              [F_interrupt_stage (Some ''requested'')]) (\<lambda>_.
     bindS (onDb (get_task i)) (\<lambda>task.
       start_interrupt (r_id task) sigint_grace sigterm_grace)))"

definition interrupt :: "env \<Rightarrow> string \<Rightarrow> real \<Rightarrow> real \<Rightarrow> (svc, task_row) op" where
  "interrupt e i sigint_grace sigterm_grace =
     bindS (onDb (get_task i)) (\<lambda>task.
     bindS (getS (\<lambda>s. i \<in> set (sv_interrupts s))) (\<lambda>interrupting.
     bindS (getS (\<lambda>s. dict_has i (sv_advances s))) (\<lambda>advancing.
     bindS (if r_state task = QUEUED then
              bindS (now_iso e) (\<lambda>now.
              bindS (svc_transition e i [QUEUED] CANCELLED None
                       [F_ended_at (Some now), F_interrupt_stage (Some ''queued'')]) (\<lambda>_.
                on_terminal))
            else if r_state task \<in> {STARTING, RUNNING} \<and> \<not> interrupting then
              request_stop e i task sigint_grace sigterm_grace
            else if advancing then
              bindS (upd (\<lambda>s. s\<lparr>sv_advances := dict_set i True (sv_advances s)\<rparr>)) (\<lambda>_.
              bindS (append_event e (Some i) ''task.interrupt_advanced'' []) (\<lambda>_. retS ()))
            else retS ()) (\<lambda>_.
       onDb (get_task i)))))"

subsection \<open>The stop sequence\<close>

definition end_interrupt :: "string \<Rightarrow> (svc, unit) op" where
  "end_interrupt i = upd (\<lambda>s. s\<lparr>sv_interrupts := remove1 i (sv_interrupts s),
                               sv_advances := dict_pop i (sv_advances s)\<rparr>)"

fun kind_name :: "stop_kind \<Rightarrow> string" where
  "kind_name StopSignal = ''signal''"
| "kind_name StopInput = ''input''"
| "kind_name StopExec = ''exec''"

definition stage_name :: "nat \<Rightarrow> stop_action \<Rightarrow> string" where
  "stage_name index action = ''stop:'' @ nat_str index @ '':'' @ kind_name (sa_type action)"

text \<open>\<open>int(text)\<close> for a run of decimal digits; every other text the code can meet here raises.\<close>

definition digits_value :: "string \<Rightarrow> nat option" where
  "digits_value s =
     (if s \<noteq> [] \<and> list_all (\<lambda>c. 48 \<le> (of_char c :: nat) \<and> (of_char c :: nat) \<le> 57) s
      then Some (foldl (\<lambda>n c. 10 * n + (of_char c - 48)) 0 s) else None)"

definition interrupted_action_index :: "string option \<Rightarrow> nat" where
  "interrupted_action_index stage =
     (case stage of
        None \<Rightarrow> 0
      | Some st \<Rightarrow>
          if \<not> starts_with st ''stop:'' then 0
          else (case digits_value (split_on (CHR '':'') st ! 1) of Some n \<Rightarrow> n | None \<Rightarrow> 0))"

text \<open>
  \<open>_apply_stop_action\<close>: the executor call an action stands for, and the part of its time
  limit that is left when the call took from \<open>started\<close> to \<open>finished\<close>.
\<close>

datatype stop_call =
    Call_interrupt string
  | Call_write string
  | Call_helper "string list"

definition apply_stop_action :: "stop_action \<Rightarrow> stop_call result" where
  "apply_stop_action action =
     (case sa_type action of
        StopSignal \<Rightarrow> Inr (Call_interrupt (if sa_signal action = Some SIGINT then ''sigint'' else ''sigterm''))
      | StopInput \<Rightarrow>
          (case sa_data action of
             None \<Rightarrow> Inl (AttributeError ''encode'')
           | Some payload \<Rightarrow> Inr (Call_write (utf8 payload)))
      | StopExec \<Rightarrow>
          (case sa_command action of
             None \<Rightarrow> Inl (ValidationError [''command''])
           | Some command \<Rightarrow> Inr (Call_helper command)))"

definition stop_action_remaining :: "stop_action \<Rightarrow> real \<Rightarrow> real \<Rightarrow> real" where
  "stop_action_remaining action started finished = max 0 (sa_timeout_seconds action - (finished - started))"

definition confirm_begin :: "env \<Rightarrow> string \<Rightarrow> nat \<Rightarrow> bool \<Rightarrow> (svc, unit) op" where
  "confirm_begin e i attempt in_sequence =
     bindS (onDb (get_task i)) (\<lambda>current.
       if terminal (r_state current) then (if in_sequence then end_interrupt i else retS ())
       else spawn (C_conf_sleep i attempt in_sequence))"

text \<open>After the last action: ten polls, then the forced kill.\<close>

definition poll_exit :: "env \<Rightarrow> string \<Rightarrow> nat \<Rightarrow> task_row \<Rightarrow> (svc, unit) op" where
  "poll_exit e i n current =
     (if terminal (r_state current) then end_interrupt i
      else if n = 0 then
        bindS (svc_transition e i OWNED STOPPING None [F_interrupt_stage (Some ''sigkill'')]) (\<lambda>_.
          spawn (C_int_kill i))
      else spawn (C_int_poll i n))"

definition next_action :: "env \<Rightarrow> string \<Rightarrow> nat \<Rightarrow> stop_action list \<Rightarrow> (svc, unit) op" where
  "next_action e i index actions =
     bindS (onDb (get_task i)) (\<lambda>current.
       case actions of
         [] \<Rightarrow> poll_exit e i 10 current
       | action # rest \<Rightarrow>
           if terminal (r_state current) then end_interrupt i
           else
             bindS (svc_transition e i OWNED STOPPING None
                      [F_interrupt_stage (Some (stage_name index action))]) (\<lambda>_.
             bindS (log_size e i) (\<lambda>offset.
               spawn (C_int_apply i index action rest current offset))))"

definition int_begin :: "env \<Rightarrow> string \<Rightarrow> real \<Rightarrow> real \<Rightarrow> answer \<Rightarrow> (svc, unit) op" where
  "int_begin e i sigint_grace sigterm_grace ans =
     with_finally (case ans of
        A_cancel \<Rightarrow> end_interrupt i
      | _ \<Rightarrow>
          bindS (onDb (get_task i)) (\<lambda>task.
          bindS (case r_stop task of
                   Some actions \<Rightarrow> retS actions
                 | None \<Rightarrow> liftS (validate_stop_strategy (default_actions sigint_grace sigterm_grace)))
            (\<lambda>actions.
              let index = interrupted_action_index (r_interrupt_stage task)
              in next_action e i index (drop index actions)))) (end_interrupt i)"

text \<open>\<open>_wait_stop_action\<close>: one round of its loop, up to the sleep or to its return.\<close>

definition lastn :: "nat \<Rightarrow> 'a list \<Rightarrow> 'a list" where
  "lastn n xs = drop (length xs - n) xs"

definition read_output :: "env \<Rightarrow> string \<Rightarrow> int \<Rightarrow> (svc, string \<times> int) op" where
  "read_output e i offset =
     bindS (onDb (get_task i)) (\<lambda>_. getS (\<lambda>s. en_read_log e (db_ticks (sv_db s)) i offset))"

definition wait_round ::
    "env \<Rightarrow> string \<Rightarrow> nat \<Rightarrow> stop_action \<Rightarrow> stop_action list \<Rightarrow> int \<Rightarrow> real \<Rightarrow> real \<Rightarrow> string \<Rightarrow> (svc, unit) op" where
  "wait_round e i index action rest offset deadline hard_deadline tail =
     bindS (monotonic e) (\<lambda>now.
     if \<not> now < min deadline hard_deadline then next_action e i (Suc index) rest
     else
       bindS (onDb (get_task i)) (\<lambda>current.
       bindS (getS (\<lambda>s. map_of (sv_advances s) i = Some True)) (\<lambda>advance.
       if terminal (r_state current) then next_action e i (Suc index) rest
       else if advance then
         bindS (upd (\<lambda>s. s\<lparr>sv_advances := dict_set i False (sv_advances s)\<rparr>)) (\<lambda>_.
           next_action e i (Suc index) rest)
       else if sa_output_contains action = None \<and> \<not> sa_extend_timeout_on_output action then
         spawn (C_int_wait i index action rest offset deadline hard_deadline tail)
       else
         bindS (read_output e i offset) (\<lambda>(chunk, offset).
         if chunk = [] then
           spawn (C_int_wait i index action rest offset deadline hard_deadline tail)
         else
           bindS (if sa_extend_timeout_on_output action
                  then bindS (monotonic e) (\<lambda>t. retS (min (t + sa_timeout_seconds action) hard_deadline))
                  else retS deadline) (\<lambda>deadline.
           case sa_output_contains action of
             None \<Rightarrow> spawn (C_int_wait i index action rest offset deadline hard_deadline tail)
           | Some needle \<Rightarrow>
               let tail = lastn (max (length (utf8 needle) * 2) 1024) (tail @ chunk)
               in if contains tail (utf8 needle) then next_action e i (Suc index) rest
                  else spawn (C_int_wait i index action rest offset deadline hard_deadline tail))))))"

definition begin_wait ::
    "env \<Rightarrow> string \<Rightarrow> nat \<Rightarrow> stop_action \<Rightarrow> stop_action list \<Rightarrow> int \<Rightarrow> real \<Rightarrow> (svc, unit) op" where
  "begin_wait e i index action rest offset timeout_seconds =
     bindS (monotonic e) (\<lambda>now.
     let deadline = now + timeout_seconds;
         in_apply = max 0 (sa_timeout_seconds action - timeout_seconds);
         hard_deadline = (case sa_max_timeout_seconds action of
                            Some m \<Rightarrow> now + max 0 (m - in_apply) | None \<Rightarrow> deadline)
     in bindS (upd (\<lambda>s. if dict_has i (sv_advances s)
                        then s\<lparr>sv_advances := dict_set i False (sv_advances s)\<rparr> else s)) (\<lambda>_.
          wait_round e i index action rest offset deadline hard_deadline []))"

definition int_apply ::
    "env \<Rightarrow> string \<Rightarrow> nat \<Rightarrow> stop_action \<Rightarrow> stop_action list \<Rightarrow> task_row \<Rightarrow> int \<Rightarrow> answer \<Rightarrow> (svc, unit) op" where
  "int_apply e i index action rest current offset ans =
     with_finally (case ans of
        A_applied (Inr remaining) \<Rightarrow> begin_wait e i index action rest offset remaining
      | A_applied (Inl err) \<Rightarrow>
          bindS (append_event e (Some i) ''task.stop_action_error''
                   [(''stage'', EV (JStr (stage_name index action))),
                    (''error'', EV (JStr (error_class err @ '': '' @ error_text err)))]) (\<lambda>_.
            next_action e i (Suc index) rest)
      | _ \<Rightarrow> end_interrupt i) (end_interrupt i)"

definition int_wait ::
    "env \<Rightarrow> string \<Rightarrow> nat \<Rightarrow> stop_action \<Rightarrow> stop_action list \<Rightarrow> int \<Rightarrow> real \<Rightarrow> real \<Rightarrow> string \<Rightarrow> answer \<Rightarrow> (svc, unit) op" where
  "int_wait e i index action rest offset deadline hard_deadline tail ans =
     with_finally (case ans of
        A_cancel \<Rightarrow> end_interrupt i
      | _ \<Rightarrow> wait_round e i index action rest offset deadline hard_deadline tail) (end_interrupt i)"

definition int_poll :: "env \<Rightarrow> string \<Rightarrow> nat \<Rightarrow> answer \<Rightarrow> (svc, unit) op" where
  "int_poll e i n ans =
     with_finally (case ans of
        A_cancel \<Rightarrow> end_interrupt i
      | _ \<Rightarrow> bindS (onDb (get_task i)) (\<lambda>current. poll_exit e i (n - 1) current)) (end_interrupt i)"

definition int_kill :: "env \<Rightarrow> string \<Rightarrow> answer \<Rightarrow> (svc, unit) op" where
  "int_kill e i ans =
     with_finally (case ans of
        A_done (Inr ()) \<Rightarrow> confirm_begin e i 0 True
      | A_done (Inl err) \<Rightarrow> failS err
      | _ \<Rightarrow> end_interrupt i) (end_interrupt i)"

section \<open>Confirming a forced exit\<close>

definition end_confirm :: "string \<Rightarrow> bool \<Rightarrow> (svc, unit) op" where
  "end_confirm i in_sequence = (if in_sequence then end_interrupt i else retS ())"

definition conf_sleep :: "env \<Rightarrow> string \<Rightarrow> nat \<Rightarrow> bool \<Rightarrow> answer \<Rightarrow> (svc, unit) op" where
  "conf_sleep e i attempt in_sequence ans =
     with_finally (case ans of
        A_cancel \<Rightarrow> end_confirm i in_sequence
      | _ \<Rightarrow> bindS (onDb (get_task i)) (\<lambda>current.
               if terminal (r_state current) then end_confirm i in_sequence
               else spawn (C_conf_running i attempt in_sequence current)))
       (end_confirm i in_sequence)"

definition conf_decide :: "env \<Rightarrow> string \<Rightarrow> nat \<Rightarrow> bool \<Rightarrow> task_row \<Rightarrow> bool \<Rightarrow> int option \<Rightarrow> (svc, unit) op" where
  "conf_decide e i attempt in_sequence current running completed =
     (case (completed, running) of
        (Some code, False) \<Rightarrow>
          bindS (now_iso e) (\<lambda>now.
          bindS (log_size e i) (\<lambda>size.
          bindS (elapsed e current) (\<lambda>el.
          bindS (svc_transition e i [STOPPING] CANCELLED None
                   [F_ended_at (Some now), F_exit_code (Some code), F_log_size size, F_elapsed_seconds el])
            (\<lambda>changed.
              bindS (if changed then bindS on_terminal (\<lambda>_. wake) else retS ()) (\<lambda>_.
                end_confirm i in_sequence)))))
      | _ \<Rightarrow>
          bindS (append_event e (Some i) ''task.force_cleanup_retry''
                   [(''attempt'', EV (JInt (int (Suc attempt)))),
                    (''process_tree_running'', EV (JBool running))]) (\<lambda>_.
            spawn (C_conf_kill i (Suc attempt) in_sequence)))"

definition conf_probe_error :: "env \<Rightarrow> string \<Rightarrow> nat \<Rightarrow> bool \<Rightarrow> task_row \<Rightarrow> error \<Rightarrow> (svc, unit) op" where
  "conf_probe_error e i attempt in_sequence current err =
     bindS (append_event e (Some i) ''task.exit_confirmation_error'' (attempt_data (Suc attempt) err)) (\<lambda>_.
       conf_decide e i attempt in_sequence current True None)"

definition conf_running :: "env \<Rightarrow> string \<Rightarrow> nat \<Rightarrow> bool \<Rightarrow> task_row \<Rightarrow> answer \<Rightarrow> (svc, unit) op" where
  "conf_running e i attempt in_sequence current ans =
     with_finally (case ans of
        A_running (Inr running) \<Rightarrow> spawn (C_conf_completed i attempt in_sequence current running)
      | A_running (Inl err) \<Rightarrow> conf_probe_error e i attempt in_sequence current err
      | _ \<Rightarrow> end_confirm i in_sequence) (end_confirm i in_sequence)"

definition conf_completed :: "env \<Rightarrow> string \<Rightarrow> nat \<Rightarrow> bool \<Rightarrow> task_row \<Rightarrow> bool \<Rightarrow> answer \<Rightarrow> (svc, unit) op" where
  "conf_completed e i attempt in_sequence current running ans =
     with_finally (case ans of
        A_completed (Inr completed) \<Rightarrow> conf_decide e i attempt in_sequence current running completed
      | A_completed (Inl err) \<Rightarrow> conf_probe_error e i attempt in_sequence current err
      | _ \<Rightarrow> end_confirm i in_sequence) (end_confirm i in_sequence)"

definition conf_kill :: "env \<Rightarrow> string \<Rightarrow> nat \<Rightarrow> bool \<Rightarrow> answer \<Rightarrow> (svc, unit) op" where
  "conf_kill e i attempt in_sequence ans =
     with_finally (case ans of
        A_done (Inr ()) \<Rightarrow> confirm_begin e i attempt in_sequence
      | A_done (Inl err) \<Rightarrow> failS err
      | _ \<Rightarrow> end_confirm i in_sequence) (end_confirm i in_sequence)"

section \<open>Recovery\<close>

definition host_restarted :: "env \<Rightarrow> bool" where
  "host_restarted e \<longleftrightarrow> en_boot_id e \<noteq> None \<and> en_previous_boot e \<noteq> None \<and> en_boot_id e \<noteq> en_previous_boot e"

definition boot_entry :: "string \<Rightarrow> string option \<Rightarrow> string \<times> ev_value" where
  "boot_entry name v = (name, opt_json JStr v)"

fun rec_next :: "env \<Rightarrow> (string \<times> string) option \<Rightarrow> task_row list \<Rightarrow> (svc, unit) op" where
  "rec_next e next_page [] s =
     (case next_page of None \<Rightarrow> (Inr (), s) | Some c \<Rightarrow> spawn (C_rec_page (Some c)) s)"
| "rec_next e next_page (task # rest) s =
     (if host_restarted e then
        bindS (now_iso e) (\<lambda>now.
        bindS (svc_transition e (r_id task) OWNED LOST None [F_ended_at (Some now), F_elapsed_seconds None]) (\<lambda>_.
        bindS (append_event e (Some (r_id task)) ''task.host_restarted''
                 [boot_entry ''previous_boot_id'' (en_previous_boot e), boot_entry ''boot_id'' (en_boot_id e)]) (\<lambda>_.
        bindS on_terminal (\<lambda>_. rec_next e next_page rest)))) s
      else spawn (C_rec_completed task rest next_page) s)"

definition rec_page :: "env \<Rightarrow> (string \<times> string) option \<Rightarrow> (svc, unit) op" where
  "rec_page e cursor =
     bindS (svc_list (page_query OWNED_NAMES cursor)) (\<lambda>page.
       rec_next e (if length page < TASK_PAGE_SIZE then None else Some (row_key (last page))) page)"

definition rec_decide ::
    "env \<Rightarrow> task_row \<Rightarrow> int option \<Rightarrow> bool \<Rightarrow> task_row list \<Rightarrow> (string \<times> string) option \<Rightarrow> (svc, unit) op" where
  "rec_decide e task completed running rest next_page =
     (case (completed, running) of
        (Some code, False) \<Rightarrow>
          spawn (C_rec_eval task code rest next_page)
      | (_, True) \<Rightarrow>
          bindS (upd (\<lambda>s. s\<lparr>sv_waiters := set_add (r_id task) (sv_waiters s)\<rparr>)) (\<lambda>_.
          bindS (spawn (C_wait_exec (r_id task) 0)) (\<lambda>_.
          bindS (if interrupted task then start_interrupt (r_id task) 20 10 else retS ()) (\<lambda>_.
            rec_next e next_page rest)))
      | (None, False) \<Rightarrow>
          bindS (now_iso e) (\<lambda>now.
          bindS (if r_interrupt_stage task = Some ''sigkill'' then
                   bindS (elapsed e task) (\<lambda>el.
                     svc_transition e (r_id task) OWNED CANCELLED None
                       [F_ended_at (Some now), F_exit_code (Some 137), F_elapsed_seconds el])
                 else svc_transition e (r_id task) OWNED LOST None [F_ended_at (Some now)]) (\<lambda>_.
          bindS on_terminal (\<lambda>_. rec_next e next_page rest))))"

definition rec_completed ::
    "env \<Rightarrow> task_row \<Rightarrow> task_row list \<Rightarrow> (string \<times> string) option \<Rightarrow> answer \<Rightarrow> (svc, unit) op" where
  "rec_completed e task rest next_page ans =
     (case ans of
        A_completed (Inr completed) \<Rightarrow> spawn (C_rec_running task completed rest next_page)
      | A_completed (Inl err) \<Rightarrow> failS err
      | _ \<Rightarrow> retS ())"

definition rec_running ::
    "env \<Rightarrow> task_row \<Rightarrow> int option \<Rightarrow> task_row list \<Rightarrow> (string \<times> string) option \<Rightarrow> answer \<Rightarrow> (svc, unit) op" where
  "rec_running e task completed rest next_page ans =
     (case ans of
        A_running (Inr running) \<Rightarrow> rec_decide e task completed running rest next_page
      | A_running (Inl err) \<Rightarrow> failS err
      | _ \<Rightarrow> retS ())"

definition rec_eval ::
    "env \<Rightarrow> task_row \<Rightarrow> int \<Rightarrow> task_row list \<Rightarrow> (string \<times> string) option \<Rightarrow> answer \<Rightarrow> (svc, unit) op" where
  "rec_eval e task code rest next_page ans =
     (case ans of
        A_evaluated evaluated \<Rightarrow>
          bindS (evaluate_result e task code evaluated) (\<lambda>(ov, custom).
          bindS (finish_task e task OWNED (exit_state task code) code ov custom) (\<lambda>_.
            rec_next e next_page rest))
      | _ \<Rightarrow> retS ())"

section \<open>Retention\<close>

text \<open>
  The directory of a task under \<open>logs\<close> is its entry in \<open>sv_log_dirs\<close>, with the bytes it holds.
  \<open>cutoff\<close> is the ISO time \<open>task_days\<close> before now, \<open>total_limit\<close> the byte limit of all logs.
\<close>

definition remove_log_dir :: "string \<Rightarrow> svc \<Rightarrow> svc" where
  "remove_log_dir i s = s\<lparr>sv_log_dirs := dict_pop i (sv_log_dirs s)\<rparr>"

fun drop_logs :: "string list \<Rightarrow> nat \<Rightarrow> svc \<Rightarrow> nat \<times> svc" where
  "drop_logs [] removed s = (removed, s)"
| "drop_logs (i # ids) removed s =
     (if dict_has i (sv_log_dirs s)
      then drop_logs ids (Suc removed)
             ((remove_log_dir i s)\<lparr>sv_db := set_log_size i 0 (sv_db s)\<rparr>)
      else drop_logs ids removed s)"

definition total_log_bytes :: "svc \<Rightarrow> int" where
  "total_log_bytes s = sum_list (map snd (sv_log_dirs s))"

fun evict :: "int \<Rightarrow> string list \<Rightarrow> int \<Rightarrow> string list \<Rightarrow> (svc, string list) op" where
  "evict limit [] total_size evicted s = (Inr evicted, s)"
| "evict limit (i # ids) total_size evicted s =
     (if total_size \<le> limit then (Inr evicted, s)
      else case map_of (sv_log_dirs s) i of
        None \<Rightarrow> evict limit ids total_size evicted s
      | Some bytes \<Rightarrow>
          bindS (onDb (purge_terminal_task i)) (\<lambda>purged.
            if purged
            then bindS (upd (remove_log_dir i)) (\<lambda>_. evict limit ids (total_size - bytes) (evicted @ [i]))
            else evict limit ids total_size evicted) s)"

definition maintain :: "string \<Rightarrow> int \<Rightarrow> (svc, nat \<times> nat) op" where
  "maintain cutoff total_limit =
     bindS (onDb (purge_retention cutoff cutoff cutoff)) (\<lambda>deleted.
     bindS (\<lambda>s. case drop_logs (remdups deleted) 0 s of (n, t) \<Rightarrow> (Inr n, t)) (\<lambda>removed.
     bindS (getS (\<lambda>s. (terminal_task_ids_oldest (sv_db s), total_log_bytes s))) (\<lambda>(oldest, total_size).
     bindS (evict total_limit oldest total_size []) (\<lambda>evicted.
       retS (length deleted + length evicted, removed + length evicted)))))"

section \<open>Shutdown\<close>

definition interruptible_query :: task_query where
  "interruptible_query = any_query\<lparr>q_states := [''queued'', ''starting'', ''running''],
     q_limit := 10000, q_ascending := True\<rparr>"

text \<open>The loop of \<open>shutdown_all\<close> that requests the end of every task; \<open>fuel\<close> bounds its rounds.\<close>

fun drain :: "nat \<Rightarrow> env \<Rightarrow> (svc, unit) op" where
  "drain 0 e s = (Inl (RuntimeError ''fuel''), s)"
| "drain (Suc fuel) e s =
     bindS (svc_list interruptible_query) (\<lambda>batch.
       if batch = [] then retS ()
       else bindS (mapS (\<lambda>task. interrupt e (r_id task) 20 10) batch) (\<lambda>_. drain fuel e)) s"

text \<open>The forced part, for one task that remained: the recorded stage, the kill, the confirmation.\<close>

definition shut_force :: "env \<Rightarrow> string \<Rightarrow> (svc, unit) op" where
  "shut_force e i =
     bindS (svc_transition e i OWNED STOPPING None [F_interrupt_stage (Some ''sigkill'')]) (\<lambda>_.
       spawn (C_shut_kill i))"

definition shut_kill :: "env \<Rightarrow> string \<Rightarrow> answer \<Rightarrow> (svc, unit) op" where
  "shut_kill e i ans =
     (case ans of
        A_done (Inr ()) \<Rightarrow> confirm_begin e i 0 False
      | A_done (Inl err) \<Rightarrow> failS err
      | _ \<Rightarrow> retS ())"

section \<open>The terminal\<close>

text \<open>\<open>accepted\<close> is the executor's answer.\<close>

definition write_terminal :: "string \<Rightarrow> bool \<Rightarrow> (svc, bool) op" where
  "write_terminal i accepted =
     bindS (onDb (get_task i)) (\<lambda>task. retS (r_state task \<in> set OWNED \<and> accepted))"

definition resize_terminal :: "string \<Rightarrow> int \<Rightarrow> int \<Rightarrow> bool \<Rightarrow> (svc, bool) op" where
  "resize_terminal i rows cols accepted =
     bindS (onDb (get_task i)) (\<lambda>task.
       retS (r_state task \<in> set OWNED \<and> 2 \<le> rows \<and> rows \<le> 1000 \<and> 2 \<le> cols \<and> cols \<le> 1000 \<and> accepted))"

section \<open>Steps\<close>

text \<open>A suspended coroutine runs its next segment with the answer it waited for.\<close>

fun resume :: "env \<Rightarrow> coro \<Rightarrow> answer \<Rightarrow> (svc, unit) op" where
  "resume e (C_start i) ans = start_begin e i"
| "resume e (C_start_exec task) ans = start_exec e task ans"
| "resume e (C_wait_exec i n) ans = wait_exec e i n ans"
| "resume e (C_wait_running i n t) ans = wait_running e i n t ans"
| "resume e (C_wait_completed i n t b) ans = wait_completed e i n t b ans"
| "resume e (C_wait_sleep i n) ans = wait_sleep e i n ans"
| "resume e (C_wait_eval i code t) ans = wait_eval e i code t ans"
| "resume e (C_int_begin i x y) ans = int_begin e i x y ans"
| "resume e (C_int_apply i n a rest t off) ans = int_apply e i n a rest t off ans"
| "resume e (C_int_wait i n a rest off x y tail) ans = int_wait e i n a rest off x y tail ans"
| "resume e (C_int_poll i n) ans = int_poll e i n ans"
| "resume e (C_int_kill i) ans = int_kill e i ans"
| "resume e (C_conf_sleep i n b) ans = conf_sleep e i n b ans"
| "resume e (C_conf_running i n b t) ans = conf_running e i n b t ans"
| "resume e (C_conf_completed i n b t r) ans = conf_completed e i n b t r ans"
| "resume e (C_conf_kill i n b) ans = conf_kill e i n b ans"
| "resume e (C_shut_kill i) ans = shut_kill e i ans"
| "resume e (C_rec_page c) ans = rec_page e c"
| "resume e (C_rec_completed t rest c) ans = rec_completed e t rest c ans"
| "resume e (C_rec_running t code rest c) ans = rec_running e t code rest c ans"
| "resume e (C_rec_eval t code rest c) ans = rec_eval e t code rest c ans"

text \<open>A new process on the database and the logs an earlier one left.\<close>

definition new_service :: "svc \<Rightarrow> svc" where
  "new_service s = s\<lparr>sv_starters := [], sv_waiters := [], sv_interrupts := [], sv_advances := [],
     sv_wake := False, sv_stopping := False, sv_queue_cursor := None, sv_coros := []\<rparr>"

text \<open>
  The answers of the environment: a status that a result evaluator returns has a non-empty
  key, as those of the repository's plugins have.
\<close>

fun answer_ok :: "answer \<Rightarrow> bool" where
  "answer_ok (A_evaluated (Inr (Some (status, _)))) = (ts_key status \<noteq> [])"
| "answer_ok _ = True"

text \<open>
  What can happen next: a call from the API, a pass of the scheduler, maintenance, the
  phases of a start and a shutdown, the end of the process and a new one, or the continuation
  of any suspended coroutine. The random ids of new tasks were not used before.
\<close>

inductive svc_step :: "env \<Rightarrow> svc \<Rightarrow> svc \<Rightarrow> bool" for e where
  submit: "i \<notin> set (sv_issued s) \<Longrightarrow>
    svc_step e s ((snd (submit e i t s))\<lparr>sv_issued := i # sv_issued s\<rparr>)"
| submit_batch: "set ids \<inter> set (sv_issued s) = {} \<Longrightarrow>
    svc_step e s ((snd (submit_batch e b ids tmpl vals ts idem s))\<lparr>sv_issued := ids @ sv_issued s\<rparr>)"
| interrupt: "svc_step e s (snd (interrupt e i x y s))"
| acknowledge: "svc_step e s (snd (onDb (acknowledge (en_clock e) i v) s))"
| idempotency_put: "svc_step e s (snd (onDb (idempotency_put (en_clock e) a r k resp) s))"
| rename: "svc_step e s (s\<lparr>sv_db := remap_configuration_history src tgt (sv_db s)\<rparr>)"
| schedule: "\<not> sv_stopping s \<Longrightarrow> svc_step e s (snd (schedule e s))"
| idle: "svc_step e s (s\<lparr>sv_wake := False\<rparr>)"
| maintain: "svc_step e s (snd (maintain cutoff limit s))"
| log_output: "svc_step e s (s\<lparr>sv_log_dirs := dict_set i n (sv_log_dirs s)\<rparr>)"
| resume: "c \<in> set (sv_coros s) \<Longrightarrow> answer_ok ans \<Longrightarrow>
    svc_step e s (snd (resume e c ans (s\<lparr>sv_coros := remove1 c (sv_coros s)\<rparr>)))"
| restart: "svc_step e s (new_service s)"
| recover: "sv_coros s = [] \<Longrightarrow> svc_step e s (snd (rec_page e None s))"
| stopping: "svc_step e s (s\<lparr>sv_stopping := True, sv_wake := True\<rparr>)"
| drain: "svc_step e s (snd (drain fuel e s))"
| force: "svc_step e s (snd (shut_force e i s))"

inductive_cases svc_stepE: "svc_step e s s'"

end
