(* ===== verification/LF_Store_Facts.thy ===== *)
theory LF_Store_Facts
  imports LF_Store
begin

text \<open>
  The invariants of the store and what its operations guarantee: every row can be read back,
  event ids only grow, references between the tables stay intact, allocations are unique,
  batches are atomic and replayed, transitions are compare-and-set.
\<close>

section \<open>The invariant\<close>

definition status_readable :: "task_row \<Rightarrow> bool" where
  "status_readable r \<longleftrightarrow> ts_key (r_status r) \<noteq> [] \<or>
     (\<exists>st. display_status (r_plugin_snapshot r) (r_state r) (r_exit_code r) (r_interrupt_stage r) = Inr st)"

definition row_ok :: "task_row \<Rightarrow> bool" where
  "row_ok r \<longleftrightarrow> valid_draft (row_draft r) \<and> status_readable r"

definition tasks_ok :: "db \<Rightarrow> bool" where
  "tasks_ok d \<longleftrightarrow> distinct (map r_id (db_tasks d)) \<and> (\<forall>r \<in> set (db_tasks d). row_ok r)"

definition events_ok :: "db \<Rightarrow> bool" where
  "events_ok d \<longleftrightarrow> sorted_wrt (<) (map e_id (db_events d)) \<and>
     (\<forall>e \<in> set (db_events d). 0 < e_id e \<and> e_id e \<le> db_event_seq d)"

definition task_ids :: "db \<Rightarrow> string set" where
  "task_ids d = r_id ` set (db_tasks d)"

definition refs_ok :: "db \<Rightarrow> bool" where
  "refs_ok d \<longleftrightarrow>
     distinct (map b_id (db_batches d)) \<and>
     distinct (map (\<lambda>bt. (bt_batch_id bt, bt_task_id bt)) (db_batch_tasks d)) \<and>
     (\<forall>bt \<in> set (db_batch_tasks d).
        bt_task_id bt \<in> task_ids d \<and> bt_batch_id bt \<in> b_id ` set (db_batches d)) \<and>
     (\<forall>(t, _) \<in> set (db_acks d). t \<in> task_ids d)"

definition db_ok :: "db \<Rightarrow> bool" where
  "db_ok d \<longleftrightarrow> tasks_ok d \<and> events_ok d \<and> refs_ok d"

lemma db_ok_empty: "db_ok empty_db"
  by (simp add: db_ok_def tasks_ok_def events_ok_def refs_ok_def empty_db_def)

lemmas ok_defs = db_ok_def tasks_ok_def events_ok_def refs_ok_def task_ids_def

lemma db_ok_rowsD: "db_ok d \<Longrightarrow> r \<in> set (db_tasks d) \<Longrightarrow> row_ok r"
  by (simp add: ok_defs)

lemma db_ok_distinct: "db_ok d \<Longrightarrow> distinct (map r_id (db_tasks d))"
  by (simp add: ok_defs)

lemma find_row_Some:
  "find_row i d = Some r \<Longrightarrow> r \<in> set (db_tasks d) \<and> r_id r = i"
  by (auto simp: find_row_def find_Some_iff)

lemma find_row_None: "find_row i d = None \<longleftrightarrow> i \<notin> task_ids d"
  by (auto simp: find_row_def find_None_iff task_ids_def)

lemma find_row_distinct:
  "distinct (map r_id (db_tasks d)) \<Longrightarrow> r \<in> set (db_tasks d) \<Longrightarrow> find_row (r_id r) d = Some r"
  unfolding find_row_def by (rule find_key)

section \<open>Reading rows\<close>

lemma row_draft_simps [simp]:
  "td_name (row_draft r) = r_name r" "td_working_directory (row_draft r) = r_working_directory r"
  "td_command (row_draft r) = r_command r" "td_labels (row_draft r) = r_labels r"
  "td_mutex_keys (row_draft r) = r_mutex_keys r" "td_custom (row_draft r) = r_custom r"
  "td_template (row_draft r) = r_template r" "td_plugin_snapshot (row_draft r) = r_plugin_snapshot r"
  "td_stop (row_draft r) = r_stop r"
  by (simp_all add: row_draft_def)

text \<open>The status a reader sees: the stored one, or the one computed when the stored key is empty.\<close>

definition shown_status :: "task_row \<Rightarrow> task_status" where
  "shown_status r =
     (if ts_key (r_status r) \<noteq> [] then r_status r
      else case display_status (r_plugin_snapshot r) (r_state r) (r_exit_code r) (r_interrupt_stage r) of
             Inr st \<Rightarrow> st | Inl _ \<Rightarrow> r_status r)"

lemma task_of_row_ok:
  assumes "row_ok r"
  shows "task_of r = Inr (r\<lparr>r_status := shown_status r\<rparr>)"
proof -
  have v: "validate_task_create [] (dump_payload (row_draft r)) =
      Inr (row_draft r\<lparr>td_shell := None, td_source := None, td_deferred_values := []\<rparr>)"
    using assms by (intro revalidate) (simp add: row_ok_def)
  show ?thesis
    using assms v
    by (cases r) (auto simp: task_of_def shown_status_def row_ok_def status_readable_def split: sum.splits)
qed

lemma get_task_ok:
  assumes "tasks_ok d"
  shows "get_task i d = ((case find_row i d of None \<Rightarrow> Inl (KeyError i)
            | Some r \<Rightarrow> Inr (r\<lparr>r_status := shown_status r\<rparr>)), d)"
  using assms find_row_Some[of i d] task_of_row_ok
  by (auto simp: get_task_def tasks_ok_def split: option.splits)

lemma list_tasks_ok:
  assumes "tasks_ok d"
  shows "list_tasks q d = (Inr (map (\<lambda>r. r\<lparr>r_status := shown_status r\<rparr>) (select_rows q d)), d)"
proof -
  have "set (select_rows q d) \<subseteq> set (db_tasks d)"
    by (auto simp: select_rows_def Let_def dest!: in_set_takeD split: if_splits)
  then have "mapR task_of (select_rows q d) =
      Inr (map (\<lambda>r. r\<lparr>r_status := shown_status r\<rparr>) (select_rows q d))"
    using assms by (intro mapR_pure task_of_row_ok) (auto simp: tasks_ok_def)
  then show ?thesis by (simp add: list_tasks_def)
qed

section \<open>The writes a method is made of\<close>

text \<open>
  The SQL statements of the store, with what their callers make sure of. A moving clock is
  one of them, so that a rolled back transaction, which leaves only the clock changed, is
  a write too. The parameter \<open>M\<close> says which changes of a task's state
  are allowed, \<open>N\<close> which ids a new task may get.
\<close>

lemma sorted_wrt_filter_map: "sorted_wrt P (map f xs) \<Longrightarrow> sorted_wrt P (map f (filter q xs))"
  by (induction xs) auto

type_synonym row_moves = "task_row \<Rightarrow> task_state \<Rightarrow> task_field list \<Rightarrow> bool"

definition any_move :: row_moves where
  "any_move r st flds \<longleftrightarrow> True"

inductive db_write :: "row_moves \<Rightarrow> string set \<Rightarrow> db \<Rightarrow> db \<Rightarrow> bool" for M N where
  clock: "db_write M N d (d\<lparr>db_ticks := n\<rparr>)"
| seed: "(\<And>w. map_of (db_meta d) k = Some w \<Longrightarrow> w < v) \<Longrightarrow>
    db_write M N d (d\<lparr>db_meta := dict_set k v (db_meta d)\<rparr>)"
| event: "e_id e = Suc (db_event_seq d) \<Longrightarrow>
    db_write M N d (d\<lparr>db_events := db_events d @ [e], db_event_seq := Suc (db_event_seq d)\<rparr>)"
| insert: "row_ok r \<Longrightarrow> r_state r = QUEUED \<Longrightarrow> r_ended_at r = None \<Longrightarrow> r_id r \<notin> task_ids d \<Longrightarrow> r_id r \<in> N \<Longrightarrow>
    db_write M N d (d\<lparr>db_tasks := db_tasks d @ [r]\<rparr>)"
| batch: "b_id b \<notin> b_id ` set (db_batches d) \<Longrightarrow> db_write M N d (d\<lparr>db_batches := db_batches d @ [b]\<rparr>)"
| link: "bt_task_id bt \<in> task_ids d \<Longrightarrow> bt_batch_id bt \<in> b_id ` set (db_batches d) \<Longrightarrow>
    (bt_batch_id bt, bt_task_id bt) \<notin> (\<lambda>x. (bt_batch_id x, bt_task_id x)) ` set (db_batch_tasks d) \<Longrightarrow>
    db_write M N d (d\<lparr>db_batch_tasks := db_batch_tasks d @ [bt]\<rparr>)"
| idem: "find_idem (im_actor m) (im_route m) (im_key m) d = None \<Longrightarrow>
    db_write M N d (d\<lparr>db_idem := db_idem d @ [m]\<rparr>)"
| update: "(\<And>r. r_id (f r) = r_id r \<and> r_state (f r) = r_state r \<and>
                r_mutex_keys (f r) = r_mutex_keys r \<and> r_created_at (f r) = r_created_at r \<and>
                r_ended_at (f r) = r_ended_at r) \<Longrightarrow>
    (\<And>r. r \<in> set (db_tasks d) \<Longrightarrow> p r \<Longrightarrow> row_ok (f r)) \<Longrightarrow> db_write M N d (update_rows p f d)"
| move: "(\<And>r. r \<in> set (db_tasks d) \<Longrightarrow> r_id r = i \<Longrightarrow>
           row_ok (apply_transition st s flds r) \<and> M r st flds) \<Longrightarrow>
    db_write M N d (update_rows (\<lambda>q. r_id q = i) (apply_transition st s flds) d)"
| ack: "i \<in> task_ids d \<Longrightarrow> db_write M N d (d\<lparr>db_acks := filter p (db_acks d) @ [(i, v, now)]\<rparr>)"
| purge: "(\<And>r. r \<in> set (db_tasks d) \<Longrightarrow> r_id r \<in> set ids \<Longrightarrow> terminal (r_state r)) \<Longrightarrow>
    db_write M N d (delete_tasks ids d)"
| forget_events: "db_write M N d (d\<lparr>db_events := filter pe (db_events d)\<rparr>)"
| forget_idem: "db_write M N d (d\<lparr>db_idem := filter pm (db_idem d)\<rparr>)"
| rename: "db_write M N d (remap_configuration_history a b d)"

lemma db_ok_frame [simp]:
  "db_ok (d\<lparr>db_ticks := n\<rparr>) = db_ok d"
  "db_ok (d\<lparr>db_meta := m\<rparr>) = db_ok d"
  "db_ok (d\<lparr>db_idem := im\<rparr>) = db_ok d"
  by (simp_all add: ok_defs)

lemma db_ok_delete_tasks:
  assumes "db_ok d"
  shows "db_ok (delete_tasks ids d)"
proof -
  have "tasks_ok (delete_tasks ids d)" "events_ok (delete_tasks ids d)"
    using assms by (auto simp: delete_tasks_def Let_def ok_defs distinct_map_filter sorted_wrt_filter_map)
  moreover have "refs_ok (delete_tasks ids d)"
  proof -
    let ?bts = "filter (\<lambda>bt. bt_task_id bt \<notin> set ids) (db_batch_tasks d)"
    have "bt_batch_id bt \<in> b_id ` {b \<in> set (db_batches d). b_id b \<in> bt_batch_id ` set ?bts}"
      if "bt \<in> set ?bts" for bt
    proof -
      from that assms obtain b where "b \<in> set (db_batches d)" "b_id b = bt_batch_id bt"
        by (auto simp: ok_defs)
      with that show ?thesis by force
    qed
    with assms show ?thesis
      by (auto simp: delete_tasks_def Let_def ok_defs distinct_map_filter)
  qed
  ultimately show ?thesis by (simp add: db_ok_def)
qed

lemma db_ok_remap: "db_ok d \<Longrightarrow> db_ok (remap_configuration_history a b d)"
proof -
  assume ok: "db_ok d"
  have ids: "map b_id (db_batches (remap_configuration_history a b d)) = map b_id (db_batches d)"
    by (auto simp: remap_configuration_history_def split: option.split)
  then have "b_id ` set (db_batches (remap_configuration_history a b d)) = b_id ` set (db_batches d)"
    by (metis set_map)
  with ok ids show ?thesis
    unfolding db_ok_def refs_ok_def
    by (simp add: tasks_ok_def events_ok_def task_ids_def) (simp add: remap_configuration_history_def)
qed

subsection \<open>Updates of rows\<close>

lemma set_field_frame [simp]:
  "r_id (set_field f r) = r_id r" "r_state (set_field f r) = r_state r"
  "r_status (set_field f r) = r_status r" "r_plugin_snapshot (set_field f r) = r_plugin_snapshot r"
  "r_mutex_keys (set_field f r) = r_mutex_keys r" "r_created_at (set_field f r) = r_created_at r"
  "r_stop (set_field f r) = r_stop r" "r_labels (set_field f r) = r_labels r"
  "r_command (set_field f r) = r_command r" "r_name (set_field f r) = r_name r"
  "r_working_directory (set_field f r) = r_working_directory r"
  "valid_draft (row_draft (set_field f r)) = valid_draft (row_draft r)"
  by (cases f; simp add: valid_draft_def)+

lemma fold_set_field [simp]:
  "r_id (foldl (\<lambda>r f. set_field f r) r flds) = r_id r"
  "r_state (foldl (\<lambda>r f. set_field f r) r flds) = r_state r"
  "r_status (foldl (\<lambda>r f. set_field f r) r flds) = r_status r"
  "r_plugin_snapshot (foldl (\<lambda>r f. set_field f r) r flds) = r_plugin_snapshot r"
  "r_mutex_keys (foldl (\<lambda>r f. set_field f r) r flds) = r_mutex_keys r"
  "r_created_at (foldl (\<lambda>r f. set_field f r) r flds) = r_created_at r"
  "r_stop (foldl (\<lambda>r f. set_field f r) r flds) = r_stop r"
  "r_labels (foldl (\<lambda>r f. set_field f r) r flds) = r_labels r"
  "r_command (foldl (\<lambda>r f. set_field f r) r flds) = r_command r"
  "r_name (foldl (\<lambda>r f. set_field f r) r flds) = r_name r"
  "r_working_directory (foldl (\<lambda>r f. set_field f r) r flds) = r_working_directory r"
  "valid_draft (row_draft (foldl (\<lambda>r f. set_field f r) r flds)) = valid_draft (row_draft r)"
  by (induction flds arbitrary: r) simp_all

lemma fold_set_field_codes:
  "r_exit_code (foldl (\<lambda>r f. set_field f r) r flds) = new_exit_code flds (r_exit_code r)"
  "r_interrupt_stage (foldl (\<lambda>r f. set_field f r) r flds) = new_interrupt_stage flds (r_interrupt_stage r)"
proof (induction flds arbitrary: r)
  case Nil
  { case 1 then show ?case by (simp add: new_exit_code_def) }
  { case 2 then show ?case by (simp add: new_interrupt_stage_def) }
next
  case (Cons f flds)
  { case 1 with Cons show ?case by (cases f) (simp_all add: new_exit_code_def) }
  { case 2 with Cons show ?case by (cases f) (simp_all add: new_interrupt_stage_def) }
qed

lemma apply_transition_frame [simp]:
  "r_id (apply_transition st s flds r) = r_id r" "r_state (apply_transition st s flds r) = st"
  "r_status (apply_transition st s flds r) = s"
  "r_mutex_keys (apply_transition st s flds r) = r_mutex_keys r"
  "r_created_at (apply_transition st s flds r) = r_created_at r"
  by (simp_all add: apply_transition_def)

lemma row_ok_apply_transition:
  assumes "row_ok r"
    and "ts_key s \<noteq> [] \<or> display_status (r_plugin_snapshot r) st (new_exit_code flds (r_exit_code r))
           (new_interrupt_stage flds (r_interrupt_stage r)) = Inr s"
  shows "row_ok (apply_transition st s flds r)"
  using assms
  by (auto simp: row_ok_def status_readable_def apply_transition_def fold_set_field_codes
      valid_draft_def row_draft_def)

lemma map_upd_id: "(\<And>r. r_id (f r) = r_id r) \<Longrightarrow> map r_id (map (\<lambda>r. if p r then f r else r) rs) = map r_id rs"
  by simp

lemma db_ok_update_rows:
  assumes "db_ok d" and "\<And>r. r_id (f r) = r_id r"
    and "\<And>r. r \<in> set (db_tasks d) \<Longrightarrow> p r \<Longrightarrow> row_ok (f r)"
  shows "db_ok (update_rows p f d)"
proof -
  have ids: "map r_id (db_tasks (update_rows p f d)) = map r_id (db_tasks d)"
    using assms(2) by (simp add: update_rows_def)
  then have "task_ids (update_rows p f d) = task_ids d"
    by (metis task_ids_def set_map)
  moreover have "\<forall>r \<in> set (db_tasks (update_rows p f d)). row_ok r"
    using assms by (auto simp: update_rows_def ok_defs)
  moreover have "tasks_ok d" "events_ok d" "refs_ok d" using assms(1) by (simp_all add: db_ok_def)
  ultimately show ?thesis
    unfolding db_ok_def tasks_ok_def ids
    by (simp add: events_ok_def refs_ok_def) (simp add: update_rows_def)
qed

lemma db_write_ok: "db_write M N d d' \<Longrightarrow> db_ok d \<Longrightarrow> db_ok d'"
proof (induction rule: db_write.induct)
  case (event e d)
  then show ?case by (auto simp: ok_defs sorted_wrt_append less_Suc_eq_le le_Suc_eq)
next
  case (link bt d)
  then show ?case by (auto simp: ok_defs)
next
  case (update f d p)
  then show ?case by (intro db_ok_update_rows) auto
next
  case (move d i st s flds)
  then show ?case by (intro db_ok_update_rows) auto
next
  case (purge d ids)
  then show ?case by (simp add: db_ok_delete_tasks)
next
  case (rename d a b)
  then show ?case by (simp add: db_ok_remap)
qed (auto simp: ok_defs sorted_wrt_filter_map)

text \<open>The states a method can leave: reached by writes, and consistent.\<close>

definition after :: "row_moves \<Rightarrow> string set \<Rightarrow> db \<Rightarrow> db \<Rightarrow> bool" where
  "after M N d0 d \<longleftrightarrow> db_ok d \<and> (db_write M N)\<^sup>*\<^sup>* d0 d"

lemma after_refl: "db_ok d \<Longrightarrow> after M N d d"
  by (simp add: after_def)

lemma after_write: "after M N d0 d \<Longrightarrow> db_write M N d d' \<Longrightarrow> after M N d0 d'"
  by (auto simp: after_def intro: db_write_ok rtranclp.rtrancl_into_rtrancl)

lemma after_ok: "after M N d0 d \<Longrightarrow> db_ok d"
  by (simp add: after_def)

lemma after_ticks: "after M N d0 d \<Longrightarrow> after M N d0 (d\<lparr>db_ticks := n\<rparr>)"
  by (erule after_write) (rule db_write.clock)

lemma after_update:
  assumes "after M N d0 d"
    and "\<And>r. r_id (f r) = r_id r \<and> r_state (f r) = r_state r \<and>
        r_mutex_keys (f r) = r_mutex_keys r \<and> r_created_at (f r) = r_created_at r \<and>
        r_ended_at (f r) = r_ended_at r"
    and "\<And>r. row_ok r \<Longrightarrow> p r \<Longrightarrow> row_ok (f r)"
  shows "after M N d0 (update_rows p f d)"
  using assms(2,3) db_ok_rowsD[OF after_ok[OF assms(1)]]
  by (intro after_write[OF assms(1)] db_write.update) auto

lemma after_seed:
  "after M N d0 d \<Longrightarrow> (\<And>w. map_of (db_meta d) k = Some w \<Longrightarrow> w < v) \<Longrightarrow>
   after M N d0 (d\<lparr>db_meta := dict_set k v (db_meta d)\<rparr>)"
  by (erule after_write) (rule db_write.seed)

section \<open>Every method is a sequence of writes\<close>

lemma hoare_tick:
  "(\<And>d n. I d \<Longrightarrow> I (d\<lparr>db_ticks := n\<rparr>)) \<Longrightarrow> hoare I (tick clk) (\<lambda>_. I) R"
  by (simp add: hoare_def tick_def)

lemma hoare_transaction:
  assumes "\<And>d n. I d \<Longrightarrow> I (d\<lparr>db_ticks := n\<rparr>)" and "hoare I f Q R" and "\<And>a d. Q a d \<Longrightarrow> I d"
  shows "hoare I (transaction f) (\<lambda>_. I) I"
  using assms unfolding hoare_def transaction_def by (fastforce split: prod.splits sum.splits)

definition calm :: "(db \<Rightarrow> bool) \<Rightarrow> bool" where
  "calm I \<longleftrightarrow> (\<forall>d n k v. I d \<longrightarrow> I (d\<lparr>db_ticks := n\<rparr>) \<and>
     ((\<forall>w. map_of (db_meta d) k = Some w \<longrightarrow> w < v) \<longrightarrow> I (d\<lparr>db_meta := dict_set k v (db_meta d)\<rparr>)))"

lemma calm_seed:
  assumes "calm I" and "I d" and "\<And>w. map_of (db_meta d) k = Some w \<Longrightarrow> w < v"
  shows "I (d\<lparr>db_ticks := n, db_meta := dict_set k v (db_meta d)\<rparr>)"
proof -
  let ?d = "d\<lparr>db_ticks := n\<rparr>"
  have "I ?d" using assms by (simp add: calm_def)
  then have "I (?d\<lparr>db_meta := dict_set k v (db_meta ?d)\<rparr>)"
    using assms(1)[unfolded calm_def, rule_format, of ?d] assms(3) by simp
  then show ?thesis by simp
qed

lemma hoare_allocate:
  assumes "calm I"
  shows "hoare I (allocate_deferred clk source ns) (\<lambda>_. I) I"
proof -
  have "I (d\<lparr>db_ticks := n, db_meta := dict_set k (max m (p + 1)) (db_meta d)\<rparr>)"
    if "I d" "p = (case map_of (db_meta d) k of Some v \<Rightarrow> v | None \<Rightarrow> 0)" for d n k m p
    using that by (intro calm_seed[OF assms]) auto
  then show ?thesis
    by (simp add: hoare_def allocate_deferred_def bindS_def tick_def Let_def)
qed

lemma resolved_payload_command:
  "resolved_payload t a = Inr p \<Longrightarrow> \<exists>items. tp_command p = CmdList items"
  by (auto simp: resolved_payload_def bindR_Inr_iff Let_def split: if_splits)

lemma hoare_materialize:
  assumes "calm I"
  shows "hoare I (materialize_draft sh clk t) (\<lambda>v d. I d \<and> valid_draft v) I"
proof (cases "td_deferred_values t = []")
  case True
  have "validate_task_create sh (dump_payload t) = Inr v \<Longrightarrow> valid_draft v" for v
    by (rule validate_task_create_valid) (auto simp: dump_payload_def)
  with True show ?thesis by (auto simp: materialize_draft_def intro!: hoare_liftS)
next
  case False
  let ?alloc = "\<lambda>(name, request). bindS (allocate_deferred clk (dv_source request) (dv_namespace request))
                   (\<lambda>v. retS (name, v))"
  have "hoare I (mapS ?alloc (td_deferred_values t)) (\<lambda>_. I) I"
    using assms by (intro hoare_mapS) (auto intro!: hoare_bindS hoare_allocate hoare_retS)
  moreover have "hoare I (bindS (liftS (resolved_payload t a)) (\<lambda>p. liftS (validate_task_create sh p)))
      (\<lambda>v d. I d \<and> valid_draft v) I" for a
    by (rule hoare_bindS[where Q="\<lambda>p d. I d \<and> (\<exists>items. tp_command p = CmdList items)"])
      (auto intro!: hoare_liftS dest: resolved_payload_command validate_task_create_valid)
  ultimately show ?thesis
    using False by (simp add: materialize_draft_def) (rule hoare_bindS)
qed

lemma after_add_event:
  assumes "after M N d0 d" and "add_event clk t k data d = (r, d')"
  shows "after M N d0 d'" and "db_tasks d' = db_tasks d" and "db_batches d' = db_batches d"
    and "\<exists>n. r = Inr n"
proof -
  let ?e = "\<lparr>e_id = Suc (db_event_seq d), e_task_id = t, e_kind = k, e_at = i_iso (clk (db_ticks d)),
               e_data = data\<rparr>"
  let ?d = "d\<lparr>db_ticks := Suc (db_ticks d)\<rparr>"
  have d': "d' = ?d\<lparr>db_events := db_events ?d @ [?e], db_event_seq := Suc (db_event_seq ?d)\<rparr>"
    and r: "r = Inr (Suc (db_event_seq d))"
    using assms(2) by (simp_all add: add_event_def bindS_def tick_def)
  show "after M N d0 d'"
    unfolding d' using after_ticks[OF assms(1)] by (rule after_write) (rule db_write.event, simp)
  show "db_tasks d' = db_tasks d" "db_batches d' = db_batches d" "\<exists>n. r = Inr n"
    using d' r by simp_all
qed

lemma after_insert_task:
  assumes "after M N d0 d" and "row_ok r" and "r_state r = QUEUED \<and> r_ended_at r = None" and "r_id r \<in> N"
    and "insert_task r d = (x, d')"
  shows "after M N d0 d' \<and> (x = Inr () \<longrightarrow> r_id r \<in> task_ids d') \<and> db_batches d' = db_batches d"
proof (cases "r_id r \<in> r_id ` set (db_tasks d)")
  case True
  with assms show ?thesis by (auto simp: insert_task_def)
next
  case False
  with assms(5) have "x = Inr ()" "d' = d\<lparr>db_tasks := db_tasks d @ [r]\<rparr>"
    by (auto simp: insert_task_def)
  with False assms after_write[OF assms(1) db_write.insert[of r d N M]] show ?thesis
    by (auto simp: task_ids_def)
qed

lemma new_row_id [simp]: "r_id (new_row i t c st) = i"
  by (simp add: new_row_def)

lemma new_row_state: "r_state (new_row i t c st) = QUEUED \<and> r_ended_at (new_row i t c st) = None"
  by (simp add: new_row_def)

lemma row_ok_new_row:
  assumes "valid_draft t" and "display_status (td_plugin_snapshot t) QUEUED None None = Inr status"
  shows "row_ok (new_row i t created_at status)"
  using assms
  by (auto simp: row_ok_def new_row_def status_readable_def row_draft_def valid_draft_def)

lemma after_insert_batch_task:
  assumes "after M N d0 d" and "i \<in> task_ids d" and "b \<in> b_id ` set (db_batches d)"
    and "insert_batch_task b i n d = (x, d')"
  shows "after M N d0 d' \<and> db_batches d' = db_batches d"
proof (cases "\<exists>bt \<in> set (db_batch_tasks d). bt_batch_id bt = b \<and> bt_task_id bt = i")
  case True
  with assms show ?thesis by (auto simp: insert_batch_task_def)
next
  case False
  let ?bt = "\<lparr>bt_batch_id = b, bt_task_id = i, bt_sequence = n\<rparr>"
  have "db_write M N d (d\<lparr>db_batch_tasks := db_batch_tasks d @ [?bt]\<rparr>)"
    using False assms by (intro db_write.link) auto
  moreover have "d' = d\<lparr>db_batch_tasks := db_batch_tasks d @ [?bt]\<rparr>"
    using assms(4) unfolding insert_batch_task_def if_not_P[OF False] by simp
  ultimately show ?thesis using after_write[OF assms(1)] by simp
qed

lemma after_insert_idem:
  "after M N d0 d \<Longrightarrow> insert_idem a r k x c d = (y, d') \<Longrightarrow> after M N d0 d'"
  by (auto simp: insert_idem_def split: if_splits intro!: after_write[of M N d0 d] db_write.idem)

lemma after_insert_batch:
  "after M N d0 d \<Longrightarrow> insert_batch b d = (y, d') \<Longrightarrow> after M N d0 d'"
  by (auto simp: insert_batch_def split: if_splits intro!: after_write[of M N d0 d] db_write.batch)

lemma calm_after: "calm (after M N d0)" "calm (\<lambda>d. after M N d0 d \<and> b \<in> b_id ` set (db_batches d))"
  by (simp_all add: calm_def after_ticks after_seed)

lemma hoare_add_event: "hoare (after M N d0) (add_event clk t k data) (\<lambda>_. after M N d0) (after M N d0)"
  by (rule hoareI) (auto dest: after_add_event(1))

lemma hoare_get_task: "hoare I (get_task i) (\<lambda>_. I) I"
  by (simp add: hoare_def get_task_def split: sum.splits)

lemma hoare_create_task:
  assumes "i \<in> N"
  shows "hoare (after M N d0) (create_task sh clk i t) (\<lambda>_. after M N d0) (after M N d0)"
  unfolding create_task_def
proof (rule hoare_bindS[OF hoare_transaction hoare_get_task])
  show "hoare (after M N d0) (bindS (materialize_draft sh clk t) (\<lambda>t.
       bindS (liftS (display_status (td_plugin_snapshot t) QUEUED None None)) (\<lambda>status.
       bindS (tick clk) (\<lambda>now.
       bindS (insert_task (new_row i t (i_iso now) status)) (\<lambda>_.
         add_event clk (Some i) ''task.queued'' [(''state'', EV (JStr ''queued''))]))))) (\<lambda>_. after M N d0) (after M N d0)"
  proof (rule hoare_bindS[OF hoare_materialize[OF calm_after(1)]])
    fix t
    let ?I = "\<lambda>status d. after M N d0 d \<and> (\<forall>c. row_ok (new_row i t c status))"
    have "hoare (?I status) (insert_task (new_row i t c status)) (\<lambda>_. after M N d0) (after M N d0)" for status c
    proof (rule hoareI)
      fix d x d' assume "?I status d" and ins: "insert_task (new_row i t c status) d = (Inr x, d')"
      then have "row_ok (new_row i t c status)" and "after M N d0 d" by auto
      with ins after_insert_task[OF _ _ _ _ ins] assms show "after M N d0 d'" by (simp add: new_row_state)
    next
      fix d x d' assume "?I status d" and ins: "insert_task (new_row i t c status) d = (Inl x, d')"
      then have "row_ok (new_row i t c status)" and "after M N d0 d" by auto
      with ins after_insert_task[OF _ _ _ _ ins] assms show "after M N d0 d'" by (simp add: new_row_state)
    qed
    then have "hoare (?I status) (bindS (tick clk) (\<lambda>now.
       bindS (insert_task (new_row i t (i_iso now) status)) (\<lambda>_.
         add_event clk (Some i) ''task.queued'' [(''state'', EV (JStr ''queued''))]))) (\<lambda>_. after M N d0) (after M N d0)" for status
      by (intro hoare_bindS[OF hoare_tick[of "?I status"]] hoare_bindS[OF _ hoare_add_event])
        (simp_all add: after_ticks)
    moreover have "hoare (\<lambda>d. after M N d0 d \<and> valid_draft t)
        (liftS (display_status (td_plugin_snapshot t) QUEUED None None)) ?I (after M N d0)"
      by (rule hoare_liftS) (auto intro: row_ok_new_row simp: new_row_state)
    ultimately show "hoare (\<lambda>d. after M N d0 d \<and> valid_draft t)
       (bindS (liftS (display_status (td_plugin_snapshot t) QUEUED None None)) (\<lambda>status.
       bindS (tick clk) (\<lambda>now.
       bindS (insert_task (new_row i t (i_iso now) status)) (\<lambda>_.
         add_event clk (Some i) ''task.queued'' [(''state'', EV (JStr ''queued''))])))) (\<lambda>_. after M N d0) (after M N d0)"
      by (rule hoare_bindS[rotated])
  qed
qed (simp_all add: after_ticks)

lemma hoare_create_batch_tasks:
  assumes "fst ` set ts \<subseteq> N"
  shows "hoare (\<lambda>d. after M N d0 d \<and> b \<in> b_id ` set (db_batches d))
     (create_batch_tasks sh clk b c n ts) (\<lambda>_. after M N d0) (after M N d0)"
  using assms
proof (induction ts arbitrary: n)
  case Nil
  show ?case by (simp add: hoare_def)
next
  case (Cons p ts)
  obtain i t where p: "p = (i, t)" by (cases p)
  with Cons.prems have new: "i \<in> N" "fst ` set ts \<subseteq> N" by auto
  let ?J = "\<lambda>d. after M N d0 d \<and> b \<in> b_id ` set (db_batches d)"
  let ?data = "[(''state'', EV (JStr ''queued'')), (''batch_id'', EV (JStr b)), (''sequence'', EV (JInt (int n)))]"
  let ?rest = "\<lambda>_. create_batch_tasks sh clk b c (Suc n) ts"
  have event: "hoare ?J (add_event clk (Some i) ''task.queued'' ?data) (\<lambda>_. ?J) (after M N d0)"
    by (rule hoareI) (auto dest: after_add_event)
  have link: "hoare (\<lambda>d. ?J d \<and> i \<in> task_ids d) (insert_batch_task b i n) (\<lambda>_. ?J) (after M N d0)"
    by (rule hoareI) (auto dest: after_insert_batch_task)
  have insert: "hoare (\<lambda>d. ?J d \<and> row_ok (new_row i v c st)) (insert_task (new_row i v c st))
      (\<lambda>_ d. ?J d \<and> i \<in> task_ids d) (after M N d0)" for v st
  proof (rule hoareI, goal_cases)
    case (1 d a d')
    with after_insert_task[of M N d0 d "new_row i v c st" "Inr a" d'] new show ?case by (simp add: new_row_state)
  next
    case (2 d e d')
    with after_insert_task[of M N d0 d "new_row i v c st" "Inl e" d'] new show ?case by (simp add: new_row_state)
  qed
  have status: "hoare (\<lambda>d. ?J d \<and> valid_draft v)
      (liftS (display_status (td_plugin_snapshot v) QUEUED None None))
      (\<lambda>st d. ?J d \<and> row_ok (new_row i v c st)) (after M N d0)" for v
    by (rule hoare_liftS) (auto intro: row_ok_new_row)
  have mat: "hoare ?J (materialize_draft sh clk t) (\<lambda>v d. ?J d \<and> valid_draft v) (after M N d0)"
    by (rule hoare_weaken[OF hoare_materialize[OF calm_after(2)[of M N d0 b]]]) simp_all
  have "hoare ?J (bindS (materialize_draft sh clk t) (\<lambda>v.
     bindS (liftS (display_status (td_plugin_snapshot v) QUEUED None None)) (\<lambda>st.
     bindS (insert_task (new_row i v c st)) (\<lambda>_. bindS (insert_batch_task b i n) (\<lambda>_.
     bindS (add_event clk (Some i) ''task.queued'' ?data) ?rest))))) (\<lambda>_. after M N d0) (after M N d0)"
    by (rule hoare_bindS[OF mat] hoare_bindS[OF status] hoare_bindS[OF insert]
        hoare_bindS[OF link] hoare_bindS[OF event] Cons.IH[OF new(2)])+
  then show ?case by (simp add: p hoare_def)
qed

lemma hoare_new_batch:
  assumes "fst ` set ts \<subseteq> N"
  shows "hoare (after M N d0) (new_batch sh clk b tmpl vals ts idem c) (\<lambda>_. after M N d0) (after M N d0)"
proof -
  let ?row = "\<lambda>c. \<lparr>b_id = b, b_template = tmpl, b_values = vals, b_created_at = c,
      b_configuration_path = (case map_of vals ''configuration_path'' of Some v \<Rightarrow> as_str v | None \<Rightarrow> None)\<rparr>"
  have ins: "hoare (after M N d0) (insert_batch (?row c)) (\<lambda>_ d. after M N d0 d \<and> b \<in> b_id ` set (db_batches d)) (after M N d0)" for c
  proof (rule hoareI, goal_cases)
    case (1 d a d')
    with after_insert_batch[OF 1] show ?case by (auto simp: insert_batch_def split: if_splits)
  next
    case (2 d e d')
    then show ?case by (rule after_insert_batch)
  qed
  have fin: "hoare (after M N d0) (case idem of None \<Rightarrow> retS ()
        | Some (a, r, k, x) \<Rightarrow> insert_idem a r k x c) (\<lambda>_. after M N d0) (after M N d0)" for c
    by (auto intro!: hoareI hoare_retS dest: after_insert_idem split: option.splits)
  show ?thesis
    unfolding new_batch_def
    by (rule hoare_bindS[OF ins] hoare_bindS[OF hoare_create_batch_tasks[OF assms]]
        hoare_bindS[OF hoare_add_event] fin)+
qed

lemma hoare_create_batch:
  assumes "fst ` set ts \<subseteq> N"
  shows "hoare (after M N d0) (create_batch sh clk b tmpl vals ts idem) (\<lambda>_. after M N d0) (after M N d0)"
proof -
  have new: "hoare (after M N d0) (transaction (new_batch sh clk b tmpl vals ts idem c)) (\<lambda>_. after M N d0) (after M N d0)" for c
    by (rule hoare_transaction[OF _ hoare_new_batch[OF assms]]) (simp_all add: after_ticks)
  have reads: "hoare (after M N d0) (mapS get_task ids) (\<lambda>_. after M N d0) (after M N d0)"
    "hoare (after M N d0) (mapS (\<lambda>(i, _). get_task i) ts) (\<lambda>_. after M N d0) (after M N d0)" for ids
    by (auto intro!: hoare_mapS hoare_get_task)
  have old: "hoare (after M N d0) (bindS (liftS ids) (\<lambda>ids. bindS (mapS get_task ids) (\<lambda>records. retS (records, x))))
      (\<lambda>_. after M N d0) (after M N d0)" for ids and x :: "jdict option"
    by (rule hoare_bindS[OF hoare_liftS[where Q="\<lambda>_. (after M N d0)"]] hoare_bindS[OF reads(1)] hoare_retS | assumption)+
  have fresh: "hoare (after M N d0) (bindS (transaction (new_batch sh clk b tmpl vals ts idem c)) (\<lambda>_.
      bindS (mapS (\<lambda>(i, _). get_task i) ts) (\<lambda>records. retS (records, None :: jdict option)))) (\<lambda>_. after M N d0) (after M N d0)" for c
    by (rule hoare_bindS[OF new] hoare_bindS[OF reads(2)] hoare_retS | assumption)+
  show ?thesis
    unfolding create_batch_def
  proof (rule hoare_bindS[OF hoare_tick])
    show "hoare (after M N d0) (\<lambda>d. case (case idem of None \<Rightarrow> None | Some (a, r, k, _) \<Rightarrow> find_idem a r k d) of
         Some existing \<Rightarrow> bindS (liftS (response_task_ids (im_response existing))) (\<lambda>ids.
           bindS (mapS get_task ids) (\<lambda>records. retS (records, Some (im_response existing)))) d
       | None \<Rightarrow> bindS (transaction (new_batch sh clk b tmpl vals ts idem (i_iso now))) (\<lambda>_.
           bindS (mapS (\<lambda>(i, _). get_task i) ts) (\<lambda>records. retS (records, None))) d)
       (\<lambda>_. after M N d0) (after M N d0)" for now
      using old fresh unfolding hoare_def by (auto split: option.split)
  qed (rule after_ticks)
qed

subsection \<open>Transitions\<close>

definition transition_status ::
    "task_row \<Rightarrow> task_state \<Rightarrow> task_status option \<Rightarrow> task_field list \<Rightarrow> task_status result" where
  "transition_status r st ov flds =
     (case ov of Some s \<Rightarrow> Inr s
      | None \<Rightarrow> display_status (r_plugin_snapshot r) st (new_exit_code flds (r_exit_code r))
                  (new_interrupt_stage flds (r_interrupt_stage r)))"

definition transition_event :: "clock \<Rightarrow> string \<Rightarrow> task_state \<Rightarrow> task_field list \<Rightarrow> db \<Rightarrow> db" where
  "transition_event clk i st flds d =
     snd (add_event clk (Some i) (''task.'' @ state_value st)
            ((''state'', EV (JStr (state_value st))) # map field_entry flds) d)"

text \<open>
  The compare-and-set reading of \<open>transition\<close>: with unique ids, it changes the row exactly
  when the row is in one of the expected states, and otherwise nothing at all.
\<close>

lemma transition_cas:
  assumes "distinct (map r_id (db_tasks d))"
  shows "transition clk i expd st ov flds d =
    (case find_row i d of
       None \<Rightarrow> (Inr False, d)
     | Some r \<Rightarrow>
         if expd = [] then (Inr False, d)
         else (case transition_status r st ov flds of
           Inl e \<Rightarrow> (Inl e, d)
         | Inr s \<Rightarrow> (case unsupported_field flds of
             Some k \<Rightarrow> (Inl (ValueError (''unsupported task field: '' @ k)), d)
           | None \<Rightarrow>
               if r_state r \<in> set expd
               then (Inr True, transition_event clk i st flds
                       (update_rows (\<lambda>q. r_id q = i) (apply_transition st s flds) d))
               else (Inr False, d))))"
proof (cases "find_row i d")
  case None
  then show ?thesis by (simp add: transition_def)
next
  case (Some r)
  from find_row_Some[OF this] have r: "r \<in> set (db_tasks d)" "r_id r = i" by auto
  have uniq: "q = r" if "q \<in> set (db_tasks d)" "r_id q = i" for q
    using find_row_distinct[OF assms that(1)] that(2) Some by simp
  have ex: "(\<exists>q \<in> set (db_tasks d). r_id q = i \<and> r_state q \<in> set expd) \<longleftrightarrow> r_state r \<in> set expd"
    using r uniq by blast
  have upd: "update_rows (\<lambda>q. r_id q = i \<and> r_state q \<in> set expd) f d = update_rows (\<lambda>q. r_id q = i) f d"
    if "r_state r \<in> set expd" for f
  proof -
    have "map (\<lambda>q. if r_id q = i \<and> r_state q \<in> set expd then f q else q) (db_tasks d)
        = map (\<lambda>q. if r_id q = i then f q else q) (db_tasks d)"
      using that uniq by (intro map_cong) auto
    then show ?thesis by (simp only: update_rows_def)
  qed
  show ?thesis
    using Some
    by (auto simp: transition_def transition_status_def transition_event_def bindS_def liftS_def
        transaction_def add_event_def tick_def retS_def failS_def ex upd split: option.splits sum.splits)
qed

lemma after_transition:
  assumes ok: "after M N d0 d" and "opt_ok (\<lambda>s. ts_key s \<noteq> []) ov"
    and moves: "\<And>r. r_id r = i \<Longrightarrow> r_state r \<in> set expd \<Longrightarrow> M r st flds"
  shows "after M N d0 (snd (transition clk i expd st ov flds d))"
proof -
  have dist: "distinct (map r_id (db_tasks d))" using db_ok_distinct[OF after_ok[OF ok]] .
  have "after M N d0 (transition_event clk i st flds (update_rows (\<lambda>q. r_id q = i) (apply_transition st s flds) d))"
    if r: "find_row i d = Some r" and s: "transition_status r st ov flds = Inr s"
      and inx: "r_state r \<in> set expd" for r s
  proof -
    have "row_ok (apply_transition st s flds q) \<and> M q st flds"
      if q: "q \<in> set (db_tasks d)" "r_id q = i" for q
    proof (rule conjI, rule row_ok_apply_transition)
      show "row_ok q" using db_ok_rowsD[OF after_ok[OF ok] q(1)] .
      have "q = r" using find_row_distinct[OF dist q(1)] q(2) r by simp
      then show "M q st flds" using moves q(2) inx by simp
      from \<open>q = r\<close> s assms(2) show "ts_key s \<noteq> [] \<or> display_status (r_plugin_snapshot q) st
          (new_exit_code flds (r_exit_code q)) (new_interrupt_stage flds (r_interrupt_stage q)) = Inr s"
        by (auto simp: transition_status_def opt_ok_def split: option.splits)
    qed
    then have "after M N d0 (update_rows (\<lambda>q. r_id q = i) (apply_transition st s flds) d)"
      by (intro after_write[OF ok] db_write.move)
    then show ?thesis
      unfolding transition_event_def by (rule after_add_event(1)) (rule prod.collapse[symmetric])
  qed
  with ok show ?thesis
    by (auto simp: transition_cas[OF dist] split: option.splits sum.splits)
qed

subsection \<open>The other operations\<close>

lemma row_ok_frame:
  "row_ok (r\<lparr>r_blocked_by := xs, r_blocked_keys := ys\<rparr>) = row_ok r"
  "row_ok (r\<lparr>r_log_size := n\<rparr>) = row_ok r"
  "row_ok r \<Longrightarrow> valid_stop strategy \<Longrightarrow> row_ok (r\<lparr>r_stop := Some strategy\<rparr>)"
  "row_ok r \<Longrightarrow> command_ok c \<Longrightarrow> row_ok (r\<lparr>r_command := c, r_custom := cu\<rparr>)"
  by (auto simp: row_ok_def status_readable_def row_draft_def valid_draft_def opt_ok_def)

lemma after_set_blocked_by:
  assumes "after M N d0 d"
  shows "after M N d0 (snd (set_blocked_by clk i bs ks d))"
proof -
  let ?upd = "update_rows (\<lambda>r. r_id r = i \<and> r_state r = QUEUED)
       (\<lambda>r. r\<lparr>r_blocked_by := sort (remdups bs), r_blocked_keys := sort (remdups ks)\<rparr>) d"
  have "after M N d0 ?upd"
    using assms by (auto intro!: after_update simp: row_ok_frame)
  then have "after M N d0 (snd (add_event clk (Some i) ''task.blocked''
                  [(''blocked_by'', EV (JList (map JStr bs))),
                   (''blocked_keys'', EV (JList (map JStr ks)))] ?upd))"
    by (rule hoare_inv[OF hoare_add_event])
  with assms show ?thesis
    by (auto simp: set_blocked_by_def Let_def bindS_def add_event_def tick_def retS_def split: option.split)
qed

lemma after_snapshot_stop:
  assumes "after M N d0 d" and "valid_stop strategy"
  shows "after M N d0 (snapshot_stop i strategy d)"
  unfolding snapshot_stop_def
  using assms by (auto intro!: after_update row_ok_frame(3))

lemma after_set_log_size:
  assumes "after M N d0 d"
  shows "after M N d0 (set_log_size i n d)"
  unfolding set_log_size_def
  using assms by (auto intro!: after_update simp: row_ok_frame)

lemma after_acknowledge:
  assumes ok: "after M N d0 d"
  shows "after M N d0 (snd (acknowledge clk i v d))"
proof -
  have g: "get_task i d = ((case find_row i d of None \<Rightarrow> Inl (KeyError i)
            | Some r \<Rightarrow> Inr (r\<lparr>r_status := shown_status r\<rparr>)), d)"
    using after_ok[OF ok] by (intro get_task_ok) (simp add: db_ok_def)
  show ?thesis
  proof (cases "find_row i d")
    case None
    with ok g show ?thesis by (simp add: acknowledge_def bindS_def)
  next
    case (Some r)
    let ?d = "d\<lparr>db_ticks := Suc (db_ticks d)\<rparr>"
    from Some have "i \<in> task_ids ?d" by (auto simp: task_ids_def dest!: find_row_Some)
    from after_write[OF after_ticks[OF ok] db_write.ack[OF this]] Some g show ?thesis
      by (simp add: acknowledge_def bindS_def tick_def)
  qed
qed

lemma after_idempotency_put:
  assumes "after M N d0 d"
  shows "after M N d0 (snd (idempotency_put clk a r k x d))"
  using after_ticks[OF assms] after_insert_idem[OF after_ticks[OF assms]]
  by (auto simp: idempotency_put_def bindS_def tick_def split: prod.splits)
    (metis prod.collapse)

lemma after_purge_retention:
  assumes ok: "after M N d0 d"
  shows "after M N d0 (snd (purge_retention tb eb ib d))"
proof -
  let ?ids = "terminal_task_ids_before tb d"
  have dist: "distinct (map r_id (db_tasks d))" using db_ok_distinct[OF after_ok[OF ok]] .
  have "terminal (r_state r)" if r: "r \<in> set (db_tasks d)" "r_id r \<in> set ?ids" for r
  proof -
    from r(2) obtain q where "q \<in> set (db_tasks d)" "r_id q = r_id r" "terminal (r_state q)"
      by (auto simp: terminal_task_ids_before_def expired_def)
    with r(1) dist show ?thesis by (metis distinct_map inj_onD)
  qed
  then have "after M N d0 (delete_tasks ?ids d)"
    by (intro after_write[OF ok] db_write.purge)
  with ok have "after M N d0 (if ?ids \<noteq> [] then delete_tasks ?ids d else d)" by simp
  from after_write[OF after_write[OF this db_write.forget_events] db_write.forget_idem]
  show ?thesis by (simp add: purge_retention_def Let_def)
qed

lemma after_purge_terminal_task:
  assumes ok: "after M N d0 d"
  shows "after M N d0 (snd (purge_terminal_task i d))"
proof -
  note dbok = after_ok[OF ok]
  have "after M N d0 (delete_tasks [i] d)" if r: "find_row i d = Some r" "terminal (r_state r)" for r
  proof (intro after_write[OF ok] db_write.purge)
    fix q assume q: "q \<in> set (db_tasks d)" "r_id q \<in> set [i]"
    then have "q = r" using find_row_distinct[OF db_ok_distinct[OF dbok] q(1)] r(1) by simp
    with r(2) show "terminal (r_state q)" by simp
  qed
  with ok show ?thesis
    using get_task_ok[of d i] dbok
    by (auto simp: purge_terminal_task_def bindS_def db_ok_def split: option.splits)
qed

lemma after_remap: "after M N d0 d \<Longrightarrow> after M N d0 (remap_configuration_history a b d)"
  by (erule after_write) (rule db_write.rename)

lemma seed_resolver:
  "rv_values (new_resolver [(''deferred'', [(''seed'', JInt n)])] []) = [(''seed'', JInt n)]"
  "rv_deferred (new_resolver [(''deferred'', [(''seed'', JInt n)])] []) = []"
  by (simp_all add: new_resolver_def layer_values_def)

lemma pure_variable_seed:
  "pure_variable [(''seed'', JInt n)] [] stack name = Inr v \<Longrightarrow> v = JInt n"
  by (auto simp: pure_variable.simps[of _ _ _ name] split: if_splits option.splits)

lemma migrated_command_ok:
  assumes "fst (mapS (resolve (new_resolver [(''deferred'', [(''seed'', JInt n)])] []))
             [JList (map JStr c), JObj cu] []) = Inr vs"
    and "command_ok c"
  shows "command_ok (map py_str (as_list (vs ! 0)))"
proof -
  let ?rv = "new_resolver [(''deferred'', [(''seed'', JInt n)])] []"
  from assms(1) obtain v c1 ws where v: "resolve ?rv (JList (map JStr c)) [] = (Inr v, c1)"
    and vs: "vs = v # ws"
    by (auto simp: bindS_def retS_def split: prod.splits sum.splits)
  have "fst (resolve ?rv (JList (map JStr c)) []) =
      pure_resolve [(''seed'', JInt n)] [] (JList (map JStr c))"
    using resolve_correct(1)[of ?rv "[]"] cache_ok.empty by (simp add: seed_resolver)
  then have "bindR (resolve_list (pure_variable [(''seed'', JInt n)] [] []) (map JStr c))
      (\<lambda>ys. Inr (JList ys)) = Inr v"
    by (simp add: v pure_resolve_def)
  then obtain ys where ys: "v = JList ys"
    "resolve_list (pure_variable [(''seed'', JInt n)] [] []) (map JStr c) = Inr ys"
    by (auto simp: bindR_Inr_iff)
  have "list_all clean c"
    using assms(2) by (auto simp: command_ok_def clean_def list_all_iff)
  then have "list_all clean (map py_str ys) \<and> length ys = length c"
    by (intro resolve_list_clean[OF _ ys(2)])
      (auto dest!: pure_variable_seed simp: clean_def py_str_def int_str_clean)
  with assms(2) ys(1) vs show ?thesis by (auto simp: command_ok_def clean_def list_all_iff)
qed

lemma hoare_migrate_row:
  assumes "row_ok r"
  shows "hoare (after M N d0) (migrate_row clk r) (\<lambda>_. after M N d0) (after M N d0)"
proof (cases "map_of (r_custom r) ''_runtime_seed'' \<noteq> Some (JStr ''unix'')")
  case True
  then show ?thesis by (simp add: migrate_row_def hoare_retS)
next
  case False
  let ?vs = "\<lambda>seed. fst (mapS (resolve (new_resolver [(''deferred'', [(''seed'', JInt seed)])] []))
                  [JList (map JStr (r_command r)), JObj (r_custom r)] [])"
  let ?k = "\<lambda>seed vs d.
          let command = map py_str (as_list (vs ! 0));
              custom = (case as_obj (vs ! 1) of Some c \<Rightarrow> c | None \<Rightarrow> []);
              custom = dict_set ''seed'' (JInt seed) (dict_pop ''_runtime_seed'' custom)
          in (Inr (), update_rows (\<lambda>q. r_id q = r_id r \<and> r_state q = QUEUED)
                        (\<lambda>q. q\<lparr>r_command := command, r_custom := custom\<rparr>) d)"
  have "command_ok (r_command r)" using assms by (simp add: row_ok_def valid_draft_def)
  then have "hoare (after M N d0) (liftS (?vs seed))
      (\<lambda>vs d. after M N d0 d \<and> command_ok (map py_str (as_list (vs ! 0)))) (after M N d0)" for seed
    by (intro hoare_liftS conjI migrated_command_ok)
  moreover have "hoare (\<lambda>d. after M N d0 d \<and> command_ok (map py_str (as_list (vs ! 0)))) (?k seed vs)
      (\<lambda>_. after M N d0) (after M N d0)" for seed vs
    by (rule hoareI) (auto simp: Let_def intro!: after_update row_ok_frame(4))
  ultimately have "hoare (after M N d0) (bindS (liftS (?vs seed)) (?k seed)) (\<lambda>_. after M N d0) (after M N d0)" for seed
    by (rule hoare_bindS)
  with False hoare_allocate[OF calm_after(1)] show ?thesis
    by (simp add: migrate_row_def Let_def) (rule hoare_bindS)
qed

lemma after_migrate: "after M N d0 d \<Longrightarrow> after M N d0 (snd (migrate_legacy_runtime_seeds clk d))"
proof -
  assume ok: "after M N d0 d"
  let ?rows = "filter (\<lambda>r. r_state r = QUEUED) (db_tasks d)"
  let ?m = "mapS (migrate_row clk) ?rows"
  have "hoare (after M N d0) ?m (\<lambda>_. after M N d0) (after M N d0)"
    using db_ok_rowsD[OF after_ok[OF ok]] by (intro hoare_mapS hoare_migrate_row) auto
  from hoareD[OF this ok] after_ticks[OF ok] show ?thesis
    by (auto simp: migrate_legacy_runtime_seeds_def transaction_def bindS_def retS_def
        split: prod.splits sum.splits)
qed

section \<open>Histories of a store\<close>

text \<open>
  One call of a method of the store, whatever its arguments and its outcome. A status passed
  by the caller has a key, and the stop strategy that is frozen into a task is a valid one;
  both are constructed by the service.
\<close>

inductive store_step :: "string \<Rightarrow> clock \<Rightarrow> db \<Rightarrow> db \<Rightarrow> bool" for sh clk where
  create_task: "store_step sh clk d (snd (create_task sh clk i t d))"
| create_batch: "store_step sh clk d (snd (create_batch sh clk b tmpl vals ts idem d))"
| transition: "opt_ok (\<lambda>s. ts_key s \<noteq> []) ov \<Longrightarrow>
    store_step sh clk d (snd (transition clk i expd st ov flds d))"
| append_event: "store_step sh clk d (snd (add_event clk t k data d))"
| set_blocked_by: "store_step sh clk d (snd (set_blocked_by clk i bs ks d))"
| snapshot_stop: "valid_stop strategy \<Longrightarrow> store_step sh clk d (snapshot_stop i strategy d)"
| set_log_size: "store_step sh clk d (set_log_size i n d)"
| acknowledge: "store_step sh clk d (snd (acknowledge clk i v d))"
| idempotency_put: "store_step sh clk d (snd (idempotency_put clk a r k x d))"
| purge_retention: "store_step sh clk d (snd (purge_retention tb eb ib d))"
| purge_terminal_task: "store_step sh clk d (snd (purge_terminal_task i d))"
| remap: "store_step sh clk d (remap_configuration_history src tgt d)"
| migrate: "store_step sh clk d (snd (migrate_legacy_runtime_seeds clk d))"

inductive_cases store_stepE: "store_step sh clk d d'"

definition reachable_db :: "string \<Rightarrow> clock \<Rightarrow> db \<Rightarrow> bool" where
  "reachable_db sh clk d \<longleftrightarrow> (store_step sh clk)\<^sup>*\<^sup>* empty_db d"

lemma store_step_after: "store_step sh clk d d' \<Longrightarrow> db_ok d \<Longrightarrow> after any_move UNIV d d'"
proof (induction rule: store_step.induct)
  case create_task then show ?case by (intro hoare_inv[OF hoare_create_task[OF UNIV_I]] after_refl)
next
  case create_batch then show ?case by (intro hoare_inv[OF hoare_create_batch[OF subset_UNIV]] after_refl)
next
  case append_event then show ?case by (intro hoare_inv[OF hoare_add_event] after_refl)
qed (simp_all add: after_refl after_transition after_set_blocked_by after_snapshot_stop
    after_set_log_size after_acknowledge after_idempotency_put after_purge_retention
    after_purge_terminal_task after_remap after_migrate any_move_def)

lemma reachable_db_ok: "reachable_db sh clk d \<Longrightarrow> db_ok d"
  unfolding reachable_db_def
  by (induction rule: rtranclp_induct) (auto intro: after_ok store_step_after db_ok_empty)

text \<open>
  A property of databases that every single write keeps holds along every history of calls:
  the contract between the writes and the clients that follow a database over time.
\<close>

locale write_invariant =
  fixes M :: row_moves and N :: "string set" and I :: "db \<Rightarrow> bool"
  assumes kept: "db_write M N d d' \<Longrightarrow> db_ok d \<Longrightarrow> I d \<Longrightarrow> I d'"
begin

lemma along_writes: "(db_write M N)\<^sup>*\<^sup>* d d' \<Longrightarrow> db_ok d \<Longrightarrow> I d \<Longrightarrow> I d' \<and> db_ok d'"
  by (induction rule: rtranclp_induct) (auto intro: kept db_write_ok)

lemma after_keeps: "after M N d d' \<Longrightarrow> db_ok d \<Longrightarrow> I d \<Longrightarrow> I d'"
  using along_writes by (auto simp: after_def)

end

locale call_invariant = write_invariant any_move UNIV I for I
begin

lemma along_calls: "(store_step sh clk)\<^sup>*\<^sup>* d d' \<Longrightarrow> db_ok d \<Longrightarrow> I d \<Longrightarrow> I d' \<and> db_ok d'"
proof (induction rule: rtranclp_induct)
  case base
  then show ?case by simp
next
  case (step d1 d2)
  then have "after any_move UNIV d1 d2" by (blast intro: store_step_after)
  with step after_keeps show ?case by (auto simp: after_def)
qed

end

text \<open>The values handed out for a namespace never fall, and an event is never rewritten.\<close>

definition meta_at_least :: "string \<Rightarrow> int \<Rightarrow> db \<Rightarrow> bool" where
  "meta_at_least k v d \<longleftrightarrow> (\<exists>w \<ge> v. map_of (db_meta d) k = Some w)"

definition log_extends :: "nat \<Rightarrow> event set \<Rightarrow> db \<Rightarrow> bool" where
  "log_extends seq old d \<longleftrightarrow> seq \<le> db_event_seq d \<and>
     (\<forall>e \<in> set (db_events d). e_id e \<le> seq \<longrightarrow> e \<in> old)"

interpretation seeds: call_invariant "meta_at_least k v" for k v
proof
  fix d d' assume "db_write any_move UNIV d d'" "meta_at_least k v d"
  then show "meta_at_least k v d'"
    by (induction rule: db_write.induct)
      (fastforce simp: meta_at_least_def map_of_dict_set update_rows_def delete_tasks_def
        remap_configuration_history_def Let_def)+
qed

interpretation event_log: call_invariant "log_extends seq old" for seq old
proof
  fix d d' assume "db_write any_move UNIV d d'" "log_extends seq old d"
  then show "log_extends seq old d'"
    by (induction rule: db_write.induct)
      (auto simp: log_extends_def update_rows_def delete_tasks_def remap_configuration_history_def Let_def)
qed

text \<open>
  C5. Whatever sequence of calls built a database, its tables are consistent: task ids are
  unique, the memberships of batches and the acknowledgements refer to tasks and batches that
  exist, and the events carry strictly increasing ids up to the last one handed out.
\<close>

theorem store_consistent:
  assumes "reachable_db sh clk d"
  shows "distinct (map r_id (db_tasks d)) \<and> refs_ok d \<and> events_ok d"
  using reachable_db_ok[OF assms] by (simp add: ok_defs)

text \<open>
  Every stored task can be read back. Reading validates the row again and may have to
  compute a display status from the plugin's snapshot; for a database built by calls of the
  store neither can fail, and the record carries the row's own values.
\<close>

theorem stored_tasks_readable:
  assumes "reachable_db sh clk d" and "find_row i d = Some r"
  shows "get_task i d = (Inr (r\<lparr>r_status := shown_status r\<rparr>), d)"
  using get_task_ok[of d i] reachable_db_ok[OF assms(1)] assms(2) by (simp add: db_ok_def)

text \<open>
  The event log is append-only. Whatever calls follow, an event with an id handed out
  before is still the event it was (it may have been deleted by retention, never rewritten or
  renumbered), and new events get ids above every earlier one, so a reader that remembers
  the last id it saw never misses or confuses an event.
\<close>

theorem event_log_append_only:
  assumes "db_ok d" and "(store_step sh clk)\<^sup>*\<^sup>* d d'" and "e \<in> set (db_events d')"
  shows "e \<in> set (db_events d) \<or> db_event_seq d < e_id e"
proof -
  have "log_extends (db_event_seq d) (set (db_events d)) d" by (simp add: log_extends_def)
  from event_log.along_calls[OF assms(2,1) this] assms(3) show ?thesis
    by (auto simp: log_extends_def not_le)
qed

text \<open>
  A deferred value is unique in its namespace. However the system clock moves, backwards
  included, a value allocated later is greater than every value allocated before in the same
  namespace, whatever happened to the database in between.
\<close>

theorem deferred_values_increase:
  assumes "db_ok d"
    and first: "allocate_deferred clk source ns d = (Inr v, d1)"
    and "(store_step sh clk)\<^sup>*\<^sup>* d1 d2"
    and second: "allocate_deferred clk' source ns d2 = (Inr w, d3)"
  shows "v < w"
proof -
  have "db_ok d1" and "meta_at_least (deferred_key source ns) v d1"
    using assms(1) first
    by (auto simp: allocate_deferred_def bindS_def tick_def Let_def meta_at_least_def map_of_dict_set
        split: if_splits)
  then have "meta_at_least (deferred_key source ns) v d2"
    using seeds.along_calls[OF assms(3)] by blast
  with second show ?thesis
    by (auto simp: allocate_deferred_def bindS_def tick_def Let_def meta_at_least_def split: if_splits)
qed

section \<open>Transitions are compare-and-set\<close>

lemma find_row_update:
  assumes "\<And>r. r_id (f r) = r_id r"
  shows "find_row j (update_rows (\<lambda>q. r_id q = i) f d) =
    (if j = i then map_option f (find_row i d) else find_row j d)"
proof -
  have "find (\<lambda>r. r_id r = j) (map (\<lambda>r. if r_id r = i then f r else r) rs) =
      (if j = i then map_option f (find (\<lambda>r. r_id r = i) rs) else find (\<lambda>r. r_id r = j) rs)" for rs
    using assms by (induction rs) auto
  then show ?thesis by (simp add: find_row_def update_rows_def)
qed

lemma find_row_event [simp]: "find_row j (transition_event clk i st flds d) = find_row j d"
  by (simp add: transition_event_def add_event_def bindS_def tick_def find_row_def)

text \<open>
  C6. A transition is a compare-and-set. It reports success exactly when it found the task in
  one of the expected states; then that task alone is changed, it is in the new state with the
  status and the fields given, and one event records it. Otherwise, an error included, nothing
  in the database changes.
\<close>

theorem transition_compare_and_set:
  assumes "db_ok d" and "transition clk i expd st ov flds d = (x, d')"
  shows "(x = Inr True \<longrightarrow>
      (\<exists>r s. find_row i d = Some r \<and> r_state r \<in> set expd \<and> transition_status r st ov flds = Inr s \<and>
         find_row i d' = Some (apply_transition st s flds r) \<and>
         (\<forall>j. j \<noteq> i \<longrightarrow> find_row j d' = find_row j d) \<and>
         (\<exists>e. db_events d' = db_events d @ [e] \<and> e_task_id e = Some i \<and>
              e_kind e = ''task.'' @ state_value st)))
    \<and> (x \<noteq> Inr True \<longrightarrow> d' = d)
    \<and> (x = Inr False \<longrightarrow> expd = [] \<or> opt_ok (\<lambda>r. r_state r \<notin> set expd) (find_row i d))"
  using assms(2) unfolding transition_cas[OF db_ok_distinct[OF assms(1)]]
  by (auto split: option.splits sum.splits if_splits simp: find_row_update opt_ok_def)
    (auto simp: transition_event_def add_event_def bindS_def tick_def update_rows_def)

section \<open>Batches\<close>

definition same_tables :: "db \<Rightarrow> db \<Rightarrow> bool" where
  "same_tables d0 d \<longleftrightarrow> db_tasks d = db_tasks d0 \<and> db_events d = db_events d0 \<and>
     db_event_seq d = db_event_seq d0 \<and> db_acks d = db_acks d0 \<and> db_idem d = db_idem d0 \<and>
     db_batches d = db_batches d0 \<and> db_batch_tasks d = db_batch_tasks d0"

lemma materialize_frame: "materialize_draft sh clk t d = (Inr v, d') \<Longrightarrow> same_tables d d'"
proof -
  have "calm (same_tables d)" by (simp add: calm_def same_tables_def)
  from hoareD(1)[OF hoare_materialize[OF this], of d] show
    "materialize_draft sh clk t d = (Inr v, d') \<Longrightarrow> same_tables d d'"
    by (auto simp: same_tables_def)
qed

lemma create_batch_tasks_effect:
  "create_batch_tasks sh clk b c n ts d = (Inr (), d') \<Longrightarrow>
   map r_id (db_tasks d') = map r_id (db_tasks d) @ map fst ts \<and>
   (\<exists>rs. db_tasks d' = db_tasks d @ rs \<and> (\<forall>r \<in> set rs. r_state r = QUEUED \<and> r_created_at r = c)) \<and>
   db_batch_tasks d' = db_batch_tasks d @
     map (\<lambda>(j, i). \<lparr>bt_batch_id = b, bt_task_id = i, bt_sequence = j\<rparr>) (enumerate n (map fst ts)) \<and>
   db_batches d' = db_batches d \<and> db_idem d' = db_idem d"
proof (induction ts arbitrary: n d)
  case Nil
  then show ?case by simp
next
  case (Cons p ts)
  obtain i t where p: "p = (i, t)" by (cases p)
  from Cons.prems p obtain v d1 st d2 d3 d4 x where
    m: "materialize_draft sh clk t d = (Inr v, d1)" and
    ins: "insert_task (new_row i v c st) d1 = (Inr (), d2)" and
    lk: "insert_batch_task b i n d2 = (Inr (), d3)" and
    ev: "add_event clk (Some i) ''task.queued'' [(''state'', EV (JStr ''queued'')),
       (''batch_id'', EV (JStr b)), (''sequence'', EV (JInt (int n)))] d3 = (Inr x, d4)" and
    rest: "create_batch_tasks sh clk b c (Suc n) ts d4 = (Inr (), d')"
    by (auto simp: bindS_Inr_iff liftS_def)
  have t1: "same_tables d d1" using materialize_frame[OF m] .
  have t2: "d2 = d1\<lparr>db_tasks := db_tasks d1 @ [new_row i v c st]\<rparr>"
    using ins by (simp add: insert_task_def split: if_splits)
  have t3: "d3 = d2\<lparr>db_batch_tasks := db_batch_tasks d2 @ [\<lparr>bt_batch_id = b, bt_task_id = i, bt_sequence = n\<rparr>]\<rparr>"
    using lk by (simp add: insert_batch_task_def split: if_splits)
  have t4: "db_tasks d4 = db_tasks d3" "db_batch_tasks d4 = db_batch_tasks d3"
    "db_batches d4 = db_batches d3" "db_idem d4 = db_idem d3"
    using ev by (auto simp: add_event_def bindS_def tick_def)
  from Cons.IH[OF rest] t1 t2 t3 t4 p show ?case
    by (auto simp: same_tables_def new_row_def)
qed

lemma mapS_get_task:
  assumes "db_ok d"
  shows "(\<forall>i \<in> set ids. i \<in> task_ids d) \<Longrightarrow>
    \<exists>rs. mapS get_task ids d = (Inr rs, d) \<and> map r_id rs = ids"
proof (induction ids)
  case Nil
  then show ?case by simp
next
  case (Cons i ids)
  from Cons.prems obtain r where r: "find_row i d = Some r"
    by (cases "find_row i d") (auto simp: find_row_None)
  moreover have "r_id r = i" using find_row_Some[OF r] by simp
  ultimately show ?case
    using Cons get_task_ok[of d i] assms by (auto simp: bindS_def retS_def db_ok_def)
qed

lemma mapS_get_task_missing:
  assumes "db_ok d"
  shows "i \<notin> task_ids d \<Longrightarrow> \<forall>j \<in> set pre. j \<in> task_ids d \<Longrightarrow>
    mapS get_task (pre @ i # post) d = (Inl (KeyError i), d)"
proof (induction pre)
  case Nil
  then show ?case
    using get_task_ok[of d i] assms by (simp add: bindS_def db_ok_def find_row_None[THEN iffD2])
next
  case (Cons j pre)
  then obtain r where "find_row j d = Some r"
    by (cases "find_row j d") (auto simp: find_row_None)
  with Cons show ?case
    using get_task_ok[of d j] assms by (simp add: bindS_def db_ok_def)
qed

lemma new_batch_effect:
  assumes "new_batch sh clk b tmpl vals ts idem c d = (Inr (), d')"
  shows "map r_id (db_tasks d') = map r_id (db_tasks d) @ map fst ts"
    and "\<exists>rs. db_tasks d' = db_tasks d @ rs \<and> (\<forall>r \<in> set rs. r_state r = QUEUED \<and> r_created_at r = c)"
    and "b \<notin> b_id ` set (db_batches d)"
    and "\<exists>row. b_id row = b \<and> db_batches d' = db_batches d @ [row]"
    and "db_batch_tasks d' = db_batch_tasks d @
     map (\<lambda>(j, i). \<lparr>bt_batch_id = b, bt_task_id = i, bt_sequence = j\<rparr>) (enumerate 0 (map fst ts))"
    and "\<And>a r k x. idem = Some (a, r, k, x) \<Longrightarrow> \<exists>m. find_idem a r k d' = Some m \<and> im_response m = x"
proof -
  from assms obtain d1 d2 d3 x row where
    ib: "insert_batch row d = (Inr (), d1)" "b_id row = b" and
    ct: "create_batch_tasks sh clk b c 0 ts d1 = (Inr (), d2)" and
    ev: "add_event clk None ''batch.created''
             [(''batch_id'', EV (JStr b)), (''count'', EV (JInt (int (length ts))))] d2 = (Inr x, d3)" and
    fin: "(case idem of None \<Rightarrow> retS () | Some (a, r, k, x) \<Rightarrow> insert_idem a r k x c) d3 = (Inr (), d')"
    by (auto simp: new_batch_def bindS_Inr_iff)
  have d1: "d1 = d\<lparr>db_batches := db_batches d @ [row]\<rparr>" and fresh: "b \<notin> b_id ` set (db_batches d)"
    using ib by (auto simp: insert_batch_def split: if_splits)
  have d3: "db_tasks d3 = db_tasks d2" "db_batch_tasks d3 = db_batch_tasks d2"
    "db_batches d3 = db_batches d2" "db_idem d3 = db_idem d2"
    using ev by (auto simp: add_event_def bindS_def tick_def)
  have d': "db_tasks d' = db_tasks d3" "db_batch_tasks d' = db_batch_tasks d3" "db_batches d' = db_batches d3"
    using fin by (auto simp: retS_def insert_idem_def split: option.splits if_splits)
  note e = create_batch_tasks_effect[OF ct]
  show "map r_id (db_tasks d') = map r_id (db_tasks d) @ map fst ts"
    "\<exists>rs. db_tasks d' = db_tasks d @ rs \<and> (\<forall>r \<in> set rs. r_state r = QUEUED \<and> r_created_at r = c)"
    "b \<notin> b_id ` set (db_batches d)"
    "\<exists>row. b_id row = b \<and> db_batches d' = db_batches d @ [row]"
    "db_batch_tasks d' = db_batch_tasks d @
     map (\<lambda>(j, i). \<lparr>bt_batch_id = b, bt_task_id = i, bt_sequence = j\<rparr>) (enumerate 0 (map fst ts))"
    using e d1 d3 d' ib(2) fresh by auto
  fix a r k y assume "idem = Some (a, r, k, y)"
  with fin show "\<exists>m. find_idem a r k d' = Some m \<and> im_response m = y"
    by (auto simp: insert_idem_def find_idem_def find_append split: if_splits)
qed

lemma sequence_order:
  "map bt_task_id (sort_key bt_sequence (map (\<lambda>(j, i). \<lparr>bt_batch_id = b, bt_task_id = i, bt_sequence = j\<rparr>)
     (enumerate n ids))) = ids"
proof -
  let ?bts = "map (\<lambda>(j, i). \<lparr>bt_batch_id = b, bt_task_id = i, bt_sequence = j\<rparr>) (enumerate n ids)"
  have "map bt_sequence ?bts = map fst (enumerate n ids)"
    by (simp only: map_map, intro map_cong) auto
  then have "sort_key bt_sequence ?bts = ?bts"
    by (intro sort_key_sorted_id) (simp del: map_map)
  moreover have "map bt_task_id ?bts = map snd (enumerate n ids)"
    by (simp only: map_map, intro map_cong) auto
  ultimately show ?thesis by (simp del: map_map)
qed

lemma new_batch_members:
  assumes "db_ok d" and "new_batch sh clk b tmpl vals ts idem c d = (Inr (), d')"
  shows "\<exists>row. get_batch b d' = Inr (row, map fst ts)"
proof -
  note e = new_batch_effect[OF assms(2)]
  from e(4) obtain row where row: "b_id row = b" "db_batches d' = db_batches d @ [row]" by auto
  have "find (\<lambda>x. b_id x = b) (db_batches d) = None"
    using e(3) by (auto simp: find_None_iff)
  then have "find (\<lambda>x. b_id x = b) (db_batches d') = Some row"
    using row by (simp add: find_append)
  moreover have "filter (\<lambda>bt. bt_batch_id bt = b) (db_batch_tasks d) = []"
    using assms(1) e(3) by (auto simp: filter_empty_conv ok_defs)
  moreover have "filter (\<lambda>bt. bt_batch_id bt = b)
      (map (\<lambda>(j, i). \<lparr>bt_batch_id = b, bt_task_id = i, bt_sequence = j\<rparr>) xs) =
      map (\<lambda>(j, i). \<lparr>bt_batch_id = b, bt_task_id = i, bt_sequence = j\<rparr>) xs" for xs
    by (rule filter_all_eq) auto
  ultimately show ?thesis
    by (simp add: get_batch_def e(5) sequence_order)
qed

text \<open>
  A batch is created completely or not at all. A call that raises (a rejected draft, a
  colliding id, a failing deferred value, at whatever position) leaves every table as it was; a
  call that replays an earlier answer adds nothing; a call that creates adds exactly the listed
  tasks, queued, in order, and the batch lists them in that order.
\<close>

theorem batch_all_or_nothing:
  assumes ok: "db_ok d" and call: "create_batch sh clk b tmpl vals ts idem d = (x, d')"
  shows "(case x of
      Inl e \<Rightarrow> \<exists>n. d' = d\<lparr>db_ticks := n\<rparr>
    | Inr (records, Some response) \<Rightarrow> \<exists>n. d' = d\<lparr>db_ticks := n\<rparr>
    | Inr (records, None) \<Rightarrow>
        map r_id records = map fst ts \<and>
        (\<exists>rs. db_tasks d' = db_tasks d @ rs \<and> map r_id rs = map fst ts \<and>
              (\<forall>r \<in> set rs. r_state r = QUEUED)) \<and>
        (\<exists>row. get_batch b d' = Inr (row, map fst ts)))"
proof -
  let ?d = "d\<lparr>db_ticks := Suc (db_ticks d)\<rparr>"
  let ?c = "i_iso (clk (db_ticks d))"
  let ?found = "case idem of None \<Rightarrow> None | Some (a, r, k, _) \<Rightarrow> find_idem a r k ?d"
  have okd: "db_ok ?d" using ok by simp
  have reads: "snd (mapS get_task ids e) = e" for ids e
    by (rule mapS_reads) (simp add: get_task_def)
  show ?thesis
  proof (cases ?found)
    case (Some m)
    let ?replay = "bindS (liftS (response_task_ids (im_response m))) (\<lambda>ids.
        bindS (mapS get_task ids) (\<lambda>records. retS (records, Some (im_response m))))"
    have "snd (?replay ?d) = ?d \<and> (\<forall>records. fst (?replay ?d) \<noteq> Inr (records, None))"
      using reads[of _ ?d] by (auto simp: bindS_def liftS_def retS_def split: sum.splits prod.splits) (metis snd_conv)+
    moreover have "(x, d') = ?replay ?d"
      using Some call by (simp add: create_batch_def bindS_def[of "tick clk"] tick_def)
    ultimately show ?thesis
      by (cases "?replay ?d") (auto split: sum.splits option.splits)
  next
    case None
    obtain y d2 where nb: "new_batch sh clk b tmpl vals ts idem ?c ?d = (y, d2)" by fastforce
    show ?thesis
    proof (cases y)
      case (Inl e)
      with None nb call show ?thesis
        by (auto simp: create_batch_def bindS_def tick_def transaction_def)
    next
      case (Inr u)
      then have nb: "new_batch sh clk b tmpl vals ts idem ?c ?d = (Inr (), d2)" using nb by simp
      have ok2: "db_ok d2"
        using hoareD(1)[OF hoare_new_batch[OF subset_UNIV] after_refl[OF okd] nb] by (rule after_ok)
      have "\<forall>i \<in> set (map fst ts). i \<in> task_ids d2"
        using arg_cong[OF new_batch_effect(1)[OF nb], of set] by (auto simp: task_ids_def image_image)
      then obtain rs where rs: "mapS get_task (map fst ts) d2 = (Inr rs, d2)" "map r_id rs = map fst ts"
        using mapS_get_task[OF ok2] by blast
      have "(\<lambda>(i, _ :: task_draft). get_task i) = (\<lambda>p. get_task (fst p))" by (simp add: fun_eq_iff)
      then have "x = Inr (rs, None)" "d' = d2"
        using None nb call rs(1) mapS_comp[of get_task fst ts]
        by (auto simp: create_batch_def bindS_def tick_def transaction_def retS_def)
      with rs(2) new_batch_effect(1,2)[OF nb] new_batch_members[OF okd nb] show ?thesis
        by auto
    qed
  qed
qed

text \<open>
  An idempotent submission is answered once and replayed afterwards. As long as the
  reservation and the tasks it lists are in the database, a repeated call with the same actor,
  route and key returns the tasks listed by the stored response, whatever else it asks for,
  and creates nothing.
\<close>

theorem batch_replayed:
  assumes "db_ok d" and "find_idem actor route key d = Some m"
    and "response_task_ids (im_response m) = Inr ids" and "\<forall>i \<in> set ids. i \<in> task_ids d"
  shows "\<exists>records n. create_batch sh clk b tmpl vals ts (Some (actor, route, key, response)) d
            = (Inr (records, Some (im_response m)), d\<lparr>db_ticks := n\<rparr>) \<and> map r_id records = ids"
proof -
  let ?d = "d\<lparr>db_ticks := Suc (db_ticks d)\<rparr>"
  have "db_ok ?d" and "\<forall>i \<in> set ids. i \<in> task_ids ?d" and "find_idem actor route key ?d = Some m"
    using assms by (simp_all add: task_ids_def find_idem_def)
  with mapS_get_task[of ?d ids] assms(3) show ?thesis
    by (auto simp: create_batch_def bindS_def tick_def liftS_def retS_def)
qed

text \<open>
  The replay breaks when retention has evicted one of the tasks while the reservation
  itself is still there: the call then raises \<open>KeyError\<close> for the evicted task instead of
  answering, and it goes on doing so until the reservation expires.
\<close>

theorem replay_after_eviction_raises:
  assumes "db_ok d" and "find_idem actor route key d = Some m"
    and "response_task_ids (im_response m) = Inr (pre @ i # post)"
    and "\<forall>j \<in> set pre. j \<in> task_ids d" and "i \<notin> task_ids d"
  shows "\<exists>n. create_batch sh clk b tmpl vals ts (Some (actor, route, key, response)) d
            = (Inl (KeyError i), d\<lparr>db_ticks := n\<rparr>)"
proof -
  let ?d = "d\<lparr>db_ticks := Suc (db_ticks d)\<rparr>"
  have "db_ok ?d" "i \<notin> task_ids ?d" "\<forall>j \<in> set pre. j \<in> task_ids ?d"
    "find_idem actor route key ?d = Some m"
    using assms by (simp_all add: task_ids_def find_idem_def)
  with mapS_get_task_missing[of ?d i pre post] assms(3) show ?thesis
    by (auto simp: create_batch_def bindS_def tick_def liftS_def retS_def)
qed

section \<open>Retention\<close>

lemma purge_survivors:
  assumes "r \<in> set (db_tasks (snd (purge_retention tb eb ib d)))"
  shows "r \<in> set (db_tasks d)"
  using assms by (auto simp: purge_retention_def Let_def delete_tasks_def split: if_splits)

text \<open>
  Retention removes exactly what expired. After a purge the remaining tasks are those
  that are not both terminal and ended before the limit; the returned ids are the removed ones;
  no event, acknowledgement or batch membership of a removed task is left behind.
\<close>

theorem purge_removes_exactly_expired:
  assumes "db_ok d" and "purge_retention tb eb ib d = (Inr ids, d')"
  shows "db_tasks d' = filter (\<lambda>r. \<not> expired tb r) (db_tasks d)
    \<and> set ids = r_id ` {r \<in> set (db_tasks d). expired tb r}
    \<and> (\<forall>e \<in> set (db_events d'). \<forall>i \<in> set ids. e_task_id e \<noteq> Some i)
    \<and> (\<forall>bt \<in> set (db_batch_tasks d'). bt_task_id bt \<notin> set ids)
    \<and> (\<forall>(t, _) \<in> set (db_acks d'). t \<notin> set ids)"
proof -
  have t: "terminal_task_ids_before tb d = ids"
    using assms(2) by (simp add: purge_retention_def Let_def)
  then have ids: "ids = map r_id (filter (expired tb) (db_tasks d))"
    by (simp add: terminal_task_ids_before_def)
  have gone: "r_id r \<in> set ids \<longleftrightarrow> expired tb r" if "r \<in> set (db_tasks d)" for r
    using that db_ok_distinct[OF assms(1)] by (auto simp: ids distinct_map inj_on_def)
  let ?d = "if ids \<noteq> [] then delete_tasks ids d else d"
  have d': "d' = ?d\<lparr>db_events := filter (\<lambda>e. \<not> e_at e < eb) (db_events ?d),
      db_idem := filter (\<lambda>i. \<not> im_created_at i < ib) (db_idem ?d)\<rparr>"
    using assms(2) unfolding purge_retention_def Let_def t prod.inject by (elim conjE) (erule sym)
  have "db_tasks ?d = filter (\<lambda>r. r_id r \<notin> set ids) (db_tasks d)"
    by (auto simp: delete_tasks_def Let_def)
  also have "\<dots> = filter (\<lambda>r. \<not> expired tb r) (db_tasks d)"
    using gone by (intro filter_cong) auto
  finally have "db_tasks d' = filter (\<lambda>r. \<not> expired tb r) (db_tasks d)" by (simp add: d')
  then show ?thesis
    by (auto simp: d' ids delete_tasks_def Let_def filter_empty_conv split: option.splits)
qed

section \<open>Renaming a configuration\<close>

text \<open>
  Renaming a directory of configurations also moves the history of a directory whose name
  differs in the case of its letters only. \<open>LIKE\<close> ignores the case of ASCII letters, so a use
  of \<open>TEAM/a.yaml\<close> is recorded as a use of \<open>group/a.yaml\<close> after \<open>team\<close> was renamed to
  \<open>group\<close>, though \<open>TEAM\<close> was not touched.
\<close>

theorem rename_moves_other_case:
  assumes "source \<noteq> other" and "map ascii_lower source = map ascii_lower other"
    and "b \<in> set (db_batches d)" and "b_configuration_path b = Some (other @ ''/'' @ rest)"
  shows "b\<lparr>b_configuration_path := Some (target @ ''/'' @ rest)\<rparr>
           \<in> set (db_batches (remap_configuration_history source target d))"
proof -
  have "length other = length source" using assms(2) by (metis length_map)
  moreover have "like_prefix (other @ ''/'' @ rest) (source @ ''/'')"
    using assms(2) by (simp add: like_prefix_def starts_with_iff)
  ultimately show ?thesis
    using assms(3,4) by (force simp: remap_configuration_history_def)
qed

section \<open>Examples\<close>

definition ex_clock :: clock where
  "ex_clock n = \<lparr>i_unix = 1700000000 - int n, i_iso = ''2026-01-01T00:00:00+00:00'', i_mono = 0\<rparr>"

definition ex_draft :: task_draft where
  "ex_draft = \<lparr>td_name = ''job'', td_working_directory = ''/srv'', td_shell = None, td_source = None,
     td_command = [''true''], td_labels = [''ci''], td_mutex_keys = [''gpu''], td_custom = [],
     td_template = None, td_plugin_snapshot = [], td_stop = None, td_deferred_values = []\<rparr>"

definition ex_db :: db where
  "ex_db = snd (create_task ''/bin/sh'' ex_clock ''t1'' ex_draft empty_db)"

definition ex_batch_db :: db where
  "ex_batch_db = snd (create_batch ''/bin/sh'' ex_clock ''b1'' ''tmpl'' [] [(''t1'', ex_draft)]
     (Some (''me'', ''/r'', ''k'', [(''task_ids'', JList [JStr ''t1''])])) empty_db)"

lemma ex_db_calls: "reachable_db ''/bin/sh'' ex_clock ex_db"
  unfolding reachable_db_def ex_db_def by (intro r_into_rtranclp store_step.create_task)

lemma ex_db_ok: "db_ok ex_db"
  by (rule reachable_db_ok[OF ex_db_calls])

lemma ex_batch_db_ok: "db_ok ex_batch_db"
  unfolding ex_batch_db_def
  by (rule after_ok[OF store_step_after[OF store_step.create_batch db_ok_empty]])

lemma ex_db_row: "map r_id (db_tasks ex_db) = [''t1'']" "map r_state (db_tasks ex_db) = [QUEUED]"
  by code_simp+

theorem store_consistent_witness: "refs_ok ex_db \<and> events_ok ex_db \<and> map e_id (db_events ex_db) = [1]"
proof -
  have "map e_id (db_events ex_db) = [1]" by code_simp
  then show ?thesis using store_consistent[OF ex_db_calls] by simp
qed

theorem stored_tasks_readable_witness: "\<exists>r. fst (get_task ''t1'' ex_db) = Inr r \<and> r_name r = ''job''"
proof -
  have "map_option r_name (find_row ''t1'' ex_db) = Some ''job''" by code_simp
  then obtain r where r: "find_row ''t1'' ex_db = Some r" "r_name r = ''job''" by auto
  from stored_tasks_readable[OF ex_db_calls r(1)] r(2) show ?thesis by simp
qed

theorem event_log_append_only_witness:
  "last (db_events (snd (add_event ex_clock None ''k'' [] ex_db))) \<in> set (db_events ex_db) \<or>
   1 < e_id (last (db_events (snd (add_event ex_clock None ''k'' [] ex_db))))"
proof -
  let ?d = "snd (add_event ex_clock None ''k'' [] ex_db)"
  have seq: "db_event_seq ex_db = 1" by code_simp
  have "(store_step ''/bin/sh'' ex_clock)\<^sup>*\<^sup>* ex_db ?d"
    by (intro r_into_rtranclp store_step.append_event)
  moreover have "last (db_events ?d) \<in> set (db_events ?d)"
    by (rule last_in_set) (simp add: add_event_def bindS_def tick_def)
  ultimately show ?thesis using event_log_append_only[OF ex_db_ok] seq by (metis (no_types))
qed

theorem deferred_values_increase_witness:
  "fst (allocate_deferred ex_clock ''monotonic_unix'' ''n'' empty_db) = Inr 1700000000 \<and>
   (1700000000 :: int) < 1700000001 \<and>
   fst (allocate_deferred ex_clock ''monotonic_unix'' ''n''
      (snd (allocate_deferred ex_clock ''monotonic_unix'' ''n'' empty_db))) = Inr 1700000001"
proof -
  let ?a = "allocate_deferred ex_clock ''monotonic_unix'' ''n''"
  have v: "fst (?a empty_db) = Inr 1700000000" and w: "fst (?a (snd (?a empty_db))) = Inr 1700000001"
    by code_simp+
  have "?a empty_db = (Inr 1700000000, snd (?a empty_db))" using v by (metis prod.collapse)
  moreover have "?a (snd (?a empty_db)) = (Inr 1700000001, snd (?a (snd (?a empty_db))))"
    using w by (metis prod.collapse)
  ultimately have "(1700000000 :: int) < 1700000001"
    using deferred_values_increase[OF db_ok_empty _ rtranclp.rtrancl_refl, of ex_clock "''monotonic_unix''" "''n''"]
    by blast
  with v w show ?thesis by simp
qed

theorem transition_compare_and_set_witness:
  "\<exists>d'. transition ex_clock ''t1'' [QUEUED] STARTING None [F_pid (Some 7)] ex_db = (Inr True, d') \<and>
     (\<exists>r. find_row ''t1'' d' = Some r \<and> r_state r = STARTING)"
proof -
  let ?t = "transition ex_clock ''t1'' [QUEUED] STARTING None [F_pid (Some 7)] ex_db"
  have "fst ?t = Inr True" by code_simp
  then have t: "?t = (Inr True, snd ?t)" by (metis prod.collapse)
  from transition_compare_and_set[OF ex_db_ok t] t show ?thesis by fastforce
qed

theorem batch_all_or_nothing_witness:
  "fst (create_batch ''/bin/sh'' ex_clock ''b'' ''tmpl'' []
      [(''t2'', ex_draft), (''t3'', ex_draft\<lparr>td_command := []\<rparr>)] None ex_db) = Inl (ValidationError [''command''])
   \<and> map r_id (db_tasks (snd (create_batch ''/bin/sh'' ex_clock ''b'' ''tmpl'' []
      [(''t2'', ex_draft), (''t3'', ex_draft\<lparr>td_command := []\<rparr>)] None ex_db))) = [''t1'']"
proof -
  let ?c = "create_batch ''/bin/sh'' ex_clock ''b'' ''tmpl'' []
      [(''t2'', ex_draft), (''t3'', ex_draft\<lparr>td_command := []\<rparr>)] None ex_db"
  have e: "fst ?c = Inl (ValidationError [''command''])" by code_simp
  then have "?c = (Inl (ValidationError [''command'']), snd ?c)" by (metis prod.collapse)
  from batch_all_or_nothing[OF ex_db_ok this] e show ?thesis using ex_db_row by auto
qed

lemma ex_idem: "\<exists>m. find_idem ''me'' ''/r'' ''k'' ex_batch_db = Some m \<and>
    response_task_ids (im_response m) = Inr [''t1'']"
proof -
  have "map_option (\<lambda>m. response_task_ids (im_response m)) (find_idem ''me'' ''/r'' ''k'' ex_batch_db) =
      Some (Inr [''t1''])" by code_simp
  then show ?thesis by auto
qed

theorem batch_replayed_witness:
  "\<exists>records response n. create_batch ''/bin/sh'' ex_clock ''b2'' ''tmpl'' [] [(''t9'', ex_draft)]
      (Some (''me'', ''/r'', ''k'', [])) ex_batch_db = (Inr (records, Some response), ex_batch_db\<lparr>db_ticks := n\<rparr>)
    \<and> map r_id records = [''t1'']"
proof -
  from ex_idem obtain m where m: "find_idem ''me'' ''/r'' ''k'' ex_batch_db = Some m"
    "response_task_ids (im_response m) = Inr [''t1'']" by auto
  have "map r_id (db_tasks ex_batch_db) = [''t1'']" by code_simp
  then have "\<forall>i \<in> set [''t1'']. i \<in> task_ids ex_batch_db"
    unfolding task_ids_def by (metis list.set_map)
  from batch_replayed[OF ex_batch_db_ok m this, of "''/bin/sh''" ex_clock "''b2''" "''tmpl''" "[]"
      "[(''t9'', ex_draft)]" "[]"]
  show ?thesis by auto
qed

theorem replay_after_eviction_raises_witness:
  "\<exists>n. create_batch ''/bin/sh'' ex_clock ''b2'' ''tmpl'' [] [] (Some (''me'', ''/r'', ''k'', []))
      (delete_tasks [''t1''] ex_batch_db) = (Inl (KeyError ''t1''), (delete_tasks [''t1''] ex_batch_db)\<lparr>db_ticks := n\<rparr>)"
proof -
  from ex_idem obtain m where m: "find_idem ''me'' ''/r'' ''k'' (delete_tasks [''t1''] ex_batch_db) = Some m"
    "response_task_ids (im_response m) = Inr ([] @ ''t1'' # [])"
    by (auto simp: find_idem_def delete_tasks_def Let_def)
  have "''t1'' \<notin> task_ids (delete_tasks [''t1''] ex_batch_db)"
    by (auto simp: task_ids_def delete_tasks_def Let_def)
  from replay_after_eviction_raises[OF db_ok_delete_tasks[OF ex_batch_db_ok] m _ this] show ?thesis by simp
qed

definition ex_done_db :: db where
  "ex_done_db = snd (transition ex_clock ''t1'' [QUEUED] CANCELLED None
      [F_ended_at (Some ''2026-01-01T00:00:00+00:00'')] ex_db)"

theorem purge_removes_exactly_expired_witness:
  "fst (purge_retention ''2026-02'' [] [] ex_done_db) = Inr [''t1''] \<and>
   db_tasks (snd (purge_retention ''2026-02'' [] [] ex_done_db)) = []"
proof -
  have ok: "db_ok ex_done_db"
    unfolding ex_done_db_def by (rule after_ok[OF after_transition[where M=any_move and N=UNIV, OF after_refl[OF ex_db_ok]]])
      (simp_all add: opt_ok_def any_move_def)
  let ?p = "purge_retention ''2026-02'' [] [] ex_done_db"
  have p: "fst ?p = Inr [''t1'']" by code_simp
  then have "?p = (Inr [''t1''], snd ?p)" by (metis prod.collapse)
  from purge_removes_exactly_expired[OF ok this] have
    "db_tasks (snd ?p) = filter (\<lambda>r. \<not> expired ''2026-02'' r) (db_tasks ex_done_db)" by simp
  moreover have "map (expired ''2026-02'') (db_tasks ex_done_db) = [True]" by code_simp
  ultimately show ?thesis using p by auto
qed

definition ex_case_db :: db where
  "ex_case_db = empty_db\<lparr>db_batches := [\<lparr>b_id = ''b'', b_template = ''t'', b_values = [],
     b_created_at = ''2026'', b_configuration_path = Some ''TEAM/a.yaml''\<rparr>]\<rparr>"

theorem rename_moves_other_case_witness:
  "map b_configuration_path (db_batches (remap_configuration_history ''team'' ''group'' ex_case_db))
     = [Some ''group/a.yaml'']"
proof -
  have "map ascii_lower ''team'' = map ascii_lower ''TEAM''" by code_simp
  from rename_moves_other_case[OF _ this, of _ ex_case_db "''a.yaml''" "''group''"]
  have "\<lparr>b_id = ''b'', b_template = ''t'', b_values = [], b_created_at = ''2026'',
      b_configuration_path = Some ''group/a.yaml''\<rparr>
      \<in> set (db_batches (remap_configuration_history ''team'' ''group'' ex_case_db))"
    by (simp add: ex_case_db_def)
  moreover have "length (db_batches (remap_configuration_history ''team'' ''group'' ex_case_db)) = 1"
    by (simp add: remap_configuration_history_def ex_case_db_def)
  ultimately show ?thesis by (auto simp: length_Suc_conv)
qed

end
