(* ===== verification/LF_Service_Facts.thy ===== *)
theory LF_Service_Facts
  imports LF_Service LF_Store_Facts
begin

text \<open>
  What holds of the task service along every interleaving of its coroutines, the API calls
  and the answers of its environment: the lifecycle of a task, the exclusive use of mutex keys,
  the admission limit, and that a task is launched at most once.
\<close>

section \<open>The moves the service makes\<close>

definition new_ended_at :: "task_field list \<Rightarrow> string option \<Rightarrow> string option" where
  "new_ended_at flds old = foldl (\<lambda>c f. case f of F_ended_at v \<Rightarrow> v | _ \<Rightarrow> c) old flds"

text \<open>The order in which a task passes through its states.\<close>

fun stage :: "task_state \<Rightarrow> nat" where
  "stage QUEUED = 0"
| "stage STARTING = 1"
| "stage RUNNING = 2"
| "stage STOPPING = 3"
| "stage _ = 4"

lemma stage_terminal: "terminal st \<longleftrightarrow> stage st = 4" "stage st \<le> 4"
  by (cases st; simp)+

definition moves_on :: row_moves where
  "moves_on r st flds \<longleftrightarrow> \<not> terminal (r_state r) \<and> st \<noteq> QUEUED \<and> stage (r_state r) \<le> stage st \<and>
     (terminal st \<longrightarrow> new_ended_at flds (r_ended_at r) \<noteq> None) \<and>
     (\<not> terminal st \<longrightarrow> new_ended_at flds (r_ended_at r) = r_ended_at r)"

text \<open>Everything but the admission of a queued task.\<close>

definition svc_move :: row_moves where
  "svc_move r st flds \<longleftrightarrow> moves_on r st flds \<and> st \<noteq> STARTING \<and> (r_state r = QUEUED \<longrightarrow> st = CANCELLED)"

lemma fold_set_field_ended:
  "r_ended_at (foldl (\<lambda>r f. set_field f r) r flds) = new_ended_at flds (r_ended_at r)"
proof (induction flds arbitrary: r)
  case Nil
  show ?case by (simp add: new_ended_at_def)
next
  case (Cons f flds)
  then show ?case by (cases f) (simp_all add: new_ended_at_def)
qed

lemma apply_transition_ended [simp]:
  "r_ended_at (apply_transition st s flds r) = new_ended_at flds (r_ended_at r)"
  by (simp add: apply_transition_def fold_set_field_ended)

lemma new_ended_at_simps [simp]:
  "new_ended_at [] old = old"
  "new_ended_at (f # flds) old = new_ended_at flds (case f of F_ended_at v \<Rightarrow> v | _ \<Rightarrow> old)"
  by (simp_all add: new_ended_at_def)

section \<open>Invariants of the service\<close>

fun is_start :: "coro \<Rightarrow> bool" where
  "is_start (C_start i) = True"
| "is_start c = False"

text \<open>The part of the state the invariants speak about.\<close>

definition core :: "svc \<Rightarrow> db \<times> coro list \<times> string list \<times> string list" where
  "core s = (sv_db s, filter is_start (sv_coros s), sv_launched s, sv_issued s)"

lemma core_frame [simp]:
  "core (s\<lparr>sv_starters := a\<rparr>) = core s" "core (s\<lparr>sv_waiters := a\<rparr>) = core s"
  "core (s\<lparr>sv_interrupts := a\<rparr>) = core s" "core (s\<lparr>sv_advances := b\<rparr>) = core s"
  "core (s\<lparr>sv_wake := c\<rparr>) = core s" "core (s\<lparr>sv_stopping := c\<rparr>) = core s"
  "core (s\<lparr>sv_queue_cursor := q\<rparr>) = core s" "core (s\<lparr>sv_log_dirs := l\<rparr>) = core s"
  "core (s\<lparr>sv_terminals := n\<rparr>) = core s"
  by (simp_all add: core_def)

locale svc_invariant =
  fixes e :: env and I :: "svc \<Rightarrow> bool"
  assumes core: "I s \<Longrightarrow> core s' = core s \<Longrightarrow> I s'"
    and ok: "I s \<Longrightarrow> db_ok (sv_db s)"
    and writes: "I s \<Longrightarrow> after svc_move (set ids) (sv_db s) d \<Longrightarrow>
      set ids \<inter> set (sv_issued s) = {} \<Longrightarrow> I (s\<lparr>sv_db := d, sv_issued := ids @ sv_issued s\<rparr>)"
    and launch: "I s \<Longrightarrow> C_start i \<in> set (sv_coros s) \<Longrightarrow>
      I (s\<lparr>sv_coros := remove1 (C_start i) (sv_coros s), sv_launched := sv_launched s @ [i]\<rparr>)"
    and forget: "I s \<Longrightarrow> I (s\<lparr>sv_coros := remove1 c (sv_coros s)\<rparr>)"
    and forget_all: "I s \<Longrightarrow> I (s\<lparr>sv_coros := []\<rparr>)"
    and admission: "I s \<Longrightarrow> I (snd (schedule e s))"
begin

lemma keeps_upd: "(\<And>s. core (f s) = core s) \<Longrightarrow> keeps I (upd f)"
  using core by (auto simp: keeps_def upd_def)

lemma keeps_getS [task_inv]: "keeps I (getS f)"
  by (simp add: keeps_def getS_def)

lemma keeps_spawn: "\<not> is_start c \<Longrightarrow> keeps I (spawn c)"
  unfolding spawn_def by (rule keeps_upd) (simp add: core_def)

lemma plain_write:
  assumes "I s" and "after svc_move {} (sv_db s) d"
  shows "I (s\<lparr>sv_db := d\<rparr>)"
  using writes[of s "[]" d] assms by simp

lemma keeps_onDb:
  assumes "\<And>d. db_ok d \<Longrightarrow> after svc_move {} d (snd (f d))"
  shows "keeps I (onDb f)"
proof -
  have "I (s\<lparr>sv_db := snd (f (sv_db s))\<rparr>)" if "I s" for s
    using that plain_write[OF that assms[OF ok[OF that]]] by simp
  then show ?thesis by (auto simp: keeps_def onDb_def split: prod.splits) (metis snd_conv)
qed

lemma keeps_get_task [task_inv]: "keeps I (onDb (get_task i))"
  by (rule keeps_onDb) (simp add: get_task_def after_refl)

lemma keeps_tick [task_inv]: "keeps I (onDb (tick clk))"
  by (rule keeps_onDb) (simp add: tick_def after_ticks after_refl)

lemma keeps_list [task_inv]: "keeps I (svc_list q)"
  unfolding svc_list_def by (rule keeps_onDb) (simp add: list_tasks_def after_refl)

lemma keeps_event [task_inv]: "keeps I (append_event e' i k data)"
  unfolding append_event_def by (rule keeps_onDb) (rule hoare_inv[OF hoare_add_event after_refl])

lemma keeps_transition:
  assumes "\<And>r. r_state r \<in> set expd \<Longrightarrow> svc_move r st flds" and "opt_ok (\<lambda>s. ts_key s \<noteq> []) ov"
  shows "keeps I (svc_transition e' i expd st ov flds)"
  unfolding svc_transition_def
  by (rule keeps_onDb) (rule after_transition[OF after_refl assms(2)], simp, rule assms(1))

lemma keeps_simple [task_inv]:
  "keeps I wake" "keeps I on_terminal" "keeps I (now_iso e')" "keeps I (monotonic e')"
  "keeps I (log_size e' i)" "keeps I (set_cursor c)" "keeps I (end_starter i)" "keeps I (end_waiter i)"
  "keeps I (end_interrupt i)" "keeps I (end_confirm i b)"
  unfolding wake_def on_terminal_def now_iso_def monotonic_def log_size_def set_cursor_def
    end_starter_def end_waiter_def end_interrupt_def end_confirm_def
  by (intro task_inv keeps_upd; simp)+

lemma keeps_elapsed [task_inv]: "keeps I (elapsed e' t)"
  unfolding elapsed_def by (intro task_inv)

lemma keeps_finally [task_inv]: "keeps I f \<Longrightarrow> keeps I g \<Longrightarrow> keeps I (with_finally f g)"
proof (unfold keeps_def, intro allI impI)
  fix s assume f: "\<forall>s. I s \<longrightarrow> I (snd (f s))" and g: "\<forall>s. I s \<longrightarrow> I (snd (g s))" and s: "I s"
  obtain r t where fs: "f s = (r, t)" by fastforce
  with f s have "I t" by (metis snd_conv)
  moreover from this g have "I (snd (g t))" by blast
  ultimately show "I (snd (with_finally f g s))"
    by (cases r) (simp_all add: with_finally_def fs)
qed

lemma keeps_sum [task_inv]:
  "(\<And>a. keeps I (f a)) \<Longrightarrow> (\<And>b. keeps I (g b)) \<Longrightarrow> keeps I (case x of Inl a \<Rightarrow> f a | Inr b \<Rightarrow> g b)"
  by (cases x) simp_all

lemma keeps_list_case [task_inv]:
  "keeps I h \<Longrightarrow> (\<And>a b. keeps I (k a b)) \<Longrightarrow> keeps I (case xs of [] \<Rightarrow> h | a # b \<Rightarrow> k a b)"
  by (cases xs) simp_all

lemma keeps_bool [task_inv]:
  "keeps I p \<Longrightarrow> keeps I q \<Longrightarrow> keeps I (case c of True \<Rightarrow> p | False \<Rightarrow> q)"
  by (cases c) simp_all

lemma keeps_unit [task_inv]: "keeps I p \<Longrightarrow> keeps I (case u of () \<Rightarrow> p)"
  by (cases u) (simp only: old.unit.case)

lemma keeps_answer [task_inv]:
  "keeps I f1 \<Longrightarrow> keeps I f2 \<Longrightarrow> (\<And>x. keeps I (f3 x)) \<Longrightarrow> (\<And>x. keeps I (f4 x)) \<Longrightarrow>
   (\<And>x. keeps I (f5 x)) \<Longrightarrow> (\<And>x. keeps I (f6 x)) \<Longrightarrow> (\<And>x. keeps I (f7 x)) \<Longrightarrow>
   (\<And>x. keeps I (f8 x)) \<Longrightarrow> (\<And>x. ans = A_evaluated x \<Longrightarrow> keeps I (f9 x)) \<Longrightarrow>
   keeps I (case ans of A_go \<Rightarrow> f1 | A_cancel \<Rightarrow> f2 | A_started x \<Rightarrow> f3 x | A_exit x \<Rightarrow> f4 x
     | A_running x \<Rightarrow> f5 x | A_completed x \<Rightarrow> f6 x | A_done x \<Rightarrow> f7 x | A_applied x \<Rightarrow> f8 x
     | A_evaluated x \<Rightarrow> f9 x)"
  by (cases ans) simp_all

subsection \<open>Segments\<close>

lemma keeps_start [task_inv]: "keeps I (start_exec e' task ans)"
  unfolding start_exec_def start_succeeded_def start_failed_def
  by (intro task_inv keeps_upd keeps_spawn keeps_transition;
     auto simp: svc_move_def moves_on_def opt_ok_def)+

lemma keeps_wait_code [task_inv]: "keeps I (wait_code e' i code)"
  unfolding wait_code_def by (intro task_inv keeps_spawn; simp)

lemma keeps_wait_decide [task_inv]: "keeps I (wait_decide e' i n t b c)"
  unfolding wait_decide_def
  by (intro task_inv keeps_spawn keeps_transition; auto simp: svc_move_def moves_on_def opt_ok_def)+

lemma keeps_wait [task_inv]:
  "keeps I (wait_probe_error e' i n t err)" "keeps I (wait_exec e' i n ans)"
  "keeps I (wait_running e' i n t ans)" "keeps I (wait_completed e' i n t b ans)"
  "keeps I (wait_sleep e' i n ans)"
  unfolding wait_probe_error_def wait_exec_def wait_running_def wait_completed_def wait_sleep_def
  by (intro task_inv keeps_spawn; simp)+

lemma keeps_evaluate [task_inv]: "keeps I (evaluate_result e' task code r)"
  unfolding evaluate_result_def by (intro task_inv)

lemma evaluated_key:
  assumes "answer_ok (A_evaluated r)" and "evaluate_result e' task code r s = (Inr (ov, custom), t)"
  shows "opt_ok (\<lambda>st. ts_key st \<noteq> []) ov"
  using assms
  by (auto simp: evaluate_result_def retS_def bindS_def opt_ok_def failed_status_def
      split: if_splits sum.splits option.splits prod.splits)

lemma keeps_bindS_result:
  assumes "keeps I f" and "\<And>s a t. f s = (Inr a, t) \<Longrightarrow> keeps I (g a)"
  shows "keeps I (bindS f g)"
  unfolding keeps_def
proof (intro allI impI)
  fix s assume s: "I s"
  obtain r t where fs: "f s = (r, t)" by fastforce
  with assms(1) s have "I t" by (metis keepsD snd_conv)
  with assms(2)[of s _ t] fs show "I (snd (bindS f g s))"
    by (cases r) (auto simp: bindS_def dest: keepsD)
qed

lemma keeps_finish:
  assumes "set expd \<subseteq> set OWNED" and "terminal st" and "opt_ok (\<lambda>s. ts_key s \<noteq> []) ov"
  shows "keeps I (finish_task e' task expd st code ov custom)"
  unfolding finish_task_def
  using assms by (intro task_inv keeps_transition) (auto simp: svc_move_def moves_on_def OWNED_def stage_terminal)

lemma keeps_evaluated:
  assumes "answer_ok (A_evaluated r)" and "set expd \<subseteq> set OWNED" and "terminal st" and "keeps I k"
  shows "keeps I (bindS (evaluate_result e' task code r) (\<lambda>(ov, custom).
          bindS (finish_task e' task expd st code ov custom) (\<lambda>_. k)))"
proof (rule keeps_bindS_result[OF keeps_evaluate])
  fix s a t assume "evaluate_result e' task code r s = (Inr a, t)"
  with assms show "keeps I (case a of (ov, custom) \<Rightarrow>
      bindS (finish_task e' task expd st code ov custom) (\<lambda>_. k))"
    by (cases a) (auto intro!: task_inv keeps_finish dest: evaluated_key)
qed

lemma terminal_exit_state [simp]: "terminal (exit_state task code)"
  by (simp add: exit_state_def)

lemma keeps_wait_eval: "answer_ok ans \<Longrightarrow> keeps I (wait_eval e' i code task ans)"
  unfolding wait_eval_def
  by (cases ans) (auto intro!: keeps_finally keeps_evaluated keeps_simple simp: OWNED_def)

subsection \<open>Interrupts\<close>

lemma keeps_start_interrupt [task_inv]: "keeps I (start_interrupt i x y)"
  unfolding start_interrupt_def by (intro task_inv keeps_upd keeps_spawn; simp)

lemma keeps_snapshot_stop:
  assumes "valid_stop strategy"
  shows "keeps I (upd (\<lambda>s. s\<lparr>sv_db := snapshot_stop i strategy (sv_db s)\<rparr>))"
  unfolding keeps_def upd_def
  using plain_write[OF _ after_snapshot_stop[OF after_refl[OF ok] assms]] by simp

lemma keeps_request_stop [task_inv]: "keeps I (request_stop e' i task x y)"
  unfolding request_stop_def
proof (rule keeps_bindS)
  have "keeps I (bindS (liftS (validate_stop_strategy (default_actions x y))) (\<lambda>strategy.
      upd (\<lambda>s. s\<lparr>sv_db := snapshot_stop i strategy (sv_db s)\<rparr>)))"
    by (rule keeps_bindS_result[OF keeps_liftS])
      (auto simp: liftS_def validate_stop_strategy_valid intro!: keeps_snapshot_stop)
  then show "keeps I (if r_stop task = None then
      bindS (liftS (validate_stop_strategy (default_actions x y))) (\<lambda>strategy.
        upd (\<lambda>s. s\<lparr>sv_db := snapshot_stop i strategy (sv_db s)\<rparr>)) else retS ())"
    by (simp add: keeps_retS)
qed (intro task_inv keeps_transition; auto simp: svc_move_def moves_on_def opt_ok_def)

lemma keeps_interrupt [task_inv]: "keeps I (interrupt e' i x y)"
  unfolding interrupt_def
  by (intro task_inv keeps_upd keeps_transition; auto simp: svc_move_def moves_on_def opt_ok_def)

lemma keeps_confirm [task_inv]:
  "keeps I (confirm_begin e' i n b)" "keeps I (conf_sleep e' i n b ans)"
  unfolding confirm_begin_def conf_sleep_def by (intro task_inv keeps_spawn; simp)+

lemma keeps_conf_decide [task_inv]: "keeps I (conf_decide e' i n b t running c)"
  unfolding conf_decide_def
  by (intro task_inv keeps_spawn keeps_transition; auto simp: svc_move_def moves_on_def opt_ok_def)

lemma keeps_conf [task_inv]:
  "keeps I (conf_probe_error e' i n b t err)" "keeps I (conf_running e' i n b t ans)"
  "keeps I (conf_completed e' i n b t running ans)" "keeps I (conf_kill e' i n b ans)"
  unfolding conf_probe_error_def conf_running_def conf_completed_def conf_kill_def
  by (intro task_inv keeps_spawn; simp)+

lemma keeps_poll [task_inv]: "keeps I (poll_exit e' i n t)"
  unfolding poll_exit_def
  by (intro task_inv keeps_spawn keeps_transition; auto simp: svc_move_def moves_on_def opt_ok_def OWNED_def)

lemma keeps_next_action [task_inv]: "keeps I (next_action e' i n as)"
  unfolding next_action_def
  by (intro task_inv keeps_spawn keeps_transition; auto simp: svc_move_def moves_on_def opt_ok_def OWNED_def)

lemma keeps_wait_round [task_inv]: "keeps I (wait_round e' i n a as off dl hdl tl')"
  unfolding wait_round_def read_output_def Let_def
  by (intro task_inv keeps_upd keeps_spawn; simp)

lemma keeps_int [task_inv]:
  "keeps I (begin_wait e' i n a as off x)" "keeps I (int_begin e' i x y ans)"
  "keeps I (int_apply e' i n a as t off ans)" "keeps I (int_wait e' i n a as off x y tail ans)"
  "keeps I (int_poll e' i n ans)" "keeps I (int_kill e' i ans)"
  unfolding begin_wait_def int_begin_def int_apply_def int_wait_def int_poll_def int_kill_def Let_def
  by (intro task_inv keeps_upd; simp)+

subsection \<open>Recovery, shutdown, retention\<close>

lemma keeps_rec_next: "keeps I (rec_next e' c ts)"
proof (induction ts)
  case Nil
  have "keeps I (case c of None \<Rightarrow> retS () | Some k \<Rightarrow> spawn (C_rec_page (Some k)))"
    by (intro task_inv keeps_spawn; simp)
  then show ?case by (auto simp: keeps_def retS_def split: option.splits)
next
  case (Cons t ts)
  have "keeps I (if host_restarted e' then
        bindS (now_iso e') (\<lambda>now.
        bindS (svc_transition e' (r_id t) OWNED LOST None [F_ended_at (Some now), F_elapsed_seconds None]) (\<lambda>_.
        bindS (append_event e' (Some (r_id t)) ''task.host_restarted''
                 [boot_entry ''previous_boot_id'' (en_previous_boot e'), boot_entry ''boot_id'' (en_boot_id e')]) (\<lambda>_.
        bindS on_terminal (\<lambda>_. rec_next e' c ts))))
      else spawn (C_rec_completed t ts c))"
    by (intro task_inv keeps_spawn keeps_transition Cons;
      auto simp: svc_move_def moves_on_def opt_ok_def OWNED_def)
  then show ?case by (auto simp: keeps_def)
qed

lemma keeps_rec_decide [task_inv]: "keeps I (rec_decide e' t c b ts n)"
  unfolding rec_decide_def
  by (intro task_inv keeps_rec_next keeps_upd keeps_spawn keeps_transition;
    auto simp: svc_move_def moves_on_def opt_ok_def OWNED_def)

lemma keeps_rec [task_inv]:
  "keeps I (rec_page e' c)" "keeps I (rec_completed e' t ts c ans)" "keeps I (rec_running e' t k ts c ans)"
  unfolding rec_page_def rec_completed_def rec_running_def
  by (intro task_inv keeps_rec_next keeps_spawn; simp)+

lemma keeps_rec_eval: "answer_ok ans \<Longrightarrow> keeps I (rec_eval e' t code ts c ans)"
  unfolding rec_eval_def
  by (cases ans) (auto intro!: keeps_evaluated keeps_rec_next keeps_retS)

lemma keeps_drain: "keeps I (drain fuel e')"
proof (induction fuel)
  case (Suc fuel)
  have "keeps I (bindS (svc_list interruptible_query) (\<lambda>batch.
       if batch = [] then retS ()
       else bindS (mapS (\<lambda>task. interrupt e' (r_id task) 20 10) batch) (\<lambda>_. drain fuel e')))"
    by (intro task_inv Suc)
  then show ?case by (simp add: keeps_def)
qed (simp add: keeps_def)

lemma keeps_shut [task_inv]: "keeps I (shut_force e' i)" "keeps I (shut_kill e' i ans)"
  unfolding shut_force_def shut_kill_def
  by (intro task_inv keeps_spawn keeps_transition; auto simp: svc_move_def moves_on_def opt_ok_def OWNED_def)+

lemma drop_logs_keeps: "I s \<Longrightarrow> I (snd (drop_logs ids n s))"
proof (induction ids n s rule: drop_logs.induct)
  case (2 i ids n s)
  have "I (s\<lparr>sv_db := set_log_size i 0 (sv_db s)\<rparr>)"
    by (rule plain_write[OF 2(3)]) (rule after_set_log_size[OF after_refl[OF ok[OF 2(3)]]])
  then have "I ((remove_log_dir i s)\<lparr>sv_db := set_log_size i 0 (sv_db s)\<rparr>)"
    by (rule core) (simp add: core_def remove_log_dir_def)
  with 2 show ?case by simp
qed simp

lemma keeps_evict: "keeps I (evict limit ids total_size evicted)"
proof (induction ids arbitrary: total_size evicted)
  case (Cons i ids)
  have "keeps I (if total_size \<le> limit then retS evicted
      else bindS (getS (\<lambda>s. map_of (sv_log_dirs s) i)) (\<lambda>x. case x of
        None \<Rightarrow> evict limit ids total_size evicted
      | Some bytes \<Rightarrow>
          bindS (onDb (purge_terminal_task i)) (\<lambda>purged.
            if purged
            then bindS (upd (remove_log_dir i)) (\<lambda>_. evict limit ids (total_size - bytes) (evicted @ [i]))
            else evict limit ids total_size evicted)))"
    by (intro task_inv keeps_upd keeps_onDb Cons after_purge_terminal_task[OF after_refl])
      (auto simp: remove_log_dir_def)
  then show ?case by (auto simp: keeps_def getS_def bindS_def retS_def split: option.splits)
qed (simp add: keeps_def)

lemma keeps_maintain: "keeps I (maintain cutoff limit)"
  unfolding maintain_def
proof (intro task_inv keeps_evict)
  show "keeps I (onDb (purge_retention cutoff cutoff cutoff))"
    by (rule keeps_onDb) (rule after_purge_retention[OF after_refl])
  show "keeps I (\<lambda>s. case drop_logs (remdups deleted) 0 s of (n, t) \<Rightarrow> (Inr n, t))" for deleted
    using drop_logs_keeps[of _ "remdups deleted" 0] by (auto simp: keeps_def split: prod.splits) (metis snd_conv)
qed

subsection \<open>Every step\<close>

lemma submit_keeps:
  assumes s: "I s" and new: "i \<notin> set (sv_issued s)"
  shows "I ((snd (submit e' i t s))\<lparr>sv_issued := i # sv_issued s\<rparr>)"
proof -
  define s' where "s' = snd (submit e' i t s)"
  have "after svc_move (set [i]) (sv_db s) (snd (create_task (en_sh e') (en_clock e') i x (sv_db s)))" for x
    by (rule hoare_inv[OF hoare_create_task after_refl[OF ok[OF s]]]) simp
  then have "\<exists>d. after svc_move (set [i]) (sv_db s) d \<and> core s' = core (s\<lparr>sv_db := d\<rparr>)"
    using after_refl[OF ok[OF s]] unfolding s'_def submit_def
    by (auto simp: bindS_def liftS_def onDb_def wake_def upd_def retS_def core_def
        split: sum.splits prod.splits) (metis snd_conv)+
  then obtain d where d: "after svc_move (set [i]) (sv_db s) d" "core s' = core (s\<lparr>sv_db := d\<rparr>)"
    by blast
  have "I (s\<lparr>sv_db := d, sv_issued := [i] @ sv_issued s\<rparr>)"
    using writes[OF s d(1)] new by simp
  then show ?thesis
    by (rule core) (use d(2) in \<open>simp add: core_def s'_def\<close>)
qed

lemma submit_batch_keeps:
  assumes s: "I s" and new: "set ids \<inter> set (sv_issued s) = {}"
  shows "I ((snd (submit_batch e' b ids tmpl vals ts idem s))\<lparr>sv_issued := ids @ sv_issued s\<rparr>)"
proof -
  define s' where "s' = snd (submit_batch e' b ids tmpl vals ts idem s)"
  have "after svc_move (set ids) (sv_db s) (snd (create_batch (en_sh e') (en_clock e') b tmpl vals (zip ids xs) m (sv_db s)))"
    for xs m
    by (rule hoare_inv[OF hoare_create_batch after_refl[OF ok[OF s]]]) (auto dest: set_zip_leftD)
  then have "\<exists>d. after svc_move (set ids) (sv_db s) d \<and> core s' = core (s\<lparr>sv_db := d\<rparr>)"
    using after_refl[OF ok[OF s]] unfolding s'_def submit_batch_def Let_def
    by (auto simp: bindS_def liftS_def onDb_def wake_def upd_def retS_def failS_def core_def
        split: sum.splits prod.splits option.splits) (metis snd_conv)+
  then obtain d where d: "after svc_move (set ids) (sv_db s) d" "core s' = core (s\<lparr>sv_db := d\<rparr>)"
    by blast
  show ?thesis
    by (rule core[OF writes[OF s d(1) new]]) (use d(2) in \<open>simp add: core_def s'_def\<close>)
qed

lemma start_begin_keeps:
  assumes "I s" and "C_start i \<in> set (sv_coros s)"
  shows "I (snd (start_begin e' i (s\<lparr>sv_coros := remove1 (C_start i) (sv_coros s)\<rparr>)))"
proof -
  note launched = launch[OF assms] and forgotten = forget[OF assms(1), of "C_start i"]
  obtain x where x: "get_task i (sv_db s) = (x, sv_db s)"
    by (auto simp: get_task_def)
  show ?thesis
  proof (cases x)
    case (Inl err)
    with x show ?thesis
      by (intro core[OF forgotten])
        (simp add: start_begin_def with_finally_def bindS_def onDb_def upd_def end_starter_def core_def)
  next
    case (Inr t)
    with x show ?thesis
      by (intro core[OF launched])
        (simp add: start_begin_def with_finally_def bindS_def onDb_def upd_def spawn_def core_def)
  qed
qed

lemma resume_keeps:
  assumes s: "I s" and c: "c \<in> set (sv_coros s)" and "answer_ok ans"
  shows "I (snd (resume e' c ans (s\<lparr>sv_coros := remove1 c (sv_coros s)\<rparr>)))"
proof (cases "is_start c")
  case True
  then show ?thesis using start_begin_keeps s c by (cases c) auto
next
  case False
  have "keeps I (resume e' c ans)"
    using False assms(3) by (cases c) (auto intro!: task_inv keeps_wait_eval keeps_rec_eval)
  then show ?thesis using forget[OF s] by (rule keepsD)
qed

lemma step_keeps:
  assumes "svc_step e s s'" and s: "I s"
  shows "I s'"
  using assms(1)
proof cases
  case (submit i t)
  then show ?thesis using submit_keeps[OF s] by simp
next
  case (submit_batch ids b tmpl vals ts idem)
  then show ?thesis using submit_batch_keeps[OF s] by simp
next
  case (interrupt i x y)
  then show ?thesis using keepsD[OF keeps_interrupt s] by simp
next
  case (acknowledge i v)
  have "keeps I (onDb (acknowledge (en_clock e) i v))"
    by (rule keeps_onDb) (rule after_acknowledge[OF after_refl])
  with acknowledge s show ?thesis by (auto dest: keepsD)
next
  case (idempotency_put a r k resp)
  have "keeps I (onDb (LF_Store.idempotency_put (en_clock e) a r k resp))"
    by (rule keeps_onDb) (rule after_idempotency_put[OF after_refl])
  with idempotency_put s show ?thesis by (auto dest: keepsD)
next
  case (rename src tgt)
  then show ?thesis using plain_write[OF s after_remap[OF after_refl[OF ok[OF s]]]] by simp
next
  case schedule
  then show ?thesis using admission[OF s] by simp
next
  case idle
  then show ?thesis by (auto intro: core[OF s])
next
  case (maintain cutoff limit)
  then show ?thesis using keepsD[OF keeps_maintain s] by simp
next
  case (log_output i n)
  then show ?thesis by (auto intro: core[OF s])
next
  case (resume c ans)
  then show ?thesis using resume_keeps[OF s] by simp
next
  case restart
  then show ?thesis by (auto intro!: core[OF forget_all[OF s]] simp: core_def new_service_def)
next
  case recover
  then show ?thesis using keepsD[OF keeps_rec(1) s] by simp
next
  case stopping
  then show ?thesis by (auto intro: core[OF s])
next
  case (drain fuel)
  then show ?thesis using keepsD[OF keeps_drain s] by simp
next
  case (force i)
  then show ?thesis using keepsD[OF keeps_shut(1) s] by simp
qed

lemma steps_keep: "(svc_step e)\<^sup>*\<^sup>* s s' \<Longrightarrow> I s \<Longrightarrow> I s'"
  by (induction rule: rtranclp_induct) (auto intro: step_keeps)

end

end
