(* ===== verification/LF_Scheduler.thy ===== *)
theory LF_Scheduler
  imports LF_Service_Facts
begin

text \<open>
  The scheduler: the listing that reads every owned task page by page, one pass over the queue
  as a client of a pool of tasks, and the invariants of the whole service that rest on it.
\<close>

section \<open>Reading every task\<close>

definition shown :: "task_row \<Rightarrow> task_row" where
  "shown r = r\<lparr>r_status := shown_status r\<rparr>"

lemma shown_simps [simp]:
  "r_id (shown r) = r_id r" "r_state (shown r) = r_state r" "r_mutex_keys (shown r) = r_mutex_keys r"
  "r_created_at (shown r) = r_created_at r" "row_key (shown r) = row_key r"
  by (simp_all add: shown_def row_key_def)

definition listed :: "string list \<Rightarrow> db \<Rightarrow> task_row list" where
  "listed states d =
     sort_key row_key (filter (\<lambda>r. states = [] \<or> state_value (r_state r) \<in> set states) (db_tasks d))"

lemma page_query_matches:
  "query_matches (page_query states c) r \<longleftrightarrow>
     (states = [] \<or> state_value (r_state r) \<in> set states) \<and> (case c of None \<Rightarrow> True | Some k \<Rightarrow> k < row_key r)"
  by (auto simp: query_matches_def page_query_def any_query_def from_bound_def to_bound_def row_key_def
      less_prod_def' split: option.splits)

interpretation listing: keyset_pages "(<)" row_key "listed states d" "\<lambda>c. select_rows (page_query states c) d" TASK_PAGE_SIZE
  for states d
proof
  have lim: "clamp_limit (q_limit (page_query states c)) = TASK_PAGE_SIZE" "q_ascending (page_query states c)" for c
    by (simp_all add: clamp_limit_def page_query_def TASK_PAGE_SIZE_def)
  show "\<not> y < x" if "x < y" for x y :: "string \<times> string" using that by simp
  show "0 < TASK_PAGE_SIZE" by (simp add: TASK_PAGE_SIZE_def)
  show "select_rows (page_query states None) d = take TASK_PAGE_SIZE (listed states d)"
    by (simp add: select_rows_def lim listed_def page_query_matches[abs_def])
  show "select_rows (page_query states (Some k)) d = take TASK_PAGE_SIZE (filter (\<lambda>r. k < row_key r) (listed states d))" for k
    by (simp add: select_rows_def lim listed_def page_query_matches[abs_def] filter_sort conj_commute)
qed

lemma sort_key_strict:
  assumes "distinct (map key xs)"
  shows "sorted_wrt (<) (map (key :: 'a \<Rightarrow> 'k :: linorder) (sort_key key xs))"
  using assms by (simp add: strict_sorted_iff distinct_map)

lemma listed_increasing:
  assumes "db_ok d"
  shows "sorted_wrt (<) (map row_key (listed states d))"
proof -
  have "distinct (map r_id (db_tasks d))" using db_ok_distinct[OF assms] .
  then have "distinct (map row_key (filter P (db_tasks d)))" for P
    by (auto simp: distinct_map row_key_def inj_on_def)
  then show ?thesis unfolding listed_def by (rule sort_key_strict)
qed

lemma all_tasks_pages:
  assumes "db_ok d"
  shows "all_tasks fuel states c d =
    map_option (\<lambda>rs. Inr (map shown rs)) (listing.read_all states d fuel c)"
proof (induction fuel arbitrary: c)
  case (Suc fuel)
  let ?p = "select_rows (page_query states c) d"
  have "list_tasks (page_query states c) d = (Inr (map shown ?p), d)"
    using list_tasks_ok[of d] assms by (simp add: db_ok_def shown_def[abs_def])
  moreover have "row_key (last (map shown ?p)) = row_key (last ?p)" if "?p \<noteq> []"
    using that by (simp add: last_map)
  ultimately show ?case
    using Suc by (auto simp: listing.page_size option.map_comp comp_def intro!: option.map_cong)
qed simp

lemma all_tasks_all:
  assumes "db_ok d" and "length (db_tasks d) < fuel"
  shows "all_tasks fuel states None d = Some (Inr (map shown (listed states d)))"
proof -
  have "length (listed states d) < fuel"
    using assms(2) by (simp add: listed_def le_less_trans[OF length_filter_le])
  with listing.read_all_complete[OF listed_increasing[OF assms(1)], of _ "[]" "listed states d"]
  have "listing.read_all states d fuel None = Some (listed states d)"
    by (simp add: listing.cursor_def)
  then show ?thesis by (simp add: all_tasks_pages[OF assms(1)])
qed

definition active_row :: "task_row \<Rightarrow> bool" where
  "active_row r \<longleftrightarrow> r_state r \<in> set OWNED"

lemma listed_owned: "set (listed OWNED_NAMES d) = {r \<in> set (db_tasks d). active_row r}"
proof -
  have "state_value st \<in> set OWNED_NAMES \<longleftrightarrow> st \<in> set OWNED" for st
    by (cases st) (simp_all add: OWNED_NAMES_def OWNED_def)
  then show ?thesis by (auto simp: listed_def active_row_def OWNED_NAMES_def)
qed

lemma owned_tasks_ok: "db_ok d \<Longrightarrow> owned_tasks d = Inr (map shown (listed OWNED_NAMES d))"
  by (simp add: owned_tasks_def all_tasks_all del: all_tasks.simps)

section \<open>One pass over the queue\<close>

text \<open>
  What \<open>scan\<close> relies on: a pool of queued and active tasks with the mutex keys of each.
  Marking a task changes neither; admitting one moves it from the queue to the active tasks,
  and is refused only to a task that is not queued.
\<close>

locale admission =
  fixes mark :: "string \<Rightarrow> string list \<Rightarrow> string list \<Rightarrow> ('s, unit) op"
    and admit :: "string \<Rightarrow> ('s, bool) op"
    and good :: "'s \<Rightarrow> bool"
    and active :: "'s \<Rightarrow> string set"
    and queued :: "'s \<Rightarrow> string set"
    and keys :: "'s \<Rightarrow> string \<Rightarrow> string set"
  assumes finite_active: "good s \<Longrightarrow> finite (active s)"
    and mark: "good s \<Longrightarrow> mark i bs ks s = (y, s') \<Longrightarrow>
      good s' \<and> active s' = active s \<and> queued s' = queued s \<and> keys s' = keys s"
    and admit_yes: "good s \<Longrightarrow> admit i s = (Inr True, s') \<Longrightarrow>
      good s' \<and> i \<notin> active s \<and> active s' = insert i (active s) \<and> queued s' = queued s - {i} \<and> keys s' = keys s"
    and admit_no: "good s \<Longrightarrow> admit i s = (x, s') \<Longrightarrow> x \<noteq> Inr True \<Longrightarrow>
      good s' \<and> active s' = active s \<and> queued s' = queued s \<and> keys s' = keys s \<and> (x = Inr False \<longrightarrow> i \<notin> queued s)"
begin

definition exclusive :: "'s \<Rightarrow> bool" where
  "exclusive s \<longleftrightarrow> (\<forall>i \<in> active s. \<forall>j \<in> active s. i \<noteq> j \<longrightarrow> keys s i \<inter> keys s j = {})"

definition held :: "'s \<Rightarrow> string set" where
  "held s = (\<Union>i \<in> active s. keys s i)"

text \<open>The local variables of the pass agree with the pool.\<close>

definition tracks :: "int \<Rightarrow> int option \<Rightarrow> (string, string list) dict \<Rightarrow> task_row list \<Rightarrow> 's \<Rightarrow> bool" where
  "tracks limit capacity holders ts s \<longleftrightarrow>
     good s \<and> exclusive s \<and> (\<forall>k. dict_has k holders \<longleftrightarrow> k \<in> held s) \<and>
     (\<forall>t \<in> set ts. keys s (r_id t) = set (r_mutex_keys t)) \<and>
     (\<forall>c. capacity = Some c \<longrightarrow> 0 \<le> c \<and> int (card (active s)) + c = limit)"

lemma tracks_frame:
  assumes "tracks limit capacity holders ts s" and "good s'" and "active s' = active s" and "keys s' = keys s"
  shows "tracks limit capacity holders ts s'"
  using assms by (simp add: tracks_def exclusive_def held_def)

lemma tracks_tl: "tracks limit capacity holders (t # ts) s \<Longrightarrow> tracks limit capacity holders ts s"
  by (simp add: tracks_def)

lemma dict_has_hold: "dict_has k (hold i ks h) \<longleftrightarrow> k \<in> set ks \<or> dict_has k h"
proof -
  have "dict_has k (foldl (\<lambda>h k. dict_set k ((case map_of h k of Some os \<Rightarrow> os | None \<Rightarrow> []) @ [i]) h) h ks)
      \<longleftrightarrow> k \<in> set ks \<or> dict_has k h"
    by (induction ks arbitrary: h) (auto simp: dict_has_def)
  then show ?thesis by (simp add: hold_def)
qed

lemma dict_has_holders: "dict_has k (holders_of ts) \<longleftrightarrow> (\<exists>t \<in> set ts. k \<in> set (r_mutex_keys t))"
proof -
  have "dict_has k (foldl (\<lambda>h t. hold (r_id t) (r_mutex_keys t) h) h ts)
      \<longleftrightarrow> (\<exists>t \<in> set ts. k \<in> set (r_mutex_keys t)) \<or> dict_has k h" for h
    by (induction ts arbitrary: h) (auto simp: dict_has_hold)
  from this[of "[]"] show ?thesis by (simp add: holders_of_def dict_has_def)
qed

lemma tracks_admit:
  assumes t: "tracks limit capacity holders (t # ts) s" and free: "\<forall>k \<in> set (r_mutex_keys t). \<not> dict_has k holders"
    and cap: "capacity \<noteq> Some 0"
    and s': "good s'" "r_id t \<notin> active s" "active s' = insert (r_id t) (active s)" "keys s' = keys s"
  shows "tracks limit (map_option (\<lambda>c. c - 1) capacity) (hold (r_id t) (r_mutex_keys t) holders) ts s'"
proof -
  have k: "keys s (r_id t) = set (r_mutex_keys t)" and ex: "exclusive s"
    and h: "\<And>k. dict_has k holders \<longleftrightarrow> k \<in> held s" and fin: "finite (active s)"
    using t finite_active by (auto simp: tracks_def)
  have new: "keys s (r_id t) \<inter> keys s j = {}" if "j \<in> active s" for j
    using free that unfolding h k[symmetric] held_def by auto
  have "exclusive s'"
    unfolding exclusive_def
  proof (intro ballI impI)
    fix i j assume ij: "i \<in> active s'" "j \<in> active s'" "i \<noteq> j"
    consider "i = r_id t" "j \<in> active s" | "j = r_id t" "i \<in> active s" | "i \<in> active s" "j \<in> active s"
      using ij s'(3) by auto
    then show "keys s' i \<inter> keys s' j = {}"
    proof cases
      case 3
      with ex ij(3) show ?thesis by (simp add: exclusive_def s'(4))
    qed (use new s'(4) in auto)
  qed
  moreover have "held s' = set (r_mutex_keys t) \<union> held s"
    using s' k by (simp add: held_def)
  moreover have "card (active s') = Suc (card (active s))" using s' fin by simp
  ultimately show ?thesis
    using t s' cap by (auto simp: tracks_def dict_has_hold)
qed

text \<open>What a pass achieves: nothing unsafe, and no task left behind without a reason.\<close>

definition scanned :: "int \<Rightarrow> int option \<Rightarrow> task_row list \<Rightarrow> 's \<Rightarrow> bool \<Rightarrow> 's \<Rightarrow> bool" where
  "scanned limit capacity ts s completed s' \<longleftrightarrow>
     good s' \<and> exclusive s' \<and> active s \<subseteq> active s' \<and> queued s' \<subseteq> queued s \<and> keys s' = keys s \<and>
     (capacity \<noteq> None \<longrightarrow> int (card (active s')) \<le> limit) \<and>
     (completed \<longrightarrow> (capacity \<noteq> None \<and> int (card (active s')) = limit) \<or>
       (\<forall>t \<in> set ts. r_id t \<in> queued s' \<longrightarrow> set (r_mutex_keys t) \<inter> held s' \<noteq> {}))"

lemma scanned_now:
  assumes "tracks limit capacity holders us s" and "\<not> completed \<or> ts = [] \<or> capacity = Some 0"
  shows "scanned limit capacity ts s completed s"
  using assms by (auto simp: tracks_def scanned_def)

lemma scanned_skip:
  assumes "scanned limit capacity ts s1 completed s'"
    and "active s1 = active s" "queued s1 = queued s" "keys s1 = keys s"
    and "r_id t \<notin> queued s \<or> set (r_mutex_keys t) \<inter> held s1 \<noteq> {}"
  shows "scanned limit capacity (t # ts) s completed s'"
proof -
  have "held s1 \<subseteq> held s'" using assms(1) by (auto simp: scanned_def held_def)
  with assms show ?thesis by (auto simp: scanned_def)
qed

lemma scanned_admit:
  assumes "scanned limit (map_option f capacity) ts s2 completed s'"
    and "active s2 = insert (r_id t) (active s)" "queued s2 = queued s - {r_id t}" "keys s2 = keys s"
  shows "scanned limit capacity (t # ts) s completed s'"
  using assms by (auto simp: scanned_def)

lemma scan_spec:
  assumes "tracks limit capacity holders ts s" and "scan mark admit capacity holders ts seen s = (x, s')"
  shows "scanned limit capacity ts s (\<not> isl x) s'"
  using assms
proof (induction ts arbitrary: capacity holders seen s)
  case Nil
  then show ?case by (auto intro: scanned_now)
next
  case (Cons t ts)
  note t = Cons.prems(1)
  then have g: "good s" by (simp add: tracks_def)
  consider (full) "capacity = Some 0"
    | (blocked) "capacity \<noteq> Some 0" "list_ex (\<lambda>k. dict_has k holders) (r_mutex_keys t)"
    | (free) "capacity \<noteq> Some 0" "\<not> list_ex (\<lambda>k. dict_has k holders) (r_mutex_keys t)" by blast
  then show ?case
  proof cases
    case full
    with Cons.prems show ?thesis by (auto intro: scanned_now)
  next
    case blocked
    then obtain bs ks where m: "bindS (mark (r_id t) bs ks) (\<lambda>_. scan mark admit capacity holders ts (Some t)) s = (x, s')"
      using Cons.prems(2) by auto
    obtain y s1 where y: "mark (r_id t) bs ks s = (y, s1)" by fastforce
    note s1 = mark[OF g y]
    have t1: "tracks limit capacity holders ts s1" using tracks_frame[OF tracks_tl[OF t]] s1 by blast
    have key: "set (r_mutex_keys t) \<inter> held s1 \<noteq> {}"
      using blocked(2) t s1 by (auto simp: list_ex_iff tracks_def held_def)
    have "scanned limit capacity ts s1 (\<not> isl x) s'"
      using m y t1 Cons.IH[OF t1] by (cases y) (auto simp: bindS_def intro: scanned_now)
    then show ?thesis using s1 key by (auto intro: scanned_skip)
  next
    case free
    then have m: "bindS (mark (r_id t) [] []) (\<lambda>_. bindS (admit (r_id t)) (\<lambda>admitted. if admitted
          then scan mark admit (map_option (\<lambda>c. c - 1) capacity) (hold (r_id t) (r_mutex_keys t) holders) ts (Some t)
          else scan mark admit capacity holders ts (Some t))) s = (x, s')"
      using Cons.prems(2) by simp
    obtain y s1 where y: "mark (r_id t) [] [] s = (y, s1)" by fastforce
    note s1 = mark[OF g y]
    have t1: "tracks limit capacity holders (t # ts) s1" using tracks_frame[OF t] s1 by blast
    obtain z s2 where z: "admit (r_id t) s1 = (z, s2)" by fastforce
    show ?thesis
    proof (cases "isl y \<or> z = Inr True")
      case False
      note s2 = admit_no[OF conjunct1[OF s1] z]
      have t2: "tracks limit capacity holders ts s2" using tracks_frame[OF tracks_tl[OF t1]] s2 False by blast
      have "scanned limit capacity ts s2 (\<not> isl x) s'"
        using m y z t2 False Cons.IH[OF t2] by (cases y; cases z) (auto simp: bindS_def intro: scanned_now)
      moreover have "isl z \<or> r_id t \<notin> queued s" using s1 s2 False by (cases z) auto
      moreover have "isl x" if "isl z" using m y z False that by (cases y; cases z) (auto simp: bindS_def)
      ultimately show ?thesis
        using s1 s2 False by (cases "isl z") (auto intro: scanned_skip simp: scanned_def)
    next
      case stop: True
      show ?thesis
      proof (cases y)
        case (Inl err)
        with m y have "isl x" "s' = s1" by (auto simp: bindS_def)
        with t1 s1 show ?thesis using scanned_now[OF t1, of False ts] by (auto simp: scanned_def)
      next
        case (Inr u)
        with stop have z': "z = Inr True" by simp
        note s2 = admit_yes[OF conjunct1[OF s1] z[unfolded z']]
        have "tracks limit (map_option (\<lambda>c. c - 1) capacity) (hold (r_id t) (r_mutex_keys t) holders) ts s2"
          using s2 free by (intro tracks_admit[OF t1]) (auto simp: list_ex_iff)
        from Cons.IH[OF this] m y z z' Inr
        have "scanned limit (map_option (\<lambda>c. c - 1) capacity) ts s2 (\<not> isl x) s'"
          by (auto simp: bindS_def)
        then show ?thesis using s1 s2 by (auto intro: scanned_admit)
      qed
    qed
  qed
qed

end

section \<open>The database as the pool\<close>

definition ids_where :: "(task_row \<Rightarrow> bool) \<Rightarrow> db \<Rightarrow> string set" where
  "ids_where P d = r_id ` {r \<in> set (db_tasks d). P r}"

definition queued_row :: "task_row \<Rightarrow> bool" where
  "queued_row r \<longleftrightarrow> r_state r = QUEUED"

definition task_keys :: "db \<Rightarrow> string \<Rightarrow> string set" where
  "task_keys d i = (case map_option (\<lambda>r. set (r_mutex_keys r)) (find_row i d) of None \<Rightarrow> {} | Some ks \<Rightarrow> ks)"

lemma ids_where_iff: "j \<in> ids_where P d \<longleftrightarrow> (\<exists>r \<in> set (db_tasks d). r_id r = j \<and> P r)"
  by (auto simp: ids_where_def)

lemma ids_where_cong: "db_tasks d' = db_tasks d \<Longrightarrow> ids_where P d' = ids_where P d \<and> task_keys d' = task_keys d"
  by (simp add: ids_where_def task_keys_def find_row_def fun_eq_iff)

text \<open>What a transition does to the task table, and when it is refused.\<close>

lemma transition_rows:
  assumes "db_ok d" and "transition clk i expd st None flds d = (x, d')"
  shows "x = Inr True \<Longrightarrow> \<exists>r s. find_row i d = Some r \<and> r_state r \<in> set expd \<and>
      db_tasks d' = map (\<lambda>q. if r_id q = i then apply_transition st s flds q else q) (db_tasks d)"
    and "x \<noteq> Inr True \<Longrightarrow> d' = d"
    and "x = Inr False \<Longrightarrow> expd \<noteq> [] \<Longrightarrow> find_row i d = Some r \<Longrightarrow> r_state r \<notin> set expd"
  using assms(2) unfolding transition_cas[OF db_ok_distinct[OF assms(1)]]
  by (auto split: option.splits sum.splits if_splits
      simp: transition_event_def add_event_def bindS_def tick_def update_rows_def)

lemma update_views:
  assumes "\<And>q. r_id (f q) = r_id q \<and> r_mutex_keys (f q) = r_mutex_keys q \<and> (q \<in> set (db_tasks d) \<longrightarrow> P (f q) = P q)"
    and "db_tasks d' = map (\<lambda>q. if c q then f q else q) (db_tasks d)"
  shows "ids_where P d' = ids_where P d" and "task_keys d' = task_keys d"
proof -
  show "ids_where P d' = ids_where P d"
  proof -
    let ?g = "\<lambda>q. if c q then f q else q"
    have "ids_where P d' = (\<lambda>q. r_id (?g q)) ` {q \<in> set (db_tasks d). P (?g q)}"
      unfolding ids_where_def assms(2) by auto
    also have "\<dots> = r_id ` {q \<in> set (db_tasks d). P q}"
      using assms(1) by (intro image_cong) auto
    finally show ?thesis by (simp add: ids_where_def)
  qed
  have "map_option (\<lambda>r. set (r_mutex_keys r)) (find (\<lambda>r. r_id r = i) (map (\<lambda>q. if c q then f q else q) rs)) =
      map_option (\<lambda>r. set (r_mutex_keys r)) (find (\<lambda>r. r_id r = i) rs)" for i rs
    using assms(1) by (induction rs) auto
  then have "map_option (\<lambda>r. set (r_mutex_keys r)) (find_row i d') = map_option (\<lambda>r. set (r_mutex_keys r)) (find_row i d)" for i
    by (simp add: find_row_def assms(2))
  then show "task_keys d' = task_keys d"
    by (simp add: task_keys_def fun_eq_iff)
qed

lemma set_blocked_views:
  assumes "db_ok d"
  shows "db_ok (snd (set_blocked_by clk i bs ks d))"
    and "ids_where active_row (snd (set_blocked_by clk i bs ks d)) = ids_where active_row d"
    and "ids_where queued_row (snd (set_blocked_by clk i bs ks d)) = ids_where queued_row d"
    and "task_keys (snd (set_blocked_by clk i bs ks d)) = task_keys d"
proof -
  show "db_ok (snd (set_blocked_by clk i bs ks d))"
    by (rule after_ok[OF after_set_blocked_by[OF after_refl[OF assms]]])
  let ?f = "\<lambda>r. r\<lparr>r_blocked_by := sort (remdups bs), r_blocked_keys := sort (remdups ks)\<rparr>"
  have "\<exists>c. db_tasks (snd (set_blocked_by clk i bs ks d)) = map (\<lambda>q. if c q then ?f q else q) (db_tasks d)"
    (is "\<exists>c. ?eq c")
  proof (cases "db_tasks (snd (set_blocked_by clk i bs ks d)) = db_tasks d")
    case True
    then show ?thesis by (intro exI[of _ "\<lambda>_. False"]) simp
  next
    case False
    then show ?thesis
      by (intro exI[of _ "\<lambda>r. r_id r = i \<and> r_state r = QUEUED"])
        (auto simp: set_blocked_by_def update_rows_def add_event_def bindS_def tick_def retS_def Let_def split: option.splits if_splits)
  qed
  then obtain c where c: "?eq c" by blast
  show "ids_where active_row (snd (set_blocked_by clk i bs ks d)) = ids_where active_row d"
    by (rule update_views(1)[OF _ c]) (simp add: active_row_def)
  show "ids_where queued_row (snd (set_blocked_by clk i bs ks d)) = ids_where queued_row d"
    by (rule update_views(1)[OF _ c]) (simp add: queued_row_def)
  show "task_keys (snd (set_blocked_by clk i bs ks d)) = task_keys d"
    by (rule update_views(2)[OF _ c, of "\<lambda>_. True"]) simp
qed

definition admission_move :: row_moves where
  "admission_move r st flds \<longleftrightarrow> r_state r = QUEUED \<and> st = STARTING \<and>
     new_ended_at flds (r_ended_at r) = r_ended_at r"

lemma admit_steps:
  assumes "admit_task e i s = (x, s')"
  obtains n flds y d' where
    "transition (en_clock e) i [QUEUED] STARTING None flds ((sv_db s)\<lparr>db_ticks := n\<rparr>) = (y, d')"
    "\<And>old. new_ended_at flds old = old"
    "x = Inr True \<Longrightarrow> y = Inr True \<and> s' = s\<lparr>sv_db := d', sv_coros := sv_coros s @ [C_start i],
        sv_starters := set_add i (sv_starters s)\<rparr>"
    "x \<noteq> Inr True \<Longrightarrow> x = y \<and> s' = s\<lparr>sv_db := d'\<rparr>"
proof -
  define a where "a = F_started_at (Some (i_iso (en_clock e (db_ticks (sv_db s)))))"
  define b where "b = F_started_monotonic (Some (i_mono (en_clock e (Suc (db_ticks (sv_db s))))))"
  obtain y d' where t: "transition (en_clock e) i [QUEUED] STARTING None [a, b]
      ((sv_db s)\<lparr>db_ticks := Suc (Suc (db_ticks (sv_db s)))\<rparr>) = (y, d')" by fastforce
  show thesis
  proof (rule that[OF t])
    show "new_ended_at [a, b] old = old" for old by (simp add: a_def b_def)
    show "y = Inr True \<and> s' = s\<lparr>sv_db := d', sv_coros := sv_coros s @ [C_start i],
        sv_starters := set_add i (sv_starters s)\<rparr>" if "x = Inr True"
      using assms t that
      by (auto simp: admit_task_def now_iso_def monotonic_def svc_transition_def onDb_def tick_def bindS_def
          retS_def spawn_def upd_def a_def b_def split: sum.splits if_splits)
    show "x = y \<and> s' = s\<lparr>sv_db := d'\<rparr>" if "x \<noteq> Inr True"
      using assms t that
      by (auto simp: admit_task_def now_iso_def monotonic_def svc_transition_def onDb_def tick_def bindS_def
          retS_def spawn_def upd_def a_def b_def split: sum.splits if_splits)
  qed
qed

lemma admit_refused:
  assumes "db_ok (sv_db s)" and "admit_task e i s = (x, s')" and "x \<noteq> Inr True"
  shows "\<exists>n. s' = s\<lparr>sv_db := (sv_db s)\<lparr>db_ticks := n\<rparr>\<rparr>"
    and "x = Inr False \<Longrightarrow> i \<notin> ids_where queued_row (sv_db s)"
proof -
  obtain n flds y d' where t: "transition (en_clock e) i [QUEUED] STARTING None flds ((sv_db s)\<lparr>db_ticks := n\<rparr>) = (y, d')"
    and s': "x = y" "s' = s\<lparr>sv_db := d'\<rparr>" using assms(2,3) by (auto elim: admit_steps)
  have ok: "db_ok ((sv_db s)\<lparr>db_ticks := n\<rparr>)" using assms(1) by simp
  show "\<exists>n. s' = s\<lparr>sv_db := (sv_db s)\<lparr>db_ticks := n\<rparr>\<rparr>"
    using transition_rows(2)[OF ok t] assms(3) s' by auto
  show "i \<notin> ids_where queued_row (sv_db s)" if "x = Inr False"
  proof
    assume "i \<in> ids_where queued_row (sv_db s)"
    then obtain r where r: "r \<in> set (db_tasks (sv_db s))" "r_id r = i" "r_state r = QUEUED"
      by (auto simp: ids_where_def queued_row_def)
    then have "find_row i ((sv_db s)\<lparr>db_ticks := n\<rparr>) = Some r"
      using find_row_distinct[OF db_ok_distinct[OF ok], of r] by simp
    from transition_rows(3)[OF ok t _ _ this] that s' r(3) show False by simp
  qed
qed

lemma admit_granted:
  assumes "db_ok (sv_db s)" and "admit_task e i s = (Inr True, s')"
  shows "after admission_move {} (sv_db s) (sv_db s')"
    and "\<exists>r. find_row i (sv_db s) = Some r \<and> r_state r = QUEUED"
    and "\<exists>f. db_tasks (sv_db s') = map (\<lambda>q. if r_id q = i then f q else q) (db_tasks (sv_db s)) \<and>
      (\<forall>q. r_id (f q) = r_id q \<and> r_mutex_keys (f q) = r_mutex_keys q \<and> r_state (f q) = STARTING)"
    and "core s' = (sv_db s', filter is_start (sv_coros s) @ [C_start i], sv_launched s, sv_issued s)"
proof -
  obtain n flds y d' where t: "transition (en_clock e) i [QUEUED] STARTING None flds ((sv_db s)\<lparr>db_ticks := n\<rparr>) = (y, d')"
    and flds: "\<And>old. new_ended_at flds old = old"
    and s': "y = Inr True" "s' = s\<lparr>sv_db := d', sv_coros := sv_coros s @ [C_start i],
        sv_starters := set_add i (sv_starters s)\<rparr>" by (rule admit_steps[OF assms(2)]) blast
  have ok: "db_ok ((sv_db s)\<lparr>db_ticks := n\<rparr>)" using assms(1) by simp
  have "after admission_move {} (sv_db s) (snd (transition (en_clock e) i [QUEUED] STARTING None flds ((sv_db s)\<lparr>db_ticks := n\<rparr>)))"
    by (rule after_transition[OF after_ticks[OF after_refl[OF assms(1)]]])
      (simp_all add: opt_ok_def admission_move_def flds)
  with t s' show "after admission_move {} (sv_db s) (sv_db s')" by simp
  obtain r st where r: "find_row i ((sv_db s)\<lparr>db_ticks := n\<rparr>) = Some r" "r_state r = QUEUED"
    and f: "db_tasks d' = map (\<lambda>q. if r_id q = i then apply_transition STARTING st flds q else q) (db_tasks (sv_db s))"
    using transition_rows(1)[OF ok t s'(1)] by auto
  show "\<exists>r. find_row i (sv_db s) = Some r \<and> r_state r = QUEUED"
    using r by (auto simp: find_row_def)
  show "\<exists>f. db_tasks (sv_db s') = map (\<lambda>q. if r_id q = i then f q else q) (db_tasks (sv_db s)) \<and>
      (\<forall>q. r_id (f q) = r_id q \<and> r_mutex_keys (f q) = r_mutex_keys q \<and> r_state (f q) = STARTING)"
    using f s' by (intro exI[of _ "apply_transition STARTING st flds"]) simp
  show "core s' = (sv_db s', filter is_start (sv_coros s) @ [C_start i], sv_launched s, sv_issued s)"
    using s' by (simp add: core_def)
qed

lemma ids_where_map:
  assumes "db_tasks d' = map (\<lambda>q. if r_id q = i then f q else q) (db_tasks d)" and "\<And>q. r_id (f q) = r_id q"
  shows "j \<in> ids_where P d' \<longleftrightarrow> (if j = i then (\<exists>q \<in> set (db_tasks d). r_id q = i \<and> P (f q)) else j \<in> ids_where P d)"
proof -
  let ?g = "\<lambda>q. if r_id q = i then f q else q"
  have id: "r_id (?g q) = r_id q" for q using assms(2) by simp
  have "ids_where P d' = (\<lambda>q. r_id (?g q)) ` {q \<in> set (db_tasks d). P (?g q)}"
    unfolding ids_where_def assms(1) by auto
  then have "j \<in> ids_where P d' \<longleftrightarrow> (\<exists>q \<in> set (db_tasks d). r_id q = j \<and> P (?g q))"
    unfolding id by (simp only: image_iff mem_Collect_eq bex_simps) blast
  then show ?thesis by (cases "j = i") (simp_all add: ids_where_iff[of j P d] cong: conj_cong)
qed

text \<open>The service is a pool of tasks, with the two store calls of the loop.\<close>

interpretation pool: admission "mark_blocked e" "admit_task e" "\<lambda>s. db_ok (sv_db s)"
    "\<lambda>s. ids_where active_row (sv_db s)" "\<lambda>s. ids_where queued_row (sv_db s)" "\<lambda>s. task_keys (sv_db s)"
  for e
proof (standard, goal_cases)
  case (1 s)
  show ?case by (simp add: ids_where_def)
next
  case (2 s i bs ks y s')
  then show ?case
    using set_blocked_views[OF 2(1), of "en_clock e" i bs ks]
    by (auto simp: mark_blocked_def onDb_def split: prod.splits)
next
  case (3 s i s')
  obtain r where r: "find_row i (sv_db s) = Some r" "r_state r = QUEUED" using admit_granted(2)[OF 3] by blast
  obtain f where f: "db_tasks (sv_db s') = map (\<lambda>q. if r_id q = i then f q else q) (db_tasks (sv_db s))"
    and f': "\<And>q. r_id (f q) = r_id q \<and> r_mutex_keys (f q) = r_mutex_keys q \<and> r_state (f q) = STARTING"
    using admit_granted(3)[OF 3] by blast
  have uniq: "r_state q = QUEUED" if "q \<in> set (db_tasks (sv_db s))" "r_id q = i" for q
    using find_row_distinct[OF db_ok_distinct[OF 3(1)] that(1)] that(2) r by simp
  have ri: "r \<in> set (db_tasks (sv_db s))" "r_id r = i" using find_row_Some[OF r(1)] by auto
  have "i \<notin> ids_where active_row (sv_db s)"
    using uniq by (auto simp: ids_where_def active_row_def OWNED_def)
  moreover have "ids_where active_row (sv_db s') = insert i (ids_where active_row (sv_db s))"
    unfolding set_eq_iff ids_where_map[OF f conjunct1[OF f']]
    using ri f' by (auto simp: active_row_def OWNED_def)
  moreover have "ids_where queued_row (sv_db s') = ids_where queued_row (sv_db s) - {i}"
    unfolding set_eq_iff ids_where_map[OF f conjunct1[OF f']]
    using f' by (auto simp: queued_row_def)
  moreover have "task_keys (sv_db s') = task_keys (sv_db s)"
    by (rule update_views(2)[OF _ f, of "\<lambda>_. True"]) (simp add: f')
  ultimately show ?case using after_ok[OF admit_granted(1)[OF 3]] by simp
next
  case (4 s i x s')
  obtain n where "s' = s\<lparr>sv_db := (sv_db s)\<lparr>db_ticks := n\<rparr>\<rparr>" using admit_refused(1)[OF 4] by blast
  then show ?case using admit_refused(2)[OF 4] 4(1) ids_where_cong[of "(sv_db s)\<lparr>db_ticks := n\<rparr>" "sv_db s"] by simp
qed

section \<open>Where a row comes from\<close>

text \<open>
  After a write, a row is either one that was there, with the same id and keys and with its
  state kept or moved as allowed, or a new task in the queue.
\<close>

definition descends :: "row_moves \<Rightarrow> string set \<Rightarrow> db \<Rightarrow> task_row \<Rightarrow> bool" where
  "descends M N d r' \<longleftrightarrow>
     (\<exists>r \<in> set (db_tasks d). r_id r = r_id r' \<and> r_mutex_keys r = r_mutex_keys r' \<and>
        (r_state r' = r_state r \<and> r_ended_at r' = r_ended_at r \<or>
         (\<exists>st flds. M r st flds \<and> r_state r' = st \<and> r_ended_at r' = new_ended_at flds (r_ended_at r)))) \<or>
     (r_id r' \<in> N \<and> r_state r' = QUEUED \<and> r_ended_at r' = None)"

lemma descends_same: "r \<in> set (db_tasks d) \<Longrightarrow> descends M N d r"
  by (auto simp: descends_def)

lemma row_origin:
  assumes "db_write M N d d'" and "r' \<in> set (db_tasks d')"
  shows "descends M N d r'"
  using assms
proof cases
  case (insert r)
  with assms(2) show ?thesis by (auto simp: descends_def)
next
  case (update f p)
  with assms(2) obtain r where "r \<in> set (db_tasks d)" "r' = (if p r then f r else r)"
    by (auto simp: update_rows_def)
  with update show ?thesis by (cases "p r") (auto simp: descends_def)
next
  case (move i st s flds)
  with assms(2) obtain r where r: "r \<in> set (db_tasks d)" "r' = (if r_id r = i then apply_transition st s flds r else r)"
    by (auto simp: update_rows_def)
  with move(2)[of r] show ?thesis by (cases "r_id r = i") (auto simp: descends_def)
next
  case (purge ids)
  with assms(2) show ?thesis by (auto simp: delete_tasks_def Let_def intro: descends_same)
next
  case (rename a b)
  with assms(2) show ?thesis by (auto simp: remap_configuration_history_def Let_def intro: descends_same)
qed (use assms(2) in \<open>auto intro: descends_same\<close>)

text \<open>A property that only allows what can descend is kept along writes.\<close>

locale row_invariant =
  fixes M :: row_moves and N :: "string set" and P :: "task_row \<Rightarrow> bool"
  assumes same: "P r \<Longrightarrow> r_id r' = r_id r \<Longrightarrow> r_mutex_keys r' = r_mutex_keys r \<Longrightarrow> r_state r' = r_state r \<Longrightarrow>
      r_ended_at r' = r_ended_at r \<Longrightarrow> P r'"
    and moved: "P r \<Longrightarrow> M r st flds \<Longrightarrow> r_id r' = r_id r \<Longrightarrow> r_mutex_keys r' = r_mutex_keys r \<Longrightarrow>
      r_state r' = st \<Longrightarrow> r_ended_at r' = new_ended_at flds (r_ended_at r) \<Longrightarrow> P r'"
    and added: "r_id r \<in> N \<Longrightarrow> r_state r = QUEUED \<Longrightarrow> r_ended_at r = None \<Longrightarrow> P r"
begin

definition rows_hold :: "db \<Rightarrow> bool" where
  "rows_hold d \<longleftrightarrow> (\<forall>r \<in> set (db_tasks d). P r)"

lemma descends_hold: "rows_hold d \<Longrightarrow> descends M N d r \<Longrightarrow> P r"
  unfolding rows_hold_def descends_def using same moved added by (elim disjE bexE conjE exE) (metis, metis, blast)

end

sublocale row_invariant \<subseteq> write_invariant M N rows_hold
  by standard (auto simp: rows_hold_def dest: row_origin intro: descends_hold[unfolded rows_hold_def])

section \<open>Invariants of the database along the service\<close>

definition service_move :: row_moves where
  "service_move r st flds \<longleftrightarrow> svc_move r st flds \<or> admission_move r st flds"

lemma db_write_mono:
  assumes "db_write M N d d'" and "\<And>r st flds. M r st flds \<Longrightarrow> M' r st flds" and "N \<subseteq> N'"
  shows "db_write M' N' d d'"
  using assms(1)
proof cases
  case (insert r)
  with assms(3) show ?thesis by (auto intro: db_write.insert)
next
  case (update f p)
  then show ?thesis by (auto intro: db_write.update)
next
  case (move i st s flds)
  then show ?thesis using assms(2) by (auto intro: db_write.move)
qed (auto intro: db_write.intros)

lemma after_mono:
  assumes "after M N d d'" and "\<And>r st flds. M r st flds \<Longrightarrow> M' r st flds"
  shows "after M' N d d'"
proof -
  have "db_write M N \<le> db_write M' N"
    using db_write_mono[of M N _ _ M' N] assms(2) by blast
  with assms(1) show ?thesis
    using rtranclp_mono[of "db_write M N" "db_write M' N"] by (auto simp: after_def)
qed

lemma after_trans: "after M N d d' \<Longrightarrow> after M N d' d'' \<Longrightarrow> after M N d d''"
  by (auto simp: after_def)

lemma scan_keeps:
  assumes "\<And>i bs ks. keeps I (mark i bs ks)" and "\<And>i. keeps I (admit i)"
  shows "keeps I (scan mark admit capacity holders ts seen)"
proof (induction ts arbitrary: capacity holders seen)
  case (Cons t ts)
  have "keeps I (if capacity = Some 0 then retS (seen, False)
      else if list_ex (\<lambda>k. dict_has k holders) (r_mutex_keys t) then
        bindS (mark (r_id t) (blockers holders (r_mutex_keys t)) (blocked_keys holders (r_mutex_keys t)))
          (\<lambda>_. scan mark admit capacity holders ts (Some t))
      else
        bindS (mark (r_id t) [] []) (\<lambda>_.
        bindS (admit (r_id t)) (\<lambda>admitted.
          if admitted
          then scan mark admit (map_option (\<lambda>c. c - 1) capacity)
                 (hold (r_id t) (r_mutex_keys t) holders) ts (Some t)
          else scan mark admit capacity holders ts (Some t))))"
    by (intro task_inv assms Cons)
  then show ?case by (auto simp: keeps_def retS_def)
qed (simp add: keeps_def)

lemma schedule_keeps:
  assumes "\<And>i. keeps I (admit_task e i)" and "\<And>i bs ks. keeps I (mark_blocked e i bs ks)"
    and "\<And>q. keeps I (svc_list q)" and "\<And>s c. I s \<Longrightarrow> I (s\<lparr>sv_queue_cursor := c\<rparr>)"
  shows "keeps I (schedule e)"
proof -
  have c: "keeps I (set_cursor c)" for c using assms(4) by (simp add: keeps_def set_cursor_def upd_def)
  have g: "keeps I (getS sv_queue_cursor)" "keeps I (getS (\<lambda>s. owned_tasks (sv_db s)))"
    by (simp_all add: keeps_def getS_def)
  show ?thesis
    unfolding schedule_def queue_page_def Let_def
    by (intro task_inv scan_keeps assms(1,2,3) c g)
qed

lemma schedule_after:
  assumes "db_ok (sv_db s)"
  shows "after service_move {} (sv_db s) (sv_db (snd (schedule e s))) \<and> sv_issued (snd (schedule e s)) = sv_issued s"
proof -
  let ?I = "\<lambda>t :: svc. after service_move {} (sv_db s) (sv_db t) \<and> sv_issued t = sv_issued s"
  have "keeps ?I (schedule e)"
  proof (rule schedule_keeps)
    show "keeps ?I (admit_task e i)" for i
      unfolding keeps_def
    proof (intro allI impI)
      fix t assume t: "?I t"
      obtain x t' where a: "admit_task e i t = (x, t')" by fastforce
      have ok: "db_ok (sv_db t)" using t after_ok by blast
      show "?I (snd (admit_task e i t))"
      proof (cases "x = Inr True")
        case True
        note granted = admit_granted[OF ok a[unfolded True]]
        have "after service_move {} (sv_db t) (sv_db t')"
          by (rule after_mono[OF granted(1)]) (simp add: service_move_def)
        with t granted(4) show ?thesis by (auto simp: a core_def intro: after_trans)
      next
        case False
        with admit_refused(1)[OF ok a] t show ?thesis by (auto simp: a intro: after_ticks)
      qed
    qed
    show "keeps ?I (mark_blocked e i bs ks)" for i bs ks
      by (auto simp: keeps_def mark_blocked_def onDb_def split: prod.splits)
        (metis after_set_blocked_by snd_conv)
    show "keeps ?I (svc_list q)" for q
      by (auto simp: keeps_def svc_list_def onDb_def list_tasks_def)
  qed simp
  then show ?thesis using after_refl[OF assms] by (simp add: keeps_def)
qed

locale db_invariant =
  fixes e :: env and Q :: "string list \<Rightarrow> db \<Rightarrow> bool"
  assumes kept: "after service_move (set ids) d d' \<Longrightarrow> set ids \<inter> set issued = {} \<Longrightarrow> db_ok d \<Longrightarrow> Q issued d \<Longrightarrow>
    Q (ids @ issued) d'"

sublocale db_invariant \<subseteq> svc_invariant e "\<lambda>s. db_ok (sv_db s) \<and> Q (sv_issued s) (sv_db s)"
proof (standard, goal_cases)
  case (3 s ids d)
  then have "after service_move (set ids) (sv_db s) d" by (auto intro: after_mono simp: service_move_def)
  with 3 kept[of ids "sv_db s" d "sv_issued s"] show ?case by (auto dest: after_ok)
next
  case (7 s)
  then show ?case
    using schedule_after[of s e] kept[of "[]" "sv_db s" "sv_db (snd (schedule e s))" "sv_issued s"]
    by (auto dest: after_ok)
qed (auto simp: core_def)

end
