(* ===== verification/LF_Guarantees.thy ===== *)
theory LF_Guarantees
  imports LF_Scheduler
begin

text \<open>
  What the task service guarantees along every run: the exclusive use of mutex keys, the limit
  on concurrent tasks, one launch per task, a lifecycle that only moves forward and ends once,
  and a scheduler that leaves no admissible task behind.
\<close>

section \<open>Runs\<close>

definition empty_svc :: svc where
  "empty_svc = \<lparr>sv_db = empty_db, sv_starters = [], sv_waiters = [], sv_interrupts = [], sv_advances = [],
     sv_wake = False, sv_stopping = False, sv_queue_cursor = None, sv_log_dirs = [], sv_terminals = 0,
     sv_launched = [], sv_issued = [], sv_coros = []\<rparr>"

definition reachable_svc :: "env \<Rightarrow> svc \<Rightarrow> bool" where
  "reachable_svc e s \<longleftrightarrow> (svc_step e)\<^sup>*\<^sup>* empty_svc s"

lemma empty_svc_simps [simp]:
  "db_ok (sv_db empty_svc)" "db_tasks (sv_db empty_svc) = []" "sv_issued empty_svc = []"
  "sv_launched empty_svc = []" "sv_coros empty_svc = []"
  by (simp_all add: empty_svc_def db_ok_empty) (simp add: empty_db_def)

section \<open>The lifecycle\<close>

definition ended_ok :: "task_row \<Rightarrow> bool" where
  "ended_ok r \<longleftrightarrow> (terminal (r_state r) \<longleftrightarrow> r_ended_at r \<noteq> None)"

interpretation ended_rows: row_invariant service_move N ended_ok for N
proof (standard, goal_cases)
  case (2 r st flds r')
  then show ?case by (auto simp: ended_ok_def service_move_def svc_move_def moves_on_def admission_move_def)
qed (auto simp: ended_ok_def)

interpretation ended: db_invariant e "\<lambda>_ d. \<forall>r \<in> set (db_tasks d). ended_ok r" for e
  by standard (use ended_rows.after_keeps in \<open>auto simp: ended_rows.rows_hold_def\<close>)

text \<open>A task that was handed out its id stays at or beyond the stage it reached, and a final state is final.\<close>

definition beyond :: "task_row \<Rightarrow> task_row \<Rightarrow> bool" where
  "beyond r r' \<longleftrightarrow> (r_id r' = r_id r \<longrightarrow> stage (r_state r) \<le> stage (r_state r') \<and> r_mutex_keys r' = r_mutex_keys r \<and>
     (terminal (r_state r) \<longrightarrow> r_state r' = r_state r \<and> r_ended_at r' = r_ended_at r))"

interpretation beyond_rows: row_invariant service_move "N - {r_id r}" "beyond r" for N r
proof (standard, goal_cases)
  case (2 q st flds r')
  then show ?case
    by (auto simp: beyond_def service_move_def svc_move_def moves_on_def admission_move_def stage_terminal intro: order_trans)
qed (auto simp: beyond_def)

interpretation onward: db_invariant e "\<lambda>issued d. r_id r \<in> set issued \<and> (\<forall>r' \<in> set (db_tasks d). beyond r r')" for e r
proof
  fix ids d d' issued
  assume a: "after service_move (set ids) d d'" "set ids \<inter> set issued = {}" "db_ok d"
    and q: "r_id r \<in> set issued \<and> (\<forall>r' \<in> set (db_tasks d). beyond r r')"
  then have "set ids - {r_id r} = set ids" by auto
  with a(1) have "after service_move (set ids - {r_id r}) d d'" by simp
  from beyond_rows.after_keeps[OF this a(3)] q
  show "r_id r \<in> set (ids @ issued) \<and> (\<forall>r' \<in> set (db_tasks d'). beyond r r')"
    by (simp add: beyond_rows.rows_hold_def)
qed

interpretation issued_rows: row_invariant service_move N "\<lambda>r. r_id r \<in> N \<or> r_id r \<in> known" for N known
  by standard auto

interpretation issued: db_invariant e "\<lambda>issued d. \<forall>r \<in> set (db_tasks d). r_id r \<in> set issued" for e
proof
  fix ids d d' issued
  assume "after service_move (set ids) d d'" "db_ok d" "\<forall>r \<in> set (db_tasks d). r_id r \<in> set issued"
  then show "\<forall>r \<in> set (db_tasks d'). r_id r \<in> set (ids @ issued)"
    using issued_rows.after_keeps[of "set ids" d d' "set issued"] by (simp add: issued_rows.rows_hold_def)
qed

lemma reachable_issued: "reachable_svc e s \<Longrightarrow> db_ok (sv_db s) \<and> (\<forall>r \<in> set (db_tasks (sv_db s)). r_id r \<in> set (sv_issued s))"
  using issued.steps_keep[of e empty_svc s] by (simp add: reachable_svc_def)

text \<open>
  A task carries an end time exactly while it is in a final state, whatever the
  interleaving of the coroutines, the API calls and the restarts.
\<close>

theorem terminal_iff_ended:
  assumes "reachable_svc e s" and "r \<in> set (db_tasks (sv_db s))"
  shows "terminal (r_state r) \<longleftrightarrow> r_ended_at r \<noteq> None"
  using ended.steps_keep[OF assms(1)[unfolded reachable_svc_def]] assms(2) by (simp add: ended_ok_def)

text \<open>
  C2. The lifecycle of a task only moves forward: queued, starting, running, stopping, ended.
  Whatever happens after a moment, a task that still exists is at the same or a later stage; once
  it has ended, its final state and its end time never change again, a late answer of an
  executor, a result evaluation or a second interrupt included.
\<close>

theorem lifecycle_forward:
  assumes "reachable_svc e s" and "(svc_step e)\<^sup>*\<^sup>* s s'"
    and "r \<in> set (db_tasks (sv_db s))" and "r' \<in> set (db_tasks (sv_db s'))" and "r_id r' = r_id r"
  shows "stage (r_state r) \<le> stage (r_state r') \<and>
    (terminal (r_state r) \<longrightarrow> r_state r' = r_state r \<and> r_ended_at r' = r_ended_at r)"
proof -
  note ok = reachable_issued[OF assms(1)]
  have same: "q = r" if "q \<in> set (db_tasks (sv_db s))" "r_id q = r_id r" for q
    using find_row_distinct[OF db_ok_distinct, of "sv_db s"] ok that assms(3) by (metis option.inject)
  have "beyond r q" if "q \<in> set (db_tasks (sv_db s))" for q
    using same[OF that] by (auto simp: beyond_def)
  with ok assms(3) onward.steps_keep[OF assms(2), of r] have "beyond r r'" using assms(4) by blast
  then show ?thesis using assms(5) by (simp add: beyond_def)
qed

section \<open>Exclusive keys and the limit\<close>

definition keys_exclusive :: "db \<Rightarrow> bool" where
  "keys_exclusive d \<longleftrightarrow> (\<forall>i \<in> ids_where active_row d. \<forall>j \<in> ids_where active_row d.
     i \<noteq> j \<longrightarrow> task_keys d i \<inter> task_keys d j = {})"

definition within_limit :: "int option \<Rightarrow> db \<Rightarrow> bool" where
  "within_limit limit d \<longleftrightarrow> (case limit of None \<Rightarrow> True | Some c \<Rightarrow> int (card (ids_where active_row d)) \<le> max 0 c)"

text \<open>Outside an admission the set of active tasks can only shrink.\<close>

lemma find_row_keys: "db_ok d \<Longrightarrow> r \<in> set (db_tasks d) \<Longrightarrow> task_keys d (r_id r) = set (r_mutex_keys r)"
  using find_row_distinct[OF db_ok_distinct, of d r] by (simp add: task_keys_def)

lemma svc_move_active: "svc_move r st flds \<Longrightarrow> st \<in> set OWNED \<Longrightarrow> r_state r \<in> set OWNED"
  by (cases "r_state r") (auto simp: svc_move_def moves_on_def OWNED_def)

lemma active_shrinks:
  assumes "db_write svc_move N d d'" and "db_ok d"
  shows "ids_where active_row d' \<subseteq> ids_where active_row d"
    and "i \<in> ids_where active_row d' \<Longrightarrow> task_keys d' i = task_keys d i"
proof -
  have ok': "db_ok d'" using db_write_ok[OF assms] .
  have origin: "\<exists>r \<in> set (db_tasks d). r_id r = r_id r' \<and> r_mutex_keys r = r_mutex_keys r' \<and> active_row r"
    if r': "r' \<in> set (db_tasks d')" "active_row r'" for r'
    using row_origin[OF assms(1) r'(1)] r'(2)
    unfolding descends_def active_row_def
    by (elim disjE bexE conjE exE) (metis, metis svc_move_active, simp add: OWNED_def)
  then show "ids_where active_row d' \<subseteq> ids_where active_row d"
    by (fastforce simp: ids_where_iff)
  show "task_keys d' i = task_keys d i" if i: "i \<in> ids_where active_row d'"
  proof -
    obtain r' where r': "r' \<in> set (db_tasks d')" "active_row r'" "r_id r' = i" using i by (auto simp: ids_where_iff)
    from origin[OF r'(1,2)] obtain r where "r \<in> set (db_tasks d)" "r_id r = i" "r_mutex_keys r = r_mutex_keys r'"
      using r'(3) by auto
    with r' show ?thesis using find_row_keys[OF ok' r'(1)] find_row_keys[OF assms(2)] by fastforce
  qed
qed

interpretation guarded: write_invariant svc_move N "\<lambda>d. keys_exclusive d \<and> within_limit limit d" for N limit
proof
  fix d d' assume w: "db_write svc_move N d d'" "db_ok d" and s: "keys_exclusive d \<and> within_limit limit d"
  note a = active_shrinks[OF w]
  have "card (ids_where active_row d') \<le> card (ids_where active_row d)"
    using a(1) by (rule card_mono[rotated]) (simp add: ids_where_def)
  with s have "within_limit limit d'" by (auto simp: within_limit_def split: option.splits)
  moreover have "keys_exclusive d'"
    unfolding keys_exclusive_def using s a by (metis (no_types, lifting) keys_exclusive_def subsetD)
  ultimately show "keys_exclusive d' \<and> within_limit limit d'" by blast
qed

subsection \<open>A pass of the scheduler\<close>

definition owned_now :: "db \<Rightarrow> task_row list" where
  "owned_now d = map shown (listed OWNED_NAMES d)"

definition capacity_now :: "env \<Rightarrow> db \<Rightarrow> int option" where
  "capacity_now e d = free_capacity (en_max_concurrency e) (owned_now d)"

lemma owned_now_ids:
  assumes "db_ok d"
  shows "r_id ` set (owned_now d) = ids_where active_row d"
    and "length (owned_now d) = card (ids_where active_row d)"
    and "dict_has k (holders_of (owned_now d)) \<longleftrightarrow> (\<exists>i \<in> ids_where active_row d. k \<in> task_keys d i)"
proof -
  show ids: "r_id ` set (owned_now d) = ids_where active_row d"
    by (auto simp: owned_now_def listed_owned ids_where_def image_image)
  have "distinct (map r_id (listed OWNED_NAMES d))"
    using db_ok_distinct[OF assms] by (auto simp: listed_def distinct_map inj_on_def)
  then have "distinct (map r_id (owned_now d))" by (simp add: owned_now_def comp_def)
  then show "length (owned_now d) = card (ids_where active_row d)"
    unfolding ids[symmetric] by (metis distinct_card length_map list.set_map)
  have "set (r_mutex_keys t) = task_keys d (r_id t)" if "t \<in> set (owned_now d)" for t
    using that find_row_keys[OF assms] by (auto simp: owned_now_def listed_owned)
  then show "dict_has k (holders_of (owned_now d)) \<longleftrightarrow> (\<exists>i \<in> ids_where active_row d. k \<in> task_keys d i)"
    unfolding ids[symmetric] by (simp add: pool.dict_has_holders)
qed

lemma queue_page_ok:
  assumes "db_ok (sv_db s)"
  obtains c where "queue_page limit s = (Inr (map shown (select_rows (queue_query limit c) (sv_db s))),
      s\<lparr>sv_queue_cursor := c\<rparr>)" and "c \<in> {None, sv_queue_cursor s}"
proof -
  have l: "list_tasks q (sv_db s) = (Inr (map shown (select_rows q (sv_db s))), sv_db s)" for q
    using list_tasks_ok[of "sv_db s"] assms by (simp add: db_ok_def shown_def[abs_def])
  let ?first = "select_rows (queue_query limit (sv_queue_cursor s)) (sv_db s) = [] \<and> sv_queue_cursor s \<noteq> None"
  show thesis
  proof (rule that[of "if ?first then None else sv_queue_cursor s"])
    show "queue_page limit s = (Inr (map shown (select_rows (queue_query limit (if ?first then None else sv_queue_cursor s)) (sv_db s))),
      s\<lparr>sv_queue_cursor := (if ?first then None else sv_queue_cursor s)\<rparr>)"
      by (auto simp: queue_page_def svc_list_def set_cursor_def upd_def getS_def onDb_def bindS_def retS_def l)
  qed simp
qed

lemma schedule_scan:
  assumes "db_ok (sv_db s)" and "schedule e s = (x, s')"
  shows "capacity_now e (sv_db s) = Some 0 \<and> x = Inr () \<and> s' = s \<or>
    (\<exists>c y t. c \<in> {None, sv_queue_cursor s} \<and> capacity_now e (sv_db s) \<noteq> Some 0 \<and>
       scan (mark_blocked e) (admit_task e) (capacity_now e (sv_db s)) (holders_of (owned_now (sv_db s)))
         (map shown (select_rows (queue_query (scan_limit (capacity_now e (sv_db s))) c) (sv_db s))) None
         (s\<lparr>sv_queue_cursor := c\<rparr>) = (y, t) \<and>
       sv_db s' = sv_db t \<and> isl x = isl y)"
proof -
  let ?cap = "capacity_now e (sv_db s)"
  obtain c where q: "queue_page (scan_limit ?cap) s =
      (Inr (map shown (select_rows (queue_query (scan_limit ?cap) c) (sv_db s))), s\<lparr>sv_queue_cursor := c\<rparr>)"
    and c: "c \<in> {None, sv_queue_cursor s}" by (rule queue_page_ok[OF assms(1)])
  obtain y t where y: "scan (mark_blocked e) (admit_task e) ?cap (holders_of (owned_now (sv_db s)))
         (map shown (select_rows (queue_query (scan_limit ?cap) c) (sv_db s))) None
         (s\<lparr>sv_queue_cursor := c\<rparr>) = (y, t)" by fastforce
  have o: "owned_tasks (sv_db s) = Inr (owned_now (sv_db s))"
    using owned_tasks_ok[OF assms(1)] by (simp add: owned_now_def)
  show ?thesis
  proof (cases "?cap = Some 0")
    case True
    with assms(2) o show ?thesis
      by (simp add: schedule_def getS_def bindS_def liftS_def retS_def capacity_now_def)
  next
    case False
    have x: "schedule e s = (case y of Inl err \<Rightarrow> (Inl err, t)
      | Inr (last_scanned, scanned_all) \<Rightarrow>
          bindS (case last_scanned of None \<Rightarrow> retS () | Some t \<Rightarrow> set_cursor (Some (row_key t))) (\<lambda>_.
             if scanned_all \<and> int (length (select_rows (queue_query (scan_limit ?cap) c) (sv_db s))) < scan_limit ?cap
             then set_cursor None else retS ()) t)"
      using False o q y
      by (cases y) (simp_all add: schedule_def Let_def getS_def bindS_def liftS_def capacity_now_def split: prod.split)
    have "sv_db s' = sv_db t \<and> isl x = isl y"
      using assms(2) unfolding x
      by (cases y) (auto simp: bindS_def retS_def set_cursor_def upd_def split: option.splits if_splits)
    then show ?thesis using c y False by blast
  qed
qed

lemma schedule_tracks:
  assumes ok: "db_ok (sv_db s)" and "keys_exclusive (sv_db s)" and "capacity_now e (sv_db s) \<noteq> Some 0"
    and limit: "\<And>m. en_max_concurrency e = Some m \<Longrightarrow> limit = m"
  shows "pool.tracks limit (capacity_now e (sv_db s)) (holders_of (owned_now (sv_db s)))
    (map shown (select_rows q (sv_db s))) (s\<lparr>sv_queue_cursor := c\<rparr>)"
proof -
  have "set (select_rows q (sv_db s)) \<subseteq> set (db_tasks (sv_db s))"
    by (auto simp: select_rows_def Let_def dest!: in_set_takeD split: if_splits)
  then have "\<forall>t \<in> set (map shown (select_rows q (sv_db s))). task_keys (sv_db s) (r_id t) = set (r_mutex_keys t)"
    using find_row_keys[OF ok] by auto
  moreover have "0 \<le> k \<and> int (card (ids_where active_row (sv_db s))) + k = limit"
    if "capacity_now e (sv_db s) = Some k" for k
  proof (cases "en_max_concurrency e")
    case None
    with that show ?thesis by (simp add: capacity_now_def free_capacity_def)
  next
    case (Some m)
    define n where "n = int (card (ids_where active_row (sv_db s)))"
    have "k = max 0 (m - n)" using that Some
      by (simp add: capacity_now_def free_capacity_def owned_now_ids(2)[OF ok] n_def)
    moreover have "k \<noteq> 0" using that assms(3) by simp
    ultimately show ?thesis using limit[OF Some] by (fold n_def) linarith
  qed
  ultimately show ?thesis
    using ok assms(2)
    by (simp add: pool.tracks_def pool.exclusive_def pool.held_def keys_exclusive_def owned_now_ids(3)[OF ok])
qed

lemma schedule_safe:
  assumes "db_ok (sv_db s)" and "keys_exclusive (sv_db s)" and "within_limit (en_max_concurrency e) (sv_db s)"
  shows "keys_exclusive (sv_db (snd (schedule e s))) \<and> within_limit (en_max_concurrency e) (sv_db (snd (schedule e s)))"
proof -
  obtain x s' where x: "schedule e s = (x, s')" by fastforce
  let ?limit = "case en_max_concurrency e of None \<Rightarrow> 0 | Some m \<Rightarrow> m"
  from schedule_scan[OF assms(1) x] show ?thesis
  proof (elim disjE exE conjE)
    fix c y t
    assume cap: "capacity_now e (sv_db s) \<noteq> Some 0"
      and sc: "scan (mark_blocked e) (admit_task e) (capacity_now e (sv_db s)) (holders_of (owned_now (sv_db s)))
         (map shown (select_rows (queue_query (scan_limit (capacity_now e (sv_db s))) c) (sv_db s))) None
         (s\<lparr>sv_queue_cursor := c\<rparr>) = (y, t)" and s': "sv_db s' = sv_db t"
    have "pool.tracks ?limit (capacity_now e (sv_db s)) (holders_of (owned_now (sv_db s)))
        (map shown (select_rows (queue_query (scan_limit (capacity_now e (sv_db s))) c) (sv_db s))) (s\<lparr>sv_queue_cursor := c\<rparr>)"
      by (rule schedule_tracks[OF assms(1,2) cap]) simp
    from pool.scan_spec[OF this sc] have "pool.exclusive t"
      and "capacity_now e (sv_db s) \<noteq> None \<Longrightarrow> int (card (ids_where active_row (sv_db t))) \<le> ?limit"
      by (simp_all add: pool.scanned_def)
    then show ?thesis
      by (auto simp: x s' pool.exclusive_def keys_exclusive_def within_limit_def
          capacity_now_def free_capacity_def split: option.splits)
  qed (use assms x in simp)
qed

interpretation guards: svc_invariant e "\<lambda>s. db_ok (sv_db s) \<and> keys_exclusive (sv_db s) \<and>
    within_limit (en_max_concurrency e) (sv_db s)" for e
proof (standard, goal_cases)
  case (3 s ids d)
  then show ?case using guarded.after_keeps[of "set ids" "sv_db s" d] by (auto dest: after_ok)
next
  case (7 s)
  then show ?case using schedule_safe[of s e] schedule_after[of s e] by (auto dest: after_ok)
qed (auto simp: core_def)

lemma guards_start: "keys_exclusive (sv_db empty_svc)" "within_limit limit (sv_db empty_svc)"
  by (auto simp: keys_exclusive_def within_limit_def ids_where_def split: option.split)

text \<open>
  C1. Mutual exclusion. In every state the service can reach, two different tasks that are
  starting, running or stopping have no mutex key in common.
\<close>

theorem mutex_exclusion:
  assumes "reachable_svc e s"
    and "r \<in> set (db_tasks (sv_db s))" and "r_state r \<in> set OWNED"
    and "q \<in> set (db_tasks (sv_db s))" and "r_state q \<in> set OWNED" and "r_id r \<noteq> r_id q"
  shows "set (r_mutex_keys r) \<inter> set (r_mutex_keys q) = {}"
proof -
  have inv: "db_ok (sv_db s)" "keys_exclusive (sv_db s)"
    using guards.steps_keep[OF assms(1)[unfolded reachable_svc_def]] guards_start by simp_all
  have "r_id r \<in> ids_where active_row (sv_db s)" "r_id q \<in> ids_where active_row (sv_db s)"
    using assms by (auto simp: ids_where_iff active_row_def)
  with inv(2) assms(6) show ?thesis
    unfolding keys_exclusive_def using find_row_keys[OF inv(1)] assms(2,4) by metis
qed

text \<open>
  C4. The admission limit. With \<open>max_concurrency\<close> configured, the service never has more tasks
  starting, running or stopping than the limit allows, however its coroutines interleave.
\<close>

theorem concurrency_limit:
  assumes "reachable_svc e s" and "en_max_concurrency e = Some m" and "0 \<le> m"
  shows "int (length (filter (\<lambda>r. r_state r \<in> set OWNED) (db_tasks (sv_db s)))) \<le> m"
proof -
  have inv: "db_ok (sv_db s)" "within_limit (en_max_concurrency e) (sv_db s)"
    using guards.steps_keep[OF assms(1)[unfolded reachable_svc_def]] guards_start by simp_all
  have "distinct (map r_id (filter active_row (db_tasks (sv_db s))))"
    using db_ok_distinct[OF inv(1)] by (rule distinct_map_filter)
  then have "length (filter active_row (db_tasks (sv_db s))) = card (ids_where active_row (sv_db s))"
    unfolding ids_where_def by (metis distinct_card length_map list.set_map set_filter)
  with inv(2) assms(2,3) show ?thesis
    by (simp add: within_limit_def active_row_def[abs_def])
qed

section \<open>No task is left behind\<close>

lemma queue_query_all:
  assumes "int (length (filter queued_row (db_tasks d))) \<le> limit" and "1 \<le> limit" and "limit \<le> 10000"
  shows "set (select_rows (queue_query limit None) d) = {r \<in> set (db_tasks d). queued_row r}"
proof -
  have m: "query_matches (queue_query limit None) r \<longleftrightarrow> queued_row r" for r
    by (cases "r_state r") (simp_all add: query_matches_def queue_query_def any_query_def from_bound_def to_bound_def queued_row_def)
  have "clamp_limit (q_limit (queue_query limit None)) = nat limit"
    using assms(2,3) by (simp add: clamp_limit_def queue_query_def min_def max_def)
  moreover have "length (sort_key row_key (filter queued_row (db_tasks d))) \<le> nat limit"
    using assms(1) by simp
  ultimately have "select_rows (queue_query limit None) d = sort_key row_key (filter queued_row (db_tasks d))"
    unfolding select_rows_def m[abs_def] by (simp add: queue_query_def)
  then show ?thesis by simp
qed

lemma scan_limit_bounds: "1 \<le> scan_limit c" "scan_limit c \<le> 10000"
  by (auto simp: scan_limit_def TASK_PAGE_SIZE_def split: option.split)

lemma held_row:
  assumes "db_ok (sv_db t)" and "k \<in> pool.held t"
  shows "\<exists>q \<in> set (db_tasks (sv_db t)). active_row q \<and> k \<in> set (r_mutex_keys q)"
proof -
  obtain i where "i \<in> ids_where active_row (sv_db t)" "k \<in> task_keys (sv_db t) i"
    using assms(2) by (auto simp: pool.held_def)
  then obtain q where "q \<in> set (db_tasks (sv_db t))" "active_row q" "k \<in> task_keys (sv_db t) (r_id q)"
    unfolding ids_where_iff by blast
  then show ?thesis using find_row_keys[OF assms(1)] by auto
qed

text \<open>
  C7. The scheduler leaves no admissible task behind. When a pass that starts at the head of
  a queue that fits on its page ends normally, every task that is still queued either shares a
  mutex key with a task that is active now, or the concurrency limit is used up.
\<close>

theorem schedule_work_conserving:
  assumes "reachable_svc e s" and "schedule e s = (Inr (), s')" and "sv_queue_cursor s = None"
    and "int (length (filter (\<lambda>r. r_state r = QUEUED) (db_tasks (sv_db s)))) \<le> scan_limit (capacity_now e (sv_db s))"
    and "r \<in> set (db_tasks (sv_db s'))" and "r_state r = QUEUED"
  shows "(\<exists>m. en_max_concurrency e = Some m \<and> m \<le> int (card (ids_where active_row (sv_db s')))) \<or>
    (\<exists>q \<in> set (db_tasks (sv_db s')). r_state q \<in> set OWNED \<and> set (r_mutex_keys r) \<inter> set (r_mutex_keys q) \<noteq> {})"
proof -
  let ?cap = "capacity_now e (sv_db s)"
  have ok: "db_ok (sv_db s)" and ex: "keys_exclusive (sv_db s)"
    using guards.steps_keep[OF assms(1)[unfolded reachable_svc_def]] guards_start by simp_all
  let ?limit = "case en_max_concurrency e of None \<Rightarrow> 0 | Some m \<Rightarrow> m"
  from schedule_scan[OF ok assms(2)] show ?thesis
  proof (elim disjE exE conjE)
    assume "?cap = Some 0" "s' = s"
    then show ?thesis
      by (auto simp: capacity_now_def free_capacity_def owned_now_ids(2)[OF ok] max_def split: if_splits)
  next
    fix c y t
    assume c: "c \<in> {None, sv_queue_cursor s}" and cap: "?cap \<noteq> Some 0"
      and sc: "scan (mark_blocked e) (admit_task e) ?cap (holders_of (owned_now (sv_db s)))
         (map shown (select_rows (queue_query (scan_limit ?cap) c) (sv_db s))) None (s\<lparr>sv_queue_cursor := c\<rparr>) = (y, t)"
      and s': "sv_db s' = sv_db t" and y: "isl (Inr () :: unit result) = isl y"
    let ?queued = "map shown (select_rows (queue_query (scan_limit ?cap) c) (sv_db s))"
    have "pool.tracks ?limit ?cap (holders_of (owned_now (sv_db s))) ?queued (s\<lparr>sv_queue_cursor := c\<rparr>)"
      by (rule schedule_tracks[OF ok ex cap]) simp
    from pool.scan_spec[OF this sc] y
    have okt: "db_ok (sv_db t)" and sub: "ids_where queued_row (sv_db t) \<subseteq> ids_where queued_row (sv_db s)"
      and keys: "task_keys (sv_db t) = task_keys (sv_db s)"
      and progress: "?cap \<noteq> None \<and> int (card (ids_where active_row (sv_db t))) = ?limit \<or>
       (\<forall>u \<in> set ?queued. r_id u \<in> ids_where queued_row (sv_db t) \<longrightarrow> set (r_mutex_keys u) \<inter> pool.held t \<noteq> {})"
      by (simp_all add: pool.scanned_def)
    have r: "r \<in> set (db_tasks (sv_db t))" "r_id r \<in> ids_where queued_row (sv_db t)"
      using assms(5,6) s' by (auto simp: ids_where_iff queued_row_def)
    then have "r_id r \<in> ids_where queued_row (sv_db s)" using sub by blast
    then obtain u where u: "u \<in> set (db_tasks (sv_db s))" "queued_row u" "r_id u = r_id r"
      unfolding ids_where_iff by blast
    have "shown u \<in> set ?queued"
      using u c assms(3) queue_query_all[OF _ scan_limit_bounds, of "sv_db s" ?cap] assms(4)
      by (simp add: queued_row_def[abs_def])
    moreover have "set (r_mutex_keys u) = set (r_mutex_keys r)"
      using find_row_keys[OF ok u(1)] find_row_keys[OF okt r(1)] keys u(3) by simp
    ultimately have held: "set (r_mutex_keys r) \<inter> pool.held t \<noteq> {}"
      if "\<not> (?cap \<noteq> None \<and> int (card (ids_where active_row (sv_db t))) = ?limit)"
      using progress that r(2) u(3) by (metis shown_simps(1,3))
    have "\<exists>q \<in> set (db_tasks (sv_db t)). active_row q \<and> set (r_mutex_keys r) \<inter> set (r_mutex_keys q) \<noteq> {}"
      if "set (r_mutex_keys r) \<inter> pool.held t \<noteq> {}"
      using that held_row[OF okt] by blast
    moreover have "\<exists>m. en_max_concurrency e = Some m \<and> m \<le> int (card (ids_where active_row (sv_db s')))"
      if "set (r_mutex_keys r) \<inter> pool.held t = {}"
      using held that s' by (cases "en_max_concurrency e") (auto simp: capacity_now_def free_capacity_def)
    ultimately show ?thesis using s' by (auto simp: active_row_def)
  qed
qed

section \<open>One launch per task\<close>

fun start_of :: "coro \<Rightarrow> string list" where
  "start_of (C_start i) = [i]"
| "start_of c = []"

definition starts :: "coro list \<Rightarrow> string list" where
  "starts cs = concat (map start_of cs)"

lemma starts_simps [simp]: "starts [] = []" "starts (c # cs) = start_of c @ starts cs" "starts (cs @ ds) = starts cs @ starts ds"
  by (simp_all add: starts_def)

lemma starts_filter: "starts (filter is_start cs) = starts cs"
proof (induction cs)
  case (Cons c cs)
  then show ?case by (cases c) simp_all
qed simp

lemma starts_remove:
  assumes "distinct (starts cs)"
  shows "starts (remove1 c cs) = (case c of C_start i \<Rightarrow> remove1 i (starts cs) | _ \<Rightarrow> starts cs)"
proof (induction cs)
  case Nil
  show ?case by (cases c) simp_all
next
  case (Cons d cs)
  then show ?case by (cases c; cases d) simp_all
qed

lemma in_starts: "i \<in> set (starts cs) \<longleftrightarrow> C_start i \<in> set cs"
proof (induction cs)
  case (Cons c cs)
  then show ?case by (cases c) auto
qed simp

definition launch_ok :: "svc \<Rightarrow> bool" where
  "launch_ok s \<longleftrightarrow> distinct (starts (sv_coros s) @ sv_launched s) \<and>
     set (starts (sv_coros s) @ sv_launched s) \<subseteq> set (sv_issued s) \<and>
     (\<forall>r \<in> set (db_tasks (sv_db s)). r_id r \<in> set (sv_issued s) \<and>
        (r_state r = QUEUED \<longrightarrow> r_id r \<notin> set (starts (sv_coros s) @ sv_launched s)))"

interpretation queued_rows: row_invariant svc_move N "\<lambda>r. r_id r \<in> N \<or> (r_id r \<in> known \<and> (r_state r = QUEUED \<longrightarrow> r_id r \<notin> used))"
  for N known used
  by standard (auto simp: svc_move_def moves_on_def)

lemma launch_ok_core:
  assumes "launch_ok s" and "core s' = core s"
  shows "launch_ok s'"
proof -
  have "starts (sv_coros s') = starts (sv_coros s)"
    using assms(2) starts_filter[of "sv_coros s"] starts_filter[of "sv_coros s'"] by (simp add: core_def)
  with assms show ?thesis by (simp add: launch_ok_def core_def)
qed

lemma launch_ok_writes:
  assumes "launch_ok s" and "db_ok (sv_db s)" and "after svc_move (set ids) (sv_db s) d" and "set ids \<inter> set (sv_issued s) = {}"
  shows "launch_ok (s\<lparr>sv_db := d, sv_issued := ids @ sv_issued s\<rparr>)"
proof -
  let ?used = "set (starts (sv_coros s) @ sv_launched s)"
  have "\<forall>r \<in> set (db_tasks d). r_id r \<in> set ids \<or>
      (r_id r \<in> set (sv_issued s) \<and> (r_state r = QUEUED \<longrightarrow> r_id r \<notin> ?used))"
    using queued_rows.after_keeps[OF assms(3,2), of "set (sv_issued s)" ?used] assms(1)
    unfolding queued_rows.rows_hold_def launch_ok_def by blast
  moreover have "set ids \<inter> ?used = {}" using assms(1,4) by (auto simp: launch_ok_def)
  ultimately show ?thesis using assms(1) by (fastforce simp: launch_ok_def)
qed

lemma admit_ok:
  assumes "db_ok (sv_db s)"
  shows "db_ok (sv_db (snd (admit_task e i s)))"
proof -
  obtain x s' where a: "admit_task e i s = (x, s')" by fastforce
  show ?thesis
  proof (cases "x = Inr True")
    case True
    then show ?thesis using after_ok[OF admit_granted(1)[OF assms]] a by simp
  next
    case False
    then show ?thesis using admit_refused(1)[OF assms a False] assms a by auto
  qed
qed

lemma launch_ok_admit:
  assumes "db_ok (sv_db s)" and "launch_ok s"
  shows "launch_ok (snd (admit_task e i s))"
proof -
  obtain x s' where a: "admit_task e i s = (x, s')" by fastforce
  show ?thesis
  proof (cases "x = Inr True")
    case False
    obtain n where "s' = s\<lparr>sv_db := (sv_db s)\<lparr>db_ticks := n\<rparr>\<rparr>" using admit_refused(1)[OF assms(1) a False] by blast
    with assms(2) show ?thesis by (simp add: a launch_ok_def)
  next
    case True
    note g = admit_granted[OF assms(1) a[unfolded True]]
    obtain r where r: "r \<in> set (db_tasks (sv_db s))" "r_id r = i" "r_state r = QUEUED"
      using g(2) find_row_Some by blast
    obtain f where f: "db_tasks (sv_db s') = map (\<lambda>q. if r_id q = i then f q else q) (db_tasks (sv_db s))"
      and f': "\<And>q. r_id (f q) = r_id q \<and> r_state (f q) = STARTING" using g(3) by blast
    have st: "starts (sv_coros s') = starts (sv_coros s) @ [i]"
      using g(4) starts_filter[of "sv_coros s"] starts_filter[of "sv_coros s'"] by (simp add: core_def)
    have l: "sv_launched s' = sv_launched s" "sv_issued s' = sv_issued s" using g(4) by (simp_all add: core_def)
    have "r_id q \<in> set (sv_issued s) \<and> (r_state q = QUEUED \<longrightarrow> r_id q \<noteq> i \<and> r_id q \<notin> set (starts (sv_coros s) @ sv_launched s))"
      if "q \<in> set (db_tasks (sv_db s'))" for q
      using that assms(2) f' unfolding f launch_ok_def by (auto split: if_splits)
    moreover have "i \<in> set (sv_issued s)" "i \<notin> set (starts (sv_coros s) @ sv_launched s)"
      using r assms(2) by (auto simp: launch_ok_def)
    ultimately show ?thesis using assms(2) by (auto simp: a launch_ok_def st l)
  qed
qed

interpretation launching: svc_invariant e "\<lambda>s. db_ok (sv_db s) \<and> launch_ok s" for e
proof (standard, goal_cases)
  case (1 s s')
  then show ?case using launch_ok_core by (auto simp: core_def)
next
  case (3 s ids d)
  then show ?case using launch_ok_writes[of s ids d] by (auto dest: after_ok)
next
  case (4 s i)
  then have "distinct (starts (sv_coros s))" by (simp add: launch_ok_def)
  from starts_remove[OF this, of "C_start i"] 4 in_starts[of i "sv_coros s"] show ?case
    by (auto simp: launch_ok_def dest: notin_set_remove1)
next
  case (5 s c)
  then have d: "distinct (starts (sv_coros s))" by (simp add: launch_ok_def)
  have "distinct (starts (remove1 c (sv_coros s)))" "set (starts (remove1 c (sv_coros s))) \<subseteq> set (starts (sv_coros s))"
    using d by (cases c; simp add: starts_remove[OF d] set_remove1_subset)+
  with 5 show ?case by (auto simp: launch_ok_def)
next
  case (6 s)
  then show ?case by (simp add: launch_ok_def)
next
  case (7 s)
  have "keeps (\<lambda>s. db_ok (sv_db s) \<and> launch_ok s) (schedule e)"
  proof (rule schedule_keeps)
    show "keeps (\<lambda>s. db_ok (sv_db s) \<and> launch_ok s) (admit_task e i)" for i
      using launch_ok_admit admit_ok by (simp add: keeps_def)
    show "keeps (\<lambda>s. db_ok (sv_db s) \<and> launch_ok s) (mark_blocked e i bs ks)" for i bs ks
    proof -
      have "db_ok (snd (set_blocked_by (en_clock e) i bs ks (sv_db s))) \<and>
          launch_ok (s\<lparr>sv_db := snd (set_blocked_by (en_clock e) i bs ks (sv_db s))\<rparr>)"
        if "db_ok (sv_db s)" "launch_ok s" for s
        using launch_ok_writes[OF that(2,1), of "[]"] after_set_blocked_by[OF after_refl[OF that(1)], of svc_move "{}"]
        by (simp add: set_blocked_views(1)[OF that(1)])
      then show ?thesis by (auto simp: keeps_def mark_blocked_def onDb_def split: prod.splits) (metis snd_conv)+
    qed
    show "keeps (\<lambda>s. db_ok (sv_db s) \<and> launch_ok s) (svc_list q)" for q
      by (auto simp: keeps_def svc_list_def onDb_def list_tasks_def)
  qed (simp add: launch_ok_def)
  then show ?case using 7 by (simp add: keeps_def)
qed auto

text \<open>
  C3. A task is launched at most once. Along every run, restarts of the service and recovery
  included, \<open>executor.start\<close> is called at most once for a task.
\<close>

theorem launched_at_most_once:
  assumes "reachable_svc e s"
  shows "distinct (sv_launched s)"
proof -
  have "launch_ok empty_svc" by (simp add: launch_ok_def)
  with launching.steps_keep[OF assms[unfolded reachable_svc_def]] show ?thesis by (simp add: launch_ok_def)
qed

section \<open>Results\<close>

text \<open>
  What the waiter of a task and the recovery do once the exit code is known: the evaluator is
  asked, and its verdict is stored with the end of the task.
\<close>

definition record_result ::
    "env \<Rightarrow> task_row \<Rightarrow> task_state list \<Rightarrow> int \<Rightarrow> (task_status \<times> jdict) option result \<Rightarrow> (svc, unit) op" where
  "record_result e task expd code evaluated =
     bindS (evaluate_result e task code evaluated) (\<lambda>(ov, custom).
       finish_task e task expd (exit_state task code) code ov custom)"

lemma bindS_assoc_pair:
  "bindS m (\<lambda>(a, b). bindS (f a b) (\<lambda>_. k)) s = bindS (bindS m (\<lambda>(a, b). f a b)) (\<lambda>_. k) s"
  by (auto simp: bindS_def split: prod.splits sum.splits)

lemma recorded_by_waiter:
  "wait_eval e i code task (A_evaluated evaluated) =
     with_finally (bindS (record_result e task [RUNNING, STARTING, STOPPING] code evaluated) (\<lambda>_. end_waiter i)) (end_waiter i)"
  by (rule ext) (simp add: wait_eval_def record_result_def with_finally_def bindS_assoc_pair)

lemma recorded_by_recovery:
  "rec_eval e task code rest next_page (A_evaluated evaluated) =
     bindS (record_result e task OWNED code evaluated) (\<lambda>_. rec_next e next_page rest)"
  by (rule ext) (simp add: rec_eval_def record_result_def bindS_assoc_pair)

text \<open>
  A plugin declares a key a success: its own table of statuses gives the key that tone, or it
  has no entry of that name and the key is the one of the built-in success.
\<close>

definition declares_success :: "jdict \<Rightarrow> string \<Rightarrow> bool" where
  "declares_success snapshot key \<longleftrightarrow>
     (case jget ''statuses'' snapshot (JObj []) of
        JObj statuses \<Rightarrow>
          (case map_of statuses key of
             None \<Rightarrow> key = ''succeeded''
           | Some (JObj entry) \<Rightarrow> py_str (jget ''tone'' entry (JStr ''neutral'')) = ''success''
           | Some _ \<Rightarrow> False)
      | _ \<Rightarrow> False)"

lemma core_tone:
  "map_of core_statuses key = Some (JObj entry) \<Longrightarrow> py_str (jget ''tone'' entry (JStr ''neutral'')) = ''success'' \<Longrightarrow> key = ''succeeded''"
  by (auto simp: core_statuses_def core_entry_def jget_def split: if_splits)

lemma core_entries: "map_of core_statuses key = Some v \<Longrightarrow> \<exists>entry. v = JObj entry"
  by (auto simp: core_statuses_def core_entry_def split: if_splits)

lemma display_success:
  assumes "display_status snapshot st code istage = Inr status" and "st \<in> {FAILED, CANCELLED}"
    and "ts_tone status = ''success''"
  shows "\<exists>key. status_key snapshot st code istage = Inr (JStr key) \<and> declares_success snapshot key"
proof -
  obtain key where key: "status_key snapshot st code istage = Inr key"
    using assms(1) by (auto simp: display_status_def bindR_Inr_iff)
  obtain statuses where sts: "jget ''statuses'' snapshot (JObj []) = JObj statuses"
    using assms(1) key by (cases "jget ''statuses'' snapshot (JObj [])") (simp_all add: display_status_def)
  obtain entry where core: "jget (state_value st) core_statuses JNull = JObj entry"
      "py_str (jget ''tone'' entry (JStr ''neutral'')) \<noteq> ''success''"
    using assms(2) by (auto simp: core_statuses_def core_entry_def jget_def)
  have "\<exists>k. key = JStr k"
    using assms(1,3) key sts core
    by (cases key) (auto simp: display_status_def jget_key_def hashable_def Let_def)
  then obtain k where k: "key = JStr k" by blast
  have "declares_success snapshot k"
  proof (cases "map_of statuses k")
    case (Some v)
    with assms(1,3) key sts core k show ?thesis
      by (cases v) (auto simp: display_status_def declares_success_def jget_key_def jget_def hashable_def Let_def)
  next
    case None
    show ?thesis
    proof (cases "map_of core_statuses k")
      case (Some v)
      with core_entries obtain en where "v = JObj en" by blast
      with Some None assms(1,3) key sts core k core_tone[of k en] show ?thesis
        by (auto simp: display_status_def declares_success_def jget_key_def jget_def hashable_def Let_def)
    next
      case unknown: None
      with None assms(1,3) key sts core k show ?thesis
        by (auto simp: display_status_def jget_key_def jget_def hashable_def Let_def)
    qed
  qed
  with key k show ?thesis by blast
qed

lemma plain_snapshot_danger:
  "display_status [] st code istage = Inr status \<Longrightarrow> st \<in> {FAILED, CANCELLED} \<Longrightarrow> ts_tone status \<noteq> ''success''"
  using display_success[of "[]" st code istage status]
  by (auto simp: status_key_def declares_success_def jget_def split: if_splits)

lemma transition_changed_row:
  assumes dist: "distinct (map r_id (db_tasks d))" and run: "transition clk i expd st ov flds d = (res, d')"
    and rows: "r' \<in> set (db_tasks d')" "r' \<notin> set (db_tasks d)"
  shows "\<exists>r status. r_id r = i \<and> transition_status r st ov flds = Inr status \<and> r' = apply_transition st status flds r"
proof -
  have same: "db_tasks (transition_event clk i st flds d1) = db_tasks d1" for d1
    by (simp add: transition_event_def add_event_def bindS_def tick_def)
  obtain r status where r: "find_row i d = Some r" "transition_status r st ov flds = Inr status"
      "d' = transition_event clk i st flds (update_rows (\<lambda>q. r_id q = i) (apply_transition st status flds) d)"
    using run rows unfolding transition_cas[OF dist] by (auto split: option.splits sum.splits if_splits)
  then obtain q where q: "q \<in> set (db_tasks d)" "r_id q = i" "r' = apply_transition st status flds q"
    using rows by (auto simp: same update_rows_def split: if_splits)
  then have "q = r" using find_row_distinct[OF dist q(1)] r(1) by simp
  with q r show ?thesis by blast
qed

lemma finish_task_transition:
  "\<exists>n now size el. finish_task e task expd st code ov custom s =
     bindS (svc_transition e (r_id task) expd st ov [F_ended_at (Some now), F_exit_code (Some code), F_log_size size,
       F_elapsed_seconds el, F_custom_json custom]) (\<lambda>_. on_terminal) (s\<lparr>sv_db := (sv_db s)\<lparr>db_ticks := n\<rparr>\<rparr>)"
  by (cases "r_started_monotonic task")
    (auto simp: finish_task_def now_iso_def log_size_def elapsed_def monotonic_def onDb_def tick_def getS_def bindS_def retS_def)

lemma finish_rows:
  assumes "distinct (map r_id (db_tasks (sv_db s)))" and "finish_task e task expd st code ov custom s = (res, s')"
    and "r' \<in> set (db_tasks (sv_db s'))" and "r' \<notin> set (db_tasks (sv_db s))"
  shows "r_id r' = r_id task" "r_state r' = st" "r_exit_code r' = Some code" "r_custom r' = custom"
    "ov = Some status \<Longrightarrow> r_status r' = status"
    "ov = None \<Longrightarrow> display_status (r_plugin_snapshot r') st (Some code) (r_interrupt_stage r') = Inr (r_status r')"
proof -
  obtain n now size el flds where run: "finish_task e task expd st code ov custom s =
      bindS (svc_transition e (r_id task) expd st ov flds) (\<lambda>_. on_terminal) (s\<lparr>sv_db := (sv_db s)\<lparr>db_ticks := n\<rparr>\<rparr>)"
    and flds: "flds = [F_ended_at (Some now), F_exit_code (Some code), F_log_size size, F_elapsed_seconds el, F_custom_json custom]"
    using finish_task_transition[of e task expd st code ov custom s] by blast
  obtain res1 d1 where tr: "transition (en_clock e) (r_id task) expd st ov flds ((sv_db s)\<lparr>db_ticks := n\<rparr>) = (res1, d1)"
    by fastforce
  have "sv_db s' = d1"
    using assms(2) unfolding run by (cases res1) (auto simp: bindS_def svc_transition_def onDb_def tr on_terminal_def upd_def)
  then have "\<exists>r status. r_id r = r_id task \<and> transition_status r st ov flds = Inr status \<and> r' = apply_transition st status flds r"
    using assms(1,3,4) by (intro transition_changed_row[OF _ tr]) simp_all
  then obtain r status where r: "r_id r = r_id task" "transition_status r st ov flds = Inr status" "r' = apply_transition st status flds r"
    by blast
  then show "r_id r' = r_id task" "r_state r' = st" "r_exit_code r' = Some code" "r_custom r' = custom"
    "ov = Some status \<Longrightarrow> r_status r' = status"
    "ov = None \<Longrightarrow> display_status (r_plugin_snapshot r') st (Some code) (r_interrupt_stage r') = Inr (r_status r')"
    for status
    by (auto simp: flds apply_transition_def transition_status_def new_exit_code_def new_interrupt_stage_def)
qed

lemma evaluate_result_verdict:
  assumes "evaluate_result e task code evaluated s = (Inr (ov, custom), t)" and "code \<noteq> 0"
  shows "ov = Some status \<Longrightarrow> ts_tone status \<noteq> ''success''"
    "ov = None \<Longrightarrow> interrupted task \<or> \<not> en_has_evaluator e \<or> evaluated = Inr None"
    "\<lbrakk>evaluated = Inr (Some (reported, c)); ts_tone reported = ''success''; \<not> interrupted task; en_has_evaluator e\<rbrakk>
      \<Longrightarrow> map_of custom ''reported_result_status'' = Some (status_dump reported)"
  using assms
  by (auto simp: evaluate_result_def retS_def failed_status_def bindS_def append_event_def map_of_dict_set
      split: if_splits sum.splits option.splits prod.splits)

lemma evaluate_result_rows:
  "\<exists>x. fst (evaluate_result e task code evaluated s) = Inr x"
  "db_tasks (sv_db (snd (evaluate_result e task code evaluated s))) = db_tasks (sv_db s)"
  by (auto simp: evaluate_result_def retS_def bindS_def append_event_def onDb_def add_event_def tick_def
      split: sum.splits option.splits)

text \<open>
  C33. A process that failed is not shown as a success, unless its plugin declares so. Take a
  task whose exit code is not zero, and a row that recording its result changed: the row is the
  one of the task and has the exit code. When an evaluator gave a verdict, or raised, the status
  of the row does not have the tone of a success, and a success that was reported is kept beside
  it. When there was no verdict (the task was interrupted, the service has no evaluator or the
  evaluator answered \<open>None\<close>), the status has that tone only if the plugin snapshot of the task
  says so: the key that its \<open>result_statuses\<close> or \<open>interrupt_status\<close> give for this end is one it
  declares a success. For a task without a plugin it never is.
\<close>

theorem failed_process_never_success:
  assumes "db_ok (sv_db s)" and "code \<noteq> 0" and "record_result e task expd code evaluated s = (res, s')"
    and "r \<in> set (db_tasks (sv_db s'))" and "r \<notin> set (db_tasks (sv_db s))"
  shows "r_id r = r_id task \<and> r_exit_code r = Some code \<and> r_state r = exit_state task code
    \<and> (ts_tone (r_status r) = ''success'' \<longrightarrow>
        (interrupted task \<or> \<not> en_has_evaluator e \<or> evaluated = Inr None) \<and> r_plugin_snapshot r \<noteq> [] \<and>
        (\<exists>key. status_key (r_plugin_snapshot r) (r_state r) (Some code) (r_interrupt_stage r) = Inr (JStr key)
           \<and> declares_success (r_plugin_snapshot r) key))
    \<and> (\<forall>reported c. evaluated = Inr (Some (reported, c)) \<and> ts_tone reported = ''success'' \<and> \<not> interrupted task
         \<and> en_has_evaluator e \<longrightarrow>
        map_of (r_custom r) ''reported_result_status'' = Some (status_dump reported))"
proof -
  obtain x t where ev: "evaluate_result e task code evaluated s = (Inr x, t)" and rows: "db_tasks (sv_db t) = db_tasks (sv_db s)"
    using evaluate_result_rows[of e task code evaluated s] by (metis prod.collapse)
  obtain ov custom where x: "x = (ov, custom)" by fastforce
  note verdict = evaluate_result_verdict[OF ev[unfolded x] assms(2)]
  have "finish_task e task expd (exit_state task code) code ov custom t = (res, s')"
    using assms(3) by (simp add: record_result_def bindS_def ev x)
  note row = finish_rows[OF _ this assms(4), unfolded rows, OF db_ok_distinct[OF assms(1)] assms(5)]
  have st: "exit_state task code \<in> {FAILED, CANCELLED}" using assms(2) by (simp add: exit_state_def)
  have "(interrupted task \<or> \<not> en_has_evaluator e \<or> evaluated = Inr None) \<and> r_plugin_snapshot r \<noteq> [] \<and>
      (\<exists>key. status_key (r_plugin_snapshot r) (r_state r) (Some code) (r_interrupt_stage r) = Inr (JStr key)
         \<and> declares_success (r_plugin_snapshot r) key)" if tone: "ts_tone (r_status r) = ''success''"
  proof (cases ov)
    case (Some status)
    with verdict(1) row(5) tone show ?thesis by blast
  next
    case None
    note shown = row(6)[OF None]
    have "r_plugin_snapshot r \<noteq> []" using plain_snapshot_danger[OF _ st] shown tone by auto
    with verdict(2)[OF None] display_success[OF shown st tone] row(2) show ?thesis by simp
  qed
  with row(1-4) verdict(3) show ?thesis by blast
qed

text \<open>The exception is there: a plugin may call the exit code 3 of its tool a success.\<close>

lemma plugin_declares_success:
  "map_option ts_tone (case display_status [(''result_statuses'', JObj [(''3'', JStr ''skipped'')]),
       (''statuses'', JObj [(''skipped'', JObj [(''label'', JStr ''Skipped''), (''tone'', JStr ''success'')])])]
     FAILED (Some 3) None of Inr status \<Rightarrow> Some status | Inl _ \<Rightarrow> None) = Some ''success''"
  by code_simp

section \<open>A run\<close>

text \<open>Three tasks, two of which want the same key; the second is cancelled while it waits.\<close>

definition ex_env :: env where
  "ex_env = \<lparr>en_sh = ''/bin/sh'', en_clock = ex_clock, en_realpath = id, en_working_root = parse_path ''/srv'',
     en_max_concurrency = Some 2, en_has_evaluator = False, en_boot_id = None, en_previous_boot = None,
     en_log_size = (\<lambda>_ _. 0), en_read_log = (\<lambda>_ _ _. ([], 0))\<rparr>"

definition ex_submit :: "string \<Rightarrow> string \<Rightarrow> svc \<Rightarrow> svc" where
  "ex_submit i key s = (snd (submit ex_env i (ex_draft\<lparr>td_mutex_keys := [key]\<rparr>) s))\<lparr>sv_issued := i # sv_issued s\<rparr>"

definition ex_queue :: svc where
  "ex_queue = ex_submit ''t3'' ''cpu'' (ex_submit ''t2'' ''gpu'' (ex_submit ''t1'' ''gpu'' empty_svc))"

definition ex_sched :: svc where
  "ex_sched = snd (schedule ex_env ex_queue)"

definition ex_resume :: "coro \<Rightarrow> answer \<Rightarrow> svc \<Rightarrow> svc" where
  "ex_resume c ans s = snd (resume ex_env c ans (s\<lparr>sv_coros := remove1 c (sv_coros s)\<rparr>))"

definition ex_launch :: svc where
  "ex_launch = ex_resume (C_start ''t1'') A_go ex_sched"

definition ex_cancelled :: svc where
  "ex_cancelled = snd (interrupt ex_env ''t2'' 20 10 ex_launch)"

definition ex_running :: svc where
  "ex_running = ex_resume (last (sv_coros ex_cancelled)) (A_started (Inr (Some 7, None))) ex_cancelled"

lemma ex_states:
  "map r_state (db_tasks (sv_db ex_queue)) = [QUEUED, QUEUED, QUEUED]"
  "map r_state (db_tasks (sv_db ex_sched)) = [STARTING, QUEUED, STARTING]"
  "map r_state (db_tasks (sv_db ex_cancelled)) = [STARTING, CANCELLED, STARTING]"
  "map r_state (db_tasks (sv_db ex_running)) = [RUNNING, CANCELLED, STARTING]"
  by code_simp+

lemma ex_ids:
  "map r_id (db_tasks (sv_db ex_sched)) = [''t1'', ''t2'', ''t3'']"
  "map r_id (db_tasks (sv_db ex_cancelled)) = [''t1'', ''t2'', ''t3'']"
  "map r_id (db_tasks (sv_db ex_running)) = [''t1'', ''t2'', ''t3'']"
  by code_simp+

lemma ex_reachable: "reachable_svc ex_env ex_queue" "reachable_svc ex_env ex_sched" "reachable_svc ex_env ex_cancelled"
  "(svc_step ex_env)\<^sup>*\<^sup>* ex_cancelled ex_running"
proof -
  have sub: "svc_step ex_env s (ex_submit i k s)" if "i \<notin> set (sv_issued s)" for i k s
    unfolding ex_submit_def by (rule svc_step.submit[OF that])
  have new: "''t2'' \<notin> set (sv_issued (ex_submit ''t1'' ''gpu'' empty_svc))"
    "''t3'' \<notin> set (sv_issued (ex_submit ''t2'' ''gpu'' (ex_submit ''t1'' ''gpu'' empty_svc)))"
    by (simp_all add: ex_submit_def)
  show q: "reachable_svc ex_env ex_queue"
    unfolding reachable_svc_def ex_queue_def
    using sub[of "''t1''" empty_svc "''gpu''"] sub[OF new(1), of "''gpu''"] sub[OF new(2), of "''cpu''"]
    by (simp add: rtranclp.rtrancl_into_rtrancl)
  have "\<not> sv_stopping ex_queue" by code_simp
  then show s: "reachable_svc ex_env ex_sched"
    using q svc_step.schedule[of ex_queue ex_env] unfolding reachable_svc_def ex_sched_def
    by (rule_tac rtranclp.rtrancl_into_rtrancl)
  have "C_start ''t1'' \<in> set (sv_coros ex_sched)" by code_simp
  then have "svc_step ex_env ex_sched ex_launch"
    unfolding ex_launch_def ex_resume_def by (rule svc_step.resume) simp
  moreover have "svc_step ex_env ex_launch ex_cancelled"
    unfolding ex_cancelled_def by (rule svc_step.interrupt)
  ultimately show "reachable_svc ex_env ex_cancelled"
    using s unfolding reachable_svc_def by (meson rtranclp.rtrancl_into_rtrancl)
  have "sv_coros ex_cancelled \<noteq> []" by code_simp
  then show "(svc_step ex_env)\<^sup>*\<^sup>* ex_cancelled ex_running"
    unfolding ex_running_def ex_resume_def by (intro r_into_rtranclp svc_step.resume last_in_set) simp_all
qed

lemma ex_row:
  assumes "map r_id (db_tasks d) = [''t1'', ''t2'', ''t3'']" and "map r_state (db_tasks d) = sts" and "k < 3"
  shows "db_tasks d ! k \<in> set (db_tasks d)" and "r_state (db_tasks d ! k) = sts ! k"
    and "r_id (db_tasks d ! k) = [''t1'', ''t2'', ''t3''] ! k"
proof -
  have l: "length (db_tasks d) = 3" using arg_cong[OF assms(1), of length] by simp
  show "db_tasks d ! k \<in> set (db_tasks d)" using l assms(3) by simp
  show "r_state (db_tasks d ! k) = sts ! k" using l assms(2,3) by (metis nth_map)
  show "r_id (db_tasks d ! k) = [''t1'', ''t2'', ''t3''] ! k" using l assms(1,3) by (metis nth_map)
qed

theorem terminal_iff_ended_witness:
  "r_ended_at (db_tasks (sv_db ex_cancelled) ! 1) \<noteq> None \<and> r_ended_at (db_tasks (sv_db ex_cancelled) ! 0) = None"
proof -
  note row = ex_row[OF ex_ids(2) ex_states(3)]
  from terminal_iff_ended[OF ex_reachable(3) row(1)[of 1]] terminal_iff_ended[OF ex_reachable(3) row(1)[of 0]]
  show ?thesis using row(2)[of 0] row(2)[of 1] by simp
qed

theorem lifecycle_forward_witness:
  "r_state (db_tasks (sv_db ex_running) ! 1) = CANCELLED \<and>
   stage (r_state (db_tasks (sv_db ex_cancelled) ! 0)) \<le> stage (r_state (db_tasks (sv_db ex_running) ! 0))"
proof -
  note a = ex_row[OF ex_ids(2) ex_states(3)] and b = ex_row[OF ex_ids(3) ex_states(4)]
  from lifecycle_forward[OF ex_reachable(3,4) a(1)[of 1] b(1)[of 1]] lifecycle_forward[OF ex_reachable(3,4) a(1)[of 0] b(1)[of 0]]
  show ?thesis using a(2)[of 1] a(3)[of 0] b(3)[of 0] a(3)[of 1] b(3)[of 1] by simp
qed

theorem mutex_exclusion_witness:
  "set (r_mutex_keys (db_tasks (sv_db ex_sched) ! 0)) \<inter> set (r_mutex_keys (db_tasks (sv_db ex_sched) ! 2)) = {}"
proof -
  note row = ex_row[OF ex_ids(1) ex_states(2)]
  from mutex_exclusion[OF ex_reachable(2) row(1)[of 0] _ row(1)[of 2]]
  show ?thesis using row(2)[of 0] row(2)[of 2] row(3)[of 0] row(3)[of 2] by (simp add: OWNED_def numeral_2_eq_2)
qed

theorem concurrency_limit_witness:
  "int (length (filter (\<lambda>r. r_state r \<in> set OWNED) (db_tasks (sv_db ex_sched)))) \<le> 2"
  using concurrency_limit[OF ex_reachable(2), of 2] by (simp add: ex_env_def)

theorem launched_at_most_once_witness: "distinct (sv_launched ex_cancelled) \<and> sv_launched ex_cancelled = [''t1'']"
proof -
  have "sv_launched ex_cancelled = [''t1'']" by code_simp
  then show ?thesis using launched_at_most_once[OF ex_reachable(3)] by simp
qed

theorem schedule_work_conserving_witness:
  "(\<exists>m. en_max_concurrency ex_env = Some m \<and> m \<le> int (card (ids_where active_row (sv_db ex_sched)))) \<or>
    (\<exists>q \<in> set (db_tasks (sv_db ex_sched)). r_state q \<in> set OWNED \<and>
       set (r_mutex_keys (db_tasks (sv_db ex_sched) ! 1)) \<inter> set (r_mutex_keys q) \<noteq> {})"
proof -
  note row = ex_row[OF ex_ids(1) ex_states(2), of 1]
  have "fst (schedule ex_env ex_queue) = Inr ()" by code_simp
  then have s: "schedule ex_env ex_queue = (Inr (), ex_sched)" by (simp add: ex_sched_def prod_eq_iff)
  have c: "sv_queue_cursor ex_queue = None" by code_simp
  have "int (length (filter (\<lambda>r. r_state r = QUEUED) (db_tasks (sv_db ex_queue)))) \<le> int (length (map r_state (db_tasks (sv_db ex_queue))))"
    by simp
  also have "\<dots> \<le> 500" by (simp only: ex_states(1)) simp
  also have "\<dots> \<le> scan_limit (capacity_now ex_env (sv_db ex_queue))"
    by (auto simp: scan_limit_def TASK_PAGE_SIZE_def split: option.split)
  finally show ?thesis
    using schedule_work_conserving[OF ex_reachable(1) s c] row(1,2) by simp
qed

definition ex_reported :: task_status where
  "ex_reported = \<lparr>ts_key = ''passed'', ts_label = ''Passed'', ts_tone = ''success'', ts_finished = True\<rparr>"

definition ex_eval_env :: env where
  "ex_eval_env = ex_env\<lparr>en_has_evaluator := True\<rparr>"

definition ex_recorded :: "unit result \<times> svc" where
  "ex_recorded = record_result ex_eval_env (hd (db_tasks (sv_db ex_running))) OWNED 1 (Inr (Some (ex_reported, []))) ex_running"

lemma ex_recorded_rows:
  "map r_exit_code (db_tasks (sv_db (snd ex_recorded))) = [Some 1, None, None]"
  "map r_exit_code (db_tasks (sv_db ex_running)) = [None, None, None]"
  "\<not> interrupted (hd (db_tasks (sv_db ex_running)))"
  by code_simp+

theorem failed_process_never_success_witness:
  "ts_tone (r_status (hd (db_tasks (sv_db (snd ex_recorded))))) \<noteq> ''success'' \<and>
   map_of (r_custom (hd (db_tasks (sv_db (snd ex_recorded))))) ''reported_result_status'' = Some (status_dump ex_reported)"
proof -
  let ?r = "hd (db_tasks (sv_db (snd ex_recorded)))"
  have old: "r_exit_code q = None" if "q \<in> set (db_tasks (sv_db ex_running))" for q
    using imageI[OF that, of r_exit_code] ex_recorded_rows(2) by (simp flip: set_map)
  have new: "?r \<in> set (db_tasks (sv_db (snd ex_recorded)))" "r_exit_code ?r = Some 1"
    using ex_recorded_rows(1) by (cases "db_tasks (sv_db (snd ex_recorded))"; simp)+
  have "record_result ex_eval_env (hd (db_tasks (sv_db ex_running))) OWNED 1 (Inr (Some (ex_reported, []))) ex_running
      = (fst ex_recorded, snd ex_recorded)"
    by (simp add: ex_recorded_def)
  moreover have ok: "db_ok (sv_db ex_running)"
    using rtranclp_trans[OF ex_reachable(3)[unfolded reachable_svc_def] ex_reachable(4)]
      reachable_issued[of ex_env ex_running] by (simp add: reachable_svc_def)
  moreover have "ts_tone ex_reported = ''success''" "en_has_evaluator ex_eval_env"
    by (simp_all add: ex_reported_def ex_eval_env_def)
  ultimately show ?thesis
    using failed_process_never_success[of ex_running 1 ex_eval_env _ OWNED _ "fst ex_recorded" "snd ex_recorded" ?r]
      ex_recorded_rows(3) new old ok by fastforce
qed

end
