(* ===== verification/LF_Logs.thy ===== *)
theory LF_Logs
  imports LF_Prelude
begin

text \<open>
  Task logs: the bounded writer with its integrity receipt
  (\<^verbatim>\<open>src/src/localflow/log_files.py\<close>), the byte window shown in a terminal
  (\<^verbatim>\<open>terminal_windows.py\<close>) and the ranged read of \<^verbatim>\<open>service.py\<close>.

  A byte string is a \<^typ>\<open>string\<close>. What the operating system answers is an input: the free
  space of the disk, how many bytes each raw write took, whether the receipt could be rewritten.
\<close>

section \<open>The archive of a task\<close>

definition MIB :: int where
  "MIB = 1024 * 1024"

definition CR :: char where
  "CR = CHR 0x0D"

definition OUTPUT_LIMIT_MARKER :: string where
  "OUTPUT_LIMIT_MARKER = [CR, NL] @
     ''[LocalFlow] task output limit reached; later output is not stored.'' @ [CR, NL]"

text \<open>The receipt beside a log: no file, a file that cannot be read or decoded, or its JSON value.\<close>

datatype receipt = No_receipt | Bad_receipt | Receipt json

record archive =
  ar_log :: "string option"
  ar_receipt :: receipt

definition integrity :: "json \<Rightarrow> json \<Rightarrow> jdict" where
  "integrity whole reason = [(''complete'', whole), (''reason'', reason)]"

definition lastn_bytes :: "nat \<Rightarrow> string \<Rightarrow> string" where
  "lastn_bytes n s = drop (length s - n) s"

definition output_integrity :: "archive \<Rightarrow> jdict" where
  "output_integrity ar =
     (case ar_log ar of
        None \<Rightarrow> integrity (JBool False) (JStr ''missing'')
      | Some content \<Rightarrow>
          (case ar_receipt ar of
             No_receipt \<Rightarrow>
               if lastn_bytes (length OUTPUT_LIMIT_MARKER) content = OUTPUT_LIMIT_MARKER
               then integrity (JBool False) (JStr ''file_limit'')
               else integrity JNull (JStr ''legacy_unverified'')
           | Bad_receipt \<Rightarrow> integrity JNull (JStr ''metadata_unreadable'')
           | Receipt (JObj value) \<Rightarrow>
               (case map_of value ''complete'' of
                  Some JNull \<Rightarrow> value
                | Some (JBool b) \<Rightarrow> value
                | _ \<Rightarrow> integrity JNull (JStr ''metadata_unreadable''))
           | Receipt _ \<Rightarrow> integrity JNull (JStr ''metadata_unreadable'')))"

section \<open>The bounded writer\<close>

text \<open>How rewriting the receipt ends: stored, refused and removed, or refused and left as it was.\<close>

datatype receipt_io = Rewritten | Removed | Stuck

record writer =
  w_max :: int
  w_keep_free :: int
  w_size :: int
  w_stopped :: bool
  w_since :: int
  w_archive :: archive

definition log_bytes :: "archive \<Rightarrow> string" where
  "log_bytes ar = (case ar_log ar of Some s \<Rightarrow> s | None \<Rightarrow> [])"

definition mark_incomplete :: "string \<Rightarrow> receipt_io \<Rightarrow> writer \<Rightarrow> writer" where
  "mark_incomplete reason io w =
     w\<lparr>w_stopped := True,
       w_archive := (case io of
          Rewritten \<Rightarrow> (w_archive w)\<lparr>ar_receipt := Receipt (JObj (integrity (JBool False) (JStr reason)))\<rparr>
        | Removed \<Rightarrow> (w_archive w)\<lparr>ar_receipt := No_receipt\<rparr>
        | Stuck \<Rightarrow> w_archive w)\<rparr>"

definition open_archive :: "archive \<Rightarrow> archive" where
  "open_archive ar =
     (let log = log_bytes ar
      in ar\<lparr>ar_log := Some log,
            ar_receipt := (if ar_receipt ar = No_receipt
              then Receipt (JObj (if log = [] then integrity (JBool True) JNull
                                  else integrity JNull (JStr ''legacy_unverified'')))
              else ar_receipt ar)\<rparr>)"

definition STOP_REASONS :: "json list" where
  "STOP_REASONS = [JStr ''file_limit'', JStr ''disk_reserve'', JStr ''write_error'']"

definition new_writer :: "int \<Rightarrow> int \<Rightarrow> receipt_io \<Rightarrow> archive \<Rightarrow> writer result" where
  "new_writer max_bytes keep_free_bytes io ar =
     (if max_bytes \<noteq> 0 \<and> max_bytes \<le> int (length OUTPUT_LIMIT_MARKER)
      then Inl (ValueError ''max_bytes is too small for a bounded task log'')
      else
        let ar = open_archive ar;
            w = \<lparr>w_max = max_bytes, w_keep_free = max keep_free_bytes 0,
                 w_size = int (length (log_bytes ar)),
                 w_stopped = jget ''reason'' (output_integrity ar) JNull \<in> set STOP_REASONS,
                 w_since = MIB, w_archive = ar\<rparr>
        in Inr (if max_bytes \<noteq> 0 \<and> w_size w \<ge> max_bytes then mark_incomplete ''file_limit'' io w else w))"

text \<open>
  The loop of \<open>_append\<close>: each raw write takes some bytes, none (which is an error) or fails;
  when the list of answers ends, the rest is taken at once.
\<close>

fun raw_writes :: "nat option list \<Rightarrow> string \<Rightarrow> string \<times> bool" where
  "raw_writes outcomes [] = ([], True)"
| "raw_writes [] view = (view, True)"
| "raw_writes (None # outcomes) view = ([], False)"
| "raw_writes (Some n # outcomes) view =
     (if n = 0 then ([], False)
      else (case raw_writes outcomes (drop n view) of (stored, ok) \<Rightarrow> (take n view @ stored, ok)))"

definition append_bytes :: "nat option list \<Rightarrow> receipt_io \<Rightarrow> string \<Rightarrow> writer \<Rightarrow> bool \<times> writer" where
  "append_bytes outcomes io payload w =
     (case raw_writes outcomes payload of (stored, ok) \<Rightarrow>
        let w = w\<lparr>w_size := w_size w + int (length stored),
                  w_archive := (w_archive w)\<lparr>ar_log := Some (log_bytes (w_archive w) @ stored)\<rparr>\<rparr>
        in (ok, if ok then w else mark_incomplete ''write_error'' io w))"

text \<open>The answers of the system during one call of \<open>write\<close>.\<close>

record write_io =
  io_free :: int
  io_payload :: "nat option list"
  io_marker :: "nat option list"
  io_limit :: receipt_io
  io_error :: receipt_io

text \<open>The end of a log: the part that still fits, and the marker.\<close>

definition write_last :: "write_io \<Rightarrow> string \<Rightarrow> writer \<Rightarrow> writer" where
  "write_last io payload w =
     (let remaining = max (w_max w - int (length OUTPUT_LIMIT_MARKER) - w_size w) 0;
          w = mark_incomplete ''file_limit'' (io_limit io) w;
          (ok, w) = (if remaining \<noteq> 0
                     then append_bytes (io_payload io) (io_error io) (take (nat remaining) payload) w
                     else (True, w))
      in if \<not> ok then w
         else (snd (append_bytes (io_marker io) (io_error io) OUTPUT_LIMIT_MARKER w))\<lparr>w_stopped := True\<rparr>)"

definition write_bytes :: "write_io \<Rightarrow> string \<Rightarrow> writer \<Rightarrow> writer" where
  "write_bytes io payload w =
     (if w_max w = 0 \<or> w_size w + int (length payload) \<le> w_max w - int (length OUTPUT_LIMIT_MARKER)
      then snd (append_bytes (io_payload io) (io_error io) payload w)
      else write_last io payload w)"

definition write_log :: "write_io \<Rightarrow> string \<Rightarrow> writer \<Rightarrow> nat \<times> writer" where
  "write_log io payload w =
     (length payload,
      if payload = [] \<or> w_stopped w then w
      else
        let since = w_since w + int (length payload)
        in if since \<ge> MIB then
             (if w_keep_free w \<noteq> 0 \<and> io_free io \<le> w_keep_free w
              then mark_incomplete ''disk_reserve'' (io_limit io) (w\<lparr>w_since := 0\<rparr>)
              else write_bytes io payload (w\<lparr>w_since := 0\<rparr>))
           else write_bytes io payload (w\<lparr>w_since := since\<rparr>))"

fun write_logs :: "(write_io \<times> string) list \<Rightarrow> writer \<Rightarrow> writer" where
  "write_logs [] w = w"
| "write_logs ((io, payload) # calls) w = write_logs calls (snd (write_log io payload w))"

text \<open>
  Several writers may be open on the log of a task at the same time: the one of the executor or of the
  supervisor, and those of the service, which appends single lines (\<open>append_lifecycle\<close>). They share
  the file and the receipt; the size they assume and whether they have stopped are their own.
  \<open>lf_written\<close> records the payloads in the order of the calls, with the writer.
\<close>

record log_file =
  lf_archive :: archive
  lf_writers :: "(nat, writer) dict"
  lf_written :: "(nat \<times> string) list"

definition new_log :: log_file where
  "new_log = \<lparr>lf_archive = \<lparr>ar_log = None, ar_receipt = No_receipt\<rparr>, lf_writers = [], lf_written = []\<rparr>"

definition open_log :: "nat \<Rightarrow> int \<Rightarrow> int \<Rightarrow> receipt_io \<Rightarrow> log_file \<Rightarrow> log_file result" where
  "open_log i max_bytes keep_free_bytes io lf =
     bindR (new_writer max_bytes keep_free_bytes io (lf_archive lf)) (\<lambda>w.
       Inr (lf\<lparr>lf_archive := w_archive w, lf_writers := dict_set i w (lf_writers lf)\<rparr>))"

definition log_write :: "nat \<Rightarrow> write_io \<Rightarrow> string \<Rightarrow> log_file \<Rightarrow> log_file" where
  "log_write i io payload lf =
     (case map_of (lf_writers lf) i of
        None \<Rightarrow> lf
      | Some w \<Rightarrow>
          let w' = snd (write_log io payload (w\<lparr>w_archive := lf_archive lf\<rparr>))
          in lf\<lparr>lf_archive := w_archive w', lf_writers := dict_set i w' (lf_writers lf), lf_written := lf_written lf @ [(i, payload)]\<rparr>)"

definition close_writer :: "nat \<Rightarrow> log_file \<Rightarrow> log_file" where
  "close_writer i lf = lf\<lparr>lf_writers := dict_pop i (lf_writers lf)\<rparr>"

text \<open>
  A step of the writer \<open>i\<close>. \<open>answers io ar\<close> says that the system may end a rewrite of the receipt with
  \<open>io\<close> while the log is \<open>ar\<close>.
\<close>

inductive log_step :: "(receipt_io \<Rightarrow> archive \<Rightarrow> bool) \<Rightarrow> nat \<Rightarrow> log_file \<Rightarrow> log_file \<Rightarrow> bool" for answers i where
  opens: "\<not> dict_has i (lf_writers lf) \<Longrightarrow> answers io (lf_archive lf) \<Longrightarrow> open_log i max_bytes keep io lf = Inr lf' \<Longrightarrow>
    log_step answers i lf lf'"
| writes: "answers (io_limit io) (lf_archive lf) \<Longrightarrow> answers (io_error io) (lf_archive lf) \<Longrightarrow>
    log_step answers i lf (log_write i io payload lf)"
| closes: "log_step answers i lf (close_writer i lf)"

definition log_runs :: "(receipt_io \<Rightarrow> archive \<Rightarrow> bool) \<Rightarrow> log_file \<Rightarrow> bool" where
  "log_runs answers lf \<longleftrightarrow> (\<lambda>a b. \<exists>i. log_step answers i a b)\<^sup>*\<^sup>* new_log lf"

section \<open>The size of a log\<close>

definition writer_ok :: "writer \<Rightarrow> bool" where
  "writer_ok w \<longleftrightarrow> w_size w = int (length (log_bytes (w_archive w))) \<and>
     (w_max w = 0 \<or> int (length OUTPUT_LIMIT_MARKER) < w_max w)"

lemma raw_writes_prefix:
  "raw_writes outcomes view = (stored, ok) \<Longrightarrow> (\<exists>rest. view = stored @ rest) \<and> (ok \<longrightarrow> stored = view)"
proof (induction outcomes view arbitrary: stored ok rule: raw_writes.induct)
  case (4 n outcomes v va)
  then show ?case
    by (auto split: if_splits prod.splits) (metis append.assoc append_take_drop_id)+
qed auto

lemma append_bytes_spec:
  assumes "append_bytes outcomes io payload w = (ok, w')"
  shows "\<exists>stored rest. payload = stored @ rest \<and> (ok \<longrightarrow> rest = []) \<and>
    log_bytes (w_archive w') = log_bytes (w_archive w) @ stored \<and> w_size w' = w_size w + int (length stored) \<and>
    w_max w' = w_max w \<and> w_keep_free w' = w_keep_free w \<and>
    (ok \<longrightarrow> w_stopped w' = w_stopped w \<and> ar_receipt (w_archive w') = ar_receipt (w_archive w)) \<and>
    (\<not> ok \<longrightarrow> w_stopped w' \<and> ar_receipt (w_archive w') = ar_receipt (w_archive (mark_incomplete ''write_error'' io w)))"
proof -
  obtain stored ok' where r: "raw_writes outcomes payload = (stored, ok')" by fastforce
  from raw_writes_prefix[OF r] obtain rest where "payload = stored @ rest" "ok' \<longrightarrow> rest = []" by auto
  with r assms show ?thesis
    by (auto simp: append_bytes_def Let_def mark_incomplete_def log_bytes_def split: receipt_io.splits)
qed

text \<open>The invariant of a writer whose log left room for the marker when it was opened.\<close>

definition bounded :: "writer \<Rightarrow> bool" where
  "bounded w \<longleftrightarrow> w_max w \<noteq> 0 \<longrightarrow> w_size w \<le> w_max w \<and>
     (w_stopped w \<or> w_size w \<le> w_max w - int (length OUTPUT_LIMIT_MARKER))"

lemma mark_incomplete_simps [simp]:
  "w_max (mark_incomplete r io w) = w_max w" "w_size (mark_incomplete r io w) = w_size w"
  "w_stopped (mark_incomplete r io w)" "w_keep_free (mark_incomplete r io w) = w_keep_free w"
  "ar_log (w_archive (mark_incomplete r io w)) = ar_log (w_archive w)"
  "log_bytes (w_archive (mark_incomplete r io w)) = log_bytes (w_archive w)"
  by (simp_all add: mark_incomplete_def log_bytes_def split: receipt_io.split)

lemma append_bounded:
  assumes "append_bytes outcomes io payload w = (ok, w')" and "writer_ok w"
    and "w_max w \<noteq> 0 \<Longrightarrow> w_size w + int (length payload) \<le> w_max w"
    and "w_stopped w \<or> (w_max w \<noteq> 0 \<longrightarrow> w_size w + int (length payload) \<le> w_max w - int (length OUTPUT_LIMIT_MARKER))"
  shows "writer_ok w' \<and> bounded w' \<and> w_max w' = w_max w \<and> (ok \<longrightarrow> w_size w' = w_size w + int (length payload))"
  using append_bytes_spec[OF assms(1)] assms(2-4) by (auto simp: writer_ok_def bounded_def)

lemma write_last_bounded:
  assumes ok: "writer_ok w" and "w_max w \<noteq> 0" and size: "w_size w \<le> w_max w - int (length OUTPUT_LIMIT_MARKER)"
  shows "writer_ok (write_last io payload w) \<and> bounded (write_last io payload w) \<and> w_max (write_last io payload w) = w_max w"
proof -
  let ?m = "mark_incomplete ''file_limit'' (io_limit io) w"
  define rem where "rem = max (w_max w - int (length OUTPUT_LIMIT_MARKER) - w_size w) 0"
  have m: "writer_ok ?m" "bounded ?m" using ok size by (auto simp: writer_ok_def bounded_def)
  obtain k u where u: "(if rem \<noteq> 0 then append_bytes (io_payload io) (io_error io) (take (nat rem) payload) ?m
      else (True, ?m)) = (k, u)" by fastforce
  obtain k2 u2 where u2: "append_bytes (io_marker io) (io_error io) OUTPUT_LIMIT_MARKER u = (k2, u2)" by fastforce
  have U: "writer_ok u \<and> bounded u \<and> w_max u = w_max w \<and> (k \<longrightarrow> w_size u \<le> w_max w - int (length OUTPUT_LIMIT_MARKER)) \<and> w_stopped u"
  proof (cases "rem = 0")
    case True
    with u m size show ?thesis by auto
  next
    case False
    with u have a: "append_bytes (io_payload io) (io_error io) (take (nat rem) payload) ?m = (k, u)" by simp
    have "int (length (take (nat rem) payload)) \<le> rem" by (cases "length payload \<le> nat rem") (auto simp: rem_def)
    with append_bounded[OF a m(1)] append_bytes_spec[OF a] size show ?thesis by (auto simp: rem_def)
  qed
  have r: "write_last io payload w = (if \<not> k then u else u2\<lparr>w_stopped := True\<rparr>)"
    using u u2 by (simp add: write_last_def Let_def rem_def[symmetric])
  show ?thesis
  proof (cases k)
    case True
    with U have "writer_ok u2 \<and> bounded u2 \<and> w_max u2 = w_max u" using append_bounded[OF u2] by auto
    with True U r show ?thesis by (auto simp: writer_ok_def bounded_def)
  qed (use U r in simp)
qed

lemma write_bytes_bounded:
  assumes "writer_ok w" and "bounded w" and "\<not> w_stopped w"
  shows "writer_ok (write_bytes io payload w) \<and> bounded (write_bytes io payload w) \<and> w_max (write_bytes io payload w) = w_max w"
proof (cases "w_max w = 0 \<or> w_size w + int (length payload) \<le> w_max w - int (length OUTPUT_LIMIT_MARKER)")
  case True
  obtain k u where u: "append_bytes (io_payload io) (io_error io) payload w = (k, u)" by fastforce
  from append_bounded[OF u assms(1)] True show ?thesis by (auto simp: write_bytes_def u)
next
  case False
  with assms write_last_bounded[OF assms(1), of io payload] show ?thesis by (auto simp: write_bytes_def bounded_def)
qed

lemma write_log_bounded:
  assumes "writer_ok w" and "bounded w"
  shows "writer_ok (snd (write_log io payload w)) \<and> bounded (snd (write_log io payload w)) \<and>
    w_max (snd (write_log io payload w)) = w_max w"
proof (cases "payload = [] \<or> w_stopped w")
  case True
  with assms show ?thesis by (auto simp: write_log_def)
next
  case False
  have v: "writer_ok (w\<lparr>w_since := n\<rparr>)" "bounded (w\<lparr>w_since := n\<rparr>)" "\<not> w_stopped (w\<lparr>w_since := n\<rparr>)" for n
    using assms False by (simp_all add: writer_ok_def bounded_def)
  have "writer_ok (mark_incomplete r io' (w\<lparr>w_since := n\<rparr>)) \<and> bounded (mark_incomplete r io' (w\<lparr>w_since := n\<rparr>))" for r io' n
    using v[of n] by (simp add: writer_ok_def bounded_def)
  with False write_bytes_bounded[OF v] show ?thesis by (simp add: write_log_def Let_def)
qed

lemma write_logs_bounded: "writer_ok w \<Longrightarrow> bounded w \<Longrightarrow>
    writer_ok (write_logs calls w) \<and> bounded (write_logs calls w) \<and> w_max (write_logs calls w) = w_max w"
proof (induction calls arbitrary: w)
  case (Cons c calls)
  obtain io payload where "c = (io, payload)" by (cases c)
  with Cons write_log_bounded[OF Cons.prems, of io payload] show ?case by simp
qed simp


text \<open>
  The limit is not strict for a log that was opened too close to it. When the file already
  reaches into the room of the marker (it was written under a larger limit), the first write
  appends the whole marker and leaves the file larger than the limit.
\<close>

theorem marker_exceeds_limit:
  assumes "new_writer m k Rewritten ar = Inr w" and "m \<noteq> 0"
    and "m < int (length (log_bytes ar)) + int (length OUTPUT_LIMIT_MARKER)" and "int (length (log_bytes ar)) < m"
    and "\<not> w_stopped w" and "payload \<noteq> []" and "k \<le> 0"
  shows "m < int (length (log_bytes (w_archive (snd (write_log
    \<lparr>io_free = 0, io_payload = [], io_marker = [], io_limit = Rewritten, io_error = Rewritten\<rparr> payload w)))))"
proof -
  have raw: "raw_writes [] xs = (xs, True)" for xs by (cases xs) simp_all
  have w: "w_size w = int (length (log_bytes ar))" "w_max w = m" "w_keep_free w = 0"
    "log_bytes (w_archive w) = log_bytes ar"
    using assms by (auto simp: new_writer_def Let_def open_archive_def log_bytes_def split: if_splits)
  have "0 < length payload" using assms(6) by simp
  then have "\<not> w_size w + int (length payload) \<le> w_max w - int (length OUTPUT_LIMIT_MARKER)"
    using assms(3) w by linarith
  then show ?thesis
    using assms w by (simp add: write_log_def Let_def write_bytes_def write_last_def append_bytes_def raw max_def
      log_bytes_def mark_incomplete_def)
qed

section \<open>The receipt tells the truth\<close>

definition claims_complete :: "archive \<Rightarrow> bool" where
  "claims_complete ar \<longleftrightarrow> jget ''complete'' (output_integrity ar) JNull = JBool True"

definition COMPLETE :: receipt where
  "COMPLETE = Receipt (JObj (integrity (JBool True) JNull))"

definition LEGACY :: receipt where
  "LEGACY = Receipt (JObj (integrity JNull (JStr ''legacy_unverified'')))"

definition incomplete :: "receipt \<Rightarrow> bool" where
  "incomplete r \<longleftrightarrow> (\<exists>reason. r = Receipt (JObj (integrity (JBool False) (JStr reason))))"

text \<open>
  The rewrite of a receipt is stored, or the receipt is removed while the log holds something; a
  removed receipt of an empty log is written anew as complete by the next writer, and one that can
  neither be rewritten nor removed keeps its claim.
\<close>

definition receipt_kept :: "receipt_io \<Rightarrow> archive \<Rightarrow> bool" where
  "receipt_kept io ar \<longleftrightarrow> io = Rewritten \<or> io = Removed \<and> log_bytes ar \<noteq> []"

text \<open>A log that will never again be called complete.\<close>

definition doomed :: "archive \<Rightarrow> bool" where
  "doomed ar \<longleftrightarrow> ar_log ar \<noteq> None
     \<and> (incomplete (ar_receipt ar) \<or> (ar_receipt ar = No_receipt \<or> ar_receipt ar = LEGACY) \<and> log_bytes ar \<noteq> [])"

definition settled :: "archive \<Rightarrow> string \<Rightarrow> bool" where
  "settled ar given \<longleftrightarrow> doomed ar \<or> ar_log ar \<noteq> None \<and> ar_receipt ar = COMPLETE \<and> log_bytes ar = given"

definition log_ok :: "log_file \<Rightarrow> bool" where
  "log_ok lf \<longleftrightarrow>
     settled (lf_archive lf) (concat (map snd (lf_written lf)))
       \<and> (\<forall>(i, w) \<in> set (lf_writers lf). w_stopped w \<longrightarrow> doomed (lf_archive lf))
     \<or> lf = new_log"

lemma doomed_not_complete: "doomed ar \<Longrightarrow> \<not> claims_complete ar"
  by (auto simp: doomed_def claims_complete_def output_integrity_def incomplete_def LEGACY_def integrity_def jget_def
      split: if_splits)

lemma settled_complete: "settled ar given \<Longrightarrow> claims_complete ar \<Longrightarrow> log_bytes ar = given"
  using doomed_not_complete by (auto simp: settled_def)

lemma doomed_grows:
  "doomed ar \<Longrightarrow> ar_receipt ar' = ar_receipt ar \<Longrightarrow> ar_log ar' = Some (log_bytes ar @ s) \<Longrightarrow> doomed ar'"
  by (auto simp: doomed_def log_bytes_def)

lemma mark_doomed:
  assumes "receipt_kept io ar" and "ar_log (w_archive w) = Some (log_bytes ar @ s)"
  shows "doomed (w_archive (mark_incomplete reason io w))"
  using assms by (auto simp: receipt_kept_def mark_incomplete_def doomed_def incomplete_def log_bytes_def split: option.splits)

lemma append_settled:
  assumes "append_bytes outcomes io payload w = (ok, w')" and "receipt_kept io ar"
    and "ar_log (w_archive w) = Some (log_bytes ar @ s)" and "settled (w_archive w) given"
  shows "settled (w_archive w') (given @ payload)" and "\<not> ok \<Longrightarrow> doomed (w_archive w')"
    and "ok \<Longrightarrow> w_stopped w' = w_stopped w" and "doomed (w_archive w) \<Longrightarrow> doomed (w_archive w')"
    and "\<exists>s'. ar_log (w_archive w') = Some (log_bytes ar @ s')"
proof -
  obtain stored ok' where r: "raw_writes outcomes payload = (stored, ok')" by fastforce
  let ?w = "w\<lparr>w_size := w_size w + int (length stored), w_archive := (w_archive w)\<lparr>ar_log := Some (log_bytes (w_archive w) @ stored)\<rparr>\<rparr>"
  have w': "ok = ok'" "w' = (if ok then ?w else mark_incomplete ''write_error'' io ?w)"
    using assms(1) r by (auto simp: append_bytes_def Let_def)
  have bytes: "ar_log (w_archive ?w) = Some (log_bytes ar @ s @ stored)" using assms(3) by (simp add: log_bytes_def)
  have bad: "doomed (w_archive w')" if "\<not> ok"
    using mark_doomed[OF assms(2) bytes] that w'(2) by simp
  have keeps: "doomed (w_archive ?w)" if "doomed (w_archive w)" using doomed_grows[OF that] by simp
  have "settled (w_archive ?w) (given @ payload)" if ok
  proof -
    have "stored = payload" using raw_writes_prefix[OF r] that w'(1) by simp
    with assms(4) keeps show ?thesis by (auto simp: settled_def log_bytes_def)
  qed
  then show "settled (w_archive w') (given @ payload)" using bad w'(2) by (auto simp: settled_def)
  show "\<not> ok \<Longrightarrow> doomed (w_archive w')" by (rule bad)
  show "ok \<Longrightarrow> w_stopped w' = w_stopped w" using w'(2) by simp
  show "doomed (w_archive w) \<Longrightarrow> doomed (w_archive w')" using keeps bad w'(2) by (cases ok) auto
  show "\<exists>s'. ar_log (w_archive w') = Some (log_bytes ar @ s')" using bytes w'(2) by auto
qed

lemma write_last_doomed:
  assumes "receipt_kept (io_limit io) ar" and "receipt_kept (io_error io) ar" and "ar_log (w_archive w) = Some (log_bytes ar)"
  shows "doomed (w_archive (write_last io payload w))"
proof -
  let ?m = "mark_incomplete ''file_limit'' (io_limit io) w"
  have m: "doomed (w_archive ?m)" using mark_doomed[OF assms(1), of w "[]"] assms(3) by simp
  have step: "doomed (w_archive u') \<and> (\<exists>s'. ar_log (w_archive u') = Some (log_bytes ar @ s'))"
    if "append_bytes outs (io_error io) xs u = (ok, u')" "doomed (w_archive u)" "ar_log (w_archive u) = Some (log_bytes ar @ s)"
    for outs xs u ok u' s
    using append_settled(4,5)[OF that(1) assms(2) that(3), of "[]"] that(2) by (simp add: settled_def)
  define rem where "rem = max (w_max w - int (length OUTPUT_LIMIT_MARKER) - w_size w) 0"
  obtain k u where u: "(if rem \<noteq> 0 then append_bytes (io_payload io) (io_error io) (take (nat rem) payload) ?m
      else (True, ?m)) = (k, u)" by fastforce
  obtain s where U: "doomed (w_archive u)" "ar_log (w_archive u) = Some (log_bytes ar @ s)"
    using u m step[of "io_payload io" "take (nat rem) payload" ?m k u "[]"] assms(3) by (cases "rem = 0") auto
  obtain k2 u2 where u2: "append_bytes (io_marker io) (io_error io) OUTPUT_LIMIT_MARKER u = (k2, u2)" by fastforce
  have "write_last io payload w = (if \<not> k then u else u2\<lparr>w_stopped := True\<rparr>)"
    using u u2 by (simp add: write_last_def Let_def rem_def[symmetric])
  then show ?thesis using U(1) step[OF u2 U] by simp
qed

text \<open>One call of \<open>write\<close> on a log that other writers share.\<close>

lemma write_log_settled:
  assumes "settled ar given" and "w_archive w = ar" and "w_stopped w \<longrightarrow> doomed ar"
    and "receipt_kept (io_limit io) ar" and "receipt_kept (io_error io) ar"
  shows "settled (w_archive (snd (write_log io payload w))) (given @ payload)"
    and "w_stopped (snd (write_log io payload w)) \<Longrightarrow> doomed (w_archive (snd (write_log io payload w)))"
    and "doomed ar \<Longrightarrow> doomed (w_archive (snd (write_log io payload w)))"
proof -
  let ?w' = "snd (write_log io payload w)"
  have l: "ar_log ar = Some (log_bytes ar)" using assms(1) by (auto simp: settled_def doomed_def log_bytes_def)
  have "settled (w_archive ?w') (given @ payload) \<and> (w_stopped ?w' \<longrightarrow> doomed (w_archive ?w')) \<and> (doomed ar \<longrightarrow> doomed (w_archive ?w'))"
  proof (cases "payload = [] \<or> w_stopped w")
    case True
    with assms(1-3) show ?thesis by (auto simp: write_log_def settled_def)
  next
    case False
    have marked: "doomed (w_archive (mark_incomplete r (io_limit io) (w\<lparr>w_since := n\<rparr>)))" for r n
      using mark_doomed[OF assms(4), of "w\<lparr>w_since := n\<rparr>" "[]"] l assms(2) by simp
    have "settled (w_archive v) (given @ payload) \<and> (w_stopped v \<longrightarrow> doomed (w_archive v)) \<and> (doomed ar \<longrightarrow> doomed (w_archive v))"
      if v: "v = write_bytes io payload (w\<lparr>w_since := n\<rparr>)" for v n
    proof -
      obtain ok u where u: "append_bytes (io_payload io) (io_error io) payload (w\<lparr>w_since := n\<rparr>) = (ok, u)" by fastforce
      have "settled (w_archive u) (given @ payload) \<and> (w_stopped u \<longrightarrow> doomed (w_archive u)) \<and> (doomed ar \<longrightarrow> doomed (w_archive u))"
        using append_settled[OF u assms(5), of "[]" given] assms(1,2) l False by (cases ok) auto
      moreover have "doomed (w_archive (write_last io payload (w\<lparr>w_since := n\<rparr>)))"
        using assms(2) l by (intro write_last_doomed[OF assms(4,5)]) simp
      ultimately show ?thesis using u by (auto simp: v write_bytes_def settled_def)
    qed
    note written = this[OF refl]
    show ?thesis using False marked written by (simp add: write_log_def Let_def settled_def)
  qed
  then show "settled (w_archive ?w') (given @ payload)" "w_stopped ?w' \<Longrightarrow> doomed (w_archive ?w')" "doomed ar \<Longrightarrow> doomed (w_archive ?w')"
    by blast+
qed

lemma new_writer_settled:
  assumes "settled ar given \<or> ar = lf_archive new_log \<and> given = []" and "receipt_kept io ar" and "new_writer m k io ar = Inr w"
  shows "settled (w_archive w) given" and "w_stopped w \<Longrightarrow> doomed (w_archive w)" and "doomed ar \<Longrightarrow> doomed (w_archive w)"
proof -
  let ?o = "open_archive ar"
  have o: "ar_log ?o = Some (log_bytes ar)" "log_bytes ?o = log_bytes ar" by (simp_all add: open_archive_def log_bytes_def Let_def)
  have kind: "doomed ar \<and> doomed ?o \<or> ar_receipt ?o = COMPLETE \<and> log_bytes ar = given"
    using assms(1) o
    by (auto simp: settled_def doomed_def new_log_def open_archive_def log_bytes_def COMPLETE_def LEGACY_def incomplete_def Let_def)
  have so: "settled ?o given" using kind o by (auto simp: settled_def)
  have live: "jget ''reason'' (output_integrity ?o) JNull \<notin> set STOP_REASONS" if "ar_receipt ?o = COMPLETE"
    using that o(1) by (auto simp: output_integrity_def COMPLETE_def integrity_def jget_def STOP_REASONS_def)
  have keep: "doomed ?o" if "doomed ar" using that kind
    by (auto simp: doomed_def COMPLETE_def LEGACY_def incomplete_def integrity_def open_archive_def Let_def split: if_splits)
  consider (full) r u where "w = mark_incomplete r io u" "w_archive u = ?o" | (room) "w_archive w = ?o"
      "w_stopped w \<longleftrightarrow> jget ''reason'' (output_integrity ?o) JNull \<in> set STOP_REASONS"
    using assms(3) by (auto simp: new_writer_def Let_def split: if_splits)
  then have "settled (w_archive w) given \<and> (w_stopped w \<longrightarrow> doomed (w_archive w)) \<and> (doomed ar \<longrightarrow> doomed (w_archive w))"
  proof cases
    case full
    then have "doomed (w_archive w)" using mark_doomed[OF assms(2), of u "[]" r] o(1) by simp
    then show ?thesis by (simp add: settled_def)
  next
    case room
    with so live kind keep show ?thesis by auto
  qed
  then show "settled (w_archive w) given" "w_stopped w \<Longrightarrow> doomed (w_archive w)" "doomed ar \<Longrightarrow> doomed (w_archive w)" by blast+
qed

lemma dict_set_shape: "x \<in> set (dict_set k v d) \<Longrightarrow> x = (k, v) \<or> x \<in> set d"
  by (induction k v d rule: dict_set.induct) (auto split: if_splits)

lemma open_log_ok:
  assumes "log_ok lf" and "receipt_kept io (lf_archive lf)" and "open_log i m k io lf = Inr lf'"
  shows "log_ok lf'"
proof -
  obtain w where w: "new_writer m k io (lf_archive lf) = Inr w"
    and lf': "lf' = lf\<lparr>lf_archive := w_archive w, lf_writers := dict_set i w (lf_writers lf)\<rparr>"
    using assms(3) by (auto simp: open_log_def bindR_Inr_iff)
  have "settled (lf_archive lf) (concat (map snd (lf_written lf))) \<or> lf_archive lf = lf_archive new_log \<and> concat (map snd (lf_written lf)) = []"
    using assms(1) by (auto simp: log_ok_def new_log_def)
  note new = new_writer_settled[OF this assms(2) w]
  have "doomed (lf_archive lf)" if "(j, v) \<in> set (lf_writers lf)" "w_stopped v" for j v
    using assms(1) that by (auto simp: log_ok_def new_log_def)
  with new show ?thesis by (auto simp: log_ok_def lf' dest!: dict_set_shape)
qed

lemma log_write_ok:
  assumes "log_ok lf" and "receipt_kept (io_limit io) (lf_archive lf)" and "receipt_kept (io_error io) (lf_archive lf)"
  shows "log_ok (log_write i io payload lf)"
proof (cases "map_of (lf_writers lf) i")
  case None
  with assms(1) show ?thesis by (simp add: log_write_def)
next
  case (Some w)
  then have here: "(i, w) \<in> set (lf_writers lf)" by (rule map_of_SomeD)
  then have ok: "settled (lf_archive lf) (concat (map snd (lf_written lf)))"
    "\<forall>(j, v) \<in> set (lf_writers lf). w_stopped v \<longrightarrow> doomed (lf_archive lf)"
    using assms(1) by (auto simp: log_ok_def new_log_def)
  let ?w = "w\<lparr>w_archive := lf_archive lf\<rparr>"
  have "w_archive ?w = lf_archive lf" "w_stopped ?w \<longrightarrow> doomed (lf_archive lf)" using ok(2) here by auto
  note written = write_log_settled[OF ok(1) this assms(2,3), of payload]
  from written ok(2) Some show ?thesis
    by (auto simp: log_ok_def log_write_def Let_def dest!: dict_set_shape)
qed

lemma log_step_ok:
  assumes "log_step receipt_kept i lf lf'" and "log_ok lf"
  shows "log_ok lf'"
  using assms
proof cases
  case (opens io max_bytes keep)
  then show ?thesis using open_log_ok assms(2) by blast
next
  case (writes io payload)
  then show ?thesis using log_write_ok assms(2) by blast
next
  case closes
  with assms(2) show ?thesis by (auto simp: log_ok_def close_writer_def new_log_def dict_pop_def)
qed

lemma log_runs_ok: "log_runs receipt_kept lf \<Longrightarrow> log_ok lf"
  unfolding log_runs_def by (induction rule: rtranclp_induct) (auto simp: log_ok_def[of new_log] intro: log_step_ok)

lemma log_ok_complete:
  assumes "log_ok lf" and "claims_complete (lf_archive lf)"
  shows "log_bytes (lf_archive lf) = concat (map snd (lf_written lf))"
  using assms settled_complete by (auto simp: log_ok_def new_log_def log_bytes_def)

text \<open>
  C36. A receipt that says a log is complete is true, as long as receipts can be marked. Several
  writers are open on the log of a task, at the same time or one after the other, and their calls take
  turns, with whatever limits, disk reserve, partial and failing writes. If every rewrite of a receipt is stored, or the receipt is
  removed while the log holds something, then a log whose receipt claims it complete holds exactly
  the bytes that were given to its writers, in the order of their calls.
\<close>

theorem complete_receipt_is_true:
  assumes "log_runs receipt_kept lf" and "claims_complete (lf_archive lf)"
  shows "log_bytes (lf_archive lf) = concat (map snd (lf_written lf))"
  by (rule log_ok_complete[OF log_runs_ok[OF assms(1)] assms(2)])

section \<open>Reading\<close>

text \<open>\<open>read_log\<close> of the service: the bytes from an offset, and where the next read goes on.\<close>

definition read_log :: "archive \<Rightarrow> int \<Rightarrow> int \<Rightarrow> string \<times> int" where
  "read_log ar offset limit =
     (case ar_log ar of
        None \<Rightarrow> ([], offset)
      | Some content \<Rightarrow>
          let start = max offset 0;
              chunk = take (nat (min (max limit 1) 1048576)) (drop (nat start) content)
          in (chunk, start + int (length chunk)))"

text \<open>A reader that starts at 0 and follows the returned offsets; \<open>fuel\<close> bounds the number of reads.\<close>

fun follow_log :: "nat \<Rightarrow> archive \<Rightarrow> int \<Rightarrow> int \<Rightarrow> string option" where
  "follow_log 0 ar offset limit = None"
| "follow_log (Suc fuel) ar offset limit =
     (case read_log ar offset limit of (chunk, next_offset) \<Rightarrow>
        if chunk = [] then Some [] else map_option ((@) chunk) (follow_log fuel ar next_offset limit))"

text \<open>
  Reading a log in pieces loses and repeats nothing: whatever limit is asked for, a reader
  that follows the returned offsets gets the whole content in finitely many reads.
\<close>

theorem read_log_in_pieces:
  assumes "length (log_bytes ar) < fuel"
  shows "follow_log fuel ar 0 limit = Some (log_bytes ar)"
proof (cases "ar_log ar")
  case None
  with assms show ?thesis by (cases fuel) (simp_all add: read_log_def log_bytes_def)
next
  case (Some content)
  have "follow_log fuel ar (int n) limit = Some (drop n content)" if "length content - n < fuel" for n
    using that
  proof (induction fuel arbitrary: n)
    case (Suc fuel)
    define k where "k = nat (min (max limit 1) 1048576)"
    have k: "0 < k" by (simp add: k_def)
    let ?chunk = "take k (drop n content)"
    have r: "read_log ar (int n) limit = (?chunk, int (n + length ?chunk))"
      by (simp add: read_log_def Some Let_def k_def)
    show ?case
    proof (cases "?chunk = []")
      case True
      with k show ?thesis by (simp add: r del: take_eq_Nil drop_eq_Nil) simp
    next
      case False
      then have "n < length content" by auto
      then have "length content - (n + length ?chunk) < fuel" using Suc.prems k by auto
      from Suc.IH[OF this] False show ?thesis
        by (simp add: r del: take_eq_Nil) (metis append_take_drop_id drop_drop add.commute length_take length_drop min.commute take_all_iff nle_le drop_all append_Nil2 min_def)
    qed
  qed simp
  from this[of 0] assms Some show ?thesis by (simp add: log_bytes_def)
qed

section \<open>Terminal windows\<close>

definition newline_count :: "string \<Rightarrow> nat" where
  "newline_count s = length (filter (\<lambda>c. c = NL) s)"

definition tab_count :: "string \<Rightarrow> nat" where
  "tab_count s = length (filter (\<lambda>c. c = CHR 0x09) s)"

definition row_cost :: "nat \<Rightarrow> string \<Rightarrow> nat" where
  "row_cost columns s = newline_count s + (length s + 7 * tab_count s + columns - 1) div columns"

definition continuation_byte :: "char \<Rightarrow> bool" where
  "continuation_byte c \<longleftrightarrow> 128 \<le> (of_char c :: nat) \<and> (of_char c :: nat) < 192"

function largest_fit :: "(nat \<Rightarrow> bool) \<Rightarrow> nat \<Rightarrow> nat \<Rightarrow> nat" where
  "largest_fit fits low high =
     (if low < high then
        let middle = (low + high + 1) div 2
        in if fits middle then largest_fit fits middle high else largest_fit fits low (middle - 1)
      else low)"
  by auto
termination
  by (relation "measure (\<lambda>(f, low, high). high - low)") auto

declare largest_fit.simps [simp del]

text \<open>The two loops that move the edge of a window to the start of a character, at most three bytes.\<close>

fun align_end :: "nat \<Rightarrow> string \<Rightarrow> nat \<Rightarrow> nat" where
  "align_end 0 s p = p"
| "align_end (Suc k) s p =
     (if 0 < p \<and> p < length s \<and> continuation_byte (s ! p) then align_end k s (p - 1) else p)"

fun align_start :: "nat \<Rightarrow> string \<Rightarrow> nat \<Rightarrow> nat" where
  "align_start 0 s q = q"
| "align_start (Suc k) s q =
     (if q < length s \<and> continuation_byte (s ! q) then align_start k s (q + 1) else q)"

definition forward_window :: "nat \<Rightarrow> string \<Rightarrow> nat" where
  "forward_window columns s =
     (let low = largest_fit (\<lambda>n. row_cost columns (take n s) \<le> 4000) 0 (length s);
          p = align_end 3 s low
      in if p = 0 \<or> (p < length s \<and> continuation_byte (s ! p)) then low else p)"

definition backward_window :: "nat \<Rightarrow> string \<Rightarrow> nat" where
  "backward_window columns s =
     (let low = largest_fit (\<lambda>n. row_cost columns (drop (length s - n) s) \<le> 4000) 0 (length s);
          q = align_start 3 s (length s - low)
      in if q = length s \<or> continuation_byte (s ! q) then length s - low else q)"

definition terminal_window ::
    "archive \<Rightarrow> int \<Rightarrow> int \<Rightarrow> int \<Rightarrow> string \<Rightarrow> int option \<Rightarrow> int \<times> int" where
  "terminal_window ar start end_pos columns direction hit =
     (case ar_log ar of
        None \<Rightarrow> (0, 0)
      | Some content \<Rightarrow>
          let columns = nat (min 1000 (max 2 columns));
              stop = min (max 0 end_pos) (int (length content));
              start = min stop (max (max 0 start) (stop - 4 * 1024 * 1024));
              start = (case hit of None \<Rightarrow> start | Some h \<Rightarrow> max start (min stop h - 1024));
              chunk = take (nat (stop - start)) (drop (nat start) content)
          in if direction = ''later'' \<or> direction = ''hit''
             then (start, start + int (forward_window columns chunk))
             else (start + int (backward_window columns chunk), stop))"

lemma largest_fit_spec:
  assumes "fits low" and "low \<le> high" and "\<And>m n. m \<le> n \<Longrightarrow> n \<le> high \<Longrightarrow> fits n \<Longrightarrow> fits m"
  shows "largest_fit fits low high \<le> high \<and> low \<le> largest_fit fits low high \<and> fits (largest_fit fits low high) \<and>
    (\<forall>n. largest_fit fits low high < n \<longrightarrow> n \<le> high \<longrightarrow> \<not> fits n)"
  using assms
proof (induction fits low high rule: largest_fit.induct)
  case (1 fits low high)
  define middle where "middle = (low + high + 1) div 2"
  show ?case
  proof (cases "low < high")
    case False
    with "1.prems"(1,2) show ?thesis by (subst (1 2 3 4) largest_fit.simps) simp
  next
    case True
    have m: "low < middle" "middle \<le> high" using True by (auto simp: middle_def)
    show ?thesis
    proof (cases "fits middle")
      case f: True
      have e: "largest_fit fits low high = largest_fit fits middle high"
        using True f by (subst largest_fit.simps) (simp add: middle_def Let_def)
      have "largest_fit fits middle high \<le> high \<and> middle \<le> largest_fit fits middle high \<and>
          fits (largest_fit fits middle high) \<and> (\<forall>n. largest_fit fits middle high < n \<longrightarrow> n \<le> high \<longrightarrow> \<not> fits n)"
        by (rule "1.IH"(1)[OF True middle_def f f m(2) "1.prems"(3)])
      with e m show ?thesis by auto
    next
      case f: False
      have e: "largest_fit fits low high = largest_fit fits low (middle - 1)"
        using True f by (subst largest_fit.simps) (simp add: middle_def Let_def)
      have "largest_fit fits low (middle - 1) \<le> middle - 1 \<and> low \<le> largest_fit fits low (middle - 1) \<and>
          fits (largest_fit fits low (middle - 1)) \<and> (\<forall>n. largest_fit fits low (middle - 1) < n \<longrightarrow> n \<le> middle - 1 \<longrightarrow> \<not> fits n)"
        using m "1.prems" by (intro "1.IH"(2)[OF True middle_def f]) auto
      moreover have "\<not> fits n" if "middle \<le> n" "n \<le> high" for n using that f "1.prems"(3) by blast
      ultimately show ?thesis using e m by (auto simp: not_le)
    qed
  qed
qed

lemma row_cost_mono:
  assumes "0 < columns"
  shows "row_cost columns s \<le> row_cost columns (a @ s @ b)"
proof -
  have "(length s + 7 * tab_count s + columns - 1) div columns
      \<le> (length (a @ s @ b) + 7 * tab_count (a @ s @ b) + columns - 1) div columns"
    by (rule div_le_mono) (simp add: tab_count_def)
  then show ?thesis by (simp add: row_cost_def newline_count_def)
qed

lemma row_cost_Nil: "0 < columns \<Longrightarrow> row_cost columns [] = 0"
  by (simp add: row_cost_def newline_count_def tab_count_def)

lemma fits_prefix: "0 < columns \<Longrightarrow> m \<le> n \<Longrightarrow> row_cost columns (take n s) \<le> 4000 \<Longrightarrow> row_cost columns (take m s) \<le> 4000"
  using row_cost_mono[of columns "take m s" "[]" "drop m (take n s)"]
  by (metis append_Nil append_take_drop_id min.absorb1 order_trans take_take)

lemma fits_suffix:
  assumes "0 < columns" and "m \<le> n" and "n \<le> length s" and "row_cost columns (drop (length s - n) s) \<le> 4000"
  shows "row_cost columns (drop (length s - m) s) \<le> 4000"
proof -
  have "n - m + (length s - n) = length s - m" using assms(2,3) by simp
  then have "drop (length s - m) s = drop (n - m) (drop (length s - n) s)" by (simp only: drop_drop)
  then have "drop (length s - n) s = take (n - m) (drop (length s - n) s) @ drop (length s - m) s"
    by (simp only: append_take_drop_id)
  then show ?thesis using row_cost_mono[OF assms(1), of "drop (length s - m) s" "take (n - m) (drop (length s - n) s)" "[]"] assms(4)
    by simp
qed

lemma align_bounds: "align_end k s p \<le> p \<and> p \<le> align_end k s p + k" "q \<le> align_start k s q \<and> align_start k s q \<le> q + k"
  "q \<le> length s \<Longrightarrow> align_start k s q \<le> length s"
proof -
  show "align_end k s p \<le> p \<and> p \<le> align_end k s p + k"
  proof (induction k arbitrary: p)
    case (Suc k)
    from Suc[of "p - 1"] show ?case by auto
  qed simp
  show "q \<le> align_start k s q \<and> align_start k s q \<le> q + k"
  proof (induction k arbitrary: q)
    case (Suc k)
    from Suc[of "q + 1"] show ?case by auto
  qed simp
  show "align_start k s q \<le> length s" if "q \<le> length s"
    using that by (induction k arbitrary: q) auto
qed

lemma forward_window_spec:
  assumes "0 < columns"
  shows "forward_window columns s \<le> length s" and "row_cost columns (take (forward_window columns s) s) \<le> 4000"
    and "forward_window columns s + 3 < n \<Longrightarrow> n \<le> length s \<Longrightarrow> 4000 < row_cost columns (take n s)"
proof -
  define low where "low = largest_fit (\<lambda>n. row_cost columns (take n s) \<le> 4000) 0 (length s)"
  have l: "low \<le> length s \<and> 0 \<le> low \<and> row_cost columns (take low s) \<le> 4000 \<and>
      (\<forall>n. low < n \<longrightarrow> n \<le> length s \<longrightarrow> \<not> row_cost columns (take n s) \<le> 4000)"
    unfolding low_def
    by (rule largest_fit_spec) (simp_all add: row_cost_Nil[OF assms] fits_prefix[OF assms])
  have w: "forward_window columns s \<le> low \<and> low \<le> forward_window columns s + 3"
    using align_bounds(1)[of 3 s low] by (simp add: forward_window_def Let_def low_def[symmetric])
  show "forward_window columns s \<le> length s" using l w by linarith
  show "row_cost columns (take (forward_window columns s) s) \<le> 4000" using l w fits_prefix[OF assms] by blast
  show "4000 < row_cost columns (take n s)" if "forward_window columns s + 3 < n" "n \<le> length s"
    using l w that by (meson not_le order_less_le_trans le_less_trans)
qed

lemma backward_window_spec:
  assumes "0 < columns"
  shows "backward_window columns s \<le> length s" and "row_cost columns (drop (backward_window columns s) s) \<le> 4000"
    and "n + 3 < backward_window columns s \<Longrightarrow> 4000 < row_cost columns (drop n s)"
proof -
  let ?fits = "\<lambda>n. row_cost columns (drop (length s - n) s) \<le> 4000"
  define low where "low = largest_fit ?fits 0 (length s)"
  have l: "low \<le> length s \<and> 0 \<le> low \<and> ?fits low \<and> (\<forall>n. low < n \<longrightarrow> n \<le> length s \<longrightarrow> \<not> ?fits n)"
    unfolding low_def
    by (rule largest_fit_spec) (simp_all add: row_cost_Nil[OF assms] fits_suffix[OF assms])
  have w: "length s - low \<le> backward_window columns s \<and> backward_window columns s \<le> length s - low + 3 \<and> backward_window columns s \<le> length s"
    using align_bounds(2)[of "length s - low" 3 s] align_bounds(3)[of "length s - low" s 3]
    by (simp add: backward_window_def Let_def low_def[symmetric])
  show "backward_window columns s \<le> length s" using w by simp
  have "?fits (length s - backward_window columns s)"
    using fits_suffix[OF assms, of "length s - backward_window columns s" low s] l w by linarith
  then show "row_cost columns (drop (backward_window columns s) s) \<le> 4000" using w by simp
  show "4000 < row_cost columns (drop n s)" if n: "n + 3 < backward_window columns s"
  proof -
    have "low < length s - n" "length s - n \<le> length s" using n w l by linarith+
    then have "\<not> ?fits (length s - n)" using l by blast
    then show ?thesis using n w by (simp add: not_le)
  qed
qed

text \<open>
  A terminal window is a part of the log that fits the terminal's row buffer: its bounds lie
  in the file and showing it takes at most 4000 rows. Read forwards it is as large as that allows,
  up to the three bytes by which its end may move back to the start of a character.
\<close>

theorem terminal_window_fits:
  assumes "ar_log ar = Some content" and "terminal_window ar start end_pos columns direction hit = (a, b)"
  shows "0 \<le> a \<and> a \<le> b \<and> b \<le> int (length content) \<and>
    row_cost (nat (min 1000 (max 2 columns))) (take (nat (b - a)) (drop (nat a) content)) \<le> 4000 \<and>
    (direction = ''later'' \<longrightarrow> (\<forall>n. nat (b - a) + 3 < n \<longrightarrow> a + int n \<le> min end_pos (int (length content)) \<longrightarrow>
       4000 < row_cost (nat (min 1000 (max 2 columns))) (take n (drop (nat a) content))))"
proof -
  define c where "c = nat (min 1000 (max 2 columns))"
  define stop where "stop = min (max 0 end_pos) (int (length content))"
  define st where "st = min stop (max (max 0 start) (stop - 4 * 1024 * 1024))"
  define from_pos where "from_pos = (case hit of None \<Rightarrow> st | Some h \<Rightarrow> max st (min stop h - 1024))"
  define chunk where "chunk = take (nat (stop - from_pos)) (drop (nat from_pos) content)"
  have c: "0 < c" by (simp add: c_def)
  have stop: "0 \<le> stop" "stop \<le> int (length content)" by (simp_all add: stop_def)
  then have st: "0 \<le> st" "st \<le> stop" unfolding st_def by linarith+
  have pos: "0 \<le> from_pos" "from_pos \<le> stop" "stop \<le> int (length content)"
    using st stop(2) by (auto simp: from_pos_def max_def split: option.split)
  then have len: "length chunk = nat (stop - from_pos)" by (simp add: chunk_def)
  note F = forward_window_spec[OF c, where s = chunk] and B = backward_window_spec[OF c, where s = chunk]
  have eq: "(a, b) = (if direction = ''later'' \<or> direction = ''hit'' then (from_pos, from_pos + int (forward_window c chunk))
      else (from_pos + int (backward_window c chunk), stop))"
    unfolding assms(2)[symmetric] terminal_window_def chunk_def from_pos_def st_def stop_def c_def Let_def assms(1) by simp
  show ?thesis
  proof (cases "direction = ''later'' \<or> direction = ''hit''")
    case True
    then have ab: "a = from_pos" "b = from_pos + int (forward_window c chunk)"
      using eq by simp_all
    have bounds: "0 \<le> a" "a \<le> b" "b \<le> int (length content)"
      using ab pos F(1) len by linarith+
    have "take (nat (b - a)) (drop (nat a) content) = take (forward_window c chunk) chunk"
      using F(1) len pos ab by (simp add: chunk_def)
    then have "row_cost c (take (nat (b - a)) (drop (nat a) content)) \<le> 4000" using F(2) by simp
    moreover have "4000 < row_cost c (take n (drop (nat a) content))"
      if "nat (b - a) + 3 < n" "a + int n \<le> min end_pos (int (length content))" for n
    proof -
      have n: "n \<le> length chunk" using that(2) ab pos len by (auto simp: stop_def)
      then have "take n (drop (nat a) content) = take n chunk" using len ab by (simp add: chunk_def)
      with F(3)[of n] n that(1) ab show ?thesis by simp
    qed
    ultimately show ?thesis using bounds unfolding c_def[symmetric] by blast
  next
    case False
    then have ab: "a = from_pos + int (backward_window c chunk)" "b = stop"
      using eq by simp_all
    have "nat a = nat from_pos + backward_window c chunk" "nat (b - a) = nat (stop - from_pos) - backward_window c chunk"
      using ab pos by (simp_all add: nat_add_distrib nat_diff_distrib)
    then have "take (nat (b - a)) (drop (nat a) content) = drop (backward_window c chunk) chunk"
      by (simp add: chunk_def drop_take drop_drop add.commute)
    then have "row_cost c (take (nat (b - a)) (drop (nat a) content)) \<le> 4000" using B(2) by simp
    moreover have "0 \<le> a" "a \<le> b" "b \<le> int (length content)"
      using ab pos B(1) len by linarith+
    ultimately show ?thesis using False unfolding c_def[symmetric] by blast
  qed
qed

section \<open>Instances\<close>

definition ex_io :: write_io where
  "ex_io = \<lparr>io_free = 0, io_payload = [], io_marker = [], io_limit = Rewritten, io_error = Rewritten\<rparr>"

definition ex_archive :: "string \<Rightarrow> archive" where
  "ex_archive content = \<lparr>ar_log = Some content, ar_receipt = No_receipt\<rparr>"


theorem marker_exceeds_limit_witness:
  "\<exists>w. new_writer 80 0 Rewritten (ex_archive ''0123456789012345'') = Inr w \<and>
     80 < int (length (log_bytes (w_archive (snd (write_log
       \<lparr>io_free = 0, io_payload = [], io_marker = [], io_limit = Rewritten, io_error = Rewritten\<rparr> ''x'' w)))))"
proof -
  let ?n = "new_writer 80 0 Rewritten (ex_archive ''0123456789012345'')"
  have "(case ?n of Inl err \<Rightarrow> False | Inr w \<Rightarrow> \<not> w_stopped w)" by code_simp
  then obtain w where w: "?n = Inr w" "\<not> w_stopped w" by (cases ?n) auto
  have l: "80 < int (length (log_bytes (ex_archive ''0123456789012345''))) + int (length OUTPUT_LIMIT_MARKER)"
    "int (length (log_bytes (ex_archive ''0123456789012345''))) < 80" by code_simp+
  from marker_exceeds_limit[OF w(1) _ l w(2)] w(1) show ?thesis by auto
qed

definition ex_steps :: log_file where
  "ex_steps =
     (case open_log 1 0 0 Rewritten new_log of
        Inr lf \<Rightarrow> (case open_log 2 100 0 Rewritten (log_write 1 ex_io ''ab'' lf) of
          Inr lf \<Rightarrow> log_write 1 ex_io ''d'' (log_write 2 ex_io ''c'' lf)
        | Inl _ \<Rightarrow> new_log)
      | Inl _ \<Rightarrow> new_log)"

theorem complete_receipt_is_true_witness: "log_bytes (lf_archive ex_steps) = ''abcd''"
proof -
  obtain a where a: "open_log 1 0 0 Rewritten new_log = Inr a"
    by (auto simp: open_log_def new_writer_def Let_def)
  obtain b where b: "open_log 2 100 0 Rewritten (log_write 1 ex_io ''ab'' a) = Inr b"
    by (auto simp: open_log_def new_writer_def Let_def OUTPUT_LIMIT_MARKER_def)
  have io: "receipt_kept (io_limit ex_io) ar" "receipt_kept (io_error ex_io) ar" "receipt_kept Rewritten ar" for ar
    by (simp_all add: receipt_kept_def ex_io_def)
  have runs: "log_runs receipt_kept lf'" if "log_runs receipt_kept lf" "log_step receipt_kept i lf lf'" for i lf lf'
    using that unfolding log_runs_def by (auto intro: rtranclp.rtrancl_into_rtrancl)
  have "log_runs receipt_kept new_log" by (simp add: log_runs_def)
  moreover have "log_step receipt_kept 1 new_log a"
    by (rule log_step.opens[where answers = receipt_kept, OF _ _ a]) (simp_all add: io new_log_def dict_has_def)
  ultimately have "log_runs receipt_kept (log_write 1 ex_io ''ab'' a)"
    using runs log_step.writes[where answers = receipt_kept, OF io(1,2)] by blast
  moreover have "log_step receipt_kept 2 (log_write 1 ex_io ''ab'' a) b"
  proof (rule log_step.opens[where answers = receipt_kept, OF _ io(3) b])
    have "(case open_log 1 0 0 Rewritten new_log of Inr a \<Rightarrow> \<not> dict_has 2 (lf_writers (log_write 1 ex_io ''ab'' a)) | Inl _ \<Rightarrow> False)"
      by code_simp
    then show "\<not> dict_has 2 (lf_writers (log_write 1 ex_io ''ab'' a))" unfolding a by simp
  qed
  ultimately have "log_runs receipt_kept (log_write 1 ex_io ''d'' (log_write 2 ex_io ''c'' b))"
    using runs log_step.writes[where answers = receipt_kept, OF io(1,2)] by blast
  moreover have "ex_steps = log_write 1 ex_io ''d'' (log_write 2 ex_io ''c'' b)" unfolding ex_steps_def a sum.case b ..
  ultimately have "log_runs receipt_kept ex_steps" by simp
  moreover have "claims_complete (lf_archive ex_steps)" by code_simp
  ultimately have "log_bytes (lf_archive ex_steps) = concat (map snd (lf_written ex_steps))" by (rule complete_receipt_is_true)
  also have "map snd (lf_written ex_steps) = [''ab'', ''c'', ''d'']" by code_simp
  finally show ?thesis by simp
qed

text \<open>
  The two cases outside: a receipt that can neither be rewritten nor removed keeps its claim although
  bytes were dropped; one that is removed while the log is still empty is written anew as complete.
\<close>

definition no_space :: "receipt_io \<Rightarrow> write_io" where
  "no_space io = \<lparr>io_free = 0, io_payload = [None], io_marker = [], io_limit = io, io_error = io\<rparr>"

lemma stuck_receipt_stays_complete:
  "case open_log 1 0 0 Rewritten new_log of
     Inr lf \<Rightarrow> (let lf' = log_write 1 (no_space Stuck) ''lost'' lf
                in claims_complete (lf_archive lf') \<and> log_bytes (lf_archive lf') = [])
   | Inl _ \<Rightarrow> False"
  by code_simp

lemma removed_receipt_renewed:
  "case open_log 1 0 0 Rewritten new_log of
     Inr lf \<Rightarrow> (case open_log 2 0 0 Rewritten (log_write 1 (no_space Removed) ''lost'' lf) of
       Inr lf' \<Rightarrow> claims_complete (lf_archive lf') \<and> log_bytes (lf_archive lf') = []
     | Inl _ \<Rightarrow> False)
   | Inl _ \<Rightarrow> False"
  by code_simp

theorem read_log_in_pieces_witness: "follow_log 5 (ex_archive ''abcd'') 0 3 = Some ''abcd''"
  using read_log_in_pieces[of "ex_archive ''abcd''" 5 3] by (simp add: log_bytes_def ex_archive_def)

theorem terminal_window_fits_witness:
  "\<exists>a b. terminal_window (ex_archive ''abc'') 0 3 80 ''later'' None = (a, b) \<and> 0 \<le> a \<and> a \<le> b \<and> b \<le> 3"
proof -
  obtain a b where w: "terminal_window (ex_archive ''abc'') 0 3 80 ''later'' None = (a, b)" by fastforce
  have "ar_log (ex_archive ''abc'') = Some ''abc''" by (simp add: ex_archive_def)
  from terminal_window_fits[OF this w] w show ?thesis by auto
qed

end
