(* ===== verification/LF_Auth.thy ===== *)
theory LF_Auth
  imports LF_Prelude
begin

text \<open>
  Authentication, \<^verbatim>\<open>src/src/localflow/auth.py\<close>, and the gates of the HTTP interface that
  use it (\<open>require_admin\<close>, \<open>require_submitter\<close>, \<open>can_read\<close> and the cookie domain in
  \<^verbatim>\<open>src/src/localflow/api.py\<close>).

  \<open>hmac\<close> and \<open>sha256\<close> (\<open>sha_hex\<close> here) of the standard library are parameters that return hexadecimal digests;
  random tokens and the readings of the clock are arguments. An HTTP error is a value of
  \<open>http\<close>, any other exception an \<open>error\<close>.
\<close>

section \<open>Requests and state\<close>

record request =
  rq_method :: string
  rq_scheme :: string
  rq_hostname :: "string option"
  rq_path :: string
  rq_query :: string
  rq_headers :: "(string, string) dict"
  rq_cookies :: "(string, string) dict"
  rq_body :: string

definition header :: "string \<Rightarrow> request \<Rightarrow> string" where
  "header name rq = (case map_of (rq_headers rq) name of Some v \<Rightarrow> v | None \<Rightarrow> [])"

definition session_cookie :: "request \<Rightarrow> string" where
  "session_cookie rq = (case map_of (rq_cookies rq) ''localflow_session'' of Some v \<Rightarrow> v | None \<Rightarrow> [])"

record auth =
  au_admin_key :: string
  au_api_key :: string
  au_nonces :: "(string, real \<times> int) dict"
  au_generation :: int
  au_previous :: "(int, string \<times> real) dict"

type_synonym digest = "string \<Rightarrow> string \<Rightarrow> string"

text \<open>\<open>hmac.compare_digest\<close> on two strings: it refuses text that is not ASCII.\<close>

definition ascii :: "string \<Rightarrow> bool" where
  "ascii s \<longleftrightarrow> list_all (\<lambda>c. (of_char c :: nat) < 128) s"

definition compare_digest :: "string \<Rightarrow> string \<Rightarrow> bool result" where
  "compare_digest a b =
     (if ascii a \<and> ascii b then Inr (a = b)
      else Inl (TypeError ''comparing strings with non-ASCII characters is not supported''))"

section \<open>Administrator sessions\<close>

definition admin_signature :: "digest \<Rightarrow> string \<Rightarrow> string \<Rightarrow> auth \<Rightarrow> string" where
  "admin_signature hmac purpose val a =
     hmac (utf8 (strip (au_admin_key a))) (utf8 (''localflow-web-'' @ purpose @ [NUL] @ val))"

definition csrf_token :: "digest \<Rightarrow> string \<Rightarrow> auth \<Rightarrow> string" where
  "csrf_token hmac token a = admin_signature hmac ''csrf'' token a"

definition create_admin_session :: "digest \<Rightarrow> string \<Rightarrow> auth \<Rightarrow> string \<times> string" where
  "create_admin_session hmac nonce a =
     (let token = ''v1.'' @ nonce @ ''.'' @ admin_signature hmac ''session'' nonce a
      in (token, csrf_token hmac token a))"

datatype http = Http nat string | Http_detail nat jdict | Raised error

definition exchange_admin :: "digest \<Rightarrow> string \<Rightarrow> string \<Rightarrow> auth \<Rightarrow> http + string \<times> string" where
  "exchange_admin hmac nonce key a =
     (case compare_digest key (strip (au_admin_key a)) of
        Inl err \<Rightarrow> Inl (Raised err)
      | Inr False \<Rightarrow> Inl (Http 401 ''invalid administrator key'')
      | Inr True \<Rightarrow> Inr (create_admin_session hmac nonce a))"

text \<open>\<open>str.split\<close> with a limit of two cuts.\<close>

definition split_three :: "string \<Rightarrow> (string \<times> string \<times> string) option" where
  "split_three s =
     (case split_first ''.'' s of
        None \<Rightarrow> None
      | Some (a, rest) \<Rightarrow>
          (case split_first ''.'' rest of None \<Rightarrow> None | Some (b, c) \<Rightarrow> Some (a, b, c)))"

definition session :: "digest \<Rightarrow> string \<Rightarrow> auth \<Rightarrow> bool result" where
  "session hmac token a =
     (case split_three token of
        None \<Rightarrow> Inr False
      | Some (version, nonce, supplied) \<Rightarrow>
          if version \<noteq> ''v1'' \<or> nonce = [] \<or> supplied = [] then Inr False
          else compare_digest supplied (admin_signature hmac ''session'' nonce a))"

definition is_admin :: "digest \<Rightarrow> request \<Rightarrow> auth \<Rightarrow> bool result" where
  "is_admin hmac rq a =
     (let bearer = header ''authorization'' rq
      in session hmac (if starts_with bearer ''Bearer '' then drop 7 bearer else session_cookie rq) a)"

definition csrf_for :: "digest \<Rightarrow> request \<Rightarrow> auth \<Rightarrow> string option result" where
  "csrf_for hmac rq a =
     bindR (session hmac (session_cookie rq) a) (\<lambda>ok.
       Inr (if ok then Some (csrf_token hmac (session_cookie rq) a) else None))"

definition cookie_token :: "digest \<Rightarrow> request \<Rightarrow> auth \<Rightarrow> string option result" where
  "cookie_token hmac rq a =
     bindR (session hmac (session_cookie rq) a) (\<lambda>ok. Inr (if ok then Some (session_cookie rq) else None))"

definition http_origin :: "request \<Rightarrow> string" where
  "http_origin rq = rq_scheme rq @ ''://'' @ header ''host'' rq"

definition is_admin_mutation :: "digest \<Rightarrow> request \<Rightarrow> auth \<Rightarrow> bool result" where
  "is_admin_mutation hmac rq a =
     bindR (session hmac (session_cookie rq) a) (\<lambda>authenticated.
       let supplied = header ''x-csrf-token'' rq
       in if \<not> authenticated \<or> header ''origin'' rq \<noteq> http_origin rq \<or> supplied = [] then Inr False
          else compare_digest supplied (csrf_token hmac (session_cookie rq) a))"

definition is_websocket_admin :: "digest \<Rightarrow> request \<Rightarrow> auth \<Rightarrow> bool result" where
  "is_websocket_admin hmac rq a =
     bindR (session hmac (session_cookie rq) a) (\<lambda>authenticated.
       let scheme = (if rq_scheme rq = ''wss'' then ''https'' else ''http'')
       in Inr (authenticated \<and> header ''origin'' rq = scheme @ ''://'' @ header ''host'' rq))"

section \<open>Signed clients\<close>

definition issue_nonce :: "string \<Rightarrow> real \<Rightarrow> auth \<Rightarrow> auth" where
  "issue_nonce nonce now a = a\<lparr>au_nonces := dict_set nonce (now + 30, au_generation a) (au_nonces a)\<rparr>"

text \<open>
  \<open>int\<close> of a string: white space around it, one sign, decimal digits with single underscores
  between them.
\<close>

definition is_digit :: "char \<Rightarrow> bool" where
  "is_digit c \<longleftrightarrow> 48 \<le> (of_char c :: nat) \<and> (of_char c :: nat) \<le> 57"

fun digit_groups :: "string \<Rightarrow> bool" where
  "digit_groups [] = False"
| "digit_groups [c] = is_digit c"
| "digit_groups (c # d # s) =
     (is_digit c \<and> (if d = CHR ''_'' then digit_groups s else digit_groups (d # s)))"

definition py_int :: "string \<Rightarrow> int option" where
  "py_int text =
     (let s = strip text;
          body = (if s \<noteq> [] \<and> (hd s = CHR ''+'' \<or> hd s = CHR ''-'') then tl s else s);
          sign = (if s \<noteq> [] \<and> hd s = CHR ''-'' then - 1 else 1)
      in if digit_groups body
         then Some (sign * foldl (\<lambda>n c. 10 * n + (int (of_char c) - 48)) 0 (filter is_digit body))
         else None)"

definition canonical :: "(string \<Rightarrow> string) \<Rightarrow> request \<Rightarrow> string" where
  "canonical sha_hex rq =
     join [NL] [rq_method rq,
       rq_path rq @ (if rq_query rq \<noteq> [] then ''?'' @ rq_query rq else []),
       sha_hex (rq_body rq), header ''x-localflow-generation'' rq, header ''x-localflow-created'' rq,
       header ''x-localflow-nonce'' rq]"

text \<open>The three readings of the clock in one call.\<close>

record readings =
  t_expiry :: real
  t_created :: real
  t_previous :: real

definition is_signed :: "digest \<Rightarrow> (string \<Rightarrow> string) \<Rightarrow> readings \<Rightarrow> request \<Rightarrow> auth \<Rightarrow> bool result \<times> auth" where
  "is_signed hmac sha_hex t rq a =
     (let nonce = header ''x-localflow-nonce'' rq;
          generation = header ''x-localflow-generation'' rq;
          supplied = header ''x-localflow-signature'' rq;
          (expires, issued) = (case map_of (au_nonces a) nonce of Some c \<Rightarrow> c | None \<Rightarrow> (0, 0));
          a = a\<lparr>au_nonces := dict_pop nonce (au_nonces a)\<rparr>
      in (case py_int (header ''x-localflow-created'' rq) of
            None \<Rightarrow> Inr False
          | Some created \<Rightarrow>
              if expires < t_expiry t \<or> \<bar>t_created t - real_of_int created\<bar> > 30 \<or> generation \<noteq> int_str issued
              then Inr False
              else
                let key = (if issued = au_generation a then Some (utf8 (strip (au_api_key a)))
                           else case map_of (au_previous a) issued of
                                  Some (old_key, valid_until) \<Rightarrow> if valid_until > t_previous t then Some old_key else None
                                | None \<Rightarrow> None)
                in (case key of
                      None \<Rightarrow> Inr False
                    | Some k \<Rightarrow> compare_digest supplied (hmac k (utf8 (canonical sha_hex rq)))),
          a))"

definition rotate_api_key :: "string \<Rightarrow> real \<Rightarrow> auth \<Rightarrow> auth" where
  "rotate_api_key new_key now a =
     a\<lparr>au_previous := dict_set (au_generation a) (utf8 (strip (au_api_key a)), now + 30)
          (filter (\<lambda>(_, (_, valid_until)). valid_until > now) (au_previous a)),
       au_generation := au_generation a + 1,
       au_api_key := new_key\<rparr>"

section \<open>Gates\<close>

definition safe_method :: "request \<Rightarrow> bool" where
  "safe_method rq \<longleftrightarrow> rq_method rq \<in> {''GET'', ''HEAD'', ''OPTIONS''}"

definition raised :: "'a result \<Rightarrow> http + 'a" where
  "raised r = (case r of Inl err \<Rightarrow> Inl (Raised err) | Inr v \<Rightarrow> Inr v)"

definition admin_request :: "digest \<Rightarrow> request \<Rightarrow> auth \<Rightarrow> bool result" where
  "admin_request hmac rq a = (if safe_method rq then is_admin hmac rq a else is_admin_mutation hmac rq a)"

definition require_admin :: "digest \<Rightarrow> request \<Rightarrow> auth \<Rightarrow> http + string" where
  "require_admin hmac rq a =
     (case admin_request hmac rq a of
        Inl err \<Rightarrow> Inl (Raised err)
      | Inr True \<Rightarrow> Inr ''admin''
      | Inr False \<Rightarrow> Inl (Http 403 ''administrator session required''))"

definition require_submitter ::
    "digest \<Rightarrow> (string \<Rightarrow> string) \<Rightarrow> readings \<Rightarrow> request \<Rightarrow> auth \<Rightarrow> (http + string) \<times> auth" where
  "require_submitter hmac sha_hex t rq a =
     (case admin_request hmac rq a of
        Inl err \<Rightarrow> (Inl (Raised err), a)
      | Inr True \<Rightarrow> (Inr ''admin'', a)
      | Inr False \<Rightarrow>
          (case is_signed hmac sha_hex t rq a of
             (Inl err, a') \<Rightarrow> (Inl (Raised err), a')
           | (Inr True, a') \<Rightarrow> (Inr ''signed-client'', a')
           | (Inr False, a') \<Rightarrow> (Inl (Http 403 ''signed client or administrator required''), a')))"

definition SIGNED_HEADERS :: "string list" where
  "SIGNED_HEADERS = [''x-localflow-nonce'', ''x-localflow-created'', ''x-localflow-generation'', ''x-localflow-signature'']"

text \<open>\<open>mode\<close> is the configured \<open>anonymous_access\<close>.\<close>

definition can_read ::
    "digest \<Rightarrow> (string \<Rightarrow> string) \<Rightarrow> readings \<Rightarrow> string \<Rightarrow> request \<Rightarrow> auth \<Rightarrow> (http + string) \<times> auth" where
  "can_read hmac sha_hex t mode rq a =
     (case is_admin hmac rq a of
        Inl err \<Rightarrow> (Inl (Raised err), a)
      | Inr True \<Rightarrow> (Inr ''admin'', a)
      | Inr False \<Rightarrow>
          (case is_signed hmac sha_hex t rq a of
             (Inl err, a') \<Rightarrow> (Inl (Raised err), a')
           | (Inr True, a') \<Rightarrow> (Inr ''signed-client'', a')
           | (Inr False, a') \<Rightarrow>
               (if list_ex (\<lambda>name. header name rq \<noteq> []) SIGNED_HEADERS
                then Inl (Http 403 ''invalid signed client request'')
                else if mode = ''disabled'' then Inl (Http 403 ''anonymous access disabled'')
                else Inr mode, a')))"

text \<open>\<open>rstrip\<close> of dots and \<open>lower\<close> for the ASCII letters of a host name.\<close>

definition lower_ascii :: "string \<Rightarrow> string" where
  "lower_ascii s = map (\<lambda>c. let n = of_char c :: nat in if 65 \<le> n \<and> n \<le> 90 then char_of (n + 32) else c) s"

definition rstrip_dots :: "string \<Rightarrow> string" where
  "rstrip_dots s = rev (dropWhile (\<lambda>c. c = CHR ''.'') (rev s))"

definition ends_with :: "string \<Rightarrow> string \<Rightarrow> bool" where
  "ends_with s t \<longleftrightarrow> starts_with (rev s) (rev t)"

definition session_cookie_domain :: "string option \<Rightarrow> request \<Rightarrow> http + string option" where
  "session_cookie_domain domain rq =
     (case domain of
        None \<Rightarrow> Inr None
      | Some d \<Rightarrow>
          if rq_scheme rq \<noteq> ''https'' then Inl (Http 400 ''shared administrator sessions require HTTPS'')
          else
            let hostname = lower_ascii (rstrip_dots (case rq_hostname rq of Some h \<Rightarrow> h | None \<Rightarrow> []))
            in if hostname \<noteq> d \<and> \<not> ends_with hostname (''.'' @ d)
               then Inl (Http 400 ''request host is outside the configured session cookie domain'')
               else Inr (Some d))"

section \<open>Sessions are exactly the signed tokens\<close>

text \<open>What the sources rely on of a hexadecimal digest.\<close>

definition hex_digest :: "digest \<Rightarrow> bool" where
  "hex_digest hmac \<longleftrightarrow> (\<forall>k m. hmac k m \<noteq> [] \<and> ascii (hmac k m))"

lemma compare_digest_True: "compare_digest a b = Inr True \<longleftrightarrow> a = b \<and> ascii b"
  by (auto simp: compare_digest_def)

lemma split_first_dot:
  "split_first ''.'' s = Some (a, b) \<longleftrightarrow> s = a @ ''.'' @ b \<and> CHR ''.'' \<notin> set a"
proof (induction s arbitrary: a)
  case Nil
  show ?case by simp
next
  case (Cons c s)
  show ?case by (cases a) (auto simp: Cons)
qed

lemma split_three_Some:
  "split_three s = Some (a, b, c)
   \<longleftrightarrow> s = a @ ''.'' @ b @ ''.'' @ c \<and> CHR ''.'' \<notin> set a \<and> CHR ''.'' \<notin> set b"
proof (cases "split_first ''.'' s")
  case None
  then have "s \<noteq> a @ ''.'' @ b @ ''.'' @ c" by (auto simp: split_first_None_iff)
  with None show ?thesis by (simp add: split_three_def)
next
  case (Some p)
  obtain v rest where p: "p = (v, rest)" by fastforce
  have s: "s = v @ ''.'' @ rest" "CHR ''.'' \<notin> set v" using Some p by (simp_all add: split_first_dot)
  have "split_three s = Some (a, b, c) \<longleftrightarrow> v = a \<and> split_first ''.'' rest = Some (b, c)"
    using Some p by (auto simp: split_three_def split: option.splits)
  also have "\<dots> \<longleftrightarrow> v = a \<and> rest = b @ ''.'' @ c \<and> CHR ''.'' \<notin> set b" by (simp add: split_first_dot)
  also have "\<dots> \<longleftrightarrow> s = a @ ''.'' @ b @ ''.'' @ c \<and> CHR ''.'' \<notin> set a \<and> CHR ''.'' \<notin> set b"
    using s Some p split_first_dot[of s a "b @ ''.'' @ c"] by auto
  finally show ?thesis .
qed

text \<open>
  A session token is accepted exactly when it is \<open>v1\<close>, a nonce without a dot and the
  signature of that nonce under the current administrator key, joined by dots. In particular
  the token issued for a key exchange is accepted, and after a change of the key only tokens
  with a signature under the new key are.
\<close>

theorem session_exactly_signed:
  assumes "hex_digest hmac"
  shows "session hmac token a = Inr True \<longleftrightarrow>
    (\<exists>nonce. nonce \<noteq> [] \<and> CHR ''.'' \<notin> set nonce \<and> token = fst (create_admin_session hmac nonce a))"
proof -
  have sig: "admin_signature hmac ''session'' n a \<noteq> []" "ascii (admin_signature hmac ''session'' n a)" for n
    using assms by (simp_all add: hex_digest_def admin_signature_def)
  have "session hmac token a = Inr True \<longleftrightarrow>
      (\<exists>n. split_three token = Some (''v1'', n, admin_signature hmac ''session'' n a) \<and> n \<noteq> [])"
    using sig by (auto simp: session_def compare_digest_True split: option.splits prod.splits)
  then show ?thesis
    by (auto simp: split_three_Some create_admin_session_def Let_def)
qed

definition ex_hmac :: digest where
  "ex_hmac k m = ''f0'' @ filter (\<lambda>c. (of_char c :: nat) < 128) (k @ m)"

lemma ex_hmac_hex: "hex_digest ex_hmac"
  by (auto simp: hex_digest_def ex_hmac_def ascii_def list_all_iff)

definition ex_auth :: auth where
  "ex_auth = \<lparr>au_admin_key = ''admin'' @ [NL], au_api_key = ''api'', au_nonces = [], au_generation = 1, au_previous = []\<rparr>"

theorem session_exactly_signed_witness:
  "hex_digest ex_hmac \<and> session ex_hmac (fst (create_admin_session ex_hmac ''n1'' ex_auth)) ex_auth = Inr True"
proof (rule conjI[OF ex_hmac_hex])
  have "''n1'' \<noteq> [] \<and> CHR ''.'' \<notin> set ''n1''
      \<and> fst (create_admin_session ex_hmac ''n1'' ex_auth) = fst (create_admin_session ex_hmac ''n1'' ex_auth)"
    by simp
  then show "session ex_hmac (fst (create_admin_session ex_hmac ''n1'' ex_auth)) ex_auth = Inr True"
    using session_exactly_signed[OF ex_hmac_hex] by blast
qed

section \<open>A state-changing request needs the cookie, the origin and the token\<close>

text \<open>
  C39. A request whose method is not a safe one passes the administrator gate exactly when its
  cookie carries an accepted session, its origin is the one it addresses, and its
  \<open>x-csrf-token\<close> header is the token derived from that very session; a bearer token never
  passes it. The submitter gate lets the same requests pass as administrator and leaves the
  signed client's challenges alone then.
\<close>

theorem mutation_gate:
  assumes "hex_digest hmac" and "\<not> safe_method rq"
  shows "((require_admin hmac rq a = Inr ''admin'') \<longleftrightarrow>
      session hmac (session_cookie rq) a = Inr True \<and> header ''origin'' rq = http_origin rq
      \<and> header ''x-csrf-token'' rq = csrf_token hmac (session_cookie rq) a)
    \<and> ((require_submitter hmac sha_hex t rq a = (Inr ''admin'', a)) \<longleftrightarrow> require_admin hmac rq a = Inr ''admin'')"
proof (rule conjI)
  have tok: "csrf_token hmac (session_cookie rq) a \<noteq> []" "ascii (csrf_token hmac (session_cookie rq) a)"
    using assms(1) by (simp_all add: hex_digest_def csrf_token_def admin_signature_def)
  have adm: "require_admin hmac rq a = Inr ''admin'' \<longleftrightarrow> is_admin_mutation hmac rq a = Inr True"
    using assms(2) by (auto simp: require_admin_def admin_request_def split: sum.splits bool.splits)
  have mut: "is_admin_mutation hmac rq a = Inr True \<longleftrightarrow>
      session hmac (session_cookie rq) a = Inr True \<and> header ''origin'' rq = http_origin rq
      \<and> header ''x-csrf-token'' rq = csrf_token hmac (session_cookie rq) a"
  proof (cases "session hmac (session_cookie rq) a")
    case (Inl err)
    then show ?thesis by (simp add: is_admin_mutation_def)
  next
    case (Inr ok)
    then show ?thesis
      using tok by (cases "header ''x-csrf-token'' rq = []")
        (simp_all add: is_admin_mutation_def Let_def compare_digest_True)
  qed
  show "(require_admin hmac rq a = Inr ''admin'') \<longleftrightarrow>
      session hmac (session_cookie rq) a = Inr True \<and> header ''origin'' rq = http_origin rq
      \<and> header ''x-csrf-token'' rq = csrf_token hmac (session_cookie rq) a"
    using adm mut by simp
  show "(require_submitter hmac sha_hex t rq a = (Inr ''admin'', a)) \<longleftrightarrow> require_admin hmac rq a = Inr ''admin''"
  proof (cases "admin_request hmac rq a")
    case (Inl err)
    then show ?thesis by (simp add: require_submitter_def require_admin_def)
  next
    case (Inr ok)
    then show ?thesis
      by (cases ok; cases "is_signed hmac sha_hex t rq a"; cases "fst (is_signed hmac sha_hex t rq a)")
        (auto simp: require_submitter_def require_admin_def split: bool.splits)
  qed
qed

definition ex_post :: request where
  "ex_post =
     (let session = create_admin_session ex_hmac ''n1'' ex_auth
      in \<lparr>rq_method = ''POST'', rq_scheme = ''http'', rq_hostname = Some ''h'', rq_path = ''/api/tasks'', rq_query = [],
          rq_headers = [(''host'', ''h''), (''origin'', ''http://h''), (''x-csrf-token'', snd session)],
          rq_cookies = [(''localflow_session'', fst session)], rq_body = []\<rparr>)"

lemma ex_post_session: "session ex_hmac (fst (create_admin_session ex_hmac ''n1'' ex_auth)) ex_auth = Inr True"
  by code_simp

lemma ex_post_fields:
  "\<not> safe_method ex_post" "session_cookie ex_post = fst (create_admin_session ex_hmac ''n1'' ex_auth)"
  "header ''origin'' ex_post = http_origin ex_post"
  "header ''x-csrf-token'' ex_post = csrf_token ex_hmac (fst (create_admin_session ex_hmac ''n1'' ex_auth)) ex_auth"
  by (simp_all add: ex_post_def safe_method_def session_cookie_def header_def http_origin_def Let_def
        create_admin_session_def)

theorem mutation_gate_witness:
  "require_admin ex_hmac ex_post ex_auth = Inr ''admin''
   \<and> require_submitter ex_hmac (\<lambda>b. b) \<lparr>t_expiry = 1, t_created = 1, t_previous = 1\<rparr> ex_post ex_auth = (Inr ''admin'', ex_auth)"
  using mutation_gate[OF ex_hmac_hex ex_post_fields(1), where a = ex_auth and sha_hex = "\<lambda>b. b"
      and t = "\<lparr>t_expiry = 1, t_created = 1, t_previous = 1\<rparr>"] ex_post_fields ex_post_session
  by simp

section \<open>Signed requests\<close>

text \<open>
  C9. The outcome of a signed request. It is accepted exactly when its nonce is an outstanding
  challenge that has not expired, its creation time is a number within thirty seconds of the
  clock, it names the generation of the challenge, and its signature is the digest of the
  canonical request under the key of that generation: the current key, or a replaced key whose
  overlap has not ended. Accepted or not, the nonce is consumed and nothing else changes.
\<close>

theorem signed_request_exact:
  assumes "hex_digest hmac" and "t_expiry t > 0"
  shows "(fst (is_signed hmac sha_hex t rq a) = Inr True \<longleftrightarrow>
      (\<exists>expires issued created key.
         map_of (au_nonces a) (header ''x-localflow-nonce'' rq) = Some (expires, issued) \<and> t_expiry t \<le> expires
         \<and> py_int (header ''x-localflow-created'' rq) = Some created
         \<and> \<bar>t_created t - real_of_int created\<bar> \<le> 30
         \<and> header ''x-localflow-generation'' rq = int_str issued
         \<and> (if issued = au_generation a then key = utf8 (strip (au_api_key a))
            else \<exists>until. map_of (au_previous a) issued = Some (key, until) \<and> t_previous t < until)
         \<and> header ''x-localflow-signature'' rq = hmac key (utf8 (canonical sha_hex rq))))
    \<and> snd (is_signed hmac sha_hex t rq a) = a\<lparr>au_nonces := dict_pop (header ''x-localflow-nonce'' rq) (au_nonces a)\<rparr>"
proof (rule conjI)
  have sig: "ascii (hmac k m)" for k m
    using assms(1) by (simp add: hex_digest_def)
  show "fst (is_signed hmac sha_hex t rq a) = Inr True \<longleftrightarrow>
      (\<exists>expires issued created key.
         map_of (au_nonces a) (header ''x-localflow-nonce'' rq) = Some (expires, issued) \<and> t_expiry t \<le> expires
         \<and> py_int (header ''x-localflow-created'' rq) = Some created
         \<and> \<bar>t_created t - real_of_int created\<bar> \<le> 30
         \<and> header ''x-localflow-generation'' rq = int_str issued
         \<and> (if issued = au_generation a then key = utf8 (strip (au_api_key a))
            else \<exists>until. map_of (au_previous a) issued = Some (key, until) \<and> t_previous t < until)
         \<and> header ''x-localflow-signature'' rq = hmac key (utf8 (canonical sha_hex rq)))"
    using assms(2)
    by (cases "map_of (au_nonces a) (header ''x-localflow-nonce'' rq)";
        cases "py_int (header ''x-localflow-created'' rq)")
      (auto simp: is_signed_def compare_digest_True sig Let_def not_less not_le
        split: prod.splits option.splits if_splits)
  show "snd (is_signed hmac sha_hex t rq a) = a\<lparr>au_nonces := dict_pop (header ''x-localflow-nonce'' rq) (au_nonces a)\<rparr>"
    by (simp add: is_signed_def Let_def split: prod.splits)
qed

definition ex_issued :: auth where
  "ex_issued = issue_nonce ''n'' 100 ex_auth"

definition ex_signed :: request where
  "ex_signed =
     \<lparr>rq_method = ''POST'', rq_scheme = ''http'', rq_hostname = Some ''h'', rq_path = ''/p'', rq_query = [],
      rq_headers = [(''x-localflow-nonce'', ''n''), (''x-localflow-created'', ''100''), (''x-localflow-generation'', ''1''),
        (''x-localflow-signature'', ''f0apiPOST'' @ [NL] @ ''/p'' @ [NL] @ [NL] @ ''1'' @ [NL] @ ''100'' @ [NL] @ ''n'')],
      rq_cookies = [], rq_body = []\<rparr>"

definition ex_clock :: readings where
  "ex_clock = \<lparr>t_expiry = 110, t_created = 110, t_previous = 110\<rparr>"

lemma ex_signed_fields:
  "map_of (au_nonces ex_issued) (header ''x-localflow-nonce'' ex_signed) = Some (130, 1)"
  "py_int (header ''x-localflow-created'' ex_signed) = Some 100"
  "header ''x-localflow-generation'' ex_signed = int_str 1"
  "header ''x-localflow-signature'' ex_signed
   = ex_hmac (utf8 (strip (au_api_key ex_issued))) (utf8 (canonical (\<lambda>b. b) ex_signed))"
  by (simp add: ex_issued_def issue_nonce_def ex_auth_def ex_signed_def header_def)
    code_simp+

theorem signed_request_exact_witness:
  "hex_digest ex_hmac \<and> t_expiry ex_clock > 0
   \<and> fst (is_signed ex_hmac (\<lambda>b. b) ex_clock ex_signed ex_issued) = Inr True"
proof -
  have clock: "t_expiry ex_clock > 0" "t_expiry ex_clock \<le> 130" "\<bar>t_created ex_clock - real_of_int 100\<bar> \<le> 30"
    by (simp_all add: ex_clock_def)
  have gen: "(1 :: int) = au_generation ex_issued"
    by (simp add: ex_issued_def issue_nonce_def ex_auth_def)
  have "fst (is_signed ex_hmac (\<lambda>b. b) ex_clock ex_signed ex_issued) = Inr True"
    unfolding signed_request_exact[OF ex_hmac_hex clock(1), THEN conjunct1]
    using ex_signed_fields clock gen by fastforce
  with ex_hmac_hex clock(1) show ?thesis by simp
qed

section \<open>A challenge is answered at most once\<close>

text \<open>The operations on the challenges, in the order in which the server runs them.\<close>

datatype auth_op = Issue string real | Signed readings request | Rotate string real

fun accepted :: "digest \<Rightarrow> (string \<Rightarrow> string) \<Rightarrow> auth_op list \<Rightarrow> auth \<Rightarrow> request list" where
  "accepted hmac sha_hex [] a = []"
| "accepted hmac sha_hex (Issue n now # ops) a = accepted hmac sha_hex ops (issue_nonce n now a)"
| "accepted hmac sha_hex (Rotate k now # ops) a = accepted hmac sha_hex ops (rotate_api_key k now a)"
| "accepted hmac sha_hex (Signed t rq # ops) a =
     (case is_signed hmac sha_hex t rq a of
        (ok, a') \<Rightarrow> (if ok = Inr True then [rq] else []) @ accepted hmac sha_hex ops a')"

definition issues :: "string \<Rightarrow> auth_op \<Rightarrow> bool" where
  "issues n op \<longleftrightarrow> (case op of Issue m _ \<Rightarrow> m = n | _ \<Rightarrow> False)"

text \<open>The manager as its constructor leaves it.\<close>

definition new_auth :: "string \<Rightarrow> string \<Rightarrow> auth" where
  "new_auth admin_key api_key =
     \<lparr>au_admin_key = admin_key, au_api_key = api_key, au_nonces = [], au_generation = 1, au_previous = []\<rparr>"

definition generations_ok :: "auth \<Rightarrow> bool" where
  "generations_ok a \<longleftrightarrow> 0 < au_generation a \<and> 0 \<notin> fst ` set (au_previous a)"

lemma generations_kept:
  assumes "generations_ok a"
  shows "generations_ok (issue_nonce n now a)" "generations_ok (rotate_api_key k now a)"
    "generations_ok (snd (is_signed hmac sha_hex t rq a))"
  using assms by (auto simp: generations_ok_def issue_nonce_def rotate_api_key_def is_signed_def Let_def split: prod.splits)

lemma unissued_rejected:
  assumes "generations_ok a" and "map_of (au_nonces a) (header ''x-localflow-nonce'' rq) = None"
  shows "fst (is_signed hmac sha_hex t rq a) \<noteq> Inr True"
proof -
  have "map_of (au_previous a) 0 = None" and "au_generation a \<noteq> 0"
    using assms(1) by (auto simp: generations_ok_def map_of_eq_None_iff)
  with assms(2) show ?thesis
    by (cases "py_int (header ''x-localflow-created'' rq)") (auto simp: is_signed_def Let_def)
qed

lemma accepted_bound:
  assumes "generations_ok a"
  shows "length (filter (\<lambda>rq. header ''x-localflow-nonce'' rq = n) (accepted hmac sha_hex ops a))
    \<le> length (filter (issues n) ops) + (if map_of (au_nonces a) n = None then 0 else 1)"
  using assms
proof (induction ops arbitrary: a)
  case Nil
  show ?case by simp
next
  case (Cons op ops)
  show ?case
  proof (cases op)
    case (Issue m now)
    have "map_of (au_nonces (issue_nonce m now a)) n = None \<longleftrightarrow> m \<noteq> n \<and> map_of (au_nonces a) n = None"
      by (simp add: issue_nonce_def map_of_dict_set)
    with Issue Cons.IH[OF generations_kept(1)[OF Cons.prems], of m now] show ?thesis
      by (auto simp: issues_def split: if_splits)
  next
    case (Rotate k now)
    have "au_nonces (rotate_api_key k now a) = au_nonces a" by (simp add: rotate_api_key_def)
    with Rotate Cons.IH[OF generations_kept(2)[OF Cons.prems], of k now] show ?thesis
      by (simp add: issues_def)
  next
    case (Signed t rq)
    let ?r = "is_signed hmac sha_hex t rq a"
    have nonces: "map_of (au_nonces (snd ?r)) n
        = (if n = header ''x-localflow-nonce'' rq then None else map_of (au_nonces a) n)"
      by (simp add: is_signed_def Let_def map_of_dict_pop split: prod.splits)
    have new: "fst ?r = Inr True \<Longrightarrow> n = header ''x-localflow-nonce'' rq \<Longrightarrow> map_of (au_nonces a) n \<noteq> None"
      using unissued_rejected[OF Cons.prems] by blast
    have acc: "accepted hmac sha_hex (op # ops) a
        = (if fst ?r = Inr True then [rq] else []) @ accepted hmac sha_hex ops (snd ?r)"
      by (cases ?r) (simp add: Signed)
    have ih: "length (filter (\<lambda>rq. header ''x-localflow-nonce'' rq = n) (accepted hmac sha_hex ops (snd ?r)))
        \<le> length (filter (issues n) ops) + (if map_of (au_nonces (snd ?r)) n = None then 0 else 1)"
      by (rule Cons.IH[OF generations_kept(3)[OF Cons.prems]])
    have op: "\<not> issues n op" by (simp add: Signed issues_def)
    show ?thesis
    proof (cases "n = header ''x-localflow-nonce'' rq")
      case True
      with ih nonces new op show ?thesis by (auto simp: acc)
    next
      case False
      with ih nonces op show ?thesis by (auto simp: acc)
    qed
  qed
qed

text \<open>
  C8. Replay protection. However the server interleaves issuing challenges, rotating the API
  key and checking signed requests, no challenge is answered more often than it was issued:
  with fresh nonces at most one request is accepted for each, whatever the clock shows, and a
  request with a nonce that was never issued is never accepted.
\<close>

theorem challenge_answered_once:
  "length (filter (\<lambda>rq. header ''x-localflow-nonce'' rq = n) (accepted hmac sha_hex ops (new_auth admin_key api_key)))
   \<le> length (filter (issues n) ops)"
  using accepted_bound[of "new_auth admin_key api_key" n hmac sha_hex ops]
  by (simp add: new_auth_def generations_ok_def)

end
