(* ===== verification/LF_Files.thy ===== *)
theory LF_Files
  imports LF_Prelude
begin

text \<open>
  The configuration files and the workspace: \<^verbatim>\<open>src/src/localflow/config_repository.py\<close> and
  \<^verbatim>\<open>src/src/localflow/workspace_repository.py\<close>, on a model of the POSIX file system.

  A file system maps absolute paths, lists of names, to files, directories and symbolic links.
  Every directory but the root has an entry of its own. A path that goes through more than forty
  links is a loop. A digest is a parameter; file contents are texts.
\<close>

section \<open>File system\<close>

type_synonym fpath = "string list"

datatype node = NFile string | NDir | NLink ppath

type_synonym fs = "(fpath, node) dict"

definition node_at :: "fs \<Rightarrow> fpath \<Rightarrow> node option" where
  "node_at fs p = (if p = [] then Some NDir else map_of fs p)"

text \<open>
  Walking a path from a directory: links are followed, dot-dot leaves the directory that was
  reached. Names that do not exist are kept, as \<open>Path.resolve\<close> keeps them.
\<close>

fun walk :: "nat \<Rightarrow> fs \<Rightarrow> fpath \<Rightarrow> string list \<Rightarrow> fpath result" where
  "walk n fs cur [] = Inr cur"
| "walk n fs cur (p # ps) =
     (if p = [] \<or> p = ''.'' then walk n fs cur ps
      else if p = ''..'' then walk n fs (butlast cur) ps
      else case node_at fs (cur @ [p]) of
             Some (NLink t) \<Rightarrow>
               if n = 0 then Inl (RuntimeError ''Symlink loop'')
               else walk (n - 1) fs (if is_absolute t then [] else cur) (parts_of t @ ps)
           | _ \<Rightarrow> walk n fs (cur @ [p]) ps)"

definition resolve_path :: "fs \<Rightarrow> fpath \<Rightarrow> fpath result" where
  "resolve_path fs p = walk 40 fs [] p"

text \<open>\<open>stat\<close> follows links; \<open>exists\<close>, \<open>is_dir\<close> and \<open>is_file\<close> are false when it fails.\<close>

definition stat_node :: "fs \<Rightarrow> fpath \<Rightarrow> node option" where
  "stat_node fs p = (case resolve_path fs p of Inl _ \<Rightarrow> None | Inr q \<Rightarrow> node_at fs q)"

definition path_exists :: "fs \<Rightarrow> fpath \<Rightarrow> bool" where
  "path_exists fs p \<longleftrightarrow> stat_node fs p \<noteq> None"

definition path_is_dir :: "fs \<Rightarrow> fpath \<Rightarrow> bool" where
  "path_is_dir fs p \<longleftrightarrow> stat_node fs p = Some NDir"

definition path_is_file :: "fs \<Rightarrow> fpath \<Rightarrow> bool" where
  "path_is_file fs p \<longleftrightarrow> (case stat_node fs p of Some (NFile _) \<Rightarrow> True | _ \<Rightarrow> False)"

text \<open>The directory entry a path names: its parent is followed, the last name is not.\<close>

definition entry_of :: "fs \<Rightarrow> fpath \<Rightarrow> fpath result" where
  "entry_of fs p =
     (if p = [] then Inr [] else bindR (resolve_path fs (butlast p)) (\<lambda>q. Inr (q @ [last p])))"

definition path_is_symlink :: "fs \<Rightarrow> fpath \<Rightarrow> bool" where
  "path_is_symlink fs p \<longleftrightarrow>
     (case entry_of fs p of
        Inr q \<Rightarrow> (case node_at fs q of Some (NLink _) \<Rightarrow> True | _ \<Rightarrow> False)
      | Inl _ \<Rightarrow> False)"

text \<open>Reading a text file translates line ends.\<close>

definition CARRIAGE_RETURN :: char where
  "CARRIAGE_RETURN = CHR 0x0D"

fun universal_newlines :: "string \<Rightarrow> string" where
  "universal_newlines [] = []"
| "universal_newlines [c] = [if c = CARRIAGE_RETURN then NL else c]"
| "universal_newlines (c # d # s) =
     (if c = CARRIAGE_RETURN then
        if d = NL then NL # universal_newlines s else NL # universal_newlines (d # s)
      else c # universal_newlines (d # s))"

definition read_text :: "fs \<Rightarrow> fpath \<Rightarrow> string result" where
  "read_text fs p =
     bindR (resolve_path fs p) (\<lambda>q.
       case node_at fs q of
         Some (NFile c) \<Rightarrow> Inr (universal_newlines c)
       | Some _ \<Rightarrow> Inl (OSError ''Is a directory'')
       | None \<Rightarrow> Inl (FileNotFoundError ''No such file or directory''))"

text \<open>\<open>Path.mkdir(parents=True, exist_ok=True)\<close>.\<close>

function mkdir_parents :: "fpath \<Rightarrow> fs \<Rightarrow> fs result" where
  "mkdir_parents p fs =
     (case stat_node fs p of
        Some NDir \<Rightarrow> Inr fs
      | Some _ \<Rightarrow> Inl (FileExistsError ''File exists'')
      | None \<Rightarrow>
          if p = [] then Inr fs
          else if path_is_symlink fs p then Inl (FileExistsError ''File exists'')
          else if path_is_file fs (butlast p) then Inl (OSError ''Not a directory'')
          else bindR (mkdir_parents (butlast p) fs) (\<lambda>fs'.
               bindR (entry_of fs' p) (\<lambda>q. Inr (dict_set q NDir fs'))))"
  by pat_completeness auto

termination by (relation "measure (\<lambda>(p, _). length p)") auto

declare mkdir_parents.simps [simp del]

text \<open>
  A temporary file beside the target and \<open>os.replace\<close>: the entry is replaced as a whole, a link
  at the last name is not followed.
\<close>

definition replace_file :: "fpath \<Rightarrow> string \<Rightarrow> (fs, unit) op" where
  "replace_file p content fs =
     (case mkdir_parents (butlast p) fs of
        Inl err \<Rightarrow> (Inl err, fs)
      | Inr fs' \<Rightarrow>
          (case entry_of fs' p of
             Inl err \<Rightarrow> (Inl err, fs')
           | Inr q \<Rightarrow>
               if node_at fs' q = Some NDir then (Inl (OSError ''Is a directory''), fs')
               else (Inr (), dict_set q (NFile content) fs')))"

text \<open>\<open>rename\<close> of an entry to a free name and the removal of an entry, each with all it holds.\<close>

definition below :: "fpath \<Rightarrow> fpath \<Rightarrow> bool" where
  "below p q \<longleftrightarrow> starts_with q p"

definition rename_tree :: "fpath \<Rightarrow> fpath \<Rightarrow> fs \<Rightarrow> fs" where
  "rename_tree old new fs = map (\<lambda>(p, n). (if below old p then new @ drop (length old) p else p, n)) fs"

definition copy_tree :: "fpath \<Rightarrow> fpath \<Rightarrow> fs \<Rightarrow> fs" where
  "copy_tree old new fs =
     fs @ map (\<lambda>(p, n). (new @ drop (length old) p, n)) (filter (\<lambda>(p, n). below old p) fs)"

definition remove_tree :: "fpath \<Rightarrow> fs \<Rightarrow> fs" where
  "remove_tree p fs = filter (\<lambda>(q, n). \<not> below p q) fs"

section \<open>Configuration files\<close>

definition py_lower :: "string \<Rightarrow> string" where
  "py_lower s = map (\<lambda>c. let n = of_char c :: nat in
     if (65 \<le> n \<and> n \<le> 90) \<or> (192 \<le> n \<and> n \<le> 222 \<and> n \<noteq> 215) then char_of (n + 32) else c) s"

text \<open>\<open>PurePath.suffix\<close> of the last name.\<close>

definition name_suffix :: "string \<Rightarrow> string" where
  "name_suffix name =
     (let ext = rev (takeWhile (\<lambda>c. c \<noteq> CHR ''.'') (rev name));
          stem = length name - Suc (length ext)
      in if CHR ''.'' \<in> set name \<and> 0 < stem \<and> ext \<noteq> [] then ''.'' @ ext else [])"

definition path_suffix :: "fpath \<Rightarrow> string" where
  "path_suffix p = (if p = [] then [] else py_lower (name_suffix (last p)))"

definition CONFIG_SUFFIXES :: "string list" where
  "CONFIG_SUFFIXES = [''.yaml'', ''.yml'', ''.toml'', ''.json'']"

definition is_yaml :: "fpath \<Rightarrow> bool" where
  "is_yaml p \<longleftrightarrow> path_suffix p \<in> {''.yaml'', ''.yml''}"

record config_file =
  cf_path :: string
  cf_content :: string
  cf_version :: string

definition config_path :: "fpath \<Rightarrow> string \<Rightarrow> fpath result" where
  "config_path base relative =
     (let candidate = parse_path relative;
          path = base @ parts_of candidate
      in if is_absolute candidate \<or> relative = [] \<or> list_ex (\<lambda>part. part \<in> {[], ''.'', ''..''}) (parts_of candidate)
         then Inl (ValueError ''config path escapes config directory'')
         else if path_suffix path \<notin> set CONFIG_SUFFIXES then Inl (ValueError ''unsupported config format'')
         else Inr path)"

definition file_version :: "(string \<Rightarrow> string) \<Rightarrow> string \<Rightarrow> string" where
  "file_version sha content = sha (utf8 content)"

definition config_read :: "(string \<Rightarrow> string) \<Rightarrow> fpath \<Rightarrow> string \<Rightarrow> fs \<Rightarrow> config_file result" where
  "config_read sha base relative fs =
     bindR (config_path base relative) (\<lambda>p.
     bindR (resolve_path fs p) (\<lambda>path.
     bindR (read_text fs path) (\<lambda>content.
       Inr \<lparr>cf_path = relative, cf_content = content, cf_version = file_version sha content\<rparr>)))"

text \<open>\<open>expected\<close> is the version the client has seen: absent, a star, or a digest.\<close>

definition config_write ::
    "(string \<Rightarrow> string) \<Rightarrow> fpath \<Rightarrow> string \<Rightarrow> string \<Rightarrow> string option \<Rightarrow> (fs, config_file) op" where
  "config_write sha base relative content expected fs =
     (case bindR (config_path base relative) (\<lambda>logical.
             if path_is_symlink fs logical then resolve_path fs logical else Inr logical) of
        Inl err \<Rightarrow> (Inl err, fs)
      | Inr path \<Rightarrow>
          (case (if path_exists fs path then
                   bindR (config_read sha base relative fs) (\<lambda>current.
                     if expected \<noteq> Some (cf_version current) then Inl (Conflict (cf_version current)) else Inr ())
                 else if expected \<noteq> None \<and> expected \<noteq> Some ''*'' then Inl (Conflict ''missing'')
                 else Inr ()) of
             Inl err \<Rightarrow> (Inl err, fs)
           | Inr _ \<Rightarrow>
               bindS (replace_file path content) (\<lambda>_ fs'. (config_read sha base relative fs', fs')) fs))"

definition config_delete :: "(string \<Rightarrow> string) \<Rightarrow> fpath \<Rightarrow> string \<Rightarrow> string \<Rightarrow> (fs, unit) op" where
  "config_delete sha base relative expected fs =
     (case bindR (config_path base relative) (\<lambda>path.
           bindR (config_read sha base relative fs) (\<lambda>current.
             if cf_version current \<noteq> expected then Inl (Conflict (cf_version current))
             else entry_of fs path)) of
        Inl err \<Rightarrow> (Inl err, fs)
      | Inr q \<Rightarrow> (Inr (), remove_tree q fs))"

subsection \<open>Includes\<close>

text \<open>
  The pattern \<^verbatim>\<open>!include\s+([^#\r\n]+)\<close> at the head of a text: the group and the text after the
  match. White space is taken greedily; when nothing is left for the group, the last blank that
  may stand in a group is given back to it.
\<close>

definition group_char :: "char \<Rightarrow> bool" where
  "group_char c \<longleftrightarrow> c \<noteq> CHR ''#'' \<and> c \<noteq> CARRIAGE_RETURN \<and> c \<noteq> NL"

definition match_include :: "string \<Rightarrow> (string \<times> string) option" where
  "match_include s =
     (if \<not> starts_with s ''!include'' then None
      else
        let blanks = takeWhile py_space (drop 8 s);
            rest = dropWhile py_space (drop 8 s);
            group = takeWhile group_char rest
        in if blanks = [] then None
           else if group \<noteq> [] then Some (group, dropWhile group_char rest)
           else case filter (\<lambda>k. group_char (blanks ! k)) (rev [1 ..< length blanks]) of
                  [] \<Rightarrow> None
                | k # _ \<Rightarrow> Some ([blanks ! k], drop (Suc k) blanks @ rest))"

text \<open>\<open>str.split\<close> at white space.\<close>

fun split_words :: "string \<Rightarrow> string \<Rightarrow> string list" where
  "split_words word [] = (if word = [] then [] else [rev word])"
| "split_words word (c # s) =
     (if py_space c then (if word = [] then [] else [rev word]) @ split_words [] s
      else split_words (c # word) s)"

lemma match_include_shorter:
  assumes "match_include s = Some (g, rest)"
  shows "length rest < length s"
proof -
  have 8: "8 \<le> length s" and ne: "takeWhile py_space (drop 8 s) \<noteq> []"
    using assms by (auto simp: match_include_def starts_with_take Let_def split: if_splits dest!: arg_cong[where f = length])
  have len: "length (takeWhile py_space (drop 8 s)) + length (dropWhile py_space (drop 8 s)) = length s - 8"
    by (metis length_append length_drop takeWhile_dropWhile_id)
  show ?thesis
    using assms 8 len ne length_dropWhile_le[of group_char "dropWhile py_space (drop 8 s)"]
    by (auto simp: match_include_def Let_def split: if_splits list.splits)
qed

function include_groups :: "string \<Rightarrow> string list" where
  "include_groups s =
     (case s of
        [] \<Rightarrow> []
      | c # cs \<Rightarrow> (case match_include s of None \<Rightarrow> include_groups cs | Some (g, rest) \<Rightarrow> g # include_groups rest))"
  by pat_completeness auto

termination
  by (relation "measure length") (auto dest: match_include_shorter)

declare include_groups.simps [simp del]

lemma include_groups_code [code]:
  "include_groups [] = []"
  "include_groups (c # cs) =
     (case match_include (c # cs) of None \<Rightarrow> include_groups cs | Some (g, rest) \<Rightarrow> g # include_groups rest)"
  by (simp_all add: include_groups.simps[of "[]"] include_groups.simps[of "c # cs"])

definition strip_quotes :: "string \<Rightarrow> string" where
  "strip_quotes s =
     (let q = (\<lambda>c. c = SQ \<or> c = DQ) in rev (dropWhile q (rev (dropWhile q s))))"

text \<open>The words an include names, and the file a word stands for, seen from a file at \<open>p\<close>.\<close>

definition include_words :: "string \<Rightarrow> string list" where
  "include_words content = concat (map (split_words []) (include_groups content))"

definition include_target :: "fs \<Rightarrow> fpath \<Rightarrow> string \<Rightarrow> fpath result" where
  "include_target fs p word =
     (let q = parse_path (strip_quotes word)
      in resolve_path fs ((if is_absolute q then [] else butlast p) @ parts_of q))"

text \<open>
  \<open>_check_includes\<close> and \<open>dependencies\<close>: depth-first, with the set of files already seen. The
  nesting is bounded by the number of entries (\<open>fuel\<close>).
\<close>

fun check_includes :: "nat \<Rightarrow> fs \<Rightarrow> fpath \<Rightarrow> string list \<Rightarrow> fpath list \<Rightarrow> fpath list result option" where
  "check_includes fuel fs p [] visited = Some (Inr visited)"
| "check_includes fuel fs p (raw # words) visited =
     (case include_target fs p raw of
        Inl err \<Rightarrow> Some (Inl err)
      | Inr included \<Rightarrow>
          if path_suffix included \<notin> set CONFIG_SUFFIXES
          then Some (Inl (ValueError (''unsupported included config format: '' @ strip_quotes raw)))
          else if \<not> path_is_file fs included
          then Some (Inl (ValueError (''included config does not exist: '' @ strip_quotes raw)))
          else if included \<in> set visited then check_includes fuel fs p words visited
          else (case fuel of
                  0 \<Rightarrow> None
                | Suc n \<Rightarrow>
                    (case read_text fs included of
                       Inl err \<Rightarrow> Some (Inl err)
                     | Inr content \<Rightarrow>
                         (case check_includes n fs included
                                 (if is_yaml included then include_words content else []) (included # visited) of
                            None \<Rightarrow> None
                          | Some (Inl err) \<Rightarrow> Some (Inl err)
                          | Some (Inr visited') \<Rightarrow> check_includes fuel fs p words visited'))))"

definition file_words :: "fs \<Rightarrow> fpath \<Rightarrow> string list" where
  "file_words fs p =
     (if is_yaml p then (case read_text fs p of Inr content \<Rightarrow> include_words content | Inl _ \<Rightarrow> []) else [])"

fun visit :: "nat \<Rightarrow> fs \<Rightarrow> fpath \<Rightarrow> fpath list \<times> fpath list \<Rightarrow> (fpath list \<times> fpath list) result option"
  and visit_words :: "nat \<Rightarrow> fs \<Rightarrow> fpath \<Rightarrow> string list \<Rightarrow> fpath list \<times> fpath list \<Rightarrow>
    (fpath list \<times> fpath list) result option" where
  "visit 0 fs p st = None"
| "visit (Suc n) fs p (visited, deps) =
     (if p \<in> set visited then Some (Inr (visited, deps))
      else visit_words n fs p (file_words fs p) (p # visited, deps))"
| "visit_words n fs p [] st = Some (Inr st)"
| "visit_words n fs p (raw # words) (visited, deps) =
     (case include_target fs p raw of
        Inl err \<Rightarrow> Some (Inl err)
      | Inr included \<Rightarrow>
          (case visit n fs included (visited, List.insert included deps) of
             None \<Rightarrow> None
           | Some (Inl err) \<Rightarrow> Some (Inl err)
           | Some (Inr st) \<Rightarrow> visit_words n fs p words st))"

definition dependencies :: "fpath \<Rightarrow> string \<Rightarrow> fs \<Rightarrow> fpath list result" where
  "dependencies base relative fs =
     bindR (config_path base relative) (\<lambda>p.
     bindR (resolve_path fs p) (\<lambda>path.
       case visit (Suc (Suc (length fs))) fs path ([], []) of
         Some r \<Rightarrow> bindR r (\<lambda>(_, deps). Inr deps)
       | None \<Rightarrow> Inl (RuntimeError ''fuel'')))"

subsection \<open>Listing\<close>

definition py_casefold :: "string \<Rightarrow> string" where
  "py_casefold s = concat (map (\<lambda>c. if c = CHR 0xDF then ''ss'' else py_lower [c]) s)"

text \<open>The names in a directory, in the order of the file system.\<close>

definition children :: "fs \<Rightarrow> fpath \<Rightarrow> string list" where
  "children fs q = map (\<lambda>(p, n). last p) (filter (\<lambda>(p, n). p \<noteq> [] \<and> butlast p = q) fs)"

text \<open>
  The recursion of \<open>list\<close>: a directory that is its own ancestor through a link is skipped, which
  bounds the depth by the number of directories.
\<close>

fun list_dir :: "nat \<Rightarrow> fs \<Rightarrow> fpath \<Rightarrow> string list \<Rightarrow> fpath list \<Rightarrow> string list" where
  "list_dir 0 fs dir rel ancestors = []"
| "list_dir (Suc n) fs dir rel ancestors =
     (case resolve_path fs dir of
        Inl _ \<Rightarrow> []
      | Inr identity \<Rightarrow>
          if node_at fs identity \<noteq> Some NDir \<or> identity \<in> set ancestors then []
          else concat (map (\<lambda>name.
                 if path_is_dir fs (dir @ [name])
                 then list_dir n fs (dir @ [name]) (rel @ [name]) (identity # ancestors)
                 else if path_is_file fs (dir @ [name]) \<and> path_suffix [name] \<in> set CONFIG_SUFFIXES
                 then [join ''/'' (rel @ [name])] else [])
               (sort_key py_casefold (children fs identity))))"

definition config_list :: "fpath \<Rightarrow> fs \<Rightarrow> string list" where
  "config_list base fs = sort (list_dir (Suc (Suc (length fs))) fs base [] [])"

definition affected_by :: "fpath \<Rightarrow> string \<Rightarrow> fs \<Rightarrow> string list result" where
  "affected_by base relative fs =
     bindR (config_path base relative) (\<lambda>p.
     bindR (resolve_path fs p) (\<lambda>changed.
     bindR (mapR (\<lambda>candidate.
              if candidate = relative then Inr []
              else bindR (dependencies base candidate fs) (\<lambda>deps.
                     Inr (if changed \<in> set deps then [candidate] else [])))
            (config_list base fs)) (\<lambda>found.
       Inr (sort (remdups (relative # concat found))))))"

subsection \<open>Parsing and validation\<close>

text \<open>
  \<open>load\<close> stands for \<open>load_config_raw\<close> of the configuration library, which reads the file and
  what it includes. The text of an editor is loaded from a temporary file beside its place.
\<close>

definition check_source :: "fs \<Rightarrow> fpath \<Rightarrow> string \<Rightarrow> unit result" where
  "check_source fs path source =
     (case check_includes (length fs) fs path (if is_yaml path then include_words source else []) [path] of
        Some r \<Rightarrow> bindR r (\<lambda>_. Inr ())
      | None \<Rightarrow> Inl (RuntimeError ''fuel''))"

definition config_parse ::
    "(fs \<Rightarrow> fpath \<Rightarrow> json result) \<Rightarrow> string \<Rightarrow> fpath \<Rightarrow> string \<Rightarrow> string option \<Rightarrow> (fs, json) op" where
  "config_parse load temporary base relative content fs =
     (case bindR (config_path base relative) (\<lambda>p. resolve_path fs p) of
        Inl err \<Rightarrow> (Inl err, fs)
      | Inr path \<Rightarrow>
          (case bindR (case content of None \<Rightarrow> read_text fs path | Some c \<Rightarrow> Inr c) (check_source fs path) of
             Inl err \<Rightarrow> (Inl err, fs)
           | Inr _ \<Rightarrow>
               (case content of
                  None \<Rightarrow> (load fs path, fs)
                | Some c \<Rightarrow>
                    (case mkdir_parents (butlast path) fs of
                       Inl err \<Rightarrow> (Inl err, fs)
                     | Inr fs' \<Rightarrow>
                         (load (dict_set (butlast path @ [temporary]) (NFile c) fs') (butlast path @ [temporary]), fs')))))"

text \<open>\<open>diagnose\<close> returns the kind of a configuration, whether it is valid, and the errors.\<close>

definition config_validate ::
    "(fs \<Rightarrow> fpath \<Rightarrow> json result) \<Rightarrow> (json \<Rightarrow> string \<times> bool \<times> string list) option \<Rightarrow> string \<Rightarrow> fpath \<Rightarrow>
     string \<Rightarrow> string \<Rightarrow> (fs, json) op" where
  "config_validate load diagnose temporary base relative content =
     bindS (config_parse load temporary base relative (Some content)) (\<lambda>parsed.
       case diagnose of
         None \<Rightarrow> retS parsed
       | Some f \<Rightarrow>
           (case f parsed of (kind, valid, errors) \<Rightarrow>
              if kind \<noteq> ''generic'' \<and> \<not> valid then failS (ValueError (join ''; '' errors)) else retS parsed))"

subsection \<open>Moving a configuration\<close>

fun common_prefix :: "fpath \<Rightarrow> fpath \<Rightarrow> nat" where
  "common_prefix (a # p) (b # q) = (if a = b then Suc (common_prefix p q) else 0)"
| "common_prefix _ _ = 0"

text \<open>\<open>os.path.relpath\<close> of absolute paths, which compares names only.\<close>

definition relpath :: "fpath \<Rightarrow> fpath \<Rightarrow> string" where
  "relpath path start =
     (let i = common_prefix start path;
          parts = replicate (length start - i) ''..'' @ drop i path
      in if parts = [] then ''.'' else join ''/'' parts)"

definition relocate_word :: "fs \<Rightarrow> fpath \<Rightarrow> fpath \<Rightarrow> string \<Rightarrow> string result" where
  "relocate_word fs source target raw =
     (let quote = (if raw \<noteq> [] \<and> (hd raw = SQ \<or> hd raw = DQ) then [hd raw] else [])
      in bindR (include_target fs source raw) (\<lambda>included.
           Inr (quote @ replace_char BACKSLASH ''/'' (relpath included (butlast target)) @ quote)))"

function relocate_text :: "(string \<Rightarrow> string result) \<Rightarrow> string \<Rightarrow> string result" where
  "relocate_text f s =
     (case s of
        [] \<Rightarrow> Inr []
      | c # cs \<Rightarrow>
          (case match_include s of
             None \<Rightarrow> bindR (relocate_text f cs) (\<lambda>t. Inr (c # t))
           | Some (g, rest) \<Rightarrow>
               bindR (mapR f (split_words [] g)) (\<lambda>words.
               bindR (relocate_text f rest) (\<lambda>t. Inr (''!include '' @ join '' '' words @ t)))))"
  by pat_completeness auto

termination
  by (relation "measure (\<lambda>(f, s). length s)") (auto dest: match_include_shorter)

declare relocate_text.simps [simp del]

lemma relocate_text_code [code]:
  "relocate_text f [] = Inr []"
  "relocate_text f (c # cs) =
     (case match_include (c # cs) of
        None \<Rightarrow> bindR (relocate_text f cs) (\<lambda>t. Inr (c # t))
      | Some (g, rest) \<Rightarrow>
          bindR (mapR f (split_words [] g)) (\<lambda>words.
          bindR (relocate_text f rest) (\<lambda>t. Inr (''!include '' @ join '' '' words @ t))))"
  by (simp_all add: relocate_text.simps[of f "[]"] relocate_text.simps[of f "c # cs"])

definition rename_entry :: "fpath \<Rightarrow> fpath \<Rightarrow> (fs, unit) op" where
  "rename_entry old new fs =
     (case mkdir_parents (butlast new) fs of
        Inl err \<Rightarrow> (Inl err, fs)
      | Inr fs' \<Rightarrow>
          (case (entry_of fs' old, entry_of fs' new) of
             (Inr p, Inr q) \<Rightarrow>
               if below p q \<and> p \<noteq> q then (Inl (OSError ''Invalid argument''), fs')
               else (Inr (), if p = q then fs' else rename_tree p q (remove_tree q fs'))
           | (Inl err, _) \<Rightarrow> (Inl err, fs')
           | (_, Inl err) \<Rightarrow> (Inl err, fs')))"

definition unlink_entry :: "fpath \<Rightarrow> (fs, unit) op" where
  "unlink_entry p fs = (case entry_of fs p of Inl err \<Rightarrow> (Inl err, fs) | Inr q \<Rightarrow> (Inr (), remove_tree q fs))"

definition moved_content :: "fpath \<Rightarrow> fpath \<Rightarrow> string \<Rightarrow> fs \<Rightarrow> string result" where
  "moved_content source target content fs =
     (if butlast source \<noteq> butlast target \<and> is_yaml source
      then relocate_text (relocate_word fs source target) content else Inr content)"

definition config_move ::
    "(string \<Rightarrow> string) \<Rightarrow> fpath \<Rightarrow> string \<Rightarrow> string \<Rightarrow> string \<Rightarrow> (fs, config_file) op" where
  "config_move sha base source target expected fs =
     (let reading = (\<lambda>relative fs'. (config_read sha base relative fs', fs'))
      in case (config_path base source, config_path base target) of
        (Inl err, _) \<Rightarrow> (Inl err, fs)
      | (_, Inl err) \<Rightarrow> (Inl err, fs)
      | (Inr source_path, Inr target_path) \<Rightarrow>
          if source_path = target_path then reading source fs
          else case config_read sha base source fs of
            Inl err \<Rightarrow> (Inl err, fs)
          | Inr current \<Rightarrow>
              if cf_version current \<noteq> expected then (Inl (Conflict (cf_version current)), fs)
              else if path_exists fs target_path then (Inl (FileExistsError target), fs)
              else if path_is_symlink fs source_path then
                bindS (rename_entry source_path target_path) (\<lambda>_. reading target) fs
              else case moved_content source_path target_path (cf_content current) fs of
                Inl err \<Rightarrow> (Inl err, fs)
              | Inr content \<Rightarrow>
                  bindS (replace_file target_path content) (\<lambda>_.
                  bindS (unlink_entry source_path) (\<lambda>_. reading target)) fs)"

section \<open>The workspace\<close>

definition workspace_path :: "fpath \<Rightarrow> string \<Rightarrow> bool \<Rightarrow> fpath result" where
  "workspace_path base relative allow_root =
     (let candidate = parse_path (replace_char BACKSLASH ''/'' relative);
          parts = parts_of candidate
      in if is_absolute candidate \<or> list_ex (\<lambda>part. part \<in> {[], ''.'', ''..''}) parts
         then Inl (ValueError ''workspace path escapes managed roots'')
         else if parts = [] \<or> parts ! 0 \<noteq> ''config''
         then Inl (ValueError ''workspace path must start with config'')
         else if length parts = 1 \<and> \<not> allow_root
         then Inl (ValueError ''workspace root cannot be modified'')
         else Inr (base @ parts))"

definition supported :: "fpath \<Rightarrow> bool" where
  "supported p \<longleftrightarrow> path_suffix p \<in> set CONFIG_SUFFIXES"

record workspace_entry =
  we_path :: string
  we_kind :: string
  we_symlink :: bool

fun entries_dir :: "nat \<Rightarrow> fs \<Rightarrow> fpath \<Rightarrow> string list \<Rightarrow> fpath list \<Rightarrow> workspace_entry list" where
  "entries_dir 0 fs dir rel ancestors = []"
| "entries_dir (Suc n) fs dir rel ancestors =
     (case resolve_path fs dir of
        Inl _ \<Rightarrow> []
      | Inr identity \<Rightarrow>
          if node_at fs identity \<noteq> Some NDir \<or> identity \<in> set ancestors then []
          else concat (map (\<lambda>name.
                 let item = dir @ [name];
                     shown = \<lparr>we_path = join ''/'' (rel @ [name]), we_kind = ''directory'',
                              we_symlink = path_is_symlink fs item\<rparr>
                 in if name = ''__pycache__'' \<or> starts_with name ''.localflow-'' then []
                    else if path_is_dir fs item
                    then shown # entries_dir n fs item (rel @ [name]) (identity # ancestors)
                    else if path_is_file fs item \<and> supported [name]
                    then [shown\<lparr>we_kind := ''file''\<rparr>] else [])
               (sort_key (\<lambda>name. (\<not> path_is_dir fs (dir @ [name]), py_casefold name)) (children fs identity))))"

definition workspace_entries :: "fpath \<Rightarrow> fs \<Rightarrow> workspace_entry list" where
  "workspace_entries base fs = entries_dir (Suc (Suc (length fs))) fs (base @ [''config'']) [''config''] []"

record workspace_file =
  wf_path :: string
  wf_content :: string
  wf_version :: string
  wf_symlink :: bool

definition workspace_read :: "(string \<Rightarrow> string) \<Rightarrow> fpath \<Rightarrow> string \<Rightarrow> fs \<Rightarrow> workspace_file result" where
  "workspace_read sha base relative fs =
     bindR (workspace_path base relative False) (\<lambda>logical.
       if \<not> path_is_file fs logical then Inl (FileNotFoundError relative)
       else bindR (read_text fs logical) (\<lambda>content.
         Inr \<lparr>wf_path = relative, wf_content = content, wf_version = file_version sha content,
              wf_symlink = path_is_symlink fs logical\<rparr>))"

definition workspace_write ::
    "(string \<Rightarrow> string) \<Rightarrow> fpath \<Rightarrow> string \<Rightarrow> string \<Rightarrow> string option \<Rightarrow> (fs, workspace_file) op" where
  "workspace_write sha base relative content expected fs =
     (case bindR (workspace_path base relative False) (\<lambda>logical.
           bindR (if path_exists fs logical then
                    bindR (workspace_read sha base relative fs) (\<lambda>current.
                      if expected \<noteq> Some (wf_version current) then Inl (Conflict (wf_version current)) else Inr ())
                  else if expected \<noteq> None \<and> expected \<noteq> Some ''*'' then Inl (Conflict ''missing'')
                  else Inr ()) (\<lambda>_.
           if \<not> supported logical then Inl (ValueError ''unsupported workspace file type'')
           else if path_is_symlink fs logical then resolve_path fs logical else Inr logical)) of
        Inl err \<Rightarrow> (Inl err, fs)
      | Inr target \<Rightarrow>
          bindS (replace_file target content) (\<lambda>_ fs'. (workspace_read sha base relative fs', fs')) fs)"

definition create_directory :: "fpath \<Rightarrow> string \<Rightarrow> (fs, unit) op" where
  "create_directory base relative fs =
     (case workspace_path base relative False of
        Inl err \<Rightarrow> (Inl err, fs)
      | Inr path \<Rightarrow>
          if path_exists fs path \<or> path_is_symlink fs path then (Inl (FileExistsError relative), fs)
          else if \<not> path_exists fs (butlast path) then (Inl (FileNotFoundError relative), fs)
          else if \<not> path_is_dir fs (butlast path) then (Inl (OSError ''Not a directory''), fs)
          else (case entry_of fs path of Inl err \<Rightarrow> (Inl err, fs) | Inr q \<Rightarrow> (Inr (), dict_set q NDir fs)))"

text \<open>The checks that \<open>move\<close> and \<open>copy\<close> share; \<open>verb\<close> is the word in the message.\<close>

definition transfer_paths :: "string \<Rightarrow> fpath \<Rightarrow> string \<Rightarrow> string \<Rightarrow> fs \<Rightarrow> (fpath \<times> fpath) result" where
  "transfer_paths verb base source target fs =
     bindR (workspace_path base source False) (\<lambda>old.
     bindR (workspace_path base target False) (\<lambda>new.
       if \<not> path_exists fs old \<and> \<not> path_is_symlink fs old then Inl (FileNotFoundError source)
       else if path_exists fs new \<or> path_is_symlink fs new then Inl (FileExistsError target)
       else if \<not> path_is_dir fs old \<and> \<not> supported new then Inl (ValueError ''unsupported workspace file type'')
       else if path_is_dir fs old \<and> take (length old) new = old
       then Inl (ValueError (''directory cannot '' @ verb @ '' inside itself''))
       else Inr (old, new)))"

definition workspace_move :: "fpath \<Rightarrow> string \<Rightarrow> string \<Rightarrow> (fs, unit) op" where
  "workspace_move base source target fs =
     (case transfer_paths ''move'' base source target fs of
        Inl err \<Rightarrow> (Inl err, fs)
      | Inr (old, new) \<Rightarrow> rename_entry old new fs)"

text \<open>
  A link is copied as a link, a directory with everything in it, links kept as links. A copy
  into a place that lies inside its source through a link is not covered.
\<close>

definition workspace_copy :: "fpath \<Rightarrow> string \<Rightarrow> string \<Rightarrow> (fs, unit) op" where
  "workspace_copy base source target fs =
     (case transfer_paths ''copy'' base source target fs of
        Inl err \<Rightarrow> (Inl err, fs)
      | Inr (old, new) \<Rightarrow>
          (case mkdir_parents (butlast new) fs of
             Inl err \<Rightarrow> (Inl err, fs)
           | Inr fs' \<Rightarrow>
               (case (entry_of fs' old, entry_of fs' new) of
                  (Inr p, Inr q) \<Rightarrow> (Inr (), copy_tree p q fs')
                | (Inl err, _) \<Rightarrow> (Inl err, fs')
                | (_, Inl err) \<Rightarrow> (Inl err, fs'))))"

definition workspace_delete :: "fpath \<Rightarrow> string \<Rightarrow> (fs, unit) op" where
  "workspace_delete base relative fs =
     (case workspace_path base relative False of
        Inl err \<Rightarrow> (Inl err, fs)
      | Inr path \<Rightarrow>
          if \<not> path_exists fs path \<and> \<not> path_is_symlink fs path then (Inl (FileNotFoundError relative), fs)
          else unlink_entry path fs)"

end
