(* ===== verification/LF_Files_Facts.thy ===== *)
theory LF_Files_Facts
  imports LF_Files
begin

text \<open>
  Properties of the configuration files and the workspace: resolved paths are free of links,
  versions protect against lost updates, operations stay below the configuration directory,
  and the dependencies of a configuration are exactly what its includes reach.
\<close>

section \<open>Resolved paths\<close>

definition is_link :: "node option \<Rightarrow> bool" where
  "is_link n \<longleftrightarrow> (case n of Some (NLink _) \<Rightarrow> True | _ \<Rightarrow> False)"

definition clean :: "fs \<Rightarrow> fpath \<Rightarrow> bool" where
  "clean fs q \<longleftrightarrow> (\<forall>i < length q. q ! i \<notin> {[], ''.'', ''..''} \<and> \<not> is_link (node_at fs (take (Suc i) q)))"

lemma clean_Nil [simp]: "clean fs []"
  by (simp add: clean_def)

lemma clean_snoc:
  "clean fs (q @ [p]) \<longleftrightarrow> clean fs q \<and> p \<notin> {[], ''.'', ''..''} \<and> \<not> is_link (node_at fs (q @ [p]))"
proof -
  have "clean fs (q @ [p]) \<longleftrightarrow>
      (\<forall>i < length q. (q @ [p]) ! i \<notin> {[], ''.'', ''..''} \<and> \<not> is_link (node_at fs (take (Suc i) (q @ [p]))))
      \<and> p \<notin> {[], ''.'', ''..''} \<and> \<not> is_link (node_at fs (q @ [p]))"
    by (auto simp: clean_def less_Suc_eq)
  then show ?thesis by (auto simp: clean_def nth_append)
qed

lemma clean_butlast: "clean fs q \<Longrightarrow> clean fs (butlast q)"
  by (cases q rule: rev_cases) (simp_all add: clean_snoc)

lemma clean_append: "clean fs (p @ q) \<Longrightarrow> clean fs p"
  by (induction q rule: rev_induct) (simp_all add: clean_snoc flip: append_assoc)

lemma walk_result_clean: "walk n fs cur ps = Inr q \<Longrightarrow> clean fs cur \<Longrightarrow> clean fs q"
proof (induction n fs cur ps rule: walk.induct)
  case (2 n fs cur p ps)
  show ?case
  proof (cases "p = [] \<or> p = ''.'' \<or> p = ''..''")
    case True
    with 2 show ?thesis by (auto simp: clean_butlast split: if_splits)
  next
    case False
    show ?thesis
    proof (cases "is_link (node_at fs (cur @ [p]))")
      case True
      then obtain t where "node_at fs (cur @ [p]) = Some (NLink t)"
        by (auto simp: is_link_def split: option.splits node.splits)
      with 2 False show ?thesis by (auto split: if_splits)
    next
      case nolink: False
      then have "walk n fs cur (p # ps) = walk n fs (cur @ [p]) ps"
        using False by (auto simp: is_link_def split: option.splits node.splits)
      with 2 False nolink show ?thesis
        by (auto simp: clean_snoc is_link_def split: option.splits node.splits)
    qed
  qed
qed simp

lemma walk_clean: "clean fs (cur @ ps) \<Longrightarrow> walk n fs cur ps = Inr (cur @ ps)"
proof (induction ps arbitrary: cur)
  case (Cons p ps)
  have step: "clean fs (cur @ [p])" using Cons.prems clean_append[of fs "cur @ [p]" ps] by simp
  then have "p \<notin> {[], ''.'', ''..''}" "\<not> is_link (node_at fs (cur @ [p]))" by (simp_all add: clean_snoc)
  then have "walk n fs cur (p # ps) = walk n fs (cur @ [p]) ps"
    by (auto simp: is_link_def split: option.splits node.splits)
  with Cons.IH[of "cur @ [p]"] Cons.prems show ?case by simp
qed simp

lemma resolve_clean: "resolve_path fs p = Inr q \<Longrightarrow> clean fs q"
  by (auto simp: resolve_path_def dest: walk_result_clean)

lemma resolve_of_clean [simp]: "clean fs p \<Longrightarrow> resolve_path fs p = Inr p"
  using walk_clean[of fs "[]" p 40] by (simp add: resolve_path_def)

text \<open>\<open>Path.resolve\<close> is idempotent.\<close>

lemma resolve_idem: "resolve_path fs p = Inr q \<Longrightarrow> resolve_path fs q = Inr q"
  by (simp add: resolve_clean)

lemma stat_clean: "clean fs p \<Longrightarrow> stat_node fs p = node_at fs p"
  by (simp add: stat_node_def)

lemma entry_clean: "clean fs p \<Longrightarrow> entry_of fs p = Inr p"
  by (cases p rule: rev_cases) (simp_all add: entry_of_def clean_snoc)

lemma symlink_clean: "clean fs p \<Longrightarrow> \<not> path_is_symlink fs p"
  by (cases p rule: rev_cases)
    (auto simp: path_is_symlink_def entry_clean clean_snoc is_link_def node_at_def split: option.splits node.splits)

lemma read_text_resolved: "resolve_path fs p = Inr q \<Longrightarrow> read_text fs q = read_text fs p"
  by (simp add: read_text_def resolve_idem)

section \<open>No lost updates\<close>

lemma config_read_exists:
  assumes "config_read sha base relative fs = Inr f" and "config_path base relative = Inr logical"
  obtains q where "resolve_path fs logical = Inr q" "stat_node fs logical \<noteq> None" "stat_node fs q \<noteq> None"
  using assms resolve_idem
  by (fastforce simp: config_read_def read_text_def stat_node_def bindR_Inr_iff split: option.splits)

text \<open>
  No lost update. Two clients have seen the same version of a configuration. When the first
  stores a text and the stored version differs, the write of the second is refused with the
  version that is stored now, and nothing is written. This holds through symbolic links as well.
\<close>

theorem config_no_lost_update:
  assumes "config_write sha base relative content1 expected1 fs = (Inr f1, fs1)"
    and "expected2 \<noteq> Some (cf_version f1)"
  shows "config_write sha base relative content2 expected2 fs1 = (Inl (Conflict (cf_version f1)), fs1)"
proof -
  have read: "config_read sha base relative fs1 = Inr f1"
    using assms(1) by (auto simp: config_write_def bindS_def split: sum.splits prod.splits if_splits)
  then obtain logical where logical: "config_path base relative = Inr logical"
    by (auto simp: config_read_def bindR_Inr_iff)
  obtain q where q: "resolve_path fs1 logical = Inr q" "stat_node fs1 logical \<noteq> None" "stat_node fs1 q \<noteq> None"
    using config_read_exists[OF read logical] .
  show ?thesis
    using read logical q assms(2) by (cases "path_is_symlink fs1 logical") (simp_all add: config_write_def path_exists_def)
qed

definition ex_base :: fpath where
  "ex_base = [''srv'', ''config'']"

definition ex_fs :: fs where
  "ex_fs = [([''srv''], NDir), ([''srv'', ''config''], NDir),
     ([''srv'', ''config'', ''a.yaml''], NFile ''!include b.yaml''),
     ([''srv'', ''config'', ''b.yaml''], NFile ''x: 1'')]"

lemma ex_write:
  "config_write (\<lambda>b. b) ex_base ''b.yaml'' ''x: 2'' (Some ''x: 1'') ex_fs =
     (Inr \<lparr>cf_path = ''b.yaml'', cf_content = ''x: 2'', cf_version = ''x: 2''\<rparr>,
      [([''srv''], NDir), ([''srv'', ''config''], NDir),
       ([''srv'', ''config'', ''a.yaml''], NFile ''!include b.yaml''),
       ([''srv'', ''config'', ''b.yaml''], NFile ''x: 2'')])"
  by code_simp

theorem config_no_lost_update_witness:
  "fst (config_write (\<lambda>b. b) ex_base ''b.yaml'' ''x: 3'' (Some ''x: 1'')
      (snd (config_write (\<lambda>b. b) ex_base ''b.yaml'' ''x: 2'' (Some ''x: 1'') ex_fs)))
   = Inl (Conflict ''x: 2'')"
  using config_no_lost_update[OF ex_write, of "Some ''x: 1''" "''x: 3''"] by (simp add: ex_write)

section \<open>Dependencies\<close>

text \<open>One include: the file \<open>p\<close> names the file \<open>t\<close>.\<close>

definition names_file :: "fs \<Rightarrow> fpath \<Rightarrow> fpath \<Rightarrow> bool" where
  "names_file fs p t \<longleftrightarrow> (\<exists>raw \<in> set (file_words fs p). include_target fs p raw = Inr t)"

definition targets :: "fs \<Rightarrow> fpath \<Rightarrow> string list \<Rightarrow> fpath set" where
  "targets fs p words = {t. \<exists>raw \<in> set words. include_target fs p raw = Inr t}"

lemma targets_simps [simp]:
  "targets fs p [] = {}"
  "targets fs p (raw # words) = (case include_target fs p raw of Inr t \<Rightarrow> insert t (targets fs p words) | Inl _ \<Rightarrow> targets fs p words)"
  by (auto simp: targets_def split: sum.splits)

text \<open>What a search adds to the files seen: a set closed under includes, all of it reached from \<open>p\<close>.\<close>

definition explored :: "fs \<Rightarrow> fpath \<Rightarrow> fpath set \<Rightarrow> fpath set \<Rightarrow> bool" where
  "explored fs p V V' \<longleftrightarrow> V \<subseteq> V' \<and> (\<forall>q \<in> V' - V. (names_file fs)\<^sup>*\<^sup>* p q \<and> (\<forall>t. names_file fs q t \<longrightarrow> t \<in> V'))"

definition found :: "fs \<Rightarrow> fpath set \<Rightarrow> fpath set" where
  "found fs Q = {t. \<exists>q \<in> Q. names_file fs q t}"

lemma explored_refl: "explored fs p V V"
  by (simp add: explored_def)

lemma explored_step:
  assumes "explored fs t V V1" and "explored fs p V1 V'" and "names_file fs p t"
  shows "explored fs p V V'" and "found fs (V' - V) = found fs (V1 - V) \<union> found fs (V' - V1)"
proof -
  have sub: "V \<subseteq> V1" "V1 \<subseteq> V'" using assms by (auto simp: explored_def)
  then have split: "V' - V = (V1 - V) \<union> (V' - V1)" by auto
  have "(names_file fs)\<^sup>*\<^sup>* p q" if "q \<in> V1 - V" for q
    using that assms(1,3) by (meson converse_rtranclp_into_rtranclp explored_def)
  then show "explored fs p V V'"
    using assms sub unfolding explored_def split by blast
  show "found fs (V' - V) = found fs (V1 - V) \<union> found fs (V' - V1)"
    unfolding split found_def by blast
qed

lemma visit_explores:
  "visit n fs p st = Some (Inr st') \<Longrightarrow>
     explored fs p (set (fst st)) (set (fst st')) \<and> p \<in> set (fst st')
     \<and> set (snd st') = set (snd st) \<union> found fs (set (fst st') - set (fst st))"
  "visit_words n fs p words st = Some (Inr st') \<Longrightarrow> set words \<subseteq> set (file_words fs p) \<Longrightarrow>
     explored fs p (set (fst st)) (set (fst st')) \<and> targets fs p words \<subseteq> set (fst st')
     \<and> set (snd st') = set (snd st) \<union> targets fs p words \<union> found fs (set (fst st') - set (fst st))"
proof (induction n fs p st and n fs p words st arbitrary: st' and st' rule: visit_visit_words.induct)
  case (2 n fs p visited deps)
  show ?case
  proof (cases "p \<in> set visited")
    case True
    with "2.prems" show ?thesis by (auto simp: explored_refl found_def)
  next
    case False
    let ?V' = "set (fst st')"
    have ih: "explored fs p (insert p (set visited)) ?V'" "targets fs p (file_words fs p) \<subseteq> ?V'"
      "set (snd st') = set deps \<union> targets fs p (file_words fs p) \<union> found fs (?V' - insert p (set visited))"
      using 2 False by auto
    have tg: "targets fs p (file_words fs p) = {t. names_file fs p t}"
      by (simp add: targets_def names_file_def)
    have split: "?V' - set visited = insert p (?V' - insert p (set visited))"
      using ih(1) False by (auto simp: explored_def)
    have "explored fs p (set visited) ?V'"
      using ih(1,2) tg unfolding explored_def split by auto
    moreover have "found fs (?V' - set visited) = {t. names_file fs p t} \<union> found fs (?V' - insert p (set visited))"
      unfolding split by (auto simp: found_def)
    moreover have "p \<in> ?V'" using ih(1) by (simp add: explored_def)
    ultimately show ?thesis unfolding ih(3) tg by (simp add: Un_assoc)
  qed
next
  case (4 n fs p raw words visited deps)
  obtain t where t: "include_target fs p raw = Inr t"
    using "4.prems"(1) by (auto split: sum.splits)
  obtain st1 where st1: "visit n fs t (visited, List.insert t deps) = Some (Inr st1)"
    and st': "visit_words n fs p words st1 = Some (Inr st')"
    using "4.prems"(1) t by (auto split: option.splits sum.splits)
  have inc: "names_file fs p t" using t "4.prems"(2) by (auto simp: names_file_def)
  note ih1 = "4.IH"(1)[OF t st1, simplified]
  have "set words \<subseteq> set (file_words fs p)" using "4.prems"(2) by simp
  note ih2 = "4.IH"(2)[OF t st1 refl st' this]
  note step = explored_step[OF conjunct1[OF ih1] conjunct1[OF ih2] inc]
  have "t \<in> set (fst st')" using ih1 ih2 by (auto simp: explored_def)
  with ih1 ih2 step t show ?case by auto
qed (auto simp: explored_refl found_def)

lemma visit_error:
  "visit n fs p st = Some (Inl err) \<Longrightarrow>
     \<exists>r raw. (names_file fs)\<^sup>*\<^sup>* p r \<and> raw \<in> set (file_words fs r) \<and> include_target fs r raw = Inl err"
  "visit_words n fs p words st = Some (Inl err) \<Longrightarrow> set words \<subseteq> set (file_words fs p) \<Longrightarrow>
     \<exists>r raw. (names_file fs)\<^sup>*\<^sup>* p r \<and> raw \<in> set (file_words fs r) \<and> include_target fs r raw = Inl err"
proof (induction n fs p st and n fs p words st rule: visit_visit_words.induct)
  case (4 n fs p raw words visited deps)
  show ?case
  proof (cases "include_target fs p raw")
    case (Inl e)
    with "4.prems" show ?thesis by fastforce
  next
    case (Inr t)
    have inc: "names_file fs p t" using Inr "4.prems"(2) by (auto simp: names_file_def)
    show ?thesis
    proof (cases "visit n fs t (visited, List.insert t deps)")
      case None
      with Inr "4.prems"(1) show ?thesis by simp
    next
      case (Some r)
      show ?thesis
      proof (cases r)
        case (Inl e)
        with "4.prems"(1) Inr Some have "visit n fs t (visited, List.insert t deps) = Some (Inl err)" by simp
        with "4.IH"(1)[OF Inr] inc show ?thesis by (meson converse_rtranclp_into_rtranclp)
      next
        case (Inr st1)
        note v = \<open>include_target fs p raw = Inr t\<close> Some[unfolded Inr]
        have "visit_words n fs p words st1 = Some (Inl err)" "set words \<subseteq> set (file_words fs p)"
          using "4.prems" v by simp_all
        then show ?thesis using "4.IH"(2)[OF v refl] by blast
      qed
    qed
  qed
qed (auto split: if_splits)

definition unseen :: "fs \<Rightarrow> fpath set \<Rightarrow> nat" where
  "unseen fs V = card (fst ` set fs - V)"

lemma unseen_mono: "V \<subseteq> V' \<Longrightarrow> unseen fs V' \<le> unseen fs V"
  unfolding unseen_def by (intro card_mono) auto

lemma words_need_file: "file_words fs p \<noteq> [] \<Longrightarrow> clean fs p \<Longrightarrow> p \<in> fst ` set fs"
  by (cases "p = []")
    (auto simp: file_words_def read_text_def node_at_def is_yaml_def path_suffix_def
      split: if_splits option.splits node.splits dest!: map_of_SomeD intro: rev_image_eqI)

lemma visit_fuel:
  "unseen fs (set (fst st)) < n \<Longrightarrow> clean fs p \<Longrightarrow> visit n fs p st \<noteq> None"
  "words = [] \<or> unseen fs (set (fst st)) < n \<Longrightarrow> set words \<subseteq> set (file_words fs p) \<Longrightarrow>
     visit_words n fs p words st \<noteq> None"
proof (induction n fs p st and n fs p words st rule: visit_visit_words.induct)
  case (2 n fs p visited deps)
  show ?case
  proof (cases "p \<in> set visited \<or> file_words fs p = []")
    case True
    then show ?thesis by auto
  next
    case False
    then have "p \<in> fst ` set fs - set visited" using words_need_file[OF _ "2.prems"(2)] by blast
    then have "unseen fs (insert p (set visited)) < unseen fs (set visited)"
      unfolding unseen_def by (intro psubset_card_mono) auto
    with 2 False show ?thesis by auto
  qed
next
  case (4 n fs p raw words visited deps)
  show ?case
  proof (cases "include_target fs p raw")
    case (Inl e)
    then show ?thesis by simp
  next
    case (Inr t)
    have "clean fs t" using Inr by (auto simp: include_target_def Let_def dest: resolve_clean)
    with 4 Inr have some: "visit n fs t (visited, List.insert t deps) \<noteq> None" by auto
    show ?thesis
    proof (cases "visit n fs t (visited, List.insert t deps)")
      case None
      with some show ?thesis by simp
    next
      case (Some r)
      show ?thesis
      proof (cases r)
        case (Inl e)
        with \<open>include_target fs p raw = Inr t\<close> Some show ?thesis by simp
      next
        case (Inr st1)
        note v = \<open>include_target fs p raw = Inr t\<close> Some[unfolded Inr]
        have "set visited \<subseteq> set (fst st1)"
          using visit_explores(1)[OF v(2)] by (simp add: explored_def)
        then have "unseen fs (set (fst st1)) < n"
          using "4.prems"(1) unseen_mono[of "set visited" "set (fst st1)" fs] by simp
        with "4.IH"(2)[OF v refl] "4.prems"(2) v show ?thesis by simp
      qed
    qed
  qed
qed auto

lemma found_reached: "found fs {t. (names_file fs)\<^sup>*\<^sup>* q t} = {t. (names_file fs)\<^sup>+\<^sup>+ q t}"
proof (intro set_eqI iffI)
  fix t
  assume "t \<in> {t. (names_file fs)\<^sup>+\<^sup>+ q t}"
  then have "(names_file fs)\<^sup>+\<^sup>+ q t" by simp
  then show "t \<in> found fs {t. (names_file fs)\<^sup>*\<^sup>* q t}"
    by (cases rule: tranclp.cases) (auto simp: found_def intro: tranclp_into_rtranclp)
qed (auto simp: found_def intro: rtranclp_into_tranclp1)

text \<open>
  C12. The dependencies of a configuration are exactly the files its includes reach, directly or
  through other included files, however they refer to each other in circles; a file that is
  missing is among them. The search always ends, and it fails only when some include that is
  reached names a path that runs through a loop of links.
\<close>

theorem dependencies_exact:
  assumes "config_path base relative = Inr p" and "resolve_path fs p = Inr q"
  shows "case dependencies base relative fs of
      Inr deps \<Rightarrow> set deps = {t. (names_file fs)\<^sup>+\<^sup>+ q t}
    | Inl err \<Rightarrow> \<exists>r raw. (names_file fs)\<^sup>*\<^sup>* q r \<and> raw \<in> set (file_words fs r) \<and> include_target fs r raw = Inl err"
proof -
  let ?n = "Suc (Suc (length fs))"
  have "unseen fs {} \<le> length fs"
    unfolding unseen_def using card_image_le[of "set fs" fst] card_length[of fs] by simp
  then obtain r where r: "visit ?n fs q ([], []) = Some r"
    using visit_fuel(1)[of fs "([], [])" ?n q] resolve_clean[OF assms(2)] by force
  then have dep: "dependencies base relative fs = bindR r (\<lambda>(_, deps). Inr deps)"
    using assms by (simp add: dependencies_def)
  show ?thesis
  proof (cases r)
    case (Inl err)
    with visit_error(1)[OF r[unfolded Inl]] dep show ?thesis by simp
  next
    case (Inr st)
    note ex = visit_explores(1)[OF r[unfolded Inr], simplified]
    have reach: "t \<in> set (fst st)" if "(names_file fs)\<^sup>*\<^sup>* q t" for t
      using that ex by (induction rule: rtranclp_induct) (auto simp: explored_def)
    have seen: "set (fst st) = {t. (names_file fs)\<^sup>*\<^sup>* q t}"
    proof (intro set_eqI iffI)
      fix t
      show "t \<in> {t. (names_file fs)\<^sup>*\<^sup>* q t}" if "t \<in> set (fst st)"
        using conjunct1[OF ex] that by (simp add: explored_def)
      show "t \<in> set (fst st)" if "t \<in> {t. (names_file fs)\<^sup>*\<^sup>* q t}"
        using reach that by simp
    qed
    have "set (snd st) = found fs (set (fst st))" using ex by blast
    also have "\<dots> = {t. (names_file fs)\<^sup>+\<^sup>+ q t}" unfolding seen by (rule found_reached)
    finally have "set (snd st) = {t. (names_file fs)\<^sup>+\<^sup>+ q t}" .
    with dep Inr show ?thesis by (simp add: case_prod_beta)
  qed
qed

lemma ex_dependencies: "dependencies ex_base ''a.yaml'' ex_fs = Inr [[''srv'', ''config'', ''b.yaml'']]"
  by code_simp

lemma ex_paths:
  "config_path ex_base ''a.yaml'' = Inr [''srv'', ''config'', ''a.yaml'']"
  "resolve_path ex_fs [''srv'', ''config'', ''a.yaml''] = Inr [''srv'', ''config'', ''a.yaml'']"
  by code_simp+

theorem dependencies_exact_witness:
  "{t. (names_file ex_fs)\<^sup>+\<^sup>+ [''srv'', ''config'', ''a.yaml''] t} = {[''srv'', ''config'', ''b.yaml'']}"
  using dependencies_exact[OF ex_paths] by (simp add: ex_dependencies)

section \<open>Operations stay below the configuration directory\<close>

lemma below_iff: "below p q \<longleftrightarrow> (\<exists>r. q = p @ r)"
  by (simp add: below_def starts_with_iff)

lemma below_trans: "below p q \<Longrightarrow> below q r \<Longrightarrow> below p r"
  by (auto simp: below_iff)

lemma below_refl [simp]: "below p p"
  by (simp add: below_iff)

lemma below_take: "below p (p @ r)"
  by (simp add: below_iff)

definition config_dir :: "fpath \<Rightarrow> fpath" where
  "config_dir base = base @ [''config'']"

text \<open>An installation without links at, above or below its configuration directory.\<close>

definition plain :: "fpath \<Rightarrow> fs \<Rightarrow> bool" where
  "plain base fs \<longleftrightarrow>
     list_all (\<lambda>part. part \<notin> {[], ''.'', ''..''}) base \<and> node_at fs base = Some NDir
     \<and> list_all (\<lambda>(p, n). is_link (Some n) \<longrightarrow> \<not> below p (config_dir base) \<and> \<not> below (config_dir base) p) fs"

text \<open>What an operation may change.\<close>

definition inside :: "fpath \<Rightarrow> fs \<Rightarrow> fs \<Rightarrow> bool" where
  "inside base fs fs' \<longleftrightarrow> plain base fs' \<and> (\<forall>p. \<not> below (config_dir base) p \<longrightarrow> node_at fs' p = node_at fs p)"

lemma inside_refl: "plain base fs \<Longrightarrow> inside base fs fs"
  by (simp add: inside_def)

lemma inside_trans: "inside base fs fs1 \<Longrightarrow> inside base fs1 fs2 \<Longrightarrow> inside base fs fs2"
  by (simp add: inside_def)

lemma inside_plain: "inside base fs fs' \<Longrightarrow> plain base fs'"
  by (simp add: inside_def)

lemma base_outside: "\<not> below (config_dir base) base"
  by (auto simp: below_iff config_dir_def dest!: arg_cong[where f = length])

lemma insideI:
  assumes "plain base fs" and "\<And>p. \<not> below (config_dir base) p \<Longrightarrow> node_at fs' p = node_at fs p"
    and "\<And>p t. (p, NLink t) \<in> set fs' \<Longrightarrow> \<not> below p (config_dir base) \<and> \<not> below (config_dir base) p"
  shows "inside base fs fs'"
  using assms base_outside[of base]
  by (auto simp: inside_def plain_def list_all_iff is_link_def split: node.splits)

lemma plain_no_link:
  assumes "plain base fs" and "(p, NLink t) \<in> set fs"
  shows "\<not> below p (config_dir base)" "\<not> below (config_dir base) p"
  using assms by (force simp: plain_def list_all_iff is_link_def)+

lemma dict_set_mem: "(p, n) \<in> set (dict_set k v d) \<Longrightarrow> (p, n) \<in> set d \<or> (p = k \<and> n = v)"
  by (induction d) (auto split: if_splits)

lemma inside_set:
  assumes "plain base fs" and "below (config_dir base) q" and "\<not> is_link (Some n)"
  shows "inside base fs (dict_set q n fs)"
  using assms by (intro insideI)
    (auto simp: node_at_def map_of_dict_set is_link_def dest!: dict_set_mem dest: plain_no_link)

lemma map_of_filter_key: "P k \<Longrightarrow> map_of (filter (\<lambda>(p, n). P p) d) k = map_of d k"
  by (induction d) auto

lemma inside_remove:
  assumes "plain base fs" and "below (config_dir base) q"
  shows "inside base fs (remove_tree q fs)"
proof (rule insideI[OF assms(1)])
  fix p
  assume "\<not> below (config_dir base) p"
  then have "\<not> below q p" using assms(2) below_trans by blast
  then show "node_at (remove_tree q fs) p = node_at fs p"
    using map_of_filter_key[of "\<lambda>r. \<not> below q r" p fs] by (simp add: remove_tree_def node_at_def)
qed (use assms in \<open>auto simp: remove_tree_def dest: plain_no_link\<close>)

lemma map_of_moved:
  assumes "\<And>p n. (p, n) \<in> set d \<Longrightarrow> P p \<Longrightarrow> f p \<noteq> k" and "\<not> P k"
  shows "map_of (map (\<lambda>(p, n). (if P p then f p else p, n)) d) k = map_of d k"
  using assms(1)
proof (induction d)
  case (Cons x d)
  obtain q n where x: "x = (q, n)" by fastforce
  have "map_of (map (\<lambda>(p, n). (if P p then f p else p, n)) d) k = map_of d k"
    using Cons.prems by (intro Cons.IH) auto
  with Cons.prems[of q n] assms(2) x show ?case by auto
qed simp

lemma inside_rename:
  assumes "plain base fs" and "below (config_dir base) old" and "below (config_dir base) new"
  shows "inside base fs (rename_tree old new fs)"
proof (rule insideI[OF assms(1)])
  fix p
  assume out: "\<not> below (config_dir base) p"
  then have "\<not> below old p" "\<And>r. new @ r \<noteq> p"
    using assms(2,3) below_trans below_take by blast+
  then show "node_at (rename_tree old new fs) p = node_at fs p"
    using map_of_moved[of fs "below old" "\<lambda>r. new @ drop (length old) r" p]
    by (simp add: rename_tree_def node_at_def)
next
  fix p t
  assume "(p, NLink t) \<in> set (rename_tree old new fs)"
  then obtain q where q: "(q, NLink t) \<in> set fs" "p = (if below old q then new @ drop (length old) q else q)"
    by (auto simp: rename_tree_def)
  have "\<not> below old q" using plain_no_link(2)[OF assms(1) q(1)] assms(2) below_trans by blast
  with q plain_no_link[OF assms(1) q(1)] show "\<not> below p (config_dir base) \<and> \<not> below (config_dir base) p" by simp
qed

lemma inside_copy:
  assumes "plain base fs" and "below (config_dir base) old" and "below (config_dir base) new"
  shows "inside base fs (copy_tree old new fs)"
proof (rule insideI[OF assms(1)])
  fix p
  assume out: "\<not> below (config_dir base) p"
  let ?copied = "map (\<lambda>(p, n). (new @ drop (length old) p, n)) (filter (\<lambda>(p, n). below old p) fs)"
  have "p \<notin> fst ` set ?copied" using out assms(3) below_trans below_take by (force simp: image_iff)
  then have "map_of ?copied p = None" by (simp add: map_of_eq_None_iff)
  then have "map_of (fs @ ?copied) p = map_of fs p" by (auto simp: map_of_append map_add_def split: option.splits)
  then show "node_at (copy_tree old new fs) p = node_at fs p" by (simp add: node_at_def copy_tree_def)
next
  fix p t
  assume "(p, NLink t) \<in> set (copy_tree old new fs)"
  then consider "(p, NLink t) \<in> set fs" | q where "(q, NLink t) \<in> set fs" "below old q"
    by (auto simp: copy_tree_def)
  then show "\<not> below p (config_dir base) \<and> \<not> below (config_dir base) p"
  proof cases
    case 2
    then have "below (config_dir base) q" using assms(2) below_trans by blast
    with plain_no_link(2)[OF assms(1) 2(1)] show ?thesis by simp
  qed (use plain_no_link[OF assms(1)] in blast)
qed

text \<open>Paths the repositories accept lie below the directory and need no resolution.\<close>

definition managed :: "fpath \<Rightarrow> fpath \<Rightarrow> bool" where
  "managed base p \<longleftrightarrow> (\<exists>parts. p = config_dir base @ parts \<and> list_all (\<lambda>part. part \<notin> {[], ''.'', ''..''}) parts)"

lemma managed_below: "managed base p \<Longrightarrow> below (config_dir base) p"
  by (auto simp: managed_def below_iff)

lemma managed_butlast:
  assumes "managed base p"
  shows "managed base (butlast p) \<or> butlast p = base"
proof -
  obtain parts where p: "p = config_dir base @ parts" "list_all (\<lambda>part. part \<notin> {[], ''.'', ''..''}) parts"
    using assms by (auto simp: managed_def)
  then have "list_all (\<lambda>part. part \<notin> {[], ''.'', ''..''}) (butlast parts)"
    unfolding list_all_iff by (blast dest: in_set_butlastD)
  with p show ?thesis
    by (cases "parts = []") (auto simp: managed_def config_dir_def butlast_append)
qed

lemma managed_clean:
  assumes "plain base fs" and "managed base p"
  shows "clean fs p"
proof -
  obtain parts where p: "p = base @ [''config''] @ parts" "list_all (\<lambda>part. part \<notin> {[], ''.'', ''..''}) parts"
    using assms(2) by (auto simp: managed_def config_dir_def)
  have names: "part \<notin> {[], ''.'', ''..''}" if "part \<in> set p" for part
    using that p assms(1) by (auto simp: plain_def list_all_iff)
  have nolink: "\<not> is_link (node_at fs q)" if "q = take k p" for q k
  proof
    assume "is_link (node_at fs q)"
    then obtain t where "map_of fs q = Some (NLink t)"
      by (auto simp: is_link_def node_at_def split: if_splits option.splits node.splits)
    then have link: "\<not> below q (config_dir base)" "\<not> below (config_dir base) q"
      using plain_no_link[OF assms(1)] map_of_SomeD by fast+
    show False
    proof (cases "k \<le> length (config_dir base)")
      case True
      then have "q = take k (config_dir base)" using that p take_append[of k "config_dir base" parts] by (simp add: config_dir_def)
      then have "config_dir base = q @ drop k (config_dir base)" by simp
      with link(1) show False unfolding below_iff by blast
    next
      case False
      then have "q = config_dir base @ take (k - length (config_dir base)) parts"
        using that p(1) take_append[of k "config_dir base" parts] by (simp add: config_dir_def)
      with link(2) show False unfolding below_iff by blast
    qed
  qed
  show ?thesis unfolding clean_def using names nolink by (metis nth_mem)
qed

lemma config_path_managed:
  assumes "config_path (config_dir base) relative = Inr p"
  shows "managed base p" "managed base (butlast p)"
proof -
  let ?parts = "parts_of (parse_path relative)"
  have p: "p = config_dir base @ ?parts" "list_all (\<lambda>part. part \<notin> {[], ''.'', ''..''}) ?parts"
    "path_suffix p \<in> set CONFIG_SUFFIXES"
    using assms by (auto simp: config_path_def Let_def list_all_iff list_ex_iff split: if_splits)
  have "?parts \<noteq> []"
  proof
    assume "?parts = []"
    then have "last p = ''config''" "p \<noteq> []" using p(1) by (simp_all add: config_dir_def)
    then have "path_suffix p = []" by (simp add: path_suffix_def name_suffix_def py_lower_def Let_def)
    with p(3) show False by (simp add: CONFIG_SUFFIXES_def)
  qed
  then have "butlast p = config_dir base @ butlast ?parts" using p(1) by (simp add: butlast_append)
  with p show "managed base p" "managed base (butlast p)"
    by (auto simp: managed_def list_all_iff dest: in_set_butlastD)
qed

lemma workspace_path_managed:
  assumes "workspace_path base relative False = Inr p"
  shows "managed base p" "managed base (butlast p)"
proof -
  let ?parts = "parts_of (parse_path (replace_char BACKSLASH ''/'' relative))"
  have p: "p = base @ ?parts" "list_all (\<lambda>part. part \<notin> {[], ''.'', ''..''}) ?parts"
    "?parts \<noteq> []" "?parts ! 0 = ''config''" "length ?parts \<noteq> 1"
    using assms by (auto simp: workspace_path_def Let_def list_all_iff list_ex_iff split: if_splits)
  then obtain rest where rest: "?parts = ''config'' # rest" "rest \<noteq> []"
    by (cases ?parts) auto
  then have "butlast p = config_dir base @ butlast rest" "p = config_dir base @ rest"
    using p(1) by (simp_all add: config_dir_def butlast_append)
  with p(2) rest show "managed base p" "managed base (butlast p)"
    by (auto simp: managed_def list_all_iff dest: in_set_butlastD)
qed

lemma mkdir_inside:
  "mkdir_parents p fs = Inr fs' \<Longrightarrow> plain base fs \<Longrightarrow> managed base p \<or> p = base \<Longrightarrow> inside base fs fs'"
proof (induction p fs arbitrary: fs' rule: mkdir_parents.induct)
  case (1 p fs)
  have base_clean: "clean fs base" using managed_clean[OF "1.prems"(2), of "config_dir base"] clean_append
    by (auto simp: managed_def config_dir_def)
  show ?case
  proof (cases "stat_node fs p")
    case (Some n)
    with "1.prems" show ?thesis by (simp add: mkdir_parents.simps[of p] inside_refl split: node.splits)
  next
    case None
    then have "p \<noteq> base" using "1.prems"(2) base_clean by (auto simp: plain_def stat_clean)
    with "1.prems"(3) have m: "managed base p" by simp
    have up: "managed base (butlast p) \<or> butlast p = base" by (rule managed_butlast[OF m])
    have ne: "p \<noteq> []" using m by (auto simp: managed_def config_dir_def)
    obtain fs1 q where fs1: "mkdir_parents (butlast p) fs = Inr fs1" "entry_of fs1 p = Inr q" "fs' = dict_set q NDir fs1"
      and cond: "\<not> path_is_symlink fs p" "\<not> path_is_file fs (butlast p)"
      using "1.prems"(1) None ne
      by (auto simp: mkdir_parents.simps[of p] bindR_Inr_iff split: if_splits)
    have in1: "inside base fs fs1"
      by (rule "1.IH"[OF None ne cond fs1(1) "1.prems"(2) up])
    then have pl: "plain base fs1" by (rule inside_plain)
    have "q = p" using fs1(2) entry_clean[OF managed_clean[OF pl m]] by simp
    then have "inside base fs1 fs'"
      using inside_set[OF pl managed_below[OF m], of NDir] fs1(3) by (simp add: is_link_def)
    with in1 show ?thesis by (rule inside_trans)
  qed
qed

subsection \<open>One operation\<close>

lemma replace_inside:
  assumes "plain base fs" and "managed base p" and "managed base (butlast p)"
  shows "inside base fs (snd (replace_file p content fs))"
proof (cases "mkdir_parents (butlast p) fs")
  case (Inl err)
  with assms(1) show ?thesis by (simp add: replace_file_def inside_refl)
next
  case (Inr fs1)
  have in1: "inside base fs fs1" using mkdir_inside[OF Inr assms(1)] assms(3) by simp
  have pl: "plain base fs1" using in1 by (rule inside_plain)
  have "inside base fs1 (dict_set p (NFile content) fs1)"
    by (rule inside_set[OF pl managed_below[OF assms(2)]]) (simp add: is_link_def)
  with in1 Inr entry_clean[OF managed_clean[OF pl assms(2)]] show ?thesis
    by (simp add: replace_file_def inside_trans)
qed

lemma rename_entry_inside:
  assumes "plain base fs" and "managed base old" and "managed base new" and "managed base (butlast new)"
  shows "inside base fs (snd (rename_entry old new fs))"
proof (cases "mkdir_parents (butlast new) fs")
  case (Inl err)
  with assms(1) show ?thesis by (simp add: rename_entry_def inside_refl)
next
  case (Inr fs1)
  have in1: "inside base fs fs1" using mkdir_inside[OF Inr assms(1)] assms(4) by simp
  have pl: "plain base fs1" using in1 by (rule inside_plain)
  have in2: "inside base fs1 (remove_tree new fs1)" by (rule inside_remove[OF pl managed_below[OF assms(3)]])
  have in3: "inside base (remove_tree new fs1) (rename_tree old new (remove_tree new fs1))"
    by (rule inside_rename[OF inside_plain[OF in2] managed_below[OF assms(2)] managed_below[OF assms(3)]])
  show ?thesis
    using Inr in1 inside_trans[OF in1 inside_trans[OF in2 in3]]
      entry_clean[OF managed_clean[OF pl assms(2)]] entry_clean[OF managed_clean[OF pl assms(3)]]
    by (simp add: rename_entry_def)
qed

lemma unlink_inside:
  assumes "plain base fs" and "managed base p"
  shows "inside base fs (snd (unlink_entry p fs))"
  using inside_remove[OF assms(1) managed_below[OF assms(2)]] entry_clean[OF managed_clean[OF assms]]
  by (simp add: unlink_entry_def)

lemma inside_bind:
  assumes "inside base fs (snd (f fs))" and "\<And>a fs1. f fs = (Inr a, fs1) \<Longrightarrow> inside base fs fs1 \<Longrightarrow> inside base fs (snd (g a fs1))"
  shows "inside base fs (snd (bindS f g fs))"
  using assms by (cases "f fs"; cases "fst (f fs)") (auto simp: bindS_def)

text \<open>The state-changing operations of both repositories.\<close>

datatype file_op =
    Config_write string string "string option"
  | Config_move string string string
  | Config_delete string string
  | Workspace_write string string "string option"
  | Make_directory string
  | Workspace_move string string
  | Workspace_copy string string
  | Workspace_delete string

fun file_op_run :: "(string \<Rightarrow> string) \<Rightarrow> fpath \<Rightarrow> file_op \<Rightarrow> fs \<Rightarrow> fs" where
  "file_op_run sha base (Config_write r c v) fs = snd (config_write sha (config_dir base) r c v fs)"
| "file_op_run sha base (Config_move s t v) fs = snd (config_move sha (config_dir base) s t v fs)"
| "file_op_run sha base (Config_delete r v) fs = snd (config_delete sha (config_dir base) r v fs)"
| "file_op_run sha base (Workspace_write r c v) fs = snd (workspace_write sha base r c v fs)"
| "file_op_run sha base (Make_directory r) fs = snd (create_directory base r fs)"
| "file_op_run sha base (Workspace_move s t) fs = snd (workspace_move base s t fs)"
| "file_op_run sha base (Workspace_copy s t) fs = snd (workspace_copy base s t fs)"
| "file_op_run sha base (Workspace_delete r) fs = snd (workspace_delete base r fs)"

lemma config_write_inside:
  assumes "plain base fs"
  shows "inside base fs (snd (config_write sha (config_dir base) r c v fs))"
proof (cases "config_path (config_dir base) r")
  case (Inl err)
  with assms show ?thesis by (simp add: config_write_def inside_refl)
next
  case (Inr p)
  note m = config_path_managed[OF Inr]
  have nolink: "\<not> path_is_symlink fs p" by (rule symlink_clean[OF managed_clean[OF assms m(1)]])
  have "inside base fs (snd (bindS (replace_file p c) (\<lambda>_ fs'. (config_read sha (config_dir base) r fs', fs')) fs))"
    by (intro inside_bind replace_inside assms m) simp
  with Inr nolink assms show ?thesis by (simp add: config_write_def inside_refl split: sum.split)
qed

lemma workspace_write_inside:
  assumes "plain base fs"
  shows "inside base fs (snd (workspace_write sha base r c v fs))"
proof (cases "workspace_path base r False")
  case (Inl err)
  with assms show ?thesis by (simp add: workspace_write_def inside_refl)
next
  case (Inr p)
  note m = workspace_path_managed[OF Inr]
  have nolink: "\<not> path_is_symlink fs p" by (rule symlink_clean[OF managed_clean[OF assms m(1)]])
  have w: "inside base fs (snd (bindS (replace_file p c) (\<lambda>_ fs'. (workspace_read sha base r fs', fs')) fs))"
    by (intro inside_bind replace_inside assms m) simp
  show ?thesis
    unfolding workspace_write_def Inr using nolink w inside_refl[OF assms]
    by (auto simp: bindR_def split: sum.splits if_splits)
qed

lemma config_delete_inside:
  assumes "plain base fs"
  shows "inside base fs (snd (config_delete sha (config_dir base) r v fs))"
proof (cases "config_path (config_dir base) r")
  case (Inl err)
  with assms show ?thesis by (simp add: config_delete_def inside_refl)
next
  case (Inr p)
  note m = config_path_managed[OF Inr]
  have "inside base fs (remove_tree p fs)" by (rule inside_remove[OF assms managed_below[OF m(1)]])
  then show ?thesis
    unfolding config_delete_def Inr using entry_clean[OF managed_clean[OF assms m(1)]] inside_refl[OF assms]
    by (auto simp: bindR_def split: sum.splits if_splits)
qed

lemma config_move_inside:
  assumes "plain base fs"
  shows "inside base fs (snd (config_move sha (config_dir base) s t v fs))"
proof (cases "config_path (config_dir base) s")
  case (Inl err)
  with assms show ?thesis by (simp add: config_move_def inside_refl)
next
  case (Inr p)
  note ps = Inr
  show ?thesis
  proof (cases "config_path (config_dir base) t")
    case (Inl err)
    with ps assms show ?thesis by (simp add: config_move_def inside_refl)
  next
    case (Inr q)
    note m = config_path_managed[OF ps] config_path_managed[OF Inr]
    have r: "inside base fs (snd (bindS (rename_entry p q) (\<lambda>_ fs'. (config_read sha (config_dir base) t fs', fs')) fs))"
      by (intro inside_bind rename_entry_inside assms m) simp
    have w: "inside base fs (snd (bindS (replace_file q c) (\<lambda>_. bindS (unlink_entry p)
        (\<lambda>_ fs'. (config_read sha (config_dir base) t fs', fs'))) fs))" for c
    proof (rule inside_bind)
      fix u fs1
      assume in1: "inside base fs fs1"
      have "inside base fs1 (snd (bindS (unlink_entry p) (\<lambda>_ fs'. (config_read sha (config_dir base) t fs', fs')) fs1))"
        by (intro inside_bind unlink_inside inside_plain[OF in1] m(1)) simp
      with in1 show "inside base fs (snd (bindS (unlink_entry p) (\<lambda>_ fs'. (config_read sha (config_dir base) t fs', fs')) fs1))"
        by (rule inside_trans)
    qed (rule replace_inside[OF assms m(3,4)])
    show ?thesis
      unfolding config_move_def Let_def ps Inr using r w inside_refl[OF assms]
      by (simp split: sum.split)
  qed
qed

lemma transfer_managed:
  assumes "transfer_paths verb base s t fs = Inr (old, new)"
  shows "managed base old" "managed base new" "managed base (butlast new)"
  using assms workspace_path_managed[of base s old] workspace_path_managed[of base t new]
  by (auto simp: transfer_paths_def bindR_Inr_iff split: if_splits)

lemma workspace_copy_inside:
  assumes "plain base fs"
  shows "inside base fs (snd (workspace_copy base s t fs))"
proof (cases "transfer_paths ''copy'' base s t fs")
  case (Inl err)
  with assms show ?thesis by (simp add: workspace_copy_def inside_refl)
next
  case (Inr pair)
  obtain old new where "pair = (old, new)" by fastforce
  note t = Inr[unfolded this]
  note m = transfer_managed[OF t]
  show ?thesis
  proof (cases "mkdir_parents (butlast new) fs")
    case (Inl err)
    with t assms show ?thesis by (simp add: workspace_copy_def inside_refl)
  next
    case (Inr fs1)
    have in1: "inside base fs fs1" using mkdir_inside[OF Inr assms] m(3) by simp
    note pl = inside_plain[OF in1]
    have "inside base fs1 (copy_tree old new fs1)" by (rule inside_copy[OF pl managed_below[OF m(1)] managed_below[OF m(2)]])
    with in1 have "inside base fs (copy_tree old new fs1)" by (rule inside_trans)
    with t Inr entry_clean[OF managed_clean[OF pl m(1)]] entry_clean[OF managed_clean[OF pl m(2)]] show ?thesis
      by (simp add: workspace_copy_def)
  qed
qed

lemma file_op_inside:
  assumes "plain base fs"
  shows "inside base fs (file_op_run sha base op fs)"
proof (cases op)
  case (Make_directory r)
  show ?thesis
  proof (cases "workspace_path base r False")
    case (Inl err)
    with Make_directory assms show ?thesis by (simp add: create_directory_def inside_refl)
  next
    case (Inr p)
    note m = workspace_path_managed[OF Inr]
    have "inside base fs (dict_set p NDir fs)"
      by (rule inside_set[OF assms managed_below[OF m(1)]]) (simp add: is_link_def)
    with Make_directory Inr assms entry_clean[OF managed_clean[OF assms m(1)]] show ?thesis
      by (simp add: create_directory_def inside_refl)
  qed
next
  case (Workspace_move s t)
  with assms show ?thesis
    by (auto simp: workspace_move_def inside_refl intro!: rename_entry_inside dest: transfer_managed split: sum.splits)
next
  case (Workspace_delete r)
  with assms show ?thesis
    by (auto simp: workspace_delete_def inside_refl intro!: unlink_inside dest: workspace_path_managed split: sum.splits)
qed (use assms in \<open>simp_all add: config_write_inside config_move_inside config_delete_inside workspace_write_inside
      workspace_copy_inside\<close>)

subsection \<open>Sequences of operations\<close>

text \<open>An operation that keeps to a region, and what follows for every sequence of them.\<close>

locale confined =
  fixes ok :: "'s \<Rightarrow> bool" and outside :: "'s \<Rightarrow> 'v" and run :: "'op \<Rightarrow> 's \<Rightarrow> 's"
  assumes keeps: "ok s \<Longrightarrow> ok (run op s)"
    and frame: "ok s \<Longrightarrow> outside (run op s) = outside s"
begin

lemma runs:
  assumes "ok s"
  shows "ok (fold run ops s) \<and> outside (fold run ops s) = outside s"
  using assms
proof (induction ops arbitrary: s)
  case (Cons op ops)
  with keeps[of s op] frame[of s op] show ?case by simp
qed simp

end

text \<open>What a file system holds outside the configuration directory.\<close>

definition elsewhere :: "fpath \<Rightarrow> fs \<Rightarrow> fpath \<Rightarrow> node option" where
  "elsewhere base fs p = (if below (config_dir base) p then None else node_at fs p)"

interpretation files: confined "plain base" "elsewhere base" "file_op_run sha base" for base sha
  using file_op_inside by unfold_locales (auto simp: inside_def elsewhere_def fun_eq_iff)

text \<open>
  C11. Containment. On an installation without symbolic links around its configuration
  directory, no sequence of operations of the two repositories, whatever paths, contents and
  versions a client sends, changes, creates or removes anything outside that directory.
\<close>

theorem workspace_contained:
  assumes "plain base fs" and "\<not> below (config_dir base) p"
  shows "node_at (fold (file_op_run sha base) ops fs) p = node_at fs p"
proof -
  have "elsewhere base (fold (file_op_run sha base) ops fs) p = elsewhere base fs p"
    using files.runs[OF assms(1)] by (simp add: fun_eq_iff)
  with assms(2) show ?thesis by (simp add: elsewhere_def)
qed

lemma ex_plain: "plain [''srv''] ex_fs"
  by code_simp

lemma ex_moved:
  "node_at (fold (file_op_run (\<lambda>b. b) [''srv'']) [Workspace_move ''config/b.yaml'' ''config/d/c.yaml'', Workspace_delete ''../x''] ex_fs)
     [''srv'', ''config'', ''d'', ''c.yaml''] = Some (NFile ''x: 1'')"
  by code_simp

theorem workspace_contained_witness:
  "node_at (fold (file_op_run (\<lambda>b. b) [''srv'']) [Workspace_move ''config/b.yaml'' ''config/d/c.yaml'', Workspace_delete ''../x''] ex_fs)
     [''srv''] = Some NDir"
proof -
  have "\<not> below (config_dir [''srv'']) [''srv'']" "node_at ex_fs [''srv''] = Some NDir" by code_simp+
  then show ?thesis using workspace_contained[OF ex_plain] by metis
qed

section \<open>The configuration files as a versioned store\<close>

text \<open>
  The abstract component: a map from paths to texts in which a text is replaced or removed only
  by a client that names its current version.
\<close>

type_synonym texts = "fpath \<Rightarrow> string option"

definition store_put :: "(string \<Rightarrow> string) \<Rightarrow> fpath \<Rightarrow> string \<Rightarrow> string option \<Rightarrow> texts \<Rightarrow> string + texts" where
  "store_put sha p content expected m =
     (case m p of
        None \<Rightarrow> if expected = None \<or> expected = Some ''*'' then Inr (m(p \<mapsto> content)) else Inl ''missing''
      | Some old \<Rightarrow> if expected = Some (file_version sha old) then Inr (m(p \<mapsto> content)) else Inl (file_version sha old))"

definition store_remove :: "(string \<Rightarrow> string) \<Rightarrow> fpath \<Rightarrow> string \<Rightarrow> texts \<Rightarrow> (string + texts) option" where
  "store_remove sha p expected m =
     map_option (\<lambda>old. if expected = file_version sha old then Inr (m(p := None)) else Inl (file_version sha old)) (m p)"

text \<open>The texts a file system holds, as they are read.\<close>

definition texts_of :: "fs \<Rightarrow> texts" where
  "texts_of fs p = (case node_at fs p of Some (NFile c) \<Rightarrow> Some (universal_newlines c) | _ \<Rightarrow> None)"

text \<open>
  Where a path leads depends only on the links: file systems with the same links resolve every
  path alike.
\<close>

definition same_links :: "fs \<Rightarrow> fs \<Rightarrow> bool" where
  "same_links fs fs' \<longleftrightarrow> (\<forall>r t. node_at fs' r = Some (NLink t) \<longleftrightarrow> node_at fs r = Some (NLink t))"

lemma same_links_refl [simp]: "same_links fs fs"
  by (simp add: same_links_def)

lemma same_links_trans: "same_links fs fs1 \<Longrightarrow> same_links fs1 fs2 \<Longrightarrow> same_links fs fs2"
  by (simp add: same_links_def)

lemma same_links_set:
  "q \<noteq> [] \<Longrightarrow> \<not> is_link (node_at fs q) \<Longrightarrow> \<not> is_link (Some n) \<Longrightarrow> same_links fs (dict_set q n fs)"
  by (auto simp: same_links_def node_at_def map_of_dict_set is_link_def)

lemma walk_step:
  "p \<notin> {[], ''.'', ''..''} \<Longrightarrow> \<not> is_link (node_at fs (cur @ [p])) \<Longrightarrow> walk n fs cur (p # ps) = walk n fs (cur @ [p]) ps"
  by (auto simp: is_link_def split: option.splits node.splits)

lemma walk_link:
  "p \<notin> {[], ''.'', ''..''} \<Longrightarrow> node_at fs (cur @ [p]) = Some (NLink t) \<Longrightarrow>
     walk n fs cur (p # ps) = (if n = 0 then Inl (RuntimeError ''Symlink loop'')
       else walk (n - 1) fs (if is_absolute t then [] else cur) (parts_of t @ ps))"
  by simp

lemma is_link_iff: "is_link n \<longleftrightarrow> (\<exists>t. n = Some (NLink t))"
  by (auto simp: is_link_def split: option.splits node.splits)

lemma same_links_is: "same_links fs fs' \<Longrightarrow> is_link (node_at fs' r) = is_link (node_at fs r)"
  by (simp add: same_links_def is_link_iff)

lemma walk_same: "same_links fs fs' \<Longrightarrow> walk n fs' cur ps = walk n fs cur ps"
proof (induction n fs cur ps rule: walk.induct)
  case (2 n fs cur p ps)
  show ?case
  proof (cases "p = [] \<or> p = ''.'' \<or> p = ''..''")
    case True
    with 2 show ?thesis by auto
  next
    case name: False
    show ?thesis
    proof (cases "is_link (node_at fs (cur @ [p]))")
      case True
      then obtain t where t: "node_at fs (cur @ [p]) = Some (NLink t)" by (auto simp: is_link_iff)
      with "2.prems" have "node_at fs' (cur @ [p]) = Some (NLink t)" by (simp add: same_links_def)
      with t name 2 show ?thesis by simp
    next
      case False
      then have "walk n fs' (cur @ [p]) ps = walk n fs (cur @ [p]) ps"
        using name 2 by (auto simp: is_link_def split: option.splits node.splits)
      with name False same_links_is[OF "2.prems", of "cur @ [p]"] show ?thesis
        by (simp add: walk_step del: walk.simps(2))
    qed
  qed
qed simp

lemma resolve_same: "same_links fs fs' \<Longrightarrow> resolve_path fs' p = resolve_path fs p"
  by (simp add: resolve_path_def walk_same)

lemma entry_same: "same_links fs fs' \<Longrightarrow> entry_of fs' p = entry_of fs p"
  by (simp add: entry_of_def resolve_same)

text \<open>Walking a path walks its parent first; the last name is then kept, or followed when it is a link.\<close>

lemma walk_snoc:
  "walk n fs cur (ps @ [a]) = Inr q \<Longrightarrow> \<exists>c. walk n fs cur ps = Inr c"
  "walk n fs cur ps = Inr c \<Longrightarrow> a \<notin> {[], ''.'', ''..''} \<Longrightarrow> \<not> is_link (node_at fs (c @ [a])) \<Longrightarrow>
     walk n fs cur (ps @ [a]) = Inr (c @ [a])"
proof (induction n fs cur ps rule: walk.induct)
  case (1 n fs cur)
  {
    case 1
    show ?case by simp
  next
    case 2
    then show ?case by (simp add: walk_step del: walk.simps(2))
  }
next
  case (2 n fs cur p ps)
  {
    case 1
    with 2 show ?case by (auto split: if_splits option.splits node.splits)
  next
    case 2
    with "2.IH" show ?case by (auto split: if_splits option.splits node.splits)
  }
qed

text \<open>The names of a path are proper names; \<open>Settings\<close> and \<open>_path\<close> make only such paths.\<close>

definition proper :: "fpath \<Rightarrow> bool" where
  "proper p \<longleftrightarrow> list_all (\<lambda>a. a \<notin> {[], ''.'', ''..''}) p"

lemma proper_snoc: "proper (p @ [a]) \<longleftrightarrow> proper p \<and> a \<notin> {[], ''.'', ''..''}"
  by (auto simp: proper_def)

lemma proper_butlast: "proper p \<Longrightarrow> proper (butlast p)"
  by (cases p rule: rev_cases) (simp_all add: proper_snoc)

lemma clean_proper: "clean fs p \<Longrightarrow> proper p"
  by (induction p rule: rev_induct) (simp_all add: clean_snoc proper_snoc, simp add: proper_def)

lemma symlink_entry: "entry_of fs p = Inr q \<Longrightarrow> path_is_symlink fs p \<longleftrightarrow> is_link (node_at fs q)"
  by (simp add: path_is_symlink_def is_link_def)

lemma resolve_entry:
  assumes "entry_of fs p = Inr q" and "proper p" and "\<not> path_is_symlink fs p"
  shows "resolve_path fs p = Inr q"
proof (cases p rule: rev_cases)
  case Nil
  with assms(1) show ?thesis by (simp add: entry_of_def resolve_path_def)
next
  case (snoc ps a)
  with assms show ?thesis
    using walk_snoc(2)[of 40 fs "[]" ps _ a] symlink_entry[OF assms(1)]
    by (auto simp: entry_of_def resolve_path_def bindR_Inr_iff proper_snoc)
qed

lemma entry_exists: "resolve_path fs p = Inr q \<Longrightarrow> \<exists>e. entry_of fs p = Inr e"
  using walk_snoc(1)[of 40 fs "[]" "butlast p" "last p"]
  by (cases "p = []") (auto simp: entry_of_def resolve_path_def)

lemma resolved_entry:
  assumes "resolve_path fs p = Inr q" and "proper p" and "\<not> path_is_symlink fs p"
  shows "entry_of fs p = Inr q"
  using entry_exists[OF assms(1)] resolve_entry[OF _ assms(2,3)] assms(1) by auto

lemma texts_set_dir: "q \<noteq> [] \<Longrightarrow> texts_of fs q = None \<Longrightarrow> texts_of (dict_set q NDir fs) = texts_of fs"
  by (auto simp: fun_eq_iff texts_of_def node_at_def map_of_dict_set)

lemma texts_set_file: "q \<noteq> [] \<Longrightarrow> texts_of (dict_set q (NFile c) fs) = (texts_of fs)(q \<mapsto> universal_newlines c)"
  by (auto simp: fun_eq_iff texts_of_def node_at_def map_of_dict_set)

lemma mkdir_texts: "mkdir_parents p fs = Inr fs' \<Longrightarrow> proper p \<Longrightarrow> same_links fs fs' \<and> texts_of fs' = texts_of fs"
proof (induction p fs arbitrary: fs' rule: mkdir_parents.induct)
  case (1 p fs)
  show ?case
  proof (cases "stat_node fs p")
    case (Some n)
    with "1.prems"(1) show ?thesis by (simp add: mkdir_parents.simps[of p] split: node.splits)
  next
    case None
    show ?thesis
    proof (cases "p = []")
      case True
      with None show ?thesis by (simp add: stat_node_def resolve_path_def node_at_def)
    next
      case ne: False
      with None "1.prems"(1) obtain fs1 q where cond: "\<not> path_is_symlink fs p" "\<not> path_is_file fs (butlast p)"
          and fs1: "mkdir_parents (butlast p) fs = Inr fs1" "entry_of fs1 p = Inr q" "fs' = dict_set q NDir fs1"
        by (auto simp: mkdir_parents.simps[of p] bindR_Inr_iff split: if_splits)
      have ih: "same_links fs fs1" "texts_of fs1 = texts_of fs"
        using "1.IH"[OF None ne cond fs1(1)] proper_butlast[OF "1.prems"(2)] by simp_all
      have q: "entry_of fs p = Inr q" using fs1(2) entry_same[OF ih(1)] by simp
      have qne: "q \<noteq> []" using q ne by (auto simp: entry_of_def bindR_Inr_iff)
      have "node_at fs q = None" using None resolve_entry[OF q "1.prems"(2) cond(1)] by (simp add: stat_node_def)
      then have "texts_of fs1 q = None" "\<not> is_link (node_at fs1 q)"
        using ih same_links_is[OF ih(1), of q] by (simp_all add: texts_of_def[of fs] is_link_def)
      then show ?thesis
        using ih qne same_links_trans[OF ih(1) same_links_set[OF qne, of fs1 NDir]]
        by (simp add: fs1(3) texts_set_dir is_link_def)
    qed
  qed
qed

lemma replace_texts:
  assumes "replace_file p content fs = (res, fs')" and "resolve_path fs p = Inr q" and "proper p" and "p \<noteq> []"
    and "\<not> path_is_symlink fs p"
  shows "case res of
      Inr _ \<Rightarrow> texts_of fs' = (texts_of fs)(q \<mapsto> universal_newlines content) \<and> node_at fs' q = Some (NFile content) \<and> same_links fs fs'
    | Inl _ \<Rightarrow> texts_of fs' = texts_of fs"
proof (cases "mkdir_parents (butlast p) fs")
  case (Inl err)
  with assms(1) show ?thesis by (auto simp: replace_file_def)
next
  case (Inr fs1)
  note same = mkdir_texts[OF Inr proper_butlast[OF assms(3)]]
  note q = resolved_entry[OF assms(2,3,5)]
  have qne: "q \<noteq> []" using q assms(4) by (auto simp: entry_of_def bindR_Inr_iff)
  have "\<not> is_link (node_at fs1 q)"
    using symlink_entry[OF q] assms(5) same_links_is[of fs fs1 q] same by simp
  then have links: "same_links fs (dict_set q (NFile content) fs1)"
    using same_links_trans[OF conjunct1[OF same] same_links_set[OF qne]] by (simp add: is_link_iff)
  have "node_at (dict_set q (NFile content) fs1) q = Some (NFile content)"
    by (simp add: node_at_def map_of_dict_set qne)
  with assms(1) Inr q same links show ?thesis
    by (auto simp: replace_file_def entry_same texts_set_file[OF qne] split: if_splits)
qed

text \<open>Every entry lies in directories.\<close>

definition leaves :: "fs \<Rightarrow> bool" where
  "leaves fs \<longleftrightarrow> list_all (\<lambda>(q, n). \<forall>k < length q. k > 0 \<longrightarrow> map_of fs (take k q) = Some NDir) fs"

lemma leaves_below:
  assumes "leaves fs" and "(q, n) \<in> set fs" and "below p q" and "node_at fs p \<noteq> Some NDir"
  shows "q = p"
proof (rule ccontr)
  assume "q \<noteq> p"
  with assms(3) obtain r where q: "q = p @ r" "r \<noteq> []" by (auto simp: below_iff)
  have "p \<noteq> []" using assms(4) by (auto simp: node_at_def)
  moreover have "\<forall>k < length q. k > 0 \<longrightarrow> map_of fs (take k q) = Some NDir"
    using assms(1,2) unfolding leaves_def list_all_iff by blast
  ultimately have "map_of fs p = Some NDir" using q by (auto dest: spec[where x = "length p"])
  with assms(4) \<open>p \<noteq> []\<close> show False by (simp add: node_at_def)
qed

lemma remove_texts:
  assumes "leaves fs" and "node_at fs p \<noteq> Some NDir"
  shows "texts_of (remove_tree p fs) = (texts_of fs)(p := None)" and "node_at (remove_tree p fs) p = None"
proof -
  have ne: "p \<noteq> []" using assms(2) by (auto simp: node_at_def)
  have gone: "below p r \<Longrightarrow> map_of (remove_tree p fs) r = None" for r
    by (auto simp: remove_tree_def map_of_eq_None_iff)
  then show "node_at (remove_tree p fs) p = None" using ne by (simp add: node_at_def)
  show "texts_of (remove_tree p fs) = (texts_of fs)(p := None)"
  proof
    fix r
    show "texts_of (remove_tree p fs) r = ((texts_of fs)(p := None)) r"
    proof (cases "below p r")
      case True
      have "r \<noteq> p \<Longrightarrow> map_of fs r = None"
        using leaves_below[OF assms(1) _ True assms(2)] by (metis map_of_SomeD option.exhaust)
      moreover have "r \<noteq> []" using True ne by (auto simp: below_iff)
      ultimately show ?thesis using gone[OF True] by (auto simp: texts_of_def node_at_def)
    next
      case False
      then have "map_of (remove_tree p fs) r = map_of fs r"
        using map_of_filter_key[of "\<lambda>q. \<not> below p q" r fs] by (simp add: remove_tree_def)
      moreover have "r \<noteq> p" using False by auto
      ultimately show ?thesis by (simp add: texts_of_def node_at_def)
    qed
  qed
qed

lemma walk_error: "walk n fs cur ps = Inl err \<Longrightarrow> err = RuntimeError ''Symlink loop''"
proof (induction n fs cur ps rule: walk.induct)
  case (2 n fs cur p ps)
  show ?case
  proof (cases "p = [] \<or> p = ''.'' \<or> p = ''..''")
    case True
    with 2 show ?thesis by (auto split: if_splits)
  next
    case False
    show ?thesis
    proof (cases "is_link (node_at fs (cur @ [p]))")
      case True
      then obtain t where t: "node_at fs (cur @ [p]) = Some (NLink t)"
        by (auto simp: is_link_def split: option.splits node.splits)
      show ?thesis
      proof (cases "n = 0")
        case True
        with "2.prems" False t show ?thesis by simp
      next
        case pos: False
        with "2.prems" False t have "walk (n - 1) fs (if is_absolute t then [] else cur) (parts_of t @ ps) = Inl err" by simp
        with "2.IH" False t pos show ?thesis by blast
      qed
    next
      case nolink: False
      then have "walk n fs cur (p # ps) = walk n fs (cur @ [p]) ps"
        using False by (auto simp: is_link_def split: option.splits node.splits)
      with 2 False nolink show ?thesis
        by (auto simp: is_link_def split: option.splits node.splits)
    qed
  qed
qed simp

lemma entry_no_conflict: "entry_of fs p \<noteq> Inl (Conflict v)"
  by (auto simp: entry_of_def resolve_path_def bindR_def dest: walk_error split: sum.splits)

lemma mkdir_no_conflict: "mkdir_parents p fs \<noteq> Inl (Conflict v)"
proof (induction p fs rule: mkdir_parents.induct)
  case (1 p fs)
  show ?case
  proof (cases "stat_node fs p")
    case (Some n)
    then show ?thesis by (cases n) (simp_all add: mkdir_parents.simps[of p])
  next
    case None
    show ?thesis
    proof (cases "p = [] \<or> path_is_symlink fs p \<or> path_is_file fs (butlast p)")
      case True
      with None show ?thesis by (auto simp: mkdir_parents.simps[of p])
    next
      case False
      with None have eq: "mkdir_parents p fs =
          bindR (mkdir_parents (butlast p) fs) (\<lambda>fs'. bindR (entry_of fs' p) (\<lambda>q. Inr (dict_set q NDir fs')))"
        by (simp add: mkdir_parents.simps[of p])
      have "mkdir_parents (butlast p) fs \<noteq> Inl (Conflict v)" using 1 None False by blast
      then show ?thesis unfolding eq bindR_def using entry_no_conflict by (auto split: sum.splits)
    qed
  qed
qed

lemma replace_no_conflict: "fst (replace_file p content fs) \<noteq> Inl (Conflict v)"
proof (cases "mkdir_parents (butlast p) fs")
  case (Inl err)
  with mkdir_no_conflict[of "butlast p" fs v] show ?thesis by (simp add: replace_file_def)
next
  case (Inr fs1)
  with entry_no_conflict[of fs1 p v] show ?thesis by (auto simp: replace_file_def split: sum.splits)
qed

lemma config_read_at:
  assumes "config_path base relative = Inr p" and "resolve_path fs p = Inr q"
  shows "config_read sha base relative fs =
    (case node_at fs q of
       Some (NFile c) \<Rightarrow> Inr \<lparr>cf_path = relative, cf_content = universal_newlines c, cf_version = file_version sha (universal_newlines c)\<rparr>
     | Some _ \<Rightarrow> Inl (OSError ''Is a directory'')
     | None \<Rightarrow> Inl (FileNotFoundError ''No such file or directory''))"
  using assms resolve_idem[OF assms(2)] by (simp add: config_read_def read_text_def split: option.split node.split)

lemma put_texts:
  assumes "resolve_path fs path = Inr q" and "proper path" and "path \<noteq> []" and "\<not> path_is_symlink fs path"
    and "config_path base relative = Inr p" and "resolve_path fs p = Inr q"
  shows "case bindS (replace_file path content) (\<lambda>_ fs'. (config_read sha base relative fs', fs')) fs of
      (Inr f, fs') \<Rightarrow> texts_of fs' = (texts_of fs)(q \<mapsto> universal_newlines content) \<and> cf_content f = universal_newlines content
        \<and> same_links fs fs'
    | (Inl err, fs') \<Rightarrow> texts_of fs' = texts_of fs \<and> (\<forall>v. err \<noteq> Conflict v)"
proof -
  obtain res fs1 where r: "replace_file path content fs = (res, fs1)" by fastforce
  note t = replace_texts[OF r assms(1-4)]
  show ?thesis
  proof (cases res)
    case (Inl err)
    with r t replace_no_conflict[of path content fs] show ?thesis by (simp add: bindS_def)
  next
    case (Inr u)
    with t have fs1: "same_links fs fs1" "node_at fs1 q = Some (NFile content)" by simp_all
    have "resolve_path fs1 p = Inr q" using assms(6) resolve_same[OF fs1(1)] by simp
    from config_read_at[OF assms(5) this] r t Inr fs1 show ?thesis by (simp add: bindS_def)
  qed
qed

lemma config_path_proper: "config_path base relative = Inr p \<Longrightarrow> proper base \<Longrightarrow> proper p \<and> p \<noteq> []"
proof -
  assume "config_path base relative = Inr p" and base: "proper base"
  then have p: "p = base @ parts_of (parse_path relative)" "path_suffix p \<in> set CONFIG_SUFFIXES"
      and parts: "\<not> list_ex (\<lambda>part. part \<in> {[], ''.'', ''..''}) (parts_of (parse_path relative))"
    by (simp_all add: config_path_def Let_def split: if_splits)
  have "path_suffix [] \<notin> set CONFIG_SUFFIXES" by (simp add: path_suffix_def CONFIG_SUFFIXES_def)
  with p(2) have "p \<noteq> []" by metis
  moreover have "proper (parts_of (parse_path relative))"
    using parts by (simp add: proper_def list_ex_iff list_all_iff)
  ultimately show ?thesis using base by (simp add: p(1) proper_def)
qed

lemma config_write_refines:
  assumes "proper base" and "config_path base relative = Inr p" and "resolve_path fs p = Inr q"
  shows "case config_write sha base relative content expected fs of
      (Inr f, fs') \<Rightarrow> store_put sha q (universal_newlines content) expected (texts_of fs) = Inr (texts_of fs')
         \<and> cf_content f = universal_newlines content \<and> same_links fs fs'
    | (Inl (Conflict v), fs') \<Rightarrow> store_put sha q (universal_newlines content) expected (texts_of fs) = Inl v \<and> fs' = fs
    | (Inl _, fs') \<Rightarrow> texts_of fs' = texts_of fs"
proof -
  note p = config_path_proper[OF assms(2,1)]
  note rd = config_read_at[OF assms(2,3), of sha]
  note q = resolve_clean[OF assms(3)]
  define path where "path = (if path_is_symlink fs p then q else p)"
  have path: "resolve_path fs path = Inr q" "proper path" "\<not> path_is_symlink fs path"
    using assms(3) p q by (simp_all add: path_def clean_proper symlink_clean)
  have exists: "path_exists fs path \<longleftrightarrow> node_at fs q \<noteq> None" using path(1) by (simp add: path_exists_def stat_node_def)
  define put where "put = bindS (replace_file path content) (\<lambda>_ fs'. (config_read sha base relative fs', fs')) fs"
  have put: "case put of (Inr f, fs') \<Rightarrow> texts_of fs' = (texts_of fs)(q \<mapsto> universal_newlines content)
        \<and> cf_content f = universal_newlines content \<and> same_links fs fs'
      | (Inl err, fs') \<Rightarrow> texts_of fs' = texts_of fs \<and> (\<forall>v. err \<noteq> Conflict v)" if "path \<noteq> []"
    unfolding put_def by (rule put_texts[OF path(1,2) that path(3) assms(2,3)])
  have ne: "node_at fs q \<noteq> Some NDir \<Longrightarrow> path \<noteq> []" using p by (auto simp: path_def node_at_def)
  have sel: "bindR (config_path base relative) (\<lambda>logical.
      if path_is_symlink fs logical then resolve_path fs logical else Inr logical) = Inr path"
    using assms(2,3) by (simp add: path_def)
  have run: "config_write sha base relative content expected fs =
      (case (if node_at fs q \<noteq> None then bindR (config_read sha base relative fs) (\<lambda>current.
                if expected \<noteq> Some (cf_version current) then Inl (Conflict (cf_version current)) else Inr ())
             else if expected \<noteq> None \<and> expected \<noteq> Some ''*'' then Inl (Conflict ''missing'') else Inr ()) of
         Inl err \<Rightarrow> (Inl err, fs) | Inr _ \<Rightarrow> put)"
    unfolding config_write_def sel put_def by (simp only: sum.case exists)
  show ?thesis
  proof (cases "node_at fs q")
    case None
    then have "texts_of fs q = None" by (simp add: texts_of_def)
    with None put[OF ne] show ?thesis
      unfolding run by (auto simp: store_put_def split: prod.splits sum.splits error.splits)
  next
    case (Some n)
    show ?thesis
    proof (cases n)
      case (NFile c)
      then have "texts_of fs q = Some (universal_newlines c)" using Some by (simp add: texts_of_def)
      with Some NFile rd put[OF ne] show ?thesis
        unfolding run by (auto simp: store_put_def split: prod.splits sum.splits error.splits)
    qed (use Some rd in \<open>simp_all add: run\<close>)
  qed
qed

lemma config_delete_refines:
  assumes "proper base" and "leaves fs" and "config_path base relative = Inr p" and "resolve_path fs p = Inr q"
  shows "case config_delete sha base relative version fs of
      (Inr _, fs') \<Rightarrow>
        if path_is_symlink fs p
        then version = file_version sha (the (texts_of fs q)) \<and> texts_of fs' = texts_of fs
          \<and> (\<exists>e. entry_of fs p = Inr e \<and> node_at fs' e = None)
        else store_remove sha q version (texts_of fs) = Some (Inr (texts_of fs'))
    | (Inl (Conflict v), fs') \<Rightarrow> store_remove sha q version (texts_of fs) = Some (Inl v) \<and> fs' = fs
    | (Inl _, fs') \<Rightarrow> fs' = fs"
proof -
  note p = config_path_proper[OF assms(3,1)]
  note rd = config_read_at[OF assms(3,4), of sha]
  obtain e where e: "entry_of fs p = Inr e" using entry_exists[OF assms(4)] by blast
  show ?thesis
  proof (cases "\<exists>c. node_at fs q = Some (NFile c)")
    case False
    with assms(3) rd show ?thesis by (auto simp: config_delete_def split: option.splits node.splits)
  next
    case True
    then obtain c where c: "node_at fs q = Some (NFile c)" by blast
    then have tx: "texts_of fs q = Some (universal_newlines c)" by (simp add: texts_of_def)
    have run: "config_delete sha base relative version fs =
        (if file_version sha (universal_newlines c) \<noteq> version then (Inl (Conflict (file_version sha (universal_newlines c))), fs)
         else (Inr (), remove_tree e fs))"
      using assms(3) rd c e by (simp add: config_delete_def)
    show ?thesis
    proof (cases "path_is_symlink fs p")
      case True
      then obtain l where l: "node_at fs e = Some (NLink l)" using symlink_entry[OF e] by (auto simp: is_link_iff)
      then have "(texts_of fs)(e := None) = texts_of fs" by (auto simp: fun_eq_iff texts_of_def)
      with True e l tx remove_texts[OF assms(2), of e] show ?thesis
        by (simp add: run store_remove_def)
    next
      case False
      then have "e = q" using resolve_entry[OF e] p assms(4) by simp
      with False tx c remove_texts[OF assms(2), of q] show ?thesis by (simp add: run store_remove_def)
    qed
  qed
qed

text \<open>
  C10. The configuration repository implements a versioned store, through symbolic links as well.
  The state of the store is the texts of the file system by their real paths; the configuration
  directory is a path of proper names, the path of the configuration does not run into a loop of
  links, and \<open>q\<close> is the real path it leads to. A write answers with a conflict exactly when the
  store does at \<open>q\<close>, and with the same version; when it succeeds, exactly the text at \<open>q\<close> changes,
  no link is replaced and the answer carries what is read back; a write that raises anything else
  changes no text. In a file system whose entries lie in directories, deleting answers with a
  conflict exactly when the store does at \<open>q\<close>; a configuration that is not itself a link is
  removed from the store, one that is a link goes and the text it leads to stays.
\<close>

theorem config_refines_store:
  assumes "proper base" and "leaves fs" and "config_path base relative = Inr p" and "resolve_path fs p = Inr q"
  shows "(case config_write sha base relative content expected fs of
      (Inr f, fs') \<Rightarrow> store_put sha q (universal_newlines content) expected (texts_of fs) = Inr (texts_of fs')
         \<and> cf_content f = universal_newlines content \<and> same_links fs fs'
    | (Inl (Conflict v), fs') \<Rightarrow> store_put sha q (universal_newlines content) expected (texts_of fs) = Inl v \<and> fs' = fs
    | (Inl _, fs') \<Rightarrow> texts_of fs' = texts_of fs)
   \<and> (case config_delete sha base relative version fs of
      (Inr _, fs') \<Rightarrow>
        if path_is_symlink fs p
        then version = file_version sha (the (texts_of fs q)) \<and> texts_of fs' = texts_of fs
          \<and> (\<exists>e. entry_of fs p = Inr e \<and> node_at fs' e = None)
        else store_remove sha q version (texts_of fs) = Some (Inr (texts_of fs'))
    | (Inl (Conflict v), fs') \<Rightarrow> store_remove sha q version (texts_of fs) = Some (Inl v) \<and> fs' = fs
    | (Inl _, fs') \<Rightarrow> fs' = fs)"
  by (rule conjI[OF config_write_refines[OF assms(1,3,4)] config_delete_refines[OF assms]])

text \<open>A configuration that is a link to another one: it is written through, and deleted alone.\<close>

definition ex_shared :: fs where
  "ex_shared = ex_fs @ [([''srv'', ''config'', ''l.yaml''], NLink (parse_path ''b.yaml''))]"

lemma ex_shared_leaves: "leaves ex_shared"
proof -
  have "k < length q \<Longrightarrow> k > 0 \<Longrightarrow> (q, n) \<in> set ex_shared \<Longrightarrow> map_of ex_shared (take k q) = Some NDir" for k q n
    by (auto simp: ex_shared_def ex_fs_def less_Suc_eq numeral_nat)
  then show ?thesis by (auto simp: leaves_def list_all_iff)
qed

lemma ex_shared_runs:
  "fst (config_write (\<lambda>b. b) ex_base ''l.yaml'' ''x: 2'' (Some ''x: 1'') ex_shared)
     = Inr \<lparr>cf_path = ''l.yaml'', cf_content = ''x: 2'', cf_version = ''x: 2''\<rparr>"
  "fst (config_delete (\<lambda>b. b) ex_base ''l.yaml'' ''x: 1'' ex_shared) = Inr ()"
  "path_is_symlink ex_shared [''srv'', ''config'', ''l.yaml'']"
  by code_simp+

theorem config_refines_store_witness:
  "store_put (\<lambda>b. b) [''srv'', ''config'', ''b.yaml''] ''x: 2'' (Some ''x: 1'') (texts_of ex_shared)
     = Inr (texts_of (snd (config_write (\<lambda>b. b) ex_base ''l.yaml'' ''x: 2'' (Some ''x: 1'') ex_shared)))
   \<and> texts_of (snd (config_delete (\<lambda>b. b) ex_base ''l.yaml'' ''x: 1'' ex_shared)) = texts_of ex_shared"
proof -
  have "proper ex_base" "config_path ex_base ''l.yaml'' = Inr [''srv'', ''config'', ''l.yaml'']"
    "resolve_path ex_shared [''srv'', ''config'', ''l.yaml''] = Inr [''srv'', ''config'', ''b.yaml'']"
    "universal_newlines ''x: 2'' = ''x: 2''"
    by code_simp+
  from config_refines_store[OF this(1) ex_shared_leaves this(2,3), of "\<lambda>b. b" "''x: 2''" "Some ''x: 1''" "''x: 1''"] this(4)
  show ?thesis using ex_shared_runs by (auto split: prod.splits)
qed

section \<open>Moving a configuration through a linked directory\<close>

text \<open>
  An installation whose \<open>config\<close> directory is a link, as the repository allows. Moving a
  configuration into a subdirectory rewrites its include relative to the logical directory, but
  the file is read from the real one: the include then names a file that does not exist.
\<close>

definition ex_linked :: fs where
  "ex_linked =
     [([''app''], NDir), ([''app'', ''config''], NLink (parse_path ''/mnt/a/b/cfg'')),
      ([''mnt''], NDir), ([''mnt'', ''a''], NDir), ([''mnt'', ''a'', ''b''], NDir), ([''mnt'', ''a'', ''b'', ''cfg''], NDir),
      ([''mnt'', ''a'', ''b'', ''cfg'', ''x.yaml''], NFile ''!include y.yaml''),
      ([''mnt'', ''a'', ''b'', ''cfg'', ''y.yaml''], NFile ''v: 1'')]"

lemma move_breaks_include:
  "dependencies [''app'', ''config''] ''x.yaml'' ex_linked = Inr [[''mnt'', ''a'', ''b'', ''cfg'', ''y.yaml'']]"
  "case config_move (\<lambda>b. b) [''app'', ''config''] ''x.yaml'' ''s/x.yaml'' ''!include y.yaml'' ex_linked of
     (r, fs') \<Rightarrow> (case dependencies [''app'', ''config''] ''s/x.yaml'' fs' of
        Inr [p] \<Rightarrow> p \<noteq> [''mnt'', ''a'', ''b'', ''cfg'', ''y.yaml''] \<and> node_at fs' p = None
      | _ \<Rightarrow> False)"
  by code_simp+

end
