(* ===== verification/LF_Plugins.thy ===== *)
theory LF_Plugins
  imports LF_Service LF_Files
begin

text \<open>
  The plugin registry, \<^verbatim>\<open>src/src/localflow/plugins.py\<close>, and the host side of the
  configuration language, \<open>resolve_config_tree\<close> in \<^verbatim>\<open>src/src/localflow/variables.py\<close>.

  A plugin instance is a record of its attributes; its methods and its data models are
  functions in that record. The module loader, \<open>Path.resolve\<close>, the file tests and the variable
  resolution of the configuration library are parameters. The labels and messages outside
  Latin-1 are kept as UTF-8 bytes, and a length limit counts the bytes of such a label.
\<close>

section \<open>Run fields\<close>

definition word_start :: "char \<Rightarrow> bool" where
  "word_start c \<longleftrightarrow> (let n = of_char c :: nat in (65 \<le> n \<and> n \<le> 90) \<or> (97 \<le> n \<and> n \<le> 122) \<or> n = 95)"

definition word_char :: "char \<Rightarrow> bool" where
  "word_char c \<longleftrightarrow> (let n = of_char c :: nat in word_start c \<or> (48 \<le> n \<and> n \<le> 57))"

text \<open>The pattern \<^verbatim>\<open>^[A-Za-z_][A-Za-z0-9_]*$\<close>.\<close>

fun is_identifier :: "string \<Rightarrow> bool" where
  "is_identifier [] = False"
| "is_identifier (c # s) = (word_start c \<and> list_all word_char s)"

definition FIELD_TYPES :: "string list" where
  "FIELD_TYPES = [''string'', ''integer'', ''seed'', ''path'', ''string-list'', ''json'', ''case-picker'']"

record run_field_spec =
  rf_name :: string
  rf_type :: string
  rf_label :: "string option"
  rf_required :: bool
  rf_multiple :: bool
  rf_count_field :: "string option"
  rf_default_count_field :: "string option"

text \<open>
  The field types of the data models: a text with a condition, an optional text that may be
  missing or null, and a truth value with the conversions of the validation library.
\<close>

definition text_field :: "string \<Rightarrow> (string \<Rightarrow> bool) \<Rightarrow> jdict \<Rightarrow> string option" where
  "text_field key ok d = (case map_of d key of Some (JStr s) \<Rightarrow> if ok s then Some s else None | _ \<Rightarrow> None)"

definition optional_text :: "string \<Rightarrow> (string \<Rightarrow> bool) \<Rightarrow> jdict \<Rightarrow> string option option" where
  "optional_text key ok d =
     (case map_of d key of
        None \<Rightarrow> Some None
      | Some JNull \<Rightarrow> Some None
      | Some (JStr s) \<Rightarrow> if ok s then Some (Some s) else None
      | Some _ \<Rightarrow> None)"

definition ascii_lower :: "string \<Rightarrow> string" where
  "ascii_lower s = map (\<lambda>c. let n = of_char c :: nat in if 65 \<le> n \<and> n \<le> 90 then char_of (n + 32) else c) s"

definition bool_value :: "json \<Rightarrow> bool option" where
  "bool_value j =
     (case j of
        JBool b \<Rightarrow> Some b
      | JInt i \<Rightarrow> if i = 1 then Some True else if i = 0 then Some False else None
      | JFloat r \<Rightarrow> if r = ''1.0'' then Some True else if r = ''0.0'' \<or> r = ''-0.0'' then Some False else None
      | JStr s \<Rightarrow>
          if ascii_lower s \<in> {''1'', ''on'', ''t'', ''true'', ''y'', ''yes''} then Some True
          else if ascii_lower s \<in> {''0'', ''off'', ''f'', ''false'', ''n'', ''no''} then Some False else None
      | _ \<Rightarrow> None)"

definition bool_field :: "string \<Rightarrow> jdict \<Rightarrow> bool option" where
  "bool_field key d = (case map_of d key of None \<Rightarrow> Some False | Some v \<Rightarrow> bool_value v)"

definition short_label :: "string \<Rightarrow> bool" where
  "short_label s \<longleftrightarrow> 1 \<le> length s \<and> length s \<le> 80"

definition bad_field :: "string \<Rightarrow> 'a option \<Rightarrow> string list" where
  "bad_field key v = (case v of None \<Rightarrow> [key] | Some _ \<Rightarrow> [])"

definition given :: "string option \<Rightarrow> bool" where
  "given v \<longleftrightarrow> v \<noteq> None \<and> v \<noteq> Some []"

definition validate_component_options :: "run_field_spec \<Rightarrow> run_field_spec result" where
  "validate_component_options f =
     (if rf_type f = ''case-picker'' then
        if \<not> given (rf_count_field f) then Inl (ValueError ''case-picker requires count_field'')
        else if rf_count_field f = Some (rf_name f) \<or> rf_default_count_field f = Some (rf_name f)
        then Inl (ValueError ''case-picker count fields must differ from its selection field'')
        else Inr f
      else if given (rf_count_field f) \<or> given (rf_default_count_field f)
      then Inl (ValueError ''count fields are only valid for case-picker'')
      else Inr f)"

definition validate_run_field :: "json \<Rightarrow> run_field_spec result" where
  "validate_run_field raw =
     (case raw of
        JObj d \<Rightarrow>
          (let name = text_field ''name'' is_identifier d;
               kind = text_field ''type'' (\<lambda>s. s \<in> set FIELD_TYPES) d;
               label = optional_text ''label'' short_label d;
               required = bool_field ''required'' d;
               multiple = bool_field ''multiple'' d;
               count = optional_text ''count_field'' is_identifier d;
               default_count = optional_text ''default_count_field'' is_identifier d
           in case (name, kind, label, required, multiple, count, default_count) of
                (Some n, Some k, Some l, Some r, Some m, Some c, Some dc) \<Rightarrow>
                  validate_component_options
                    \<lparr>rf_name = n, rf_type = k, rf_label = l, rf_required = r, rf_multiple = m,
                     rf_count_field = c, rf_default_count_field = dc\<rparr>
              | _ \<Rightarrow> Inl (ValidationError (bad_field ''name'' name @ bad_field ''type'' kind @ bad_field ''label'' label @
                    bad_field ''required'' required @ bad_field ''multiple'' multiple @
                    bad_field ''count_field'' count @ bad_field ''default_count_field'' default_count)))
      | _ \<Rightarrow> Inl (ValidationError [''model_type'']))"

definition run_field :: "string \<Rightarrow> string \<Rightarrow> jdict \<Rightarrow> jdict result" where
  "run_field name component options =
     (let v = dict_update [(''name'', JStr name), (''type'', JStr component)] options
      in bindR (validate_run_field (JObj v)) (\<lambda>_. Inr v))"

section \<open>Instances\<close>

text \<open>A Python set of values, or a value of another type.\<close>

datatype py_set = PySet "json list" | Not_set

record pydantic_model =
  pm_fields :: "string list"
  pm_validate :: "jdict \<Rightarrow> jdict result"
  pm_schema :: json

datatype model_attr = Model pydantic_model | Not_model

record plugin_instance =
  in_run_fields :: "json option"
  in_fields :: "json option"
  in_expand :: "(jdict \<Rightarrow> jdict \<Rightarrow> task_draft list result) option"
  in_required_common_fields :: "py_set option"
  in_deferred_variables :: "py_set option"
  in_config_model :: "model_attr option"
  in_input_model :: "model_attr option"
  in_example :: "json option"
  in_api_inputs :: "json option"
  in_statuses :: "json option"
  in_lifecycle_statuses :: "(string, string) dict"
  in_result_statuses :: "(string, string) dict"
  in_interrupt_status :: "string option"
  in_aliases :: "string list"
  in_stop :: "json option"
  in_discover :: "(jdict \<Rightarrow> jdict \<Rightarrow> json result) option"
  in_inspect :: "(jdict \<Rightarrow> jdict \<Rightarrow> json result) option"
  in_evaluate_result :: "(task_row \<Rightarrow> jdict \<Rightarrow> json result) option"
  in_validate_config :: "(jdict \<Rightarrow> json result) option"
  in_title :: "string option"
  in_description :: "string option"
  in_instructions :: "string option"

record loaded_plugin =
  lp_name :: string
  lp_version :: string
  lp_digest :: string
  lp_generation :: int
  lp_instance :: plugin_instance
  lp_path :: string

record registry =
  rg_generation :: int
  rg_plugins :: "(string, loaded_plugin) dict"
  rg_diagnostics :: "(string, string) dict"

text \<open>\<open>callable(getattr(...))\<close>, and a data model that is none.\<close>

definition callable :: "'a option \<Rightarrow> bool" where
  "callable f = (case f of Some _ \<Rightarrow> True | None \<Rightarrow> False)"

lemma callable_iff [simp]: "callable f \<longleftrightarrow> f \<noteq> None"
  by (cases f) (simp_all add: callable_def)

lemma callable_code [code]: "callable None = False" "callable (Some x) = True"
  by (simp_all add: callable_def)

definition model_or_none :: "model_attr option \<Rightarrow> bool" where
  "model_or_none m = (case m of Some Not_model \<Rightarrow> False | _ \<Rightarrow> True)"

definition attr :: "'a option \<Rightarrow> 'a \<Rightarrow> 'a" where
  "attr v dflt = (case v of Some x \<Rightarrow> x | None \<Rightarrow> dflt)"

definition run_fields_of :: "plugin_instance \<Rightarrow> json list" where
  "run_fields_of inst = as_list (attr (in_run_fields inst) (JList []))"

definition field_inputs :: "run_field_spec \<Rightarrow> string list" where
  "field_inputs f = rf_name f # (case rf_count_field f of Some c \<Rightarrow> [c] | None \<Rightarrow> [])
     @ (case rf_default_count_field f of Some c \<Rightarrow> [c] | None \<Rightarrow> [])"

definition allowed_inputs :: "plugin_instance \<Rightarrow> string list result" where
  "allowed_inputs inst =
     bindR (mapR validate_run_field (run_fields_of inst)) (\<lambda>flds. Inr (remdups (concat (map field_inputs flds))))"

definition name_list :: "string list \<Rightarrow> string" where
  "name_list names = py_repr (JList (map JStr (sort (remdups names))))"

definition SUPPORTED_DEFERRED_VARIABLES :: "string list" where
  "SUPPORTED_DEFERRED_VARIABLES = [''case'', ''seed'']"

definition COMMON_CONFIG_FIELDS :: "string list" where
  "COMMON_CONFIG_FIELDS = [''plugin'', ''name'', ''working_directory'', ''shell'', ''source'', ''command'', ''labels'',
     ''mutex_keys'', ''custom'', ''stop'', ''variables'', ''project'']"

definition string_list :: "json \<Rightarrow> string list option" where
  "string_list j =
     (case j of
        JList items \<Rightarrow>
          if list_all (\<lambda>j. as_str j \<noteq> None) items
          then Some (map (\<lambda>j. case as_str j of Some s \<Rightarrow> s | None \<Rightarrow> []) items) else None
      | _ \<Rightarrow> None)"

definition string_set :: "py_set \<Rightarrow> string list option" where
  "string_set v =
     (case v of
        PySet items \<Rightarrow> if list_all (\<lambda>j. as_str j \<noteq> None) items then Some (map (\<lambda>j. case as_str j of Some s \<Rightarrow> s | None \<Rightarrow> []) items) else None
      | Not_set \<Rightarrow> None)"

definition deferred_of :: "plugin_instance \<Rightarrow> string list" where
  "deferred_of inst = (case string_set (attr (in_deferred_variables inst) (PySet [])) of Some names \<Rightarrow> names | None \<Rightarrow> [])"

definition statuses_of :: "plugin_instance \<Rightarrow> json" where
  "statuses_of inst = attr (in_statuses inst) (JObj [])"

definition guard :: "bool \<Rightarrow> error \<Rightarrow> unit result" where
  "guard ok err = (if ok then Inr () else Inl err)"

text \<open>The checks of \<open>_validate_metadata\<close> in their order.\<close>

definition validate_run_fields :: "string \<Rightarrow> plugin_instance \<Rightarrow> unit result" where
  "validate_run_fields name inst =
     (case attr (in_run_fields inst) JNull of
        JList raw \<Rightarrow>
          bindR (mapR validate_run_field raw) (\<lambda>flds.
            guard (distinct (map rf_name flds)) (ValueError (''plugin '' @ name @ '' run_fields must have unique names'')))
      | _ \<Rightarrow> Inl (TypeError (''plugin '' @ name @ '' run_fields must be a list'')))"

definition validate_variables :: "string \<Rightarrow> plugin_instance \<Rightarrow> unit result" where
  "validate_variables name inst =
     bindR (guard (string_set (attr (in_required_common_fields inst) (PySet [])) \<noteq> None)
              (TypeError (''plugin '' @ name @ '' required_common_fields must be a set of strings''))) (\<lambda>_.
     case string_set (attr (in_deferred_variables inst) (PySet [])) of
       None \<Rightarrow> Inl (TypeError (''plugin '' @ name @ '' deferred_variables must be a set of strings''))
     | Some deferred \<Rightarrow>
         let unsupported = filter (\<lambda>v. v \<notin> set SUPPORTED_DEFERRED_VARIABLES) deferred
         in guard (unsupported = [])
              (ValueError (''plugin '' @ name @ '' declares unsupported deferred variables: '' @ name_list unsupported)))"

definition validate_models :: "string \<Rightarrow> plugin_instance \<Rightarrow> unit result" where
  "validate_models name inst =
     bindR (guard (model_or_none (in_config_model inst)) (TypeError (''plugin '' @ name @ '' config_model must be a Pydantic model''))) (\<lambda>_.
     bindR (guard (model_or_none (in_input_model inst)) (TypeError (''plugin '' @ name @ '' input_model must be a Pydantic model''))) (\<lambda>_.
     bindR (case in_input_model inst of
              Some (Model m) \<Rightarrow>
                bindR (allowed_inputs inst) (\<lambda>declared.
                  guard (set (pm_fields m) = set declared)
                    (ValueError (''plugin '' @ name @ '' input_model fields differ from run fields: missing='' @
                       name_list (filter (\<lambda>v. v \<notin> set (pm_fields m)) declared) @ '', extra='' @
                       name_list (filter (\<lambda>v. v \<notin> set declared) (pm_fields m)))))
            | _ \<Rightarrow> Inr ()) (\<lambda>_.
     case in_config_model inst of
       Some (Model m) \<Rightarrow>
         let collisions = filter (\<lambda>v. v \<in> set COMMON_CONFIG_FIELDS) (pm_fields m)
         in guard (collisions = [])
              (ValueError (''plugin '' @ name @ '' config fields overlap common fields: '' @ name_list collisions))
     | _ \<Rightarrow> Inr ())))"

definition validate_example :: "string \<Rightarrow> plugin_instance \<Rightarrow> unit result" where
  "validate_example name inst =
     bindR (guard (case attr (in_example inst) (JObj [(''plugin'', JStr name)]) of
                     JObj d \<Rightarrow> map_of d ''plugin'' = Some (JStr name) | _ \<Rightarrow> False)
              (TypeError (''plugin '' @ name @ '' example must be an object naming that plugin''))) (\<lambda>_.
     case attr (in_api_inputs inst) (JObj []) of
       JObj inputs \<Rightarrow>
         (case in_input_model inst of
            Some (Model m) \<Rightarrow> bindR (pm_validate m inputs) (\<lambda>_. Inr ())
          | _ \<Rightarrow> Inr ())
     | _ \<Rightarrow> Inl (TypeError (''plugin '' @ name @ '' api_inputs must be an object'')))"

fun check_statuses :: "string \<Rightarrow> jdict \<Rightarrow> unit result" where
  "check_statuses name [] = Inr ()"
| "check_statuses name ((key, v) # rest) =
     (case v of
        JObj d \<Rightarrow>
          bindR (guard (case map_of d ''label'' of Some (JStr _) \<Rightarrow> True | _ \<Rightarrow> False)
                   (TypeError (''plugin '' @ name @ '' status '' @ key @ '' must have a label''))) (\<lambda>_.
            check_statuses name rest)
      | _ \<Rightarrow> Inl (TypeError (''plugin '' @ name @ '' has an invalid status definition'')))"

definition referenced_statuses :: "plugin_instance \<Rightarrow> string list" where
  "referenced_statuses inst =
     map snd (in_result_statuses inst) @ map snd (in_lifecycle_statuses inst)
     @ (case in_interrupt_status inst of Some s \<Rightarrow> (if s = [] then [] else [s]) | None \<Rightarrow> [])"

definition validate_statuses :: "string \<Rightarrow> plugin_instance \<Rightarrow> unit result" where
  "validate_statuses name inst =
     (case statuses_of inst of
        JObj statuses \<Rightarrow>
          bindR (check_statuses name statuses) (\<lambda>_.
            let missing = filter (\<lambda>s. s \<notin> fst ` set statuses) (referenced_statuses inst)
            in guard (missing = [])
                 (ValueError (''plugin '' @ name @ '' references undefined statuses: '' @ name_list missing)))
      | _ \<Rightarrow> Inl (TypeError (''plugin '' @ name @ '' statuses must be an object'')))"

definition validate_metadata :: "string \<Rightarrow> plugin_instance \<Rightarrow> unit result" where
  "validate_metadata name inst =
     bindR (validate_run_fields name inst) (\<lambda>_.
     bindR (validate_variables name inst) (\<lambda>_.
     bindR (validate_models name inst) (\<lambda>_.
     bindR (validate_example name inst) (\<lambda>_.
       validate_statuses name inst))))"

section \<open>Loading\<close>

text \<open>
  What importing one file gives: an error, or the registrations its decorators made, each with
  the result of calling the registered class.
\<close>

record plugin_file =
  pf_path :: string
  pf_digest :: string
  pf_module :: "(string \<times> string \<times> plugin_instance result) list result"

text \<open>
  The decorator: it appends to the registrations of the file that is being loaded, and a class
  decorated at any other time is refused.
\<close>

definition plugin :: "string \<Rightarrow> string \<Rightarrow> plugin_instance result \<Rightarrow>
    ((string \<times> string \<times> plugin_instance result) list option, unit) op" where
  "plugin name version cls loading =
     (case loading of
        None \<Rightarrow> (Inl (RuntimeError ''@plugin can only register while LocalFlow loads a plugin file''), loading)
      | Some registrations \<Rightarrow> (Inr (), Some (registrations @ [(name, version, cls)])))"

type_synonym candidates = "(string, loaded_plugin) dict"

definition add_candidate :: "string \<Rightarrow> loaded_plugin \<Rightarrow> (candidates, unit) op" where
  "add_candidate name loaded cs =
     (if dict_has name cs then (Inl (ValueError (''duplicate plugin name: '' @ name)), cs)
      else (Inr (), dict_set name loaded cs))"

definition with_run_fields :: "plugin_instance \<Rightarrow> plugin_instance" where
  "with_run_fields inst =
     (if in_run_fields inst = None \<and> in_fields inst \<noteq> None then inst\<lparr>in_run_fields := in_fields inst\<rparr> else inst)"

definition make_instance :: "string \<Rightarrow> plugin_instance result \<Rightarrow> plugin_instance result" where
  "make_instance name made =
     bindR made (\<lambda>inst.
       let inst = with_run_fields inst
       in bindR (guard (in_run_fields inst \<noteq> None \<and> callable (in_expand inst))
                   (TypeError (''plugin '' @ name @ '' must define run_fields and expand''))) (\<lambda>_.
          bindR (validate_metadata name inst) (\<lambda>_. Inr inst)))"

definition register_one :: "plugin_file \<Rightarrow> int \<Rightarrow> string \<times> string \<times> plugin_instance result \<Rightarrow> (candidates, unit) op" where
  "register_one file generation = (\<lambda>(name, version, made) cs.
     if dict_has name cs then (Inl (ValueError (''duplicate plugin name: '' @ name)), cs)
     else case make_instance name made of
       Inl err \<Rightarrow> (Inl err, cs)
     | Inr inst \<Rightarrow>
         (let loaded = \<lparr>lp_name = name, lp_version = version, lp_digest = pf_digest file,
                        lp_generation = generation, lp_instance = inst, lp_path = pf_path file\<rparr>
          in bindS (add_candidate name loaded) (\<lambda>_.
             bindS (mapS (\<lambda>alias. add_candidate alias loaded) (in_aliases inst)) (\<lambda>_. retS ())) cs))"

definition load_file :: "int \<Rightarrow> plugin_file \<Rightarrow> (candidates, unit) op" where
  "load_file generation file =
     bindS (liftS (pf_module file)) (\<lambda>registrations.
     bindS (mapS (register_one file generation) registrations) (\<lambda>_. retS ()))"

fun load_files :: "int \<Rightarrow> plugin_file list \<Rightarrow> candidates \<times> (string, string) dict \<Rightarrow> candidates \<times> (string, string) dict" where
  "load_files generation [] st = st"
| "load_files generation (file # files) (cs, diagnostics) =
     (case load_file generation file cs of
        (Inr _, cs') \<Rightarrow> load_files generation files (cs', diagnostics)
      | (Inl err, cs') \<Rightarrow>
          load_files generation files
            (cs', dict_set (pf_path file) (error_class err @ '': '' @ error_text err) diagnostics))"

definition load_registry :: "plugin_file list \<Rightarrow> registry \<Rightarrow> registry" where
  "load_registry files reg =
     (let generation = rg_generation reg + 1;
          (cs, diagnostics) = load_files generation (sort_key pf_path files) ([], [])
      in (if map fst cs \<noteq> [] \<or> map fst (rg_plugins reg) = []
          then reg\<lparr>rg_plugins := cs, rg_generation := generation\<rparr> else reg)\<lparr>rg_diagnostics := diagnostics\<rparr>)"

definition empty_registry :: registry where
  "empty_registry = \<lparr>rg_generation = 0, rg_plugins = [], rg_diagnostics = []\<rparr>"

definition get_plugin :: "string \<Rightarrow> registry \<Rightarrow> loaded_plugin result" where
  "get_plugin name reg = (case map_of (rg_plugins reg) name of Some p \<Rightarrow> Inr p | None \<Rightarrow> Inl (KeyError name))"

definition plugin_example :: "string \<Rightarrow> registry \<Rightarrow> jdict result" where
  "plugin_example name reg =
     bindR (get_plugin name reg) (\<lambda>loaded.
       case attr (in_example (lp_instance loaded)) (JObj [(''plugin'', JStr (lp_name loaded))]) of
         JObj d \<Rightarrow> Inr d
       | _ \<Rightarrow> Inl (TypeError (''plugin '' @ name @ '' example must be an object'')))"

section \<open>The input schema\<close>

definition json_type :: "string \<Rightarrow> json" where
  "json_type t = JObj [(''type'', JStr t)]"

definition text_array :: json where
  "text_array = JObj [(''type'', JStr ''array''), (''items'', json_type ''string'')]"

definition scalar_types :: "(string, json) dict" where
  "scalar_types =
     [(''string'', json_type ''string''), (''path'', json_type ''string''), (''integer'', json_type ''integer''),
      (''seed'', JObj [(''anyOf'', JList [json_type ''integer'', json_type ''null''])]),
      (''string-list'', text_array), (''json'', JObj []), (''case-picker'', text_array)]"

definition POSITIVE :: json where
  "POSITIVE = JObj [(''type'', JStr ''integer''), (''minimum'', JInt 1)]"

definition count_map :: json where
  "count_map = JObj [(''type'', JStr ''object''), (''additionalProperties'', POSITIVE)]"

definition add_field_properties :: "run_field_spec \<Rightarrow> jdict \<Rightarrow> jdict" where
  "add_field_properties f props =
     (let props = dict_set (rf_name f) (jget (rf_type f) scalar_types JNull) props;
          props = (case rf_count_field f of Some c \<Rightarrow> dict_set c count_map props | None \<Rightarrow> props)
      in case rf_default_count_field f of Some c \<Rightarrow> dict_set c POSITIVE props | None \<Rightarrow> props)"

definition input_schema :: "plugin_instance \<Rightarrow> json result" where
  "input_schema inst =
     (case in_input_model inst of
        Some (Model m) \<Rightarrow> Inr (pm_schema m)
      | _ \<Rightarrow>
          bindR (mapR validate_run_field (run_fields_of inst)) (\<lambda>flds.
            Inr (JObj [(''title'', JStr (attr (in_title inst) ''plugin'' @ '' inputs'')), (''type'', JStr ''object''),
              (''properties'', JObj (fold add_field_properties flds [])),
              (''required'', JList (map JStr (sort (map rf_name (filter rf_required flds))))),
              (''additionalProperties'', JBool False)])))"

section \<open>Descriptions\<close>

definition object_of :: "json \<Rightarrow> jdict" where
  "object_of j = (case j of JObj d \<Rightarrow> d | _ \<Rightarrow> [])"

definition plugin_fields_schema :: "pydantic_model \<Rightarrow> json" where
  "plugin_fields_schema m = JObj (dict_set ''additionalProperties'' (JBool True) (object_of (pm_schema m)))"

text \<open>\<open>common\<close> is the schema the validation library derives from \<open>CommonConfigFields\<close>.\<close>

definition configuration_schema :: "jdict \<Rightarrow> string \<Rightarrow> plugin_instance \<Rightarrow> jdict" where
  "configuration_schema common name inst =
     (let own = (case in_config_model inst of Some (Model m) \<Rightarrow> object_of (pm_schema m) | _ \<Rightarrow> []);
          props = dict_update
            (dict_set ''plugin'' (JObj [(''const'', JStr name), (''type'', JStr ''string''), (''title'', JStr ''Plugin'')])
              (object_of (jget ''properties'' common (JObj []))))
            (object_of (jget ''properties'' own (JObj [])));
          required = ''plugin'' # (case string_set (attr (in_required_common_fields inst) (PySet [])) of Some names \<Rightarrow> names | None \<Rightarrow> [])
            @ map py_str (as_list (jget ''required'' own (JList [])));
          defs = dict_update (object_of (jget ''$defs'' common (JObj []))) (object_of (jget ''$defs'' own (JObj [])))
      in [(''title'', JStr (name @ '' configuration'')), (''type'', JStr ''object''), (''properties'', JObj props),
          (''required'', JList (map JStr (sort (remdups required)))), (''additionalProperties'', JBool True)]
         @ (if defs = [] then [] else [(''$defs'', JObj defs)]))"

definition describe_plugin :: "jdict \<Rightarrow> loaded_plugin \<Rightarrow> jdict result" where
  "describe_plugin common item =
     bindR (input_schema (lp_instance item)) (\<lambda>inputs.
     let inst = lp_instance item;
         example = attr (in_example inst) (JObj [(''plugin'', JStr (lp_name item))]);
         flds = attr (in_run_fields inst) JNull
     in Inr
       [(''name'', JStr (lp_name item)), (''title'', JStr (attr (in_title inst) (lp_name item))),
        (''description'', JStr (attr (in_description inst) [])), (''version'', JStr (lp_version item)),
        (''digest'', JStr (lp_digest item)), (''generation'', JInt (lp_generation item)), (''fields'', flds),
        (''instructions'', JStr (attr (in_instructions inst) [])), (''example'', example),
        (''api'', JObj
          [(''endpoint'', JStr ''/api/v1/runs''),
           (''configuration_schema'', JObj (configuration_schema common (lp_name item) inst)),
           (''plugin_fields_schema'', (case in_config_model inst of Some (Model m) \<Rightarrow> plugin_fields_schema m | _ \<Rightarrow> JNull)),
           (''input_fields'', flds), (''input_schema'', inputs),
           (''example'', JObj [(''configuration'', example), (''inputs'', attr (in_api_inputs inst) (JObj []))])]),
        (''statuses'', statuses_of inst)])"

definition unique_plugins :: "registry \<Rightarrow> (string, loaded_plugin) dict" where
  "unique_plugins reg = foldl (\<lambda>d item. dict_set (lp_name item) item d) [] (map snd (rg_plugins reg))"

definition describe :: "jdict \<Rightarrow> registry \<Rightarrow> jdict list result" where
  "describe common reg = mapR (describe_plugin common) (map snd (unique_plugins reg))"

section \<open>Inputs of a run\<close>

definition validate_inputs :: "string \<Rightarrow> jdict \<Rightarrow> registry \<Rightarrow> jdict result" where
  "validate_inputs name overrides reg =
     bindR (get_plugin name reg) (\<lambda>loaded.
       case in_input_model (lp_instance loaded) of
         Some (Model m) \<Rightarrow> pm_validate m overrides
       | _ \<Rightarrow>
           bindR (allowed_inputs (lp_instance loaded)) (\<lambda>allowed.
             let unknown = filter (\<lambda>k. k \<notin> set allowed) (map fst overrides)
             in if unknown = [] then Inr overrides
                else Inl (ValueError (''inputs are not declared by plugin '' @ name @ '': '' @ name_list unknown))))"

section \<open>Configuration values\<close>

definition ascii_upper :: "string \<Rightarrow> string" where
  "ascii_upper s = map (\<lambda>c. let n = of_char c :: nat in if 97 \<le> n \<and> n \<le> 122 then char_of (n - 32) else c) s"

definition deferred_token :: "string \<Rightarrow> string" where
  "deferred_token name = ''__LOCALFLOW_DEFERRED_'' @ ascii_upper name @ ''_7F4C2E__''"

definition reference :: "string \<Rightarrow> string" where
  "reference name = ''${'' @ name @ ''}''"

lemma split_first_shorter:
  assumes "split_first needle s = Some (a, b)" and "needle \<noteq> []"
  shows "length b < length s"
proof -
  have "s = a @ needle @ b" using split_first_Some[OF assms(1)] by blast
  with assms(2) show ?thesis by simp
qed

text \<open>\<open>str.replace\<close>.\<close>

function replace_all :: "string \<Rightarrow> string \<Rightarrow> string \<Rightarrow> string" where
  "replace_all needle r s =
     (if needle = [] then s
      else case split_first needle s of
             None \<Rightarrow> s
           | Some (a, b) \<Rightarrow> a @ r @ replace_all needle r b)"
  by pat_completeness auto

termination
  by (relation "measure (\<lambda>(n, r, s). length s)") (auto dest: split_first_shorter)

declare replace_all.simps [simp del]

definition restore_text :: "string list \<Rightarrow> string \<Rightarrow> string" where
  "restore_text names s = foldl (\<lambda>v name. replace_all (deferred_token name) (reference name) v) s names"

fun restore :: "string list \<Rightarrow> json \<Rightarrow> json"
  and restore_items :: "string list \<Rightarrow> (string \<times> json) list \<Rightarrow> (string \<times> json) list"
  and restore_list :: "string list \<Rightarrow> json list \<Rightarrow> json list" where
  "restore names (JObj d) = JObj (restore_items names d)"
| "restore names (JList xs) = JList (restore_list names xs)"
| "restore names (JStr s) = JStr (restore_text names s)"
| "restore names v = v"
| "restore_items names [] = []"
| "restore_items names ((k, v) # d) = (k, restore names v) # restore_items names d"
| "restore_list names [] = []"
| "restore_list names (x # xs) = restore names x # restore_list names xs"

definition after_last :: "string \<Rightarrow> string \<Rightarrow> string" where
  "after_last sep s = (case split_first (rev sep) (rev s) of None \<Rightarrow> s | Some (a, _) \<Rightarrow> rev a)"

definition variable_error :: "error \<Rightarrow> error" where
  "variable_error err =
     (case err of
        KeyError k \<Rightarrow> VariableError (''unknown variable: '' @ after_last '': '' (strip_quotes (repr_str k)))
      | ValueError m \<Rightarrow> VariableError m
      | _ \<Rightarrow> err)"

definition aliases_of :: "jdict \<Rightarrow> jdict result" where
  "aliases_of document =
     (case map_of document ''variables'' of
        None \<Rightarrow> Inr []
      | Some JNull \<Rightarrow> Inr []
      | Some (JObj d) \<Rightarrow> Inr d
      | Some _ \<Rightarrow> Inl (VariableError ''variables must be an object''))"

definition pop_all :: "string list \<Rightarrow> jdict \<Rightarrow> jdict" where
  "pop_all names d = filter (\<lambda>(k, v). k \<notin> set names) d"

text \<open>\<open>lib\<close> is the variable resolution and composition of the configuration library.\<close>

definition resolve_config_tree ::
    "(jdict \<Rightarrow> jdict result) \<Rightarrow> jdict \<Rightarrow> string list \<Rightarrow> jdict \<Rightarrow> jdict result" where
  "resolve_config_tree lib document deferred external =
     bindR (aliases_of document) (\<lambda>aliases.
     let augmented = dict_update (dict_update (dict_update external document) aliases)
                       (map (\<lambda>name. (name, JStr (deferred_token name))) deferred)
     in case lib augmented of
          Inl err \<Rightarrow> Inl (variable_error err)
        | Inr resolved \<Rightarrow>
            let extra = filter (\<lambda>k. k \<notin> fst ` set document) (deferred @ map fst external @ map fst aliases)
            in Inr (pop_all extra (restore_items deferred resolved)))"

definition RESERVED :: "string list" where
  "RESERVED = [''plugin'', ''stop'', ''variables'']"

definition config_values ::
    "(jdict \<Rightarrow> jdict result) \<Rightarrow> jdict \<Rightarrow> jdict \<Rightarrow> registry \<Rightarrow> jdict result" where
  "config_values lib document overrides reg =
     bindR (case jget ''variables'' document (JObj []) of
              JObj _ \<Rightarrow> Inr () | _ \<Rightarrow> Inl (ValueError ''variables must be an object'')) (\<lambda>_.
     bindR (case map_of document ''plugin'' of
              Some (JStr name) \<Rightarrow> get_plugin name reg | _ \<Rightarrow> Inl (KeyError ''plugin'')) (\<lambda>loaded.
     bindR (resolve_config_tree lib document (deferred_of (lp_instance loaded)) []) (\<lambda>resolved.
       let vals = filter (\<lambda>(k, v). k \<notin> set RESERVED \<and> \<not> (k \<in> set COMMON_CONFIG_FIELDS \<and> v = JNull)) resolved
       in Inr (dict_update vals (filter (\<lambda>(k, v). k \<notin> set RESERVED) overrides)))))"

definition resolve_config_document :: "(jdict \<Rightarrow> jdict result) \<Rightarrow> json \<Rightarrow> registry \<Rightarrow> json result" where
  "resolve_config_document lib document reg =
     (case document of
        JObj d \<Rightarrow>
          (case map_of d ''plugin'' of
             Some (JStr name) \<Rightarrow>
               (case map_of (rg_plugins reg) name of
                  None \<Rightarrow> Inr document
                | Some loaded \<Rightarrow>
                    bindR (resolve_config_tree lib d (deferred_of (lp_instance loaded)) []) (\<lambda>r. Inr (JObj r)))
           | _ \<Rightarrow> Inr document)
      | _ \<Rightarrow> Inr document)"

definition validate_config_variables :: "(jdict \<Rightarrow> jdict result) \<Rightarrow> jdict \<Rightarrow> registry \<Rightarrow> unit result" where
  "validate_config_variables lib document reg =
     bindR (resolve_config_document lib (JObj document) reg) (\<lambda>_. Inr ())"

section \<open>Expansion\<close>

text \<open>
  The value of \<open>source\<close> in a configuration. A value that is not a list of texts is rejected
  here; the sources reject it when a shell command is bound, here or in the task service.
\<close>

definition source_of :: "jdict \<Rightarrow> string list option result" where
  "source_of vals =
     (case map_of vals ''source'' of
        None \<Rightarrow> Inr None
      | Some JNull \<Rightarrow> Inr None
      | Some (JList items) \<Rightarrow>
          if list_all (\<lambda>j. as_str j \<noteq> None) items
          then Inr (Some (map (\<lambda>j. case as_str j of Some s \<Rightarrow> s | None \<Rightarrow> []) items))
          else Inl (ValueError ''source entries must be path strings'')
      | Some _ \<Rightarrow> Inl (ValueError ''source must contain one or more non-empty paths without NUL''))"

definition dict_json :: "(string, string) dict \<Rightarrow> json" where
  "dict_json d = JObj (map (\<lambda>(k, v). (k, JStr v)) d)"

definition plugin_snapshot :: "string \<Rightarrow> loaded_plugin \<Rightarrow> jdict \<Rightarrow> jdict" where
  "plugin_snapshot name loaded vals =
     [(''result_evaluator'', JBool (callable (in_evaluate_result (lp_instance loaded)))),
      (''name'', JStr name), (''version'', JStr (lp_version loaded)), (''digest'', JStr (lp_digest loaded)),
      (''generation'', JInt (lp_generation loaded)), (''values'', JObj vals),
      (''statuses'', statuses_of (lp_instance loaded)),
      (''lifecycle_statuses'', dict_json (in_lifecycle_statuses (lp_instance loaded))),
      (''result_statuses'', dict_json (in_result_statuses (lp_instance loaded))),
      (''interrupt_status'', JStr (attr (in_interrupt_status (lp_instance loaded)) ''cancelled''))]"

text \<open>What the registry needs of its surroundings: the root of relative directories and the stop strategies.\<close>

record expand_env =
  ee_realpath :: "ppath \<Rightarrow> ppath"
  ee_stop :: "json \<Rightarrow> stop_strategy result"

definition frozen_directory :: "(ppath \<Rightarrow> ppath) \<Rightarrow> ppath \<Rightarrow> string \<Rightarrow> string" where
  "frozen_directory realpath base directory =
     (let path = parse_path directory
      in path_str (realpath (if is_absolute path then path else path_join base path)))"

definition context_root :: "jdict \<Rightarrow> ppath result" where
  "context_root ctx = (case map_of ctx ''root'' of Some v \<Rightarrow> Inr (parse_path (py_str v)) | None \<Rightarrow> Inl (KeyError ''root''))"

definition prepare_expanded ::
    "expand_env \<Rightarrow> ppath \<Rightarrow> string \<Rightarrow> string list option \<Rightarrow> jdict \<Rightarrow> stop_strategy option \<Rightarrow> task_draft \<Rightarrow> task_draft result" where
  "prepare_expanded ee base name source snapshot stop draft =
     (let frozen = frozen_directory (ee_realpath ee) base (td_working_directory draft)
      in bindR (freeze_command_working_directory (ee_realpath ee) (td_command draft) frozen source) (\<lambda>command.
           Inr (draft\<lparr>td_working_directory := frozen, td_command := command, td_source := source,
                      td_plugin_snapshot := snapshot, td_template := Some name, td_stop := stop\<rparr>)))"

definition expand_plugin ::
    "expand_env \<Rightarrow> string \<Rightarrow> jdict \<Rightarrow> jdict \<Rightarrow> registry \<Rightarrow> task_draft list result" where
  "expand_plugin ee name vals ctx reg =
     bindR (get_plugin name reg) (\<lambda>loaded.
     bindR (case in_expand (lp_instance loaded) of
              Some f \<Rightarrow> f vals ctx | None \<Rightarrow> Inl (AttributeError ''expand'')) (\<lambda>drafts.
     bindR (case in_stop (lp_instance loaded) of
              Some j \<Rightarrow> if truthy j then bindR (ee_stop ee j) (\<lambda>s. Inr (Some s)) else Inr None
            | None \<Rightarrow> Inr None) (\<lambda>stop.
     bindR (context_root ctx) (\<lambda>base.
     bindR (source_of vals) (\<lambda>source.
       mapR (prepare_expanded ee base name source (plugin_snapshot name loaded vals) stop) drafts)))))"

definition plugin_of :: "jdict \<Rightarrow> string result" where
  "plugin_of document =
     (case map_of document ''plugin'' of
        Some (JStr name) \<Rightarrow> if name \<noteq> [] then Inr name else Inl (ValueError ''task configuration must name a plugin'')
      | _ \<Rightarrow> Inl (ValueError ''task configuration must name a plugin''))"

definition run_values ::
    "(jdict \<Rightarrow> jdict result) \<Rightarrow> jdict \<Rightarrow> jdict \<Rightarrow> registry \<Rightarrow> (string \<times> jdict) result" where
  "run_values lib document overrides reg =
     bindR (plugin_of document) (\<lambda>name.
     bindR (validate_inputs name overrides reg) (\<lambda>overrides.
     bindR (config_values lib document overrides reg) (\<lambda>vals. Inr (name, vals))))"

definition expand_config ::
    "(jdict \<Rightarrow> jdict result) \<Rightarrow> expand_env \<Rightarrow> jdict \<Rightarrow> jdict \<Rightarrow> jdict \<Rightarrow> registry \<Rightarrow> task_draft list result" where
  "expand_config lib ee document overrides ctx reg =
     bindR (run_values lib document overrides reg) (\<lambda>(name, vals).
     bindR (expand_plugin ee name vals ctx reg) (\<lambda>drafts.
       if jget ''stop'' document JNull = JNull then Inr drafts
       else bindR (ee_stop ee (jget ''stop'' document JNull)) (\<lambda>stop.
              Inr (map (\<lambda>draft. draft\<lparr>td_stop := Some stop\<rparr>) drafts))))"

definition discover :: "string \<Rightarrow> jdict \<Rightarrow> jdict \<Rightarrow> registry \<Rightarrow> string list result" where
  "discover name vals ctx reg =
     bindR (get_plugin name reg) (\<lambda>loaded.
       case in_discover (lp_instance loaded) of
         None \<Rightarrow> Inr []
       | Some f \<Rightarrow>
           bindR (f vals ctx) (\<lambda>r.
             case r of
               JList items \<Rightarrow>
                 if list_all (\<lambda>j. as_str j \<noteq> None) items
                 then Inr (map (\<lambda>j. case as_str j of Some s \<Rightarrow> s | None \<Rightarrow> []) items)
                 else Inl (TypeError ''plugin discover must return a list of strings'')
             | _ \<Rightarrow> Inl (TypeError ''plugin discover must return a list of strings'')))"

definition discover_config ::
    "(jdict \<Rightarrow> jdict result) \<Rightarrow> jdict \<Rightarrow> jdict \<Rightarrow> jdict \<Rightarrow> registry \<Rightarrow> string list result" where
  "discover_config lib document overrides ctx reg =
     bindR (run_values lib document overrides reg) (\<lambda>(name, vals). discover name vals ctx reg)"

section \<open>Inspection\<close>

record inspection_item =
  ii_name :: string
  ii_label :: "string option"
  ii_value :: json
  ii_kind :: string
  ii_check :: string
  ii_severity :: string
  ii_message :: "string option"

definition ITEM_FIELDS :: "string list" where
  "ITEM_FIELDS = [''name'', ''label'', ''value'', ''kind'', ''check'', ''severity'', ''message'']"

definition choice_field :: "string \<Rightarrow> string list \<Rightarrow> string \<Rightarrow> jdict \<Rightarrow> string option" where
  "choice_field key choices dflt d =
     (case map_of d key of
        None \<Rightarrow> Some dflt
      | Some (JStr s) \<Rightarrow> if s \<in> set choices then Some s else None
      | Some _ \<Rightarrow> None)"

definition value_field :: "jdict \<Rightarrow> json option" where
  "value_field d =
     (case map_of d ''value'' of
        Some (JStr s) \<Rightarrow> Some (JStr s)
      | Some (JList items) \<Rightarrow> if list_all (\<lambda>j. as_str j \<noteq> None) items then Some (JList items) else None
      | _ \<Rightarrow> None)"

definition validate_value_shape :: "inspection_item \<Rightarrow> inspection_item result" where
  "validate_value_shape item =
     (let is_list = (case ii_value item of JList _ \<Rightarrow> True | _ \<Rightarrow> False);
          listed = ii_kind item \<in> {''tokens'', ''code-list''}
      in if listed \<and> \<not> is_list then Inl (ValueError ''list inspection values must be a string list'')
         else if \<not> listed \<and> is_list then Inl (ValueError ''scalar inspection values must be strings'')
         else Inr item)"

definition validate_item :: "json \<Rightarrow> inspection_item result" where
  "validate_item raw =
     (case raw of
        JObj d \<Rightarrow>
          (let name = text_field ''name'' is_identifier d;
               label = optional_text ''label'' short_label d;
               v = value_field d;
               kind = choice_field ''kind'' [''text'', ''path'', ''command'', ''tokens'', ''code-list''] ''text'' d;
               check = choice_field ''check'' [''none'', ''availability''] ''none'' d;
               severity = choice_field ''severity'' [''ok'', ''info'', ''warning'', ''error''] ''info'' d;
               message = optional_text ''message'' (\<lambda>_. True) d;
               extra = filter (\<lambda>k. k \<notin> set ITEM_FIELDS) (map fst d)
           in case (name, label, v, kind, check, severity, message, extra) of
                (Some n, Some l, Some v, Some k, Some c, Some s, Some m, []) \<Rightarrow>
                  validate_value_shape
                    \<lparr>ii_name = n, ii_label = l, ii_value = v, ii_kind = k, ii_check = c, ii_severity = s, ii_message = m\<rparr>
              | _ \<Rightarrow> Inl (ValidationError (bad_field ''name'' name @ bad_field ''label'' label @ bad_field ''value'' v @
                    bad_field ''kind'' kind @ bad_field ''check'' check @ bad_field ''severity'' severity @
                    bad_field ''message'' message @ extra)))
      | _ \<Rightarrow> Inl (ValidationError [''model_type'']))"

definition WORKING_DIRECTORY_LABEL :: string where
  "WORKING_DIRECTORY_LABEL = [CHR 0xE5, CHR 0xB7, CHR 0xA5, CHR 0xE4, CHR 0xBD, CHR 0x9C, CHR 0xE7, CHR 0x9B, CHR 0xAE, CHR 0xE5, CHR 0xBD, CHR 0x95]"

definition NO_WORKING_DIRECTORY :: string where
  "NO_WORKING_DIRECTORY = [CHR 0xE6, CHR 0x89, CHR 0xBE, CHR 0xE4, CHR 0xB8, CHR 0x8D, CHR 0xE5, CHR 0x88, CHR 0xB0, CHR 0xE5, CHR 0xB7, CHR 0xA5, CHR 0xE4, CHR 0xBD, CHR 0x9C, CHR 0xE7, CHR 0x9B, CHR 0xAE, CHR 0xE5, CHR 0xBD, CHR 0x95]"

definition COMMAND_LABEL :: string where
  "COMMAND_LABEL = [CHR 0xE5, CHR 0x91, CHR 0xBD, CHR 0xE4, CHR 0xBB, CHR 0xA4]"

definition NO_COMMAND :: string where
  "NO_COMMAND = [CHR 0xE6, CHR 0x89, CHR 0xBE, CHR 0xE4, CHR 0xB8, CHR 0x8D, CHR 0xE5, CHR 0x88, CHR 0xB0, CHR 0xE5, CHR 0x91, CHR 0xBD, CHR 0xE4, CHR 0xBB, CHR 0xA4, CHR 0xE5, CHR 0x85, CHR 0xA5, CHR 0xE5, CHR 0x8F, CHR 0xA3, CHR 0xEF, CHR 0xBC, CHR 0x9A]"

definition SOURCE_LABEL :: string where
  "SOURCE_LABEL = [CHR 0xE5, CHR 0x8A, CHR 0xA0, CHR 0xE8, CHR 0xBD, CHR 0xBD, CHR 0xE7, CHR 0x8E, CHR 0xAF, CHR 0xE5, CHR 0xA2, CHR 0x83]"

definition NO_SOURCE :: string where
  "NO_SOURCE = [CHR 0xE6, CHR 0x89, CHR 0xBE, CHR 0xE4, CHR 0xB8, CHR 0x8D, CHR 0xE5, CHR 0x88, CHR 0xB0, CHR 0xE7, CHR 0x8E, CHR 0xAF, CHR 0xE5, CHR 0xA2, CHR 0x83, CHR 0xE8, CHR 0x84, CHR 0x9A, CHR 0xE6, CHR 0x9C, CHR 0xAC, CHR 0xEF, CHR 0xBC, CHR 0x9A]"

definition SEMICOLON :: string where
  "SEMICOLON = [CHR 0xEF, CHR 0xBC, CHR 0x9B]"

text \<open>\<open>Path.is_dir\<close>, \<open>Path.is_file\<close> and \<open>shutil.which\<close>.\<close>

record probe =
  pr_realpath :: "ppath \<Rightarrow> ppath"
  pr_is_dir :: "ppath \<Rightarrow> bool"
  pr_is_file :: "ppath \<Rightarrow> bool"
  pr_which :: "string \<Rightarrow> bool"

definition availability :: "string \<Rightarrow> string \<Rightarrow> json \<Rightarrow> string \<Rightarrow> bool \<Rightarrow> string \<Rightarrow> json" where
  "availability name label v kind ok message =
     JObj [(''name'', JStr name), (''label'', JStr label), (''value'', v), (''kind'', JStr kind),
       (''check'', JStr ''availability''), (''severity'', JStr (if ok then ''ok'' else ''error'')),
       (''message'', if ok then JNull else JStr message)]"

definition inspected_directory :: "probe \<Rightarrow> ppath \<Rightarrow> jdict \<Rightarrow> ppath" where
  "inspected_directory pr base vals =
     (let d = parse_path (py_str (jget ''working_directory'' vals (JStr ''.'')))
      in pr_realpath pr (if is_absolute d then d else path_join base d))"

definition has_directory :: "ppath \<Rightarrow> bool" where
  "has_directory p \<longleftrightarrow> is_absolute p \<or> 1 < length (parts_of p)"

definition command_items :: "probe \<Rightarrow> ppath \<Rightarrow> jdict \<Rightarrow> json list" where
  "command_items pr directory vals =
     (case jget ''command'' vals JNull of
        JStr s \<Rightarrow>
          if strip s \<noteq> []
          then [JObj [(''name'', JStr ''command''), (''label'', JStr COMMAND_LABEL), (''value'', JStr s),
                  (''kind'', JStr ''command''), (''severity'', JStr ''ok''), (''message'', JNull)]]
          else []
      | JList (first # rest) \<Rightarrow>
          let executable = py_str first;
              path = parse_path executable;
              found = (if has_directory path then pr_is_file pr (path_join directory path) else pr_which pr executable)
          in [availability ''command'' COMMAND_LABEL
                (JStr (join '' '' (map (\<lambda>part. shlex_quote (py_str part)) (first # rest)))) ''command'' found (NO_COMMAND @ executable)]
      | _ \<Rightarrow> [])"

definition source_items :: "probe \<Rightarrow> ppath \<Rightarrow> jdict \<Rightarrow> json list result" where
  "source_items pr directory vals =
     bindR (source_of vals) (\<lambda>source.
       case source of
         None \<Rightarrow> Inr []
       | Some files \<Rightarrow>
           bindR (normalize_source_files (Some files)) (\<lambda>items.
             let paths = map (\<lambda>item. let path = parse_path item
                                     in pr_realpath pr (if is_absolute path then path else path_join directory path)) items;
                 missing = map path_str (filter (\<lambda>path. \<not> pr_is_file pr path) paths)
             in Inr [availability ''source'' SOURCE_LABEL
                       (JList (map (\<lambda>path. JStr (''source '' @ shlex_quote (path_str path))) paths))
                       ''code-list'' (missing = []) (NO_SOURCE @ join SEMICOLON missing)]))"

definition common_inspection :: "probe \<Rightarrow> jdict \<Rightarrow> jdict \<Rightarrow> json list result" where
  "common_inspection pr vals ctx =
     bindR (context_root ctx) (\<lambda>base.
     let directory = inspected_directory pr base vals
     in bindR (source_items pr directory vals) (\<lambda>sources.
          Inr ([availability ''working_directory'' WORKING_DIRECTORY_LABEL (JStr (path_str directory)) ''path''
                  (pr_is_dir pr directory) NO_WORKING_DIRECTORY]
               @ command_items pr directory vals @ sources)))"

definition inspect_config ::
    "(jdict \<Rightarrow> jdict result) \<Rightarrow> probe \<Rightarrow> jdict \<Rightarrow> jdict \<Rightarrow> jdict \<Rightarrow> registry \<Rightarrow> inspection_item list result" where
  "inspect_config lib pr document overrides ctx reg =
     bindR (run_values lib document overrides reg) (\<lambda>(name, vals).
     bindR (common_inspection pr vals ctx) (\<lambda>raw.
     bindR (get_plugin name reg) (\<lambda>loaded.
     bindR (case in_inspect (lp_instance loaded) of
              None \<Rightarrow> Inr []
            | Some f \<Rightarrow> bindR (f vals ctx) (\<lambda>r.
                case r of JList items \<Rightarrow> Inr items | _ \<Rightarrow> Inl (TypeError ''plugin inspect must return a list''))) (\<lambda>extra.
       mapR validate_item (raw @ extra)))))"

section \<open>Results\<close>

definition hashable :: "json \<Rightarrow> bool" where
  "hashable j \<longleftrightarrow> (case j of JList _ \<Rightarrow> False | JObj _ \<Rightarrow> False | _ \<Rightarrow> True)"

definition status_definition :: "jdict \<Rightarrow> json \<Rightarrow> jdict option result" where
  "status_definition snapshot key =
     (case jget ''statuses'' snapshot (JObj []) of
        JObj statuses \<Rightarrow>
          if \<not> hashable key then Inl (TypeError ''unhashable type'')
          else Inr (case key of JStr k \<Rightarrow> (case map_of statuses k of Some (JObj d) \<Rightarrow> Some d | _ \<Rightarrow> None) | _ \<Rightarrow> None)
      | _ \<Rightarrow> Inl (AttributeError ''get''))"

definition judge_result ::
    "string \<Rightarrow> jdict \<Rightarrow> json \<Rightarrow> json \<Rightarrow> json \<Rightarrow> (task_status \<times> jdict) option result" where
  "judge_result name snapshot key custom label =
     bindR (status_definition snapshot key) (\<lambda>defn.
       case (key, defn) of
         (JStr k, Some d) \<Rightarrow>
           (case custom of
              JObj c \<Rightarrow>
                Inr (Some (\<lparr>ts_key = k,
                            ts_label = py_str (if truthy label then label else jget ''label'' d (JStr k)),
                            ts_tone = py_str (jget ''tone'' d (JStr ''neutral'')), ts_finished = True\<rparr>, c))
            | _ \<Rightarrow> Inl (TypeError (''plugin '' @ name @ '' result custom data must be an object'')))
       | _ \<Rightarrow> Inl (ValueError (''plugin '' @ name @ '' returned unknown status: '' @ py_repr key)))"

definition apply_evaluator ::
    "string \<Rightarrow> (task_row \<Rightarrow> jdict \<Rightarrow> json result) \<Rightarrow> task_row \<Rightarrow> jdict \<Rightarrow> (task_status \<times> jdict) option result" where
  "apply_evaluator name f task ctx =
     bindR (f task ctx) (\<lambda>r.
       case r of
         JStr key \<Rightarrow> judge_result name (r_plugin_snapshot task) (JStr key) (JObj (r_custom task)) JNull
       | JObj d \<Rightarrow>
           judge_result name (r_plugin_snapshot task) (jget ''status'' d JNull)
             (jget ''custom'' d (JObj (r_custom task))) (jget ''label'' d JNull)
       | _ \<Rightarrow> Inl (TypeError (''plugin '' @ name @ '' evaluate_result must return a status key or object'')))"

definition registry_evaluate_result ::
    "task_row \<Rightarrow> jdict \<Rightarrow> registry \<Rightarrow> (task_status \<times> jdict) option result" where
  "registry_evaluate_result task ctx reg =
     (let snapshot = r_plugin_snapshot task;
          flag = jget ''result_evaluator'' snapshot JNull
      in if flag = JBool False then Inr None
         else case map_of snapshot ''name'' of
           Some (JStr name) \<Rightarrow>
             (case map_of (rg_plugins reg) name of
                None \<Rightarrow> Inl (RuntimeError (''plugin '' @ name @ '' is unavailable for result evaluation''))
              | Some loaded \<Rightarrow>
                  (case in_evaluate_result (lp_instance loaded) of
                     None \<Rightarrow>
                       if flag = JBool True then Inl (RuntimeError (''plugin '' @ name @ '' result evaluator is unavailable''))
                       else Inr None
                   | Some f \<Rightarrow>
                       if jget ''digest'' snapshot JNull \<noteq> JStr (lp_digest loaded)
                       then Inl (RuntimeError (''plugin '' @ name @ '' changed after task submission''))
                       else apply_evaluator name f task ctx))
         | other \<Rightarrow>
             if flag = JBool True
             then Inl (RuntimeError (''plugin '' @ (case other of Some j \<Rightarrow> py_str j | None \<Rightarrow> ''None'') @ '' result evaluator is unavailable''))
             else Inr None)"

end
