(* ===== verification/LF_Plugins_Facts.thy ===== *)
theory LF_Plugins_Facts
  imports LF_Plugins
begin

text \<open>
  Properties of the plugin registry: what loading keeps true, the agreement of the published
  schema with the check of the inputs, the tasks an expansion produces and the results a plugin
  may report.
\<close>

section \<open>Loading\<close>

lemma guard_Inr [simp]: "guard ok err = Inr u \<longleftrightarrow> ok"
  by (simp add: guard_def)

lemma hoare_bind_same:
  "hoare I f (\<lambda>_. I) I \<Longrightarrow> (\<And>a. hoare I (g a) (\<lambda>_. I) I) \<Longrightarrow> hoare I (bindS f g) (\<lambda>_. I) I"
  by (rule hoare_bindS)

text \<open>A plugin that can be used: its metadata is consistent and it can expand.\<close>

definition plugin_ok :: "int \<Rightarrow> string \<times> loaded_plugin \<Rightarrow> bool" where
  "plugin_ok generation = (\<lambda>(key, p).
     (key = lp_name p \<or> key \<in> set (in_aliases (lp_instance p)))
     \<and> validate_metadata (lp_name p) (lp_instance p) = Inr ()
     \<and> in_expand (lp_instance p) \<noteq> None \<and> lp_generation p = generation)"

definition candidates_ok :: "int \<Rightarrow> candidates \<Rightarrow> bool" where
  "candidates_ok generation cs \<longleftrightarrow> distinct (map fst cs) \<and> (\<forall>c \<in> set cs. plugin_ok generation c)"

definition registry_ok :: "registry \<Rightarrow> bool" where
  "registry_ok reg \<longleftrightarrow> candidates_ok (rg_generation reg) (rg_plugins reg)"

lemma dict_set_cases: "c \<in> set (dict_set k v d) \<Longrightarrow> c \<in> set d \<or> c = (k, v)"
  by (induction d) (auto split: if_splits)

lemma add_candidate_ok:
  assumes "plugin_ok generation (name, loaded)"
  shows "hoare (candidates_ok generation) (add_candidate name loaded) (\<lambda>_. candidates_ok generation) (candidates_ok generation)"
proof (rule hoareI)
  fix cs and a :: unit and cs'
  assume "candidates_ok generation cs" and "add_candidate name loaded cs = (Inr a, cs')"
  then show "candidates_ok generation cs'"
    using assms by (auto simp: add_candidate_def candidates_ok_def split: if_splits dest!: dict_set_cases)
next
  fix cs err cs'
  assume "candidates_ok generation cs" and "add_candidate name loaded cs = (Inl err, cs')"
  then show "candidates_ok generation cs'" by (auto simp: add_candidate_def split: if_splits)
qed

lemma register_one_ok:
  "hoare (candidates_ok generation) (register_one file generation reg) (\<lambda>_. candidates_ok generation) (candidates_ok generation)"
proof -
  obtain name version made where reg: "reg = (name, version, made)" by (cases reg)
  show ?thesis
  proof (unfold hoare_def, intro allI impI)
    fix cs
    assume ok: "candidates_ok generation cs"
    show "case register_one file generation reg cs of (Inr a, t) \<Rightarrow> candidates_ok generation t | (Inl e, t) \<Rightarrow> candidates_ok generation t"
    proof (cases "dict_has name cs")
      case True
      with ok show ?thesis by (simp add: register_one_def reg)
    next
      case False
      show ?thesis
      proof (cases "make_instance name made")
        case (Inl err)
        with ok False show ?thesis by (simp add: register_one_def reg)
      next
        case (Inr inst)
        define loaded where "loaded = \<lparr>lp_name = name, lp_version = version, lp_digest = pf_digest file,
                        lp_generation = generation, lp_instance = inst, lp_path = pf_path file\<rparr>"
        have inst: "validate_metadata name inst = Inr ()" "in_expand inst \<noteq> None"
          using Inr by (auto simp: make_instance_def bindR_Inr_iff Let_def)
        have p: "plugin_ok generation (name, loaded)" "\<And>a. a \<in> set (in_aliases inst) \<Longrightarrow> plugin_ok generation (a, loaded)"
          using inst by (simp_all add: plugin_ok_def loaded_def)
        have "hoare (candidates_ok generation) (bindS (add_candidate name loaded) (\<lambda>_.
            bindS (mapS (\<lambda>alias. add_candidate alias loaded) (in_aliases inst)) (\<lambda>_. retS ())))
            (\<lambda>_. candidates_ok generation) (candidates_ok generation)"
          by (intro hoare_bind_same hoare_mapS hoare_retS add_candidate_ok p) simp_all
        with ok have "case bindS (add_candidate name loaded) (\<lambda>_.
            bindS (mapS (\<lambda>alias. add_candidate alias loaded) (in_aliases inst)) (\<lambda>_. retS ())) cs of
              (Inr a, t) \<Rightarrow> candidates_ok generation t | (Inl e, t) \<Rightarrow> candidates_ok generation t"
          by (simp add: hoare_def)
        with False Inr show ?thesis
          by (simp add: register_one_def reg loaded_def[symmetric] Let_def)
      qed
    qed
  qed
qed

lemma load_file_ok: "candidates_ok generation cs \<Longrightarrow> candidates_ok generation (snd (load_file generation file cs))"
proof -
  have "hoare (candidates_ok generation) (load_file generation file) (\<lambda>_. candidates_ok generation) (candidates_ok generation)"
    unfolding load_file_def
    by (rule hoare_bindS[where Q = "\<lambda>_. candidates_ok generation"])
      (auto intro!: hoare_bindS hoare_mapS hoare_retS register_one_ok hoare_liftS)
  then show "candidates_ok generation cs \<Longrightarrow> ?thesis" by (rule hoare_inv)
qed

lemma load_files_ok:
  "candidates_ok generation cs \<Longrightarrow> candidates_ok generation (fst (load_files generation files (cs, ds)))"
proof (induction files arbitrary: cs ds)
  case (Cons f files)
  obtain r cs' where r: "load_file generation f cs = (r, cs')" by fastforce
  have "candidates_ok generation cs'" using load_file_ok[OF Cons.prems, of f] r by simp
  with r show ?case by (cases r) (simp_all add: Cons.IH)
qed simp

lemma load_registry_ok: "registry_ok reg \<Longrightarrow> registry_ok (load_registry files reg)"
proof -
  assume ok: "registry_ok reg"
  obtain cs ds where l: "load_files (rg_generation reg + 1) (sort_key pf_path files) ([], []) = (cs, ds)" by fastforce
  have "candidates_ok (rg_generation reg + 1) cs"
    using load_files_ok[of "rg_generation reg + 1" "[]" "sort_key pf_path files" "[]"] l by (simp add: candidates_ok_def)
  with ok l show ?thesis by (simp add: load_registry_def registry_ok_def)
qed

text \<open>
  C34. The registry only offers usable plugins. After any sequence of reloads, whatever the files
  contained each time, every name maps to a plugin that carries that name or alias, whose
  metadata passed every check and which can expand, all of the current generation; and a reload
  in which no file yields a plugin keeps the plugins that were offered before.
\<close>

theorem registry_always_valid:
  "registry_ok (fold load_registry reloads empty_registry)
   \<and> (fst (load_files (rg_generation reg + 1) (sort_key pf_path files) ([], [])) = [] \<longrightarrow> rg_plugins reg \<noteq> []
      \<longrightarrow> rg_plugins (load_registry files reg) = rg_plugins reg \<and> rg_generation (load_registry files reg) = rg_generation reg)"
proof
  have "registry_ok reg \<Longrightarrow> registry_ok (fold load_registry reloads reg)" for reg
    by (induction reloads arbitrary: reg) (simp_all add: load_registry_ok)
  moreover have "registry_ok empty_registry" by (simp add: registry_ok_def empty_registry_def candidates_ok_def)
  ultimately show "registry_ok (fold load_registry reloads empty_registry)" .
qed (auto simp: load_registry_def Let_def split: prod.splits)

section \<open>Inputs\<close>

lemma add_field_keys: "fst ` set (add_field_properties f props) = set (field_inputs f) \<union> fst ` set props"
  by (auto simp: add_field_properties_def field_inputs_def Let_def split: option.splits)

lemma schema_keys: "fst ` set (fold add_field_properties flds props) = set (concat (map field_inputs flds)) \<union> fst ` set props"
  by (induction flds arbitrary: props) (auto simp: add_field_keys)

text \<open>
  The published input schema and the check of a run agree. For a plugin without a data model
  of its own, the inputs of a run are accepted exactly when each of them is a property of the
  schema the registry publishes for that plugin, which allows no others; accepted inputs are
  passed on unchanged.
\<close>

theorem inputs_match_schema:
  assumes "get_plugin name reg = Inr loaded" and "in_input_model (lp_instance loaded) = None"
    and "input_schema (lp_instance loaded) = Inr (JObj schema)"
  shows "map_of schema ''additionalProperties'' = Some (JBool False)
    \<and> (\<exists>props. map_of schema ''properties'' = Some (JObj props)
        \<and> (validate_inputs name overrides reg = Inr overrides \<longleftrightarrow> fst ` set overrides \<subseteq> fst ` set props)
        \<and> (validate_inputs name overrides reg = Inr vals \<longrightarrow> vals = overrides))"
proof -
  obtain flds where flds: "mapR validate_run_field (run_fields_of (lp_instance loaded)) = Inr flds"
    "schema = [(''title'', JStr (attr (in_title (lp_instance loaded)) ''plugin'' @ '' inputs'')), (''type'', JStr ''object''),
       (''properties'', JObj (fold add_field_properties flds [])),
       (''required'', JList (map JStr (sort (map rf_name (filter rf_required flds))))),
       (''additionalProperties'', JBool False)]"
    using assms(2,3) by (auto simp: input_schema_def bindR_Inr_iff)
  define allowed where "allowed = remdups (concat (map field_inputs flds))"
  have allowed: "allowed_inputs (lp_instance loaded) = Inr allowed"
    using flds(1) by (simp add: allowed_inputs_def allowed_def)
  have keys: "fst ` set (fold add_field_properties flds []) = set allowed"
    by (simp add: schema_keys allowed_def)
  have accept: "validate_inputs name overrides reg =
      (if filter (\<lambda>k. k \<notin> set allowed) (map fst overrides) = [] then Inr overrides
       else Inl (ValueError (''inputs are not declared by plugin '' @ name @ '': '' @
                  name_list (filter (\<lambda>k. k \<notin> set allowed) (map fst overrides)))))"
    using assms(1,2) allowed by (simp add: validate_inputs_def Let_def)
  have "filter (\<lambda>k. k \<notin> set allowed) (map fst overrides) = [] \<longleftrightarrow> fst ` set overrides \<subseteq> set allowed"
    by (auto simp: filter_empty_conv)
  with accept keys flds(2) show ?thesis by auto
qed

section \<open>Expansion\<close>

text \<open>What the sources rely on of \<open>Path.resolve\<close>: an absolute path that is its own resolution and its own text.\<close>

definition resolves :: "(ppath \<Rightarrow> ppath) \<Rightarrow> bool" where
  "resolves realpath \<longleftrightarrow>
     (\<forall>p. is_absolute (realpath p) \<and> parse_path (path_str (realpath p)) = realpath p \<and> realpath (realpath p) = realpath p)"

lemma list_all2_member: "list_all2 P xs ys \<Longrightarrow> y \<in> set ys \<Longrightarrow> \<exists>x. P x y"
  by (induction rule: list_all2_induct) auto

lemma expand_plugin_drafts:
  assumes "expand_plugin ee name vals ctx reg = Inr drafts"
  obtains loaded raw base source stop where "get_plugin name reg = Inr loaded"
    "list_all2 (\<lambda>r d. prepare_expanded ee base name source (plugin_snapshot name loaded vals) stop r = Inr d) raw drafts"
  using assms by (auto simp: expand_plugin_def bindR_Inr_iff mapR_Inr_list_all2)

definition ready :: "expand_env \<Rightarrow> string \<Rightarrow> loaded_plugin \<Rightarrow> jdict \<Rightarrow> task_draft \<Rightarrow> bool" where
  "ready ee name loaded vals d \<longleftrightarrow>
     td_template d = Some name \<and> td_plugin_snapshot d = plugin_snapshot name loaded vals
     \<and> (\<exists>p. td_working_directory d = path_str (ee_realpath ee p))
     \<and> (\<exists>command source. freeze_command_working_directory (ee_realpath ee) command (td_working_directory d) source = Inr (td_command d))"

lemma prepare_expanded_ready:
  "prepare_expanded ee base name source (plugin_snapshot name loaded vals) stop r = Inr d \<Longrightarrow> ready ee name loaded vals d"
proof -
  assume r: "prepare_expanded ee base name source (plugin_snapshot name loaded vals) stop r = Inr d"
  define frozen where "frozen = frozen_directory (ee_realpath ee) base (td_working_directory r)"
  obtain command where c: "freeze_command_working_directory (ee_realpath ee) (td_command r) frozen source = Inr command"
    and d: "d = r\<lparr>td_working_directory := frozen, td_command := command, td_source := source,
      td_plugin_snapshot := plugin_snapshot name loaded vals, td_template := Some name, td_stop := stop\<rparr>"
    using r by (auto simp: prepare_expanded_def frozen_def[symmetric] Let_def bindR_Inr_iff)
  have "\<exists>p. frozen = path_str (ee_realpath ee p)" by (auto simp: frozen_def frozen_directory_def Let_def)
  with c show "ready ee name loaded vals d" unfolding ready_def d by auto
qed

lemma ready_prepared:
  assumes "ready ee name loaded vals d" and "resolves (ee_realpath ee)" and "en_realpath e = ee_realpath ee"
    and "prepare_draft e d = Inr d'"
  shows "td_working_directory d' = td_working_directory d" and "td_command d' = td_command d"
proof -
  obtain p where p: "td_working_directory d = path_str (ee_realpath ee p)"
    using assms(1) by (auto simp: ready_def)
  let ?q = "parse_path (td_working_directory d)"
  have q: "is_absolute ?q" "path_str (ee_realpath ee ?q) = td_working_directory d"
    using assms(2) by (simp_all add: resolves_def p)
  obtain command source where c: "freeze_command_working_directory (ee_realpath ee) command (td_working_directory d) source = Inr (td_command d)"
    using assms(1) by (auto simp: ready_def)
  note again = freeze_idempotent[OF c]
  show "td_working_directory d' = td_working_directory d" "td_command d' = td_command d"
    using assms(3,4) q again by (auto simp: prepare_draft_def Let_def bindR_Inr_iff)
qed

text \<open>
  Expansion and submission fit together. Every task that a configuration expands to carries
  the name, the digest and the generation of the plugin that made it, and the directory and the
  command the registry bound it to are the ones the task service stores: binding it again on
  submission changes neither.
\<close>

theorem expanded_tasks_bound_once:
  assumes "expand_config lib ee document overrides ctx reg = Inr drafts" and "draft \<in> set drafts"
    and "resolves (ee_realpath ee)" and "en_realpath e = ee_realpath ee"
  shows "(\<exists>name loaded. plugin_of document = Inr name \<and> get_plugin name reg = Inr loaded \<and> td_template draft = Some name
      \<and> map_of (td_plugin_snapshot draft) ''digest'' = Some (JStr (lp_digest loaded))
      \<and> map_of (td_plugin_snapshot draft) ''generation'' = Some (JInt (lp_generation loaded)))
    \<and> (prepare_draft e draft = Inr stored \<longrightarrow>
        td_working_directory stored = td_working_directory draft \<and> td_command stored = td_command draft)"
proof -
  obtain name vals ds where ds: "run_values lib document overrides reg = Inr (name, vals)" "expand_plugin ee name vals ctx reg = Inr ds"
    "drafts = ds \<or> (\<exists>stop. drafts = map (\<lambda>draft. draft\<lparr>td_stop := Some stop\<rparr>) ds)"
    using assms(1) by (auto simp: expand_config_def bindR_Inr_iff split: if_splits)
  have name: "plugin_of document = Inr name" using ds(1) by (auto simp: run_values_def bindR_Inr_iff)
  obtain loaded raw base source stop where loaded: "get_plugin name reg = Inr loaded"
    and raw: "list_all2 (\<lambda>r d. prepare_expanded ee base name source (plugin_snapshot name loaded vals) stop r = Inr d) raw ds"
    by (rule expand_plugin_drafts[OF ds(2)])
  have all: "ready ee name loaded vals d" if "d \<in> set ds" for d
  proof -
    obtain r where "prepare_expanded ee base name source (plugin_snapshot name loaded vals) stop r = Inr d"
      using list_all2_member[OF raw \<open>d \<in> set ds\<close>] by blast
    then show ?thesis by (rule prepare_expanded_ready)
  qed
  have draft: "ready ee name loaded vals draft"
    using ds(3)
  proof
    assume "drafts = ds"
    with assms(2) all show ?thesis by simp
  next
    assume "\<exists>stop. drafts = map (\<lambda>draft. draft\<lparr>td_stop := Some stop\<rparr>) ds"
    with assms(2) obtain d x where "draft = d\<lparr>td_stop := x\<rparr>" "d \<in> set ds" by auto
    with all[of d] show ?thesis by (simp add: ready_def)
  qed
  then have "td_template draft = Some name" "td_plugin_snapshot draft = plugin_snapshot name loaded vals"
    by (simp_all add: ready_def)
  with name loaded ready_prepared[OF draft assms(3,4)] show ?thesis
    by (simp add: plugin_snapshot_def)
qed

section \<open>Results\<close>

lemma judge_result_Some:
  assumes "judge_result name snapshot key custom label = Inr (Some (status, c))"
  obtains k d where "key = JStr k" "status_definition snapshot key = Inr (Some d)" "ts_key status = k"
    "ts_tone status = py_str (jget ''tone'' d (JStr ''neutral''))" "ts_finished status"
proof -
  obtain defn where d: "status_definition snapshot key = Inr defn"
    using assms by (auto simp: judge_result_def bindR_Inr_iff)
  show thesis
  proof (cases key)
    case (JStr k)
    show thesis
    proof (cases defn)
      case None
      with assms d JStr show thesis by (simp add: judge_result_def)
    next
      case (Some dd)
      with assms d JStr that show thesis by (cases custom) (auto simp: judge_result_def)
    qed
  qed (use assms d in \<open>simp_all add: judge_result_def\<close>)
qed

text \<open>
  C32. A plugin can only report results its task declared. When the registry judges the result of
  a task, the plugin is loaded under the name the task recorded and with the digest it was
  submitted with, and the status is finished and one of the statuses in the task's snapshot,
  with the tone defined there.
\<close>

theorem reported_status_declared:
  assumes "registry_evaluate_result task ctx reg = Inr (Some (status, custom))"
  shows "\<exists>name loaded statuses defn. map_of (r_plugin_snapshot task) ''name'' = Some (JStr name)
    \<and> map_of (rg_plugins reg) name = Some loaded
    \<and> map_of (r_plugin_snapshot task) ''digest'' = Some (JStr (lp_digest loaded))
    \<and> map_of (r_plugin_snapshot task) ''statuses'' = Some (JObj statuses)
    \<and> map_of statuses (ts_key status) = Some (JObj defn)
    \<and> ts_tone status = py_str (jget ''tone'' defn (JStr ''neutral'')) \<and> ts_finished status"
proof -
  let ?s = "r_plugin_snapshot task"
  obtain name where name: "map_of ?s ''name'' = Some (JStr name)"
    using assms by (auto simp: registry_evaluate_result_def Let_def split: if_splits option.splits json.splits)
  obtain loaded f where loaded: "map_of (rg_plugins reg) name = Some loaded"
    "jget ''digest'' ?s JNull = JStr (lp_digest loaded)" "apply_evaluator name f task ctx = Inr (Some (status, custom))"
    using assms name by (auto simp: registry_evaluate_result_def Let_def split: if_splits option.splits)
  obtain r where "f task ctx = Inr r" using loaded(3) by (auto simp: apply_evaluator_def bindR_Inr_iff)
  with loaded(3) obtain key c label where j: "judge_result name ?s key c label = Inr (Some (status, custom))"
    by (cases r) (auto simp: apply_evaluator_def)
  obtain k d where k: "key = JStr k" "status_definition ?s key = Inr (Some d)" "ts_key status = k"
    "ts_tone status = py_str (jget ''tone'' d (JStr ''neutral''))" "ts_finished status"
    by (rule judge_result_Some[OF j])
  obtain statuses where st: "jget ''statuses'' ?s (JObj []) = JObj statuses" "map_of statuses k = Some (JObj d)"
    using k(1,2) by (auto simp: status_definition_def split: json.splits option.splits if_splits)
  have "map_of ?s ''statuses'' = Some (JObj statuses)" using st by (auto simp: jget_def split: option.splits)
  moreover have "map_of ?s ''digest'' = Some (JStr (lp_digest loaded))"
    using loaded(2) by (auto simp: jget_def split: option.splits)
  ultimately show ?thesis using name loaded(1) st(2) k by blast
qed

section \<open>Inspection\<close>

lemma availability_valid:
  assumes "is_identifier name" and "short_label label"
    and "kind \<in> {''text'', ''path'', ''command''} \<and> (\<exists>t. v = JStr t) \<or> kind \<in> {''tokens'', ''code-list''} \<and> (\<exists>ts. v = JList (map JStr ts))"
  shows "\<exists>item. validate_item (availability name label v kind ok message) = Inr item"
  using assms
  by (auto simp: availability_def validate_item_def text_field_def optional_text_def value_field_def choice_field_def
      validate_value_shape_def ITEM_FIELDS_def list_all_iff Let_def)

lemma label_lengths:
  "short_label WORKING_DIRECTORY_LABEL" "short_label COMMAND_LABEL" "short_label SOURCE_LABEL"
  by (simp_all add: short_label_def WORKING_DIRECTORY_LABEL_def COMMAND_LABEL_def SOURCE_LABEL_def)

lemma item_names: "is_identifier ''working_directory''" "is_identifier ''command''" "is_identifier ''source''"
  by code_simp+

definition well_typed :: "json \<Rightarrow> bool" where
  "well_typed raw \<longleftrightarrow> (\<exists>item. validate_item raw = Inr item)"

lemma command_items_valid: "list_all well_typed (command_items pr directory vals)"
proof -
  have line: "well_typed (JObj [(''name'', JStr ''command''), (''label'', JStr COMMAND_LABEL), (''value'', JStr s),
                  (''kind'', JStr ''command''), (''severity'', JStr ''ok''), (''message'', JNull)])" for s
    using item_names(2) label_lengths(2)
    by (simp add: well_typed_def validate_item_def text_field_def optional_text_def value_field_def choice_field_def
        validate_value_shape_def ITEM_FIELDS_def Let_def)
  have entry: "well_typed (availability ''command'' COMMAND_LABEL (JStr s) ''command'' ok message)" for s ok message
    unfolding well_typed_def by (rule availability_valid[OF item_names(2) label_lengths(2)]) simp
  show ?thesis
    by (auto simp: command_items_def line entry Let_def split: json.split list.split)
qed

lemma source_items_valid: "source_items pr directory vals = Inr raw \<Longrightarrow> list_all well_typed raw"
proof -
  have entry: "well_typed (availability ''source'' SOURCE_LABEL (JList (map (\<lambda>path. JStr (f path)) paths)) ''code-list'' ok message)"
    for f :: "ppath \<Rightarrow> string" and paths ok message
    unfolding well_typed_def
    by (rule availability_valid[OF item_names(3) label_lengths(3)]) (auto intro!: exI[of _ "map f paths"])
  assume "source_items pr directory vals = Inr raw"
  then show "list_all well_typed raw"
    by (auto simp: source_items_def bindR_Inr_iff entry Let_def simp del: map_map split: option.splits)
qed

lemma mapR_total: "list_all (\<lambda>x. \<exists>y. f x = Inr y) xs \<Longrightarrow> \<exists>ys. mapR f xs = Inr ys"
  by (induction xs) auto

text \<open>
  C35. What the registry shows of a configuration before a run is well formed: every item it adds
  itself (the directory, the command, the sources) satisfies the data model of an inspection
  item, so an inspection can only fail on items a plugin adds.
\<close>

theorem common_inspection_well_typed:
  assumes "common_inspection pr vals ctx = Inr raw"
  shows "\<exists>items. mapR validate_item raw = Inr items \<and> length items = length raw \<and> ii_name (hd items) = ''working_directory''"
proof -
  obtain base sources where raw: "source_items pr (inspected_directory pr base vals) vals = Inr sources"
    "raw = [availability ''working_directory'' WORKING_DIRECTORY_LABEL (JStr (path_str (inspected_directory pr base vals)))
              ''path'' (pr_is_dir pr (inspected_directory pr base vals)) NO_WORKING_DIRECTORY]
           @ command_items pr (inspected_directory pr base vals) vals @ sources"
    using assms by (auto simp: common_inspection_def bindR_Inr_iff Let_def)
  have "well_typed (hd raw)"
    unfolding raw(2) well_typed_def append.simps list.sel
    by (rule availability_valid[OF item_names(1) label_lengths(1)]) simp
  then have "list_all well_typed raw"
    using command_items_valid source_items_valid[OF raw(1)] raw(2) by simp
  then obtain items where items: "mapR validate_item raw = Inr items"
    using mapR_total[of validate_item raw] unfolding well_typed_def by blast
  have "ii_name (hd items) = ''working_directory''"
    using items raw(2) by (auto simp: bindR_Inr_iff availability_def validate_item_def text_field_def validate_value_shape_def
        Let_def split: option.splits if_splits list.splits)
  with items mapR_length[OF items] show ?thesis by blast
qed

section \<open>Instances\<close>

definition ex_expansion :: task_draft where
  "ex_expansion = \<lparr>td_name = ''job'', td_working_directory = ''work'', td_shell = None, td_source = None,
     td_command = [''/bin/sh'', ''-ic'', SHELL_CWD_SENTINEL @ ''make''], td_labels = [], td_mutex_keys = [], td_custom = [],
     td_template = None, td_plugin_snapshot = [], td_stop = None, td_deferred_values = []\<rparr>"

definition ex_instance :: plugin_instance where
  "ex_instance = \<lparr>in_run_fields = Some (JList [JObj [(''name'', JStr ''case''), (''type'', JStr ''string'')]]), in_fields = None,
     in_expand = Some (\<lambda>vals ctx. Inr [ex_expansion]), in_required_common_fields = None, in_deferred_variables = None,
     in_config_model = None, in_input_model = None, in_example = None, in_api_inputs = None,
     in_statuses = Some (JObj [(''good'', JObj [(''label'', JStr ''Good''), (''tone'', JStr ''success'')])]),
     in_lifecycle_statuses = [], in_result_statuses = [], in_interrupt_status = None, in_aliases = [], in_stop = None,
     in_discover = None, in_inspect = None, in_evaluate_result = Some (\<lambda>task ctx. Inr (JStr ''good'')), in_validate_config = None,
     in_title = Some ''t'', in_description = None, in_instructions = None\<rparr>"

definition ex_registry :: registry where
  "ex_registry = load_registry [\<lparr>pf_path = ''p.py'', pf_digest = ''d1'', pf_module = Inr [(''cmd'', ''1'', Inr ex_instance)]\<rparr>] empty_registry"

definition ex_loaded :: loaded_plugin where
  "ex_loaded = \<lparr>lp_name = ''cmd'', lp_version = ''1'', lp_digest = ''d1'', lp_generation = 1, lp_instance = ex_instance, lp_path = ''p.py''\<rparr>"

lemma ex_instance_valid: "validate_metadata ''cmd'' ex_instance = Inr ()"
  by code_simp

lemma ex_registry_eq: "ex_registry = \<lparr>rg_generation = 1, rg_plugins = [(''cmd'', ex_loaded)], rg_diagnostics = []\<rparr>"
proof -
  have "make_instance ''cmd'' (Inr ex_instance) = Inr ex_instance"
    by (simp add: make_instance_def with_run_fields_def ex_instance_valid)
      (simp add: ex_instance_def guard_def)
  then show ?thesis
    by (simp add: ex_registry_def load_registry_def empty_registry_def load_file_def register_one_def liftS_def bindS_def retS_def
        dict_has_def add_candidate_def ex_loaded_def ex_instance_def)
qed

theorem registry_always_valid_witness:
  "registry_ok (fold load_registry [[]] ex_registry) \<and> rg_plugins (load_registry [] ex_registry) = [(''cmd'', ex_loaded)]"
proof -
  define files where "files = [\<lparr>pf_path = ''p.py'', pf_digest = ''d1'', pf_module = Inr [(''cmd'', ''1'', Inr ex_instance)]\<rparr>]"
  have "registry_ok (fold load_registry [files, []] empty_registry)"
    using registry_always_valid[of "[files, []]" ex_registry "[]"] by blast
  moreover have "rg_plugins (load_registry [] ex_registry) = rg_plugins ex_registry"
    using registry_always_valid[of "[]" ex_registry "[]"] by (simp add: ex_registry_eq)
  ultimately show ?thesis by (simp add: files_def ex_registry_def[symmetric]) (simp add: ex_registry_eq)
qed

lemma ex_get: "get_plugin ''cmd'' ex_registry = Inr ex_loaded"
  by (simp add: get_plugin_def ex_registry_eq)

definition ex_expand_env :: expand_env where
  "ex_expand_env = \<lparr>ee_realpath = (\<lambda>p. PPath ''/'' (filter (\<lambda>s. s \<noteq> [] \<and> s \<noteq> ''.'' \<and> CHR ''/'' \<notin> set s) (parts_of p))),
     ee_stop = (\<lambda>j. Inl (ValueError ''stop''))\<rparr>"

lemma split_on_join:
  assumes "\<forall>w \<in> set ws. c \<notin> set w" and "ws \<noteq> []"
  shows "split_on c (join [c] ws) = ws"
proof -
  have last: "split_on c w = [w]" if "c \<notin> set w" for w
    using that by (induction w) auto
  have step: "split_on c (w @ [c] @ s) = w # split_on c s" if "c \<notin> set w" for w s
    using that by (induction w) auto
  show ?thesis
    using assms
  proof (induction ws)
    case (Cons w ws)
    then show ?case using last[of w] step[of w] by (cases ws) auto
  qed simp
qed

lemma ex_resolves: "resolves (ee_realpath ex_expand_env)"
proof -
  have absolute: "parse_path (''/'' @ join ''/'' ws) = PPath ''/'' ws"
    if ws: "\<forall>w \<in> set ws. w \<noteq> [] \<and> w \<noteq> ''.'' \<and> CHR ''/'' \<notin> set w" for ws
  proof (cases ws)
    case Nil
    then show ?thesis by (simp add: parse_path_def)
  next
    case (Cons w ws')
    have "split_on (CHR ''/'') (join ''/'' ws) = ws" using ws Cons split_on_join[of ws "CHR ''/''"] by auto
    moreover have "\<not> starts_with (join ''/'' ws) ''/''"
      using ws Cons by (cases ws'; cases w) auto
    ultimately show ?thesis using ws by (auto simp: parse_path_def filter_id_conv)
  qed
  show ?thesis
    unfolding resolves_def
  proof (intro allI conjI)
    fix p
    let ?ws = "filter (\<lambda>s. s \<noteq> [] \<and> s \<noteq> ''.'' \<and> CHR ''/'' \<notin> set s) (parts_of p)"
    have r: "ee_realpath ex_expand_env p = PPath ''/'' ?ws" by (simp add: ex_expand_env_def)
    show "is_absolute (ee_realpath ex_expand_env p)" by (simp add: r is_absolute_def)
    show "parse_path (path_str (ee_realpath ex_expand_env p)) = ee_realpath ex_expand_env p"
      using absolute[of ?ws] by (simp add: r path_str_def)
    show "ee_realpath ex_expand_env (ee_realpath ex_expand_env p) = ee_realpath ex_expand_env p"
      by (simp add: ex_expand_env_def)
  qed
qed

definition ex_document :: jdict where
  "ex_document = [(''plugin'', JStr ''cmd''), (''name'', JStr ''a'')]"

definition ex_prepared :: task_draft where
  "ex_prepared = ex_expansion\<lparr>td_working_directory := ''/srv/work'', td_command := [''/bin/sh'', ''-ic'', ''cd /srv/work && make''],
     td_plugin_snapshot := plugin_snapshot ''cmd'' ex_loaded [(''name'', JStr ''a''), (''case'', JStr ''x'')], td_template := Some ''cmd''\<rparr>"

lemma ex_expanded:
  "expand_config Inr ex_expand_env ex_document [(''case'', JStr ''x'')] [(''root'', JStr ''/srv'')] ex_registry = Inr [ex_prepared]"
proof -
  have inputs: "validate_inputs ''cmd'' [(''case'', JStr ''x'')] ex_registry = Inr [(''case'', JStr ''x'')]"
    by (simp add: validate_inputs_def ex_get) (simp add: ex_loaded_def ex_instance_def; code_simp)
  have none: "deferred_of (lp_instance ex_loaded) = []" by code_simp
  have "resolve_config_tree Inr ex_document [] [] = Inr ex_document" by code_simp
  then have vals: "config_values Inr ex_document [(''case'', JStr ''x'')] ex_registry = Inr [(''name'', JStr ''a''), (''case'', JStr ''x'')]"
    using none by (simp add: config_values_def ex_get ex_document_def jget_def RESERVED_def COMMON_CONFIG_FIELDS_def)
  have run: "run_values Inr ex_document [(''case'', JStr ''x'')] ex_registry = Inr (''cmd'', [(''name'', JStr ''a''), (''case'', JStr ''x'')])"
    using inputs vals by (simp add: run_values_def plugin_of_def ex_document_def)
  have dir: "frozen_directory (ee_realpath ex_expand_env) (parse_path ''/srv'') (td_working_directory ex_expansion) = ''/srv/work''"
    by code_simp
  have cmd: "freeze_command_working_directory (ee_realpath ex_expand_env) (td_command ex_expansion) ''/srv/work'' None
      = Inr [''/bin/sh'', ''-ic'', ''cd /srv/work && make'']"
    by code_simp
  have prep: "prepare_expanded ex_expand_env (parse_path ''/srv'') ''cmd'' None
      (plugin_snapshot ''cmd'' ex_loaded [(''name'', JStr ''a''), (''case'', JStr ''x'')]) None ex_expansion = Inr ex_prepared"
    using dir cmd by (simp add: prepare_expanded_def ex_prepared_def) (simp add: ex_expansion_def)
  have "expand_plugin ex_expand_env ''cmd'' [(''name'', JStr ''a''), (''case'', JStr ''x'')] [(''root'', JStr ''/srv'')] ex_registry = Inr [ex_prepared]"
    using prep by (simp add: expand_plugin_def ex_get context_root_def source_of_def) (simp add: ex_loaded_def ex_instance_def)
  with run show ?thesis by (simp add: expand_config_def) (simp add: ex_document_def jget_def)
qed

definition ex_schema :: jdict where
  "ex_schema = [(''title'', JStr ''t inputs''), (''type'', JStr ''object''),
     (''properties'', JObj [(''case'', JObj [(''type'', JStr ''string'')])]), (''required'', JList []),
     (''additionalProperties'', JBool False)]"

lemma ex_input_schema: "input_schema (lp_instance ex_loaded) = Inr (JObj ex_schema)"
  by code_simp

lemma ex_no_model: "in_input_model (lp_instance ex_loaded) = None"
  by (simp add: ex_loaded_def ex_instance_def)

theorem inputs_match_schema_witness:
  "validate_inputs ''cmd'' [(''case'', JStr ''x'')] ex_registry = Inr [(''case'', JStr ''x'')]
   \<and> validate_inputs ''cmd'' [(''other'', JNull)] ex_registry \<noteq> Inr [(''other'', JNull)]"
  using inputs_match_schema[OF ex_get ex_no_model ex_input_schema, of "[(''case'', JStr ''x'')]"]
    inputs_match_schema[OF ex_get ex_no_model ex_input_schema, of "[(''other'', JNull)]"]
  by (simp add: ex_schema_def)

definition ex_site :: env where
  "ex_site = \<lparr>en_sh = ''/bin/sh'', en_clock = (\<lambda>n. \<lparr>i_unix = int n, i_iso = nat_str n, i_mono = real n\<rparr>),
     en_realpath = ee_realpath ex_expand_env, en_working_root = parse_path ''/srv'',
     en_max_concurrency = None, en_has_evaluator = False, en_boot_id = None, en_previous_boot = None,
     en_log_size = (\<lambda>_ _. 0), en_read_log = (\<lambda>_ _ _. ([], 0))\<rparr>"

theorem expanded_tasks_bound_once_witness:
  "td_template ex_prepared = Some ''cmd'' \<and> prepare_draft ex_site ex_prepared = Inr ex_prepared"
proof -
  have path: "is_absolute (parse_path (td_working_directory ex_prepared))"
    "path_str (en_realpath ex_site (parse_path (td_working_directory ex_prepared))) = ''/srv/work''" by code_simp+
  have source: "td_source ex_prepared = None" by (simp add: ex_prepared_def ex_expansion_def)
  have "resolve_source_files (en_realpath ex_site) None ''/srv/work'' = Inr []" by code_simp
  moreover have "\<not> has_sentinel (td_command ex_prepared)" by code_simp
  ultimately have "\<exists>stored. prepare_draft ex_site ex_prepared = Inr stored \<and> td_custom stored = td_custom ex_prepared"
    using path source by (simp add: prepare_draft_def freeze_command_working_directory_def source_custom_def)
  then obtain stored where stored: "prepare_draft ex_site ex_prepared = Inr stored" "td_custom stored = td_custom ex_prepared" by blast
  have "en_realpath ex_site = ee_realpath ex_expand_env" by (simp add: ex_site_def)
  note once = expanded_tasks_bound_once[OF ex_expanded _ ex_resolves this, of ex_prepared stored]
  have same: "td_working_directory stored = td_working_directory ex_prepared" "td_command stored = td_command ex_prepared"
    using once stored(1) by simp_all
  have "stored = ex_prepared\<lparr>td_working_directory := td_working_directory stored, td_command := td_command stored, td_custom := td_custom stored\<rparr>"
    using stored(1) by (auto simp: prepare_draft_def Let_def bindR_Inr_iff)
  then have "stored = ex_prepared" unfolding same stored(2) by simp
  with stored(1) show ?thesis by (simp add: ex_prepared_def)
qed

definition ex_task :: task_row where
  "ex_task = \<lparr>r_id = ''t'', r_state = RUNNING, r_name = ''n'', r_working_directory = ''/srv'', r_command = [''true''], r_labels = [],
     r_mutex_keys = [], r_custom = [], r_template = Some ''cmd'', r_plugin_snapshot = plugin_snapshot ''cmd'' ex_loaded [], r_stop = None,
     r_created_at = ''0'', r_started_at = None, r_ended_at = None, r_exit_code = None, r_pid = None, r_executor_ref = None,
     r_interrupt_stage = None, r_blocked_by = [], r_blocked_keys = [], r_log_size = 0, r_started_monotonic = None,
     r_elapsed_seconds = None, r_status = \<lparr>ts_key = ''running'', ts_label = ''running'', ts_tone = ''info'', ts_finished = False\<rparr>\<rparr>"

lemma ex_judged:
  "registry_evaluate_result ex_task [] ex_registry
   = Inr (Some (\<lparr>ts_key = ''good'', ts_label = ''Good'', ts_tone = ''success'', ts_finished = True\<rparr>, []))"
  by (simp add: registry_evaluate_result_def ex_registry_eq ex_task_def plugin_snapshot_def jget_def)
    (simp add: ex_loaded_def ex_instance_def apply_evaluator_def judge_result_def status_definition_def jget_def hashable_def
      statuses_of_def attr_def)

theorem reported_status_declared_witness:
  "\<exists>statuses defn. map_of (r_plugin_snapshot ex_task) ''statuses'' = Some (JObj statuses)
    \<and> map_of statuses ''good'' = Some (JObj defn)"
  using reported_status_declared[OF ex_judged] by auto

definition ex_probe :: probe where
  "ex_probe = \<lparr>pr_realpath = id, pr_is_dir = (\<lambda>_. True), pr_is_file = (\<lambda>_. False), pr_which = (\<lambda>_. True)\<rparr>"

lemma ex_inspected:
  "\<exists>raw. common_inspection ex_probe [(''command'', JList [JStr ''make'', JStr ''all''])] [(''root'', JStr ''/srv'')] = Inr raw \<and> length raw = 2"
  by (simp add: common_inspection_def context_root_def source_items_def source_of_def command_items_def jget_def Let_def)

theorem common_inspection_well_typed_witness:
  "\<exists>raw items. common_inspection ex_probe [(''command'', JList [JStr ''make'', JStr ''all''])] [(''root'', JStr ''/srv'')] = Inr raw
    \<and> mapR validate_item raw = Inr items \<and> length items = 2"
  using ex_inspected common_inspection_well_typed by metis

end
