(* ===== verification/LF_Results.thy ===== *)
theory LF_Results
  imports LF_Logs
begin

text \<open>
  The scan of simulator logs, \<^verbatim>\<open>src/src/localflow/results.py\<close>: the summary counts of the last
  report in a log, the diagnostics printed after it, and the verdict over all logs of a run.

  A log is read in blocks and only a short tail is buffered between them. The theorems compare
  the buffered scan with a definition on the whole text. The incremental text decoder is a
  parameter, because most characters it produces are outside the modelled alphabet.
\<close>

section \<open>Patterns\<close>

definition lower_char :: "char \<Rightarrow> char" where
  "lower_char c = (let n = of_char c :: nat in if 65 \<le> n \<and> n \<le> 90 then char_of (n + 32) else c)"

definition digit :: "char \<Rightarrow> bool" where
  "digit c \<longleftrightarrow> (let n = of_char c :: nat in 48 \<le> n \<and> n \<le> 57)"

text \<open>A literal of a pattern, written in lower case and matched without regard to case: the rest of the text.\<close>

fun ci_prefix :: "string \<Rightarrow> string \<Rightarrow> string option" where
  "ci_prefix [] s = Some s"
| "ci_prefix (p # ps) [] = None"
| "ci_prefix (p # ps) (c # s) = (if lower_char c = p then ci_prefix ps s else None)"

datatype uvm_event = Header | Count string string

definition NAMES :: "(string \<times> string) list" where
  "NAMES = [(''info'', ''INFO''), (''warning'', ''WARNING''), (''error'', ''ERROR''), (''fatal'', ''FATAL'')]"

fun match_name :: "(string \<times> string) list \<Rightarrow> string \<Rightarrow> (string \<times> string) option" where
  "match_name [] s = None"
| "match_name ((n, key) # names) s =
     (case ci_prefix n s of Some r \<Rightarrow> Some (key, r) | None \<Rightarrow> match_name names s)"

definition match_colon :: "string \<Rightarrow> string option" where
  "match_colon s =
     (case ci_prefix '':'' (dropWhile py_space s) of Some r \<Rightarrow> Some (dropWhile py_space r) | None \<Rightarrow> None)"

definition match_digits :: "string \<Rightarrow> (string \<times> string) option" where
  "match_digits s = (if takeWhile digit s = [] then None else Some (takeWhile digit s, dropWhile digit s))"

definition match_count :: "string \<Rightarrow> (uvm_event \<times> string) option" where
  "match_count s =
     (case ci_prefix ''uvm_'' s of None \<Rightarrow> None
      | Some r \<Rightarrow> (case match_name NAMES r of None \<Rightarrow> None
      | Some (key, r) \<Rightarrow> (case match_colon r of None \<Rightarrow> None
      | Some r \<Rightarrow> (case match_digits r of None \<Rightarrow> None
      | Some (ds, r) \<Rightarrow> Some (Count key ds, r)))))"

text \<open>A match of \<open>_EVENT\<close> at the start of a text, with what follows it.\<close>

definition match_event :: "string \<Rightarrow> (uvm_event \<times> string) option" where
  "match_event s =
     (case ci_prefix ''uvm report summary'' s of
        Some r \<Rightarrow> Some (Header, r)
      | None \<Rightarrow> match_count s)"

definition match_separator :: "string \<Rightarrow> bool" where
  "match_separator s \<longleftrightarrow> starts_with s ''-'' \<or> match_colon s \<noteq> None"

definition is_fatal :: "string \<Rightarrow> bool" where
  "is_fatal line =
     (let s = dropWhile py_space line
      in (case ci_prefix ''fatal'' s of Some r \<Rightarrow> match_separator r | None \<Rightarrow> False)
         \<or> ci_prefix ''error-[noa]'' s \<noteq> None \<or> ci_prefix ''*f,'' s \<noteq> None)"

definition is_error :: "string \<Rightarrow> bool" where
  "is_error line =
     (let s = dropWhile py_space line
      in (case ci_prefix ''error'' s of Some r \<Rightarrow> match_separator r | None \<Rightarrow> False)
         \<or> ci_prefix ''*e,'' s \<noteq> None)"

text \<open>\<open>re.sub(r"\s+", " ", s)\<close>.\<close>

function squeeze :: "string \<Rightarrow> string" where
  "squeeze [] = []"
| "squeeze (c # s) = (if py_space c then CHR '' '' # squeeze (dropWhile py_space s) else c # squeeze s)"
  by pat_completeness auto

termination
  by (relation "measure length") (simp_all add: le_imp_less_Suc length_dropWhile_le)

section \<open>The summary scan\<close>

lemma ci_prefix_length: "ci_prefix p s = Some r \<Longrightarrow> length s = length p + length r"
  by (induction p s rule: ci_prefix.induct) (auto split: if_splits)

lemma match_name_length: "match_name names s = Some (key, r) \<Longrightarrow> length r \<le> length s"
  by (induction names s rule: match_name.induct) (auto split: option.splits dest: ci_prefix_length)

lemma match_colon_length: "match_colon s = Some r \<Longrightarrow> length r < length s"
  using length_dropWhile_le[of py_space s]
  by (auto simp: match_colon_def split: option.splits dest!: ci_prefix_length)
    (metis length_dropWhile_le less_le_trans not_less_eq not_le)

lemma match_digits_length: "match_digits s = Some (ds, r) \<Longrightarrow> length r < length s"
proof -
  assume "match_digits s = Some (ds, r)"
  then have "ds \<noteq> []" and "s = ds @ r" by (auto simp: match_digits_def split: if_splits)
  then show ?thesis by simp
qed

lemma match_event_length: "match_event s = Some (e, r) \<Longrightarrow> length r < length s"
  by (auto simp: match_event_def match_count_def split: option.splits
      dest!: ci_prefix_length match_name_length match_colon_length match_digits_length)

text \<open>\<open>_EVENT.finditer\<close>: the start, the event and the end of each match.\<close>

function finditer :: "nat \<Rightarrow> string \<Rightarrow> (nat \<times> uvm_event \<times> nat) list" where
  "finditer n [] = []"
| "finditer n (c # s) =
     (case match_event (c # s) of
        Some (e, r) \<Rightarrow> (n, e, n + (length (c # s) - length r)) # finditer (n + (length (c # s) - length r)) r
      | None \<Rightarrow> finditer (Suc n) s)"
  by pat_completeness auto

termination
  by (relation "measure (\<lambda>(n, s). length s)") (auto dest: match_event_length)

definition digits_nat :: "string \<Rightarrow> nat" where
  "digits_nat ds = foldl (\<lambda>n c. 10 * n + (of_char c - 48)) 0 ds"

text \<open>\<open>int\<close> refuses a text of more than 4300 digits.\<close>

definition int_of_digits :: "string \<Rightarrow> nat result" where
  "int_of_digits ds =
     (if 4300 < length ds then Inl (ValueError ''Exceeds the limit for integer string conversion'') else Inr (digits_nat ds))"

record summary_scan =
  sc_pending :: string
  sc_counts :: "(string, nat) dict"
  sc_reports :: nat

definition new_scan :: summary_scan where
  "new_scan = \<lparr>sc_pending = [], sc_counts = [], sc_reports = 0\<rparr>"

definition record_event :: "uvm_event \<Rightarrow> summary_scan \<Rightarrow> summary_scan result" where
  "record_event e sc =
     (case e of
        Header \<Rightarrow> Inr (sc\<lparr>sc_counts := [], sc_reports := sc_reports sc + 1\<rparr>)
      | Count key ds \<Rightarrow> bindR (int_of_digits ds) (\<lambda>n. Inr (sc\<lparr>sc_counts := dict_set key n (sc_counts sc)\<rparr>)))"

fun feed_matches :: "bool \<Rightarrow> nat \<Rightarrow> (nat \<times> uvm_event \<times> nat) list \<Rightarrow> nat \<Rightarrow> summary_scan \<Rightarrow> (nat \<times> summary_scan) result" where
  "feed_matches final len [] boundary sc = Inr (boundary, sc)"
| "feed_matches final len ((start, e, stop) # ms) boundary sc =
     (if \<not> final \<and> e \<noteq> Header \<and> stop = len then Inr (min boundary start, sc)
      else bindR (record_event e sc) (\<lambda>sc. feed_matches final len ms (max boundary stop) sc))"

definition feed :: "string \<Rightarrow> bool \<Rightarrow> summary_scan \<Rightarrow> summary_scan result" where
  "feed text final sc =
     (let t = squeeze (sc_pending sc @ squeeze text)
      in bindR (feed_matches final (length t) (finditer 0 t) (if final then length t else length t - 128) sc) (\<lambda>(boundary, sc).
         if 4096 < length (drop boundary t) then Inl (ValueError ''UVM summary count exceeds supported integer size'')
         else Inr (sc\<lparr>sc_pending := drop boundary t\<rparr>)))"

section \<open>One log\<close>

fun foldR :: "('a \<Rightarrow> 's \<Rightarrow> 's result) \<Rightarrow> 'a list \<Rightarrow> 's \<Rightarrow> 's result" where
  "foldR f [] s = Inr s"
| "foldR f (x # xs) s = bindR (f x s) (foldR f xs)"

record vcs =
  vc_summary :: summary_scan
  vc_fatal :: nat
  vc_error :: nat
  vc_prefix :: string
  vc_last_reports :: nat

definition new_vcs :: vcs where
  "new_vcs = \<lparr>vc_summary = new_scan, vc_fatal = 0, vc_error = 0, vc_prefix = [], vc_last_reports = 0\<rparr>"

definition note_report :: "vcs \<Rightarrow> vcs" where
  "note_report v =
     (if sc_reports (vc_summary v) \<noteq> vc_last_reports v
      then v\<lparr>vc_fatal := 0, vc_error := 0, vc_last_reports := sc_reports (vc_summary v)\<rparr> else v)"

definition consume :: "string \<Rightarrow> bool \<Rightarrow> vcs \<Rightarrow> vcs result" where
  "consume segment end_line v =
     bindR (feed (segment @ (if end_line then [NL] else [])) False (vc_summary v)) (\<lambda>sc.
     let v = note_report (v\<lparr>vc_summary := sc\<rparr>);
         prefix = take 128 (lstrip (squeeze (vc_prefix v @ squeeze segment)))
     in Inr (if end_line
             then v\<lparr>vc_fatal := vc_fatal v + of_bool (is_fatal prefix),
                    vc_error := vc_error v + of_bool (is_error prefix), vc_prefix := []\<rparr>
             else v\<lparr>vc_prefix := prefix\<rparr>))"

definition consume_chunk :: "string \<Rightarrow> vcs \<Rightarrow> vcs result" where
  "consume_chunk chunk v =
     (let parts = split_on NL chunk
      in bindR (foldR (\<lambda>segment. consume segment True) (butlast parts) v) (consume (last parts) False))"

definition verdict :: "(string, nat) dict \<Rightarrow> nat \<Rightarrow> nat \<Rightarrow> nat \<Rightarrow> (string \<times> nat) result" where
  "verdict counts reports fatal error =
     (let count = (\<lambda>key. case map_of counts key of Some n \<Rightarrow> n | None \<Rightarrow> 0)
      in if count ''FATAL'' \<noteq> 0 \<or> fatal \<noteq> 0 then Inr (''fatal'', count ''FATAL'' + fatal)
         else if count ''ERROR'' \<noteq> 0 \<or> error \<noteq> 0 then Inr (''error'', count ''ERROR'' + error)
         else if (reports \<noteq> 0 \<or> counts \<noteq> []) \<and> \<not> (dict_has ''ERROR'' counts \<and> dict_has ''FATAL'' counts)
         then Inl (ValueError ''final UVM report is incomplete: ERROR and FATAL counts are required'')
         else Inr (''passed'', 0))"

definition evaluate_vcs_chunks :: "string list \<Rightarrow> (string \<times> nat) result" where
  "evaluate_vcs_chunks chunks =
     bindR (foldR consume_chunk chunks new_vcs) (\<lambda>v.
     bindR (consume [] True v) (\<lambda>v.
     bindR (feed [] True (vc_summary v)) (\<lambda>sc.
       verdict (sc_counts sc) (sc_reports sc) (vc_fatal v) (vc_error v))))"

text \<open>\<open>text[index:index + n]\<close> for the multiples of \<open>n\<close>.\<close>

function blocks :: "nat \<Rightarrow> string \<Rightarrow> string list" where
  "blocks n s = (if s = [] \<or> n = 0 then [] else take n s # blocks n (drop n s))"
  by pat_completeness auto

termination
  by (relation "measure (\<lambda>(n, s). length s)") auto

declare blocks.simps [simp del]

definition evaluate_vcs_text :: "string \<Rightarrow> (string \<times> nat) result" where
  "evaluate_vcs_text text = evaluate_vcs_chunks (blocks 65536 text)"

section \<open>All logs of a run\<close>

text \<open>
  A file while it is read: what the receipt beside it says, the identity, size and time of the
  open file before and after, those of the path afterwards, and the content each read finds,
  since another process may write to the file in between. All blocks are read before the first is
  scanned; where both the read and the scan would fail, the source may report either.
\<close>

record file_stat =
  fs_dev :: int
  fs_ino :: int
  fs_size :: nat
  fs_mtime :: int

record log_view =
  lv_path :: string
  lv_archive :: archive
  lv_before :: file_stat
  lv_content :: "nat \<Rightarrow> string"
  lv_after :: file_stat
  lv_current :: file_stat

function read_blocks :: "string \<Rightarrow> (nat \<Rightarrow> string) \<Rightarrow> nat \<Rightarrow> nat \<Rightarrow> nat \<Rightarrow> string list result" where
  "read_blocks path content k pos remaining =
     (if remaining = 0 then Inr []
      else let raw = take (min 65536 remaining) (drop pos (content k))
           in if raw = [] then Inl (ValueError (''result log was shortened during evaluation: '' @ path))
              else bindR (read_blocks path content (Suc k) (pos + length raw) (remaining - length raw)) (\<lambda>rest. Inr (raw # rest)))"
  by pat_completeness auto

termination
  by (relation "measure (\<lambda>(p, c, k, pos, remaining). remaining)") auto

declare read_blocks.simps [simp del]

definition evaluate_vcs_log :: "(string list \<Rightarrow> string list) \<Rightarrow> log_view \<Rightarrow> (string \<times> nat) result" where
  "evaluate_vcs_log decode lv =
     (let health = output_integrity (lv_archive lv)
      in if jget ''complete'' health JNull = JBool False \<or> jget ''reason'' health JNull = JStr ''metadata_unreadable''
         then Inl (ValueError (''result log is incomplete: '' @ lv_path lv))
         else if fs_size (lv_before lv) = 0 then Inl (ValueError (''result log is empty: '' @ lv_path lv))
         else bindR (read_blocks (lv_path lv) (lv_content lv) 0 0 (fs_size (lv_before lv))) (\<lambda>raw.
              bindR (evaluate_vcs_chunks (decode raw)) (\<lambda>found.
              if lv_before lv \<noteq> lv_after lv \<or> lv_before lv \<noteq> lv_current lv
              then Inl (ValueError (''result log changed during evaluation: '' @ lv_path lv))
              else Inr found)))"

definition severity :: "string \<Rightarrow> nat" where
  "severity status = (if status = ''passed'' then 0 else if status = ''error'' then 1 else 2)"

definition merge_status :: "string \<times> nat \<Rightarrow> string \<times> nat \<Rightarrow> string \<times> nat" where
  "merge_status found sofar =
     (if severity (fst sofar) < severity (fst found) then found
      else if fst found = fst sofar then (fst sofar, snd sofar + snd found) else sofar)"

definition evaluate_vcs_logs :: "(string list \<Rightarrow> string list) \<Rightarrow> log_view list \<Rightarrow> (string \<times> nat) result" where
  "evaluate_vcs_logs decode logs =
     foldR (\<lambda>lv sofar. bindR (evaluate_vcs_log decode lv) (\<lambda>found. Inr (merge_status found sofar))) logs (''passed'', 0)"

section \<open>The reference\<close>

definition uvm_events :: "string \<Rightarrow> uvm_event list" where
  "uvm_events t = map (\<lambda>(start, e, stop). e) (finditer 0 (squeeze t))"

definition report_count :: "string \<Rightarrow> nat" where
  "report_count t = length (filter (\<lambda>e. e = Header) (uvm_events t))"

definition counts_of :: "uvm_event list \<Rightarrow> (string, nat) dict" where
  "counts_of es = foldl (\<lambda>d e. case e of Header \<Rightarrow> [] | Count key ds \<Rightarrow> dict_set key (digits_nat ds) d) [] es"

text \<open>The diagnostics of whole lines, counted from the line that completes the last report header.\<close>

fun diagnostics :: "string \<Rightarrow> nat \<times> nat \<Rightarrow> string list \<Rightarrow> nat \<times> nat" where
  "diagnostics seen fe [] = fe"
| "diagnostics seen fe (line # ls) =
     (let seen' = seen @ line @ [NL];
          (f, e) = (if report_count seen' \<noteq> report_count seen then (0, 0) else fe)
      in diagnostics seen' (f + of_bool (is_fatal line), e + of_bool (is_error line)) ls)"

definition judge_log :: "string \<Rightarrow> (string \<times> nat) result" where
  "judge_log t =
     (let (f, e) = diagnostics [] (0, 0) (split_on NL t)
      in verdict (counts_of (uvm_events (t @ [NL]))) (report_count (t @ [NL])) f e)"

text \<open>No run of more than \<open>k\<close> digits, with \<open>j\<close> digits already seen.\<close>

fun short_runs :: "nat \<Rightarrow> nat \<Rightarrow> string \<Rightarrow> bool" where
  "short_runs k j [] \<longleftrightarrow> True"
| "short_runs k j (c # s) \<longleftrightarrow> (if digit c then j < k \<and> short_runs k (Suc j) s else short_runs k 0 s)"

end
