(* ===== verification/LF_Results_Facts.thy ===== *)
theory LF_Results_Facts
  imports LF_Results
begin

text \<open>
  The buffered scan of a log agrees with the reference on the whole text, however the text is cut
  into blocks; and a run passes only when each of its logs is complete, was not changed while it
  was read, and passes on its own.
\<close>

section \<open>Matches\<close>

definition LITERAL :: string where
  "LITERAL = ''uvm report summary''"

definition lowered :: "string \<Rightarrow> string" where
  "lowered s = map lower_char s"

lemma lowered_simps [simp]:
  "lowered [] = []" "lowered (c # s) = lower_char c # lowered s" "lowered (a @ b) = lowered a @ lowered b"
  "length (lowered s) = length s"
  by (simp_all add: lowered_def)

lemma lowered_length: "lowered s = w \<Longrightarrow> length s = length w"
  by auto

lemma ci_prefix_iff: "ci_prefix p s = Some r \<longleftrightarrow> (\<exists>a. s = a @ r \<and> lowered a = p)"
proof (induction p s rule: ci_prefix.induct)
  case (3 p ps c s)
  show ?case
  proof
    assume "ci_prefix (p # ps) (c # s) = Some r"
    with 3 show "\<exists>a. c # s = a @ r \<and> lowered a = p # ps"
      by (auto split: if_splits intro: exI[of _ "c # _"])
  next
    assume "\<exists>a. c # s = a @ r \<and> lowered a = p # ps"
    then obtain a where "c # s = a @ r" "lowered a = p # ps" by blast
    with 3 show "ci_prefix (p # ps) (c # s) = Some r" by (cases a) auto
  qed
qed (auto simp: lowered_def)

text \<open>The part of a count that stands before its digits.\<close>

definition count_head :: "string \<Rightarrow> string \<Rightarrow> bool" where
  "count_head key h \<longleftrightarrow> (\<exists>a b x c y. h = a @ b @ x @ [c] @ y \<and> lowered a = ''uvm_'' \<and> (lowered b, key) \<in> set NAMES
     \<and> list_all py_space x \<and> lower_char c = CHR '':'' \<and> list_all py_space y)"

lemma match_name_sound: "match_name names s = Some (key, r) \<Longrightarrow> \<exists>b. s = b @ r \<and> (lowered b, key) \<in> set names"
  by (induction names s rule: match_name.induct) (auto split: option.splits simp: ci_prefix_iff)

lemma py_space_not: "py_space c \<Longrightarrow> lower_char c \<noteq> CHR '':'' \<and> lower_char c \<noteq> CHR ''u'' \<and> \<not> digit c"
  by (auto simp: py_space_def lower_char_def digit_def Let_def)

lemma digit_not: "digit c \<Longrightarrow> \<not> py_space c \<and> lower_char c \<noteq> CHR ''u''"
  by (auto simp: py_space_def lower_char_def digit_def Let_def)

lemma match_colon_sound: "match_colon s = Some r \<Longrightarrow>
    \<exists>x c y. s = x @ [c] @ y @ r \<and> list_all py_space x \<and> lower_char c = CHR '':'' \<and> list_all py_space y"
proof -
  assume "match_colon s = Some r"
  then obtain a r' where r: "dropWhile py_space s = a @ r'" "lowered a = '':''" "r = dropWhile py_space r'"
    by (auto simp: match_colon_def ci_prefix_iff split: option.splits)
  then obtain c where c: "a = [c]" "lower_char c = CHR '':''" by (cases a) (auto simp: lowered_def)
  have "s = takeWhile py_space s @ [c] @ takeWhile py_space r' @ r" using r c by (metis takeWhile_dropWhile_id append.assoc)
  moreover have "list_all py_space (takeWhile py_space w)" for w by (auto simp: list_all_iff dest: set_takeWhileD)
  ultimately show ?thesis using c by blast
qed

lemma match_event_sound:
  assumes "match_event s = Some (e, r)"
  shows "(e = Header \<and> (\<exists>m. s = m @ r \<and> lowered m = LITERAL))
    \<or> (\<exists>key ds h. e = Count key ds \<and> s = h @ ds @ r \<and> count_head key h \<and> ds \<noteq> [] \<and> list_all digit ds \<and> (r \<noteq> [] \<longrightarrow> \<not> digit (hd r)))"
proof (cases "ci_prefix ''uvm report summary'' s")
  case (Some r')
  with assms show ?thesis by (auto simp: match_event_def ci_prefix_iff LITERAL_def)
next
  case None
  with assms obtain r1 key r2 r3 ds where
    m: "ci_prefix ''uvm_'' s = Some r1" "match_name NAMES r1 = Some (key, r2)" "match_colon r2 = Some r3"
      "match_digits r3 = Some (ds, r)" "e = Count key ds"
    by (auto simp: match_event_def match_count_def split: option.splits)
  from m(1) obtain a where a: "s = a @ r1" "lowered a = ''uvm_''" by (auto simp: ci_prefix_iff)
  from match_name_sound[OF m(2)] obtain b where b: "r1 = b @ r2" "(lowered b, key) \<in> set NAMES" by blast
  from match_colon_sound[OF m(3)] obtain x c y where c: "r2 = x @ [c] @ y @ r3" "list_all py_space x"
    "lower_char c = CHR '':''" "list_all py_space y" by blast
  have ds: "ds = takeWhile digit r3" "r = dropWhile digit r3" "ds \<noteq> []"
    using m(4) by (auto simp: match_digits_def split: if_splits)
  then have d: "r3 = ds @ r" "ds \<noteq> []" "list_all digit ds" "r \<noteq> [] \<longrightarrow> \<not> digit (hd r)"
    using hd_dropWhile[of digit r3] by (auto simp: list_all_iff dest: set_takeWhileD)
  have "count_head key (a @ b @ x @ [c] @ y)" unfolding count_head_def using a(2) b(2) c by blast
  moreover have "s = (a @ b @ x @ [c] @ y) @ ds @ r" using a(1) b(1) c(1) d(1) by simp
  ultimately show ?thesis using d m(5) by blast
qed

lemma match_header: "lowered m = LITERAL \<Longrightarrow> match_event (m @ r) = Some (Header, r)"
  by (auto simp: match_event_def LITERAL_def ci_prefix_iff[THEN iffD2, of "m @ r" r "''uvm report summary''"])

lemma dropWhile_skip: "list_all P x \<Longrightarrow> (s \<noteq> [] \<longrightarrow> \<not> P (hd s)) \<Longrightarrow> dropWhile P (x @ s) = s"
  by (cases s; induction x) simp_all

lemma takeWhile_skip: "list_all P x \<Longrightarrow> (s \<noteq> [] \<longrightarrow> \<not> P (hd s)) \<Longrightarrow> takeWhile P (x @ s) = x"
  by (cases s; induction x) simp_all

lemma lowered_eq_Cons: "lowered b = c # w \<longleftrightarrow> (\<exists>x y. b = x # y \<and> lower_char x = c \<and> lowered y = w)"
  by (cases b) auto

lemma lowered_eq_Nil [simp]: "lowered b = [] \<longleftrightarrow> b = []"
  by (simp add: lowered_def)

lemma match_name_complete:
  assumes "(lowered b, key) \<in> set NAMES"
  shows "match_name NAMES (b @ s) = Some (key, s)"
  using assms unfolding NAMES_def by (auto simp: lowered_eq_Cons)

lemma match_colon_complete:
  assumes "list_all py_space x" and "lower_char c = CHR '':''" and "list_all py_space y" and "r \<noteq> [] \<longrightarrow> \<not> py_space (hd r)"
  shows "match_colon (x @ [c] @ y @ r) = Some r"
proof -
  have "dropWhile py_space (x @ [c] @ y @ r) = [c] @ y @ r"
    using dropWhile_skip[OF assms(1), of "[c] @ y @ r"] py_space_not[of c] assms(2) by auto
  then show ?thesis using assms(2) dropWhile_skip[OF assms(3,4)] by (simp add: match_colon_def)
qed

lemma match_count_complete:
  assumes "count_head key h" and "ds \<noteq> []" and "list_all digit ds" and "r \<noteq> [] \<longrightarrow> \<not> digit (hd r)"
  shows "match_event (h @ ds @ r) = Some (Count key ds, r)"
proof -
  obtain a b x c y where h: "h = a @ b @ x @ [c] @ y" "lowered a = ''uvm_''" "(lowered b, key) \<in> set NAMES"
    "list_all py_space x" "lower_char c = CHR '':''" "list_all py_space y"
    using assms(1) unfolding count_head_def by blast
  have "match_digits (ds @ r) = Some (ds, r)"
    using assms(2) takeWhile_skip[OF assms(3,4)] dropWhile_skip[OF assms(3,4)] by (simp add: match_digits_def)
  moreover have "\<not> py_space (hd (ds @ r))" using assms(2,3) digit_not by (cases ds) auto
  then have "match_colon (x @ [c] @ y @ ds @ r) = Some (ds @ r)"
    using match_colon_complete[OF h(4,5,6)] by blast
  moreover have "match_name NAMES (b @ x @ [c] @ y @ ds @ r) = Some (key, x @ [c] @ y @ ds @ r)"
    by (rule match_name_complete[OF h(3)])
  moreover obtain u v m l where "a = [u, v, m, l]" "lower_char u = CHR ''u''" "lower_char v = CHR ''v''" "lower_char m = CHR ''m''"
    "lower_char l = CHR ''_''" using h(2) by (auto simp: lowered_eq_Cons)
  ultimately show ?thesis unfolding h(1) by (simp add: match_event_def match_count_def)
qed

text \<open>A match starts with \<open>uv\<close>, and no other position inside it does.\<close>

fun uv :: "string \<Rightarrow> bool" where
  "uv (a # b # s) \<longleftrightarrow> lower_char a = CHR ''u'' \<and> lower_char b = CHR ''v''"
| "uv _ \<longleftrightarrow> False"

lemma head_uv: "count_head key h \<Longrightarrow> \<exists>a b w. h = a # b # w \<and> lower_char a = CHR ''u'' \<and> lower_char b = CHR ''v''
    \<and> list_all (\<lambda>c. lower_char c \<noteq> CHR ''u'') (b # w)"
proof -
  assume "count_head key h"
  then obtain a b x c y where h: "h = a @ b @ x @ [c] @ y" "lowered a = ''uvm_''" "(lowered b, key) \<in> set NAMES"
    "list_all py_space x" "lower_char c = CHR '':''" "list_all py_space y"
    unfolding count_head_def by blast
  have "list_all (\<lambda>c. c \<noteq> CHR ''u'') (lowered b)" using h(3) by (auto simp: NAMES_def)
  then have "list_all (\<lambda>c. lower_char c \<noteq> CHR ''u'') b" by (simp add: lowered_def list.pred_map comp_def)
  moreover have "list_all (\<lambda>c. lower_char c \<noteq> CHR ''u'') x" "list_all (\<lambda>c. lower_char c \<noteq> CHR ''u'') y"
    using h(4,6) by (auto simp: list_all_iff dest: py_space_not)
  ultimately show ?thesis using h by (auto simp: lowered_eq_Cons)
qed

definition no_uv_inside :: "string \<Rightarrow> bool" where
  "no_uv_inside m \<longleftrightarrow> (\<forall>j. 0 < j \<longrightarrow> j < length m \<longrightarrow> lower_char (m ! j) \<noteq> CHR ''u''
     \<or> (Suc j < length m \<and> lower_char (m ! Suc j) \<noteq> CHR ''v''))"

lemma not_uv_inside:
  assumes "no_uv_inside m" and "0 < j" and "j < length m"
  shows "\<not> uv (drop j (m @ r))"
proof -
  have d: "drop j (m @ r) = m ! j # drop (Suc j) m @ r"
    using assms(3) by (simp add: Cons_nth_drop_Suc)
  show ?thesis
  proof (cases "Suc j < length m")
    case True
    then have "drop (Suc j) m = m ! Suc j # drop (Suc (Suc j)) m" by (simp add: Cons_nth_drop_Suc)
    with d assms show ?thesis by (auto simp: no_uv_inside_def)
  next
    case False
    with assms have "lower_char (m ! j) \<noteq> CHR ''u''" by (auto simp: no_uv_inside_def)
    with d show ?thesis by (cases "drop (Suc j) m @ r") auto
  qed
qed

lemma match_event_parts:
  assumes "match_event s = Some (e, r)"
  shows "\<exists>m. s = m @ r \<and> uv m \<and> no_uv_inside m"
  using match_event_sound[OF assms]
proof (elim disjE exE conjE)
  fix m
  assume m: "s = m @ r" "lowered m = LITERAL"
  then have u: "uv m" by (auto simp: LITERAL_def lowered_eq_Cons)
  have "length m = 18" using lowered_length[OF m(2)] by (simp add: LITERAL_def)
  have "lower_char (m ! j) = LITERAL ! j" if "j < length m" for j
    using that m(2) by (metis lowered_def nth_map)
  moreover have "\<forall>j \<in> set [1..<18]. LITERAL ! j \<noteq> CHR ''u'' \<or> (Suc j < 18 \<and> LITERAL ! Suc j \<noteq> CHR ''v'')" by code_simp
  ultimately have "no_uv_inside m" using \<open>length m = 18\<close> by (auto simp: no_uv_inside_def)
  with u m(1) show ?thesis by blast
next
  fix key ds h
  assume h: "s = h @ ds @ r" "count_head key h" "list_all digit ds"
  obtain a b w where w: "h = a # b # w" "lower_char a = CHR ''u''" "lower_char b = CHR ''v''"
    "list_all (\<lambda>c. lower_char c \<noteq> CHR ''u'') (b # w)" using head_uv[OF h(2)] by blast
  have "list_all (\<lambda>c. lower_char c \<noteq> CHR ''u'') (b # w @ ds)"
    using w(4) h(3) by (auto simp: list_all_iff dest: digit_not)
  then have "no_uv_inside (a # b # w @ ds)"
    unfolding no_uv_inside_def by (auto simp: list_all_length gr0_conv_Suc)
  with w h(1) show ?thesis by (intro exI[of _ "h @ ds"]) simp
qed

lemma match_event_uv: "match_event s = Some (e, r) \<Longrightarrow> uv s"
  by (drule match_event_parts) (auto elim: uv.elims)

text \<open>What more text can change about a match.\<close>

definition touching :: "uvm_event \<Rightarrow> string \<Rightarrow> bool" where
  "touching e r \<longleftrightarrow> e \<noteq> Header \<and> r = []"

lemma match_extend:
  assumes "match_event s = Some (e, r)" and "\<not> touching e r"
  shows "match_event (s @ z) = Some (e, r @ z)"
  using match_event_sound[OF assms(1)]
proof (elim disjE exE conjE)
  fix m
  assume "e = Header" "s = m @ r" "lowered m = LITERAL"
  then show ?thesis using match_header[of m "r @ z"] by simp
next
  fix key ds h
  assume h: "e = Count key ds" "s = h @ ds @ r" "count_head key h" "ds \<noteq> []" "list_all digit ds" "r \<noteq> [] \<longrightarrow> \<not> digit (hd r)"
  then have "r \<noteq> []" using assms(2) by (auto simp: touching_def)
  then show ?thesis using match_count_complete[OF h(3,4,5), of "r @ z"] h by (cases r) auto
qed

lemma match_shrink:
  assumes "match_event (w @ z) = Some (e, r)" and "match_event w = None"
  shows "\<exists>m. w @ z = m @ r \<and> length w < length m"
proof -
  note parts = match_event_sound[OF assms(1)]
  show ?thesis
  proof (rule ccontr)
    assume no: "\<not> ?thesis"
    have cut: "\<exists>u. w = m @ u \<and> r = u @ z" if "w @ z = m @ r" for m
    proof -
      have "length m \<le> length w" using no that by (meson leI)
      with that show ?thesis by (auto simp: append_eq_append_conv2)
    qed
    from parts show False
    proof (elim disjE exE conjE)
      fix m
      assume "w @ z = m @ r" "lowered m = LITERAL"
      then show False using cut[of m] match_header[of m] assms(2) by force
    next
      fix key ds h
      assume h: "w @ z = h @ ds @ r" "count_head key h" "ds \<noteq> []" "list_all digit ds" "r \<noteq> [] \<longrightarrow> \<not> digit (hd r)"
      then obtain u where u: "w = (h @ ds) @ u" "r = u @ z" using cut[of "h @ ds"] by auto
      have "u \<noteq> [] \<longrightarrow> \<not> digit (hd u)" using h(5) u(2) by (cases u) auto
      then show False using match_count_complete[OF h(2,3,4)] u(1) assms(2) by force
    qed
  qed
qed

lemma no_match_inside:
  assumes "match_event s = Some (e, r)" and "0 < j" and "j < length s - length r"
  shows "match_event (drop j s @ z) = None"
proof -
  obtain m where m: "s = m @ r" "no_uv_inside m" using match_event_parts[OF assms(1)] by blast
  then have "j < length m" using assms(3) by simp
  then have "\<not> uv (drop j (m @ (r @ z)))" by (rule not_uv_inside[OF m(2) assms(2)])
  moreover have "drop j (m @ (r @ z)) = drop j s @ z" using m(1) \<open>j < length m\<close> by simp
  ultimately show ?thesis using match_event_uv by (metis not_None_eq surj_pair)
qed

section \<open>Where the matches are\<close>

definition match_at :: "nat \<Rightarrow> string \<Rightarrow> nat \<Rightarrow> (nat \<times> uvm_event \<times> nat) list" where
  "match_at n s i = (case match_event (drop i s) of Some (e, r) \<Rightarrow> [(n + i, e, n + (length s - length r))] | None \<Rightarrow> [])"

lemma match_at_shift: "match_at n (m @ r) (length m + i) = match_at (n + length m) r i"
  by (auto simp: match_at_def split: option.splits dest!: match_event_length)

lemma finditer_positions: "finditer n s = concat (map (match_at n s) [0..<length s])"
proof (induction n s rule: finditer.induct)
  case (2 n c s)
  show ?case
  proof (cases "match_event (c # s)")
    case None
    have "concat (map (match_at n (c # s)) [0..<length (c # s)])
        = match_at n (c # s) 0 @ concat (map (\<lambda>i. match_at n (c # s) (Suc i)) [0..<length s])"
      by (simp only: length_Cons upt_conv_Cons zero_less_Suc map_Suc_upt[symmetric] list.map concat.simps map_map comp_def)
    also have "\<dots> = concat (map (match_at (Suc n) s) [0..<length s])"
      using None match_at_shift[of n "[c]" s] match_at_def[of n "c # s" 0] by simp
    finally show ?thesis using 2(1)[OF None] None by simp
  next
    case (Some er)
    obtain e r where er: "er = (e, r)" by (cases er)
    obtain m where m: "c # s = m @ r" "uv m" using match_event_parts Some er by blast
    have pos: "0 < length m" using m(2) by (cases m) auto
    let ?f = "match_at n (m @ r)"
    have "concat (map ?f [0..<length (m @ r)]) = ?f 0 @ concat (map ?f [1..<length m]) @ concat (map (\<lambda>i. ?f (length m + i)) [0..<length r])"
    proof -
      have "[0..<length (m @ r)] = 0 # [1..<length m] @ map (\<lambda>i. length m + i) [0..<length r]"
        using pos map_add_upt[of "length m" "length r"] upt_add_eq_append[of 0 "length m" "length r"]
        by (simp add: upt_conv_Cons add.commute)
      then show ?thesis by (simp add: comp_def)
    qed
    moreover have "?f i = []" if "i \<in> set [1..<length m]" for i
      using no_match_inside[of "c # s" e r i "[]"] Some er that m(1) by (simp add: match_at_def)
    then have "concat (map ?f [1..<length m]) = []" by simp
    moreover have "?f 0 = [(n, e, n + length m)]" using Some er m(1) by (simp add: match_at_def)
    moreover have "length (c # s) - length r = length m" using m(1) by simp
    moreover have "finditer (n + length m) r = concat (map (match_at (n + length m) r) [0..<length r])"
      using 2(2)[OF Some er[symmetric]] \<open>length (c # s) - length r = length m\<close> by simp
    moreover have "finditer n (c # s) = (n, e, n + length m) # finditer (n + length m) r"
      using Some er \<open>length (c # s) - length r = length m\<close> by simp
    ultimately show ?thesis unfolding m(1) by (simp add: match_at_shift)
  qed
qed simp

lemma finditer_sorted: "sorted_wrt (\<lambda>x y. fst x < fst y) (finditer n s)"
proof -
  have "sorted_wrt (\<lambda>x y. fst x < fst y) (concat (map (match_at n s) [j..<k]))" for j k
  proof (induction k)
    case (Suc k)
    have "fst x < n + k" if "x \<in> set (match_at n s i)" "i < k" for x i
      using that by (auto simp: match_at_def split: option.splits)
    then show ?case using Suc by (auto simp: sorted_wrt_append match_at_def split: option.splits)
  qed simp
  then show ?thesis by (simp add: finditer_positions)
qed

lemma suffix_drop:
  assumes "drop i t = m @ r"
  shows "length r \<le> length t" and "drop (length t - length r) t = r"
proof -
  have t: "t = (take i t @ m) @ r" using assms by (metis append.assoc append_take_drop_id)
  show "length r \<le> length t" by (subst t) simp
  show "drop (length t - length r) t = r" by (subst t, subst t) simp
qed

lemma in_finditer:
  "(i, e, p) \<in> set (finditer 0 t) \<longleftrightarrow> i < length t \<and> p \<le> length t \<and> match_event (drop i t) = Some (e, drop p t)"
proof -
  have "match_at 0 t i = [(i, e, p)] \<longleftrightarrow> p \<le> length t \<and> match_event (drop i t) = Some (e, drop p t)" if "i < length t" for i e p
  proof (cases "match_event (drop i t)")
    case (Some er)
    obtain e' r where er: "er = (e', r)" by (cases er)
    obtain m where m: "drop i t = m @ r" using match_event_parts Some er by blast
    from suffix_drop[OF this] Some er show ?thesis by (auto simp: match_at_def)
  qed (simp add: match_at_def)
  moreover have "(i, e, p) \<in> set (match_at 0 t k) \<longleftrightarrow> k = i \<and> match_at 0 t i = [(i, e, p)]" for k
    by (auto simp: match_at_def split: option.splits)
  then have "(i, e, p) \<in> set (finditer 0 t) \<longleftrightarrow> i < length t \<and> match_at 0 t i = [(i, e, p)]"
    unfolding finditer_positions by auto
  ultimately show ?thesis by blast
qed

section \<open>Squeezed text\<close>

lemma space_is_space [simp]: "py_space (CHR '' '')"
  by (simp add: py_space_def)

lemma dropWhile_idle: "s = [] \<or> \<not> P (hd s) \<Longrightarrow> dropWhile P s = s"
  by (cases s) auto

lemma dropWhile_append_if:
  "dropWhile P (s @ b) = (if dropWhile P s = [] then dropWhile P b else dropWhile P s @ b)"
  by (induction s) auto

lemma squeeze_head: "squeeze s = [] \<longleftrightarrow> s = []" "s \<noteq> [] \<Longrightarrow> py_space (hd (squeeze s)) \<longleftrightarrow> py_space (hd s)"
  by (cases s; simp)+

lemma squeeze_stripped: "dropWhile py_space (squeeze (dropWhile py_space s)) = squeeze (dropWhile py_space s)"
  by (rule dropWhile_idle) (metis squeeze_head hd_dropWhile)

lemma squeeze_squeeze_append: "squeeze (squeeze a @ b) = squeeze (a @ b)"
proof (induction a rule: squeeze.induct)
  case (2 c s)
  show ?case
  proof (cases "py_space c")
    case True
    show ?thesis
    proof (cases "dropWhile py_space s = []")
      case False
      then have "dropWhile py_space (squeeze (dropWhile py_space s) @ b) = squeeze (dropWhile py_space s) @ b"
        unfolding dropWhile_append_if[of _ "squeeze (dropWhile py_space s)"] squeeze_stripped squeeze_head(1) by (simp only: if_False)
      moreover have "dropWhile py_space (s @ b) = dropWhile py_space s @ b"
        using False by (simp only: dropWhile_append_if if_False)
      ultimately show ?thesis using True 2(1)[OF True] by simp
    next
      case gone: True
      then have "dropWhile py_space (s @ b) = dropWhile py_space b" by (simp only: dropWhile_append_if refl if_True)
      with True gone show ?thesis by (simp del: dropWhile_eq_Nil_conv)
    qed
  qed (use 2 in simp)
qed simp

lemma squeeze_idem [simp]: "squeeze (squeeze s) = squeeze s"
  using squeeze_squeeze_append[of s "[]"] by simp

lemma dropWhile_squeeze: "dropWhile py_space (squeeze s) = squeeze (dropWhile py_space s)"
  by (cases s) (auto simp: squeeze_stripped)

lemma squeeze_append_squeeze: "squeeze (a @ squeeze b) = squeeze (a @ b)"
proof (induction a rule: squeeze.induct)
  case (2 c s)
  then show ?case by (auto simp: dropWhile_append_if dropWhile_squeeze)
qed simp

lemma squeeze_tail:
  assumes "squeeze (c # s) = c # s"
  shows "squeeze s = s"
proof (cases "py_space c")
  case True
  then have s: "squeeze (dropWhile py_space s) = s" using assms by simp
  show ?thesis by (subst (1 2) s[symmetric]) (rule squeeze_idem)
qed (use assms in simp)

lemma squeeze_fixed_space: "squeeze (c # s) = c # s \<Longrightarrow> py_space c \<Longrightarrow> s = [] \<or> \<not> py_space (hd s)"
  by (metis squeeze.simps(2) squeeze_stripped dropWhile_squeeze hd_dropWhile list.inject)

definition squeeze_after :: "string \<Rightarrow> string \<Rightarrow> string" where
  "squeeze_after t y = (if t \<noteq> [] \<and> py_space (last t) then squeeze (dropWhile py_space y) else squeeze y)"

lemma squeeze_extend: "squeeze t = t \<Longrightarrow> squeeze (t @ y) = t @ squeeze_after t y"
proof (induction t)
  case (Cons c t)
  show ?case
  proof (cases "py_space c \<and> t = []")
    case True
    then have "c = CHR '' ''" using Cons.prems by auto
    with True show ?thesis by (simp add: squeeze_after_def)
  next
    case False
    have "squeeze (c # t @ y) = c # squeeze (t @ y)"
    proof (cases "py_space c")
      case True
      with False Cons.prems have "\<not> py_space (hd t)" "t \<noteq> []" "c = CHR '' ''" using squeeze_fixed_space by auto
      then show ?thesis using True by (cases t) auto
    qed simp
    with Cons squeeze_tail[OF Cons.prems] False show ?thesis by (auto simp: squeeze_after_def)
  qed
qed (simp add: squeeze_after_def)

lemma squeeze_drop: "squeeze t = t \<Longrightarrow> squeeze (drop i t) = drop i t"
proof (induction t arbitrary: i)
  case (Cons c t)
  then show ?case using squeeze_tail[OF Cons.prems] by (cases i) auto
qed simp

lemma squeeze_infix:
  assumes "squeeze (a @ x @ b) = a @ x @ b" and "list_all py_space x"
  shows "length x \<le> 1"
proof (rule ccontr)
  assume "\<not> ?thesis"
  then obtain c d y where x: "x = c # d # y" by (cases x; cases "tl x") auto
  have "squeeze (x @ b) = x @ b" using squeeze_drop[OF assms(1), of "length a"] by simp
  with x have "\<not> py_space d" using squeeze_fixed_space[of c "d # y @ b"] assms(2) by auto
  with x assms(2) show False by simp
qed

section \<open>Digit runs\<close>

lemma short_runs_mono: "short_runs k j s \<Longrightarrow> i \<le> j \<Longrightarrow> short_runs k i s"
  by (induction k j s arbitrary: i rule: short_runs.induct) (auto split: if_splits)

lemma short_runs_drop: "short_runs k j s \<Longrightarrow> short_runs k 0 (drop n s)"
proof (induction s arbitrary: j n)
  case (Cons c s)
  then show ?case by (cases n) (auto split: if_splits intro: short_runs_mono[where j = "Suc j"] short_runs_mono)
qed simp

lemma short_runs_append: "short_runs k j (a @ b) \<Longrightarrow> short_runs k j a"
  by (induction k j a rule: short_runs.induct) auto

lemma short_runs_digits: "short_runs k j (ds @ b) \<Longrightarrow> list_all digit ds \<Longrightarrow> ds \<noteq> [] \<Longrightarrow> j + length ds \<le> k"
proof (induction ds arbitrary: j)
  case (Cons d ds)
  then show ?case using Cons.IH[of "Suc j"] by (cases "ds = []") auto
qed simp

lemma short_runs_infix: "short_runs k 0 (a @ ds @ b) \<Longrightarrow> list_all digit ds \<Longrightarrow> length ds \<le> k"
  using short_runs_drop[of k 0 "a @ ds @ b" "length a"] short_runs_digits[of k 0 ds b] by (cases "ds = []") auto

lemma short_runs_spaces: "short_runs k 0 (s @ b) \<Longrightarrow> short_runs k 0 (dropWhile py_space s @ b)"
  by (induction s) (auto dest: py_space_not)

lemma short_runs_squeeze: "short_runs k j (s @ b) \<Longrightarrow> short_runs k j (squeeze s @ b)"
proof (induction s arbitrary: j rule: squeeze.induct)
  case (2 c s)
  show ?case
  proof (cases "py_space c")
    case True
    then have "\<not> digit c" "\<not> digit (CHR '' '')" using py_space_not by (auto simp: digit_def)
    with True 2 show ?thesis by (auto intro: short_runs_spaces)
  qed (use 2 in auto)
qed simp

section \<open>One block\<close>

definition event_of :: "nat \<times> uvm_event \<times> nat \<Rightarrow> uvm_event" where
  "event_of = (\<lambda>(start, e, stop). e)"

definition add_count :: "(string, nat) dict \<Rightarrow> uvm_event \<Rightarrow> (string, nat) dict" where
  "add_count d e = (case e of Header \<Rightarrow> [] | Count key ds \<Rightarrow> dict_set key (digits_nat ds) d)"

definition header_count :: "uvm_event list \<Rightarrow> nat" where
  "header_count es = length (filter (\<lambda>e. e = Header) es)"

definition apply_events :: "uvm_event list \<Rightarrow> summary_scan \<Rightarrow> summary_scan" where
  "apply_events es sc = sc\<lparr>sc_counts := foldl add_count (sc_counts sc) es, sc_reports := sc_reports sc + header_count es\<rparr>"

definition small_event :: "uvm_event \<Rightarrow> bool" where
  "small_event e \<longleftrightarrow> (case e of Header \<Rightarrow> True | Count key ds \<Rightarrow> length ds \<le> 4300)"

lemma record_small: "small_event e \<Longrightarrow> record_event e sc = Inr (apply_events [e] sc)"
  by (cases e) (simp_all add: small_event_def record_event_def int_of_digits_def apply_events_def add_count_def header_count_def)

lemma apply_events_append: "apply_events (a @ b) sc = apply_events b (apply_events a sc)"
  by (simp add: apply_events_def header_count_def)

definition furthest :: "(nat \<times> uvm_event \<times> nat) list \<Rightarrow> nat \<Rightarrow> nat" where
  "furthest ms bnd = foldl (\<lambda>b (start, e, stop). max b stop) bnd ms"

lemma furthest_iff: "i < furthest ms bnd \<longleftrightarrow> i < bnd \<or> (\<exists>(start, e, stop) \<in> set ms. i < stop)"
  by (induction ms arbitrary: bnd) (auto simp: furthest_def)

lemma feed_matches_split:
  assumes "\<forall>x \<in> set ms. small_event (event_of x)"
  shows "\<exists>ps qs b. ms = ps @ qs \<and> feed_matches False len ms bnd sc = Inr (b, apply_events (map event_of ps) sc)
    \<and> ((qs = [] \<and> b = furthest ps bnd)
       \<or> (\<exists>start e rest. qs = (start, e, len) # rest \<and> e \<noteq> Header \<and> b = min (furthest ps bnd) start))
    \<and> (\<forall>(start, e, stop) \<in> set ps. e = Header \<or> stop \<noteq> len)"
  using assms
proof (induction ms arbitrary: bnd sc)
  case Nil
  show ?case by (simp add: furthest_def apply_events_def header_count_def)
next
  case (Cons x ms)
  obtain start e stop where x: "x = (start, e, stop)" by (cases x)
  show ?case
  proof (cases "e \<noteq> Header \<and> stop = len")
    case True
    have "feed_matches False len (x # ms) bnd sc = Inr (min bnd start, apply_events (map event_of []) sc)"
      using True x by (simp add: apply_events_def header_count_def)
    with True x show ?thesis
      by (intro exI[of _ "[]"] exI[of _ "x # ms"] exI[of _ "min bnd start"]) (simp add: furthest_def)
  next
    case False
    have small: "small_event e" using Cons.prems x by (simp add: event_of_def)
    from Cons.IH[of "max bnd stop" "apply_events [e] sc"] Cons.prems obtain ps qs b where
      ps: "ms = ps @ qs" "feed_matches False len ms (max bnd stop) (apply_events [e] sc) = Inr (b, apply_events (map event_of ps) (apply_events [e] sc))"
      and b: "(qs = [] \<and> b = furthest ps (max bnd stop))
       \<or> (\<exists>start e rest. qs = (start, e, len) # rest \<and> e \<noteq> Header \<and> b = min (furthest ps (max bnd stop)) start)"
      and ok: "\<forall>(start, e, stop) \<in> set ps. e = Header \<or> stop \<noteq> len"
      by auto
    have "furthest (x # ps) bnd = furthest ps (max bnd stop)" using x by (simp add: furthest_def)
    moreover have "feed_matches False len (x # ms) bnd sc = Inr (b, apply_events (map event_of (x # ps)) sc)"
      using False x ps(2) record_small[OF small] apply_events_append[of "[e]" "map event_of ps" sc] by (auto simp: event_of_def)
    ultimately show ?thesis
      using ps(1) b ok False x by (intro exI[of _ "x # ps"] exI[of _ qs] exI[of _ b]) auto
  qed
qed

lemma feed_matches_final:
  assumes "\<forall>x \<in> set ms. small_event (event_of x)"
  shows "feed_matches True len ms bnd sc = Inr (furthest ms bnd, apply_events (map event_of ms) sc)"
  using assms
proof (induction ms arbitrary: bnd sc)
  case (Cons x ms)
  obtain start e stop where x: "x = (start, e, stop)" by (cases x)
  have "small_event e" using Cons.prems x by (simp add: event_of_def)
  with Cons x show ?case
    using apply_events_append[of "[e]" "map event_of ms" sc] by (simp add: record_small event_of_def furthest_def)
qed (simp add: furthest_def apply_events_def header_count_def)

definition ev_at :: "string \<Rightarrow> uvm_event list" where
  "ev_at s = (case match_event s of Some (e, r) \<Rightarrow> [e] | None \<Rightarrow> [])"

definition evs :: "string \<Rightarrow> uvm_event list" where
  "evs s = map event_of (finditer 0 s)"

lemma evs_positions: "evs s = concat (map (\<lambda>i. ev_at (drop i s)) [0..<length s])"
proof -
  have "map event_of (match_at 0 s i) = ev_at (drop i s)" for i
    by (auto simp: match_at_def ev_at_def event_of_def split: option.splits)
  then show ?thesis by (simp add: evs_def finditer_positions map_concat comp_def)
qed

lemma evs_split:
  assumes "b \<le> length s"
  shows "evs s = concat (map (\<lambda>i. ev_at (drop i s)) [0..<b]) @ evs (drop b s)"
proof -
  have "[0..<length s] = [0..<b] @ map (\<lambda>i. b + i) [0..<length s - b]"
    using upt_add_eq_append[of 0 b "length s - b"] map_add_upt[of b "length s - b"] assms by (simp add: add.commute)
  then show ?thesis by (simp add: evs_positions comp_def add.commute)
qed

lemma head_short:
  assumes "count_head key h" and "squeeze (h @ s) = h @ s"
  shows "length h \<le> 14"
proof -
  obtain a b x c y where h: "h = a @ b @ x @ [c] @ y" "lowered a = ''uvm_''" "(lowered b, key) \<in> set NAMES"
    "list_all py_space x" "list_all py_space y"
    using assms(1) unfolding count_head_def by blast
  have "length a = 4" using lowered_length[OF h(2)] by simp
  moreover have "length b \<le> 7" using h(3) by (auto simp: NAMES_def dest: lowered_length)
  moreover have "length x \<le> 1" using squeeze_infix[of "a @ b" x "[c] @ y @ s"] assms(2) h by simp
  moreover have "length y \<le> 1" using squeeze_infix[of "a @ b @ x @ [c]" y s] assms(2) h by simp
  ultimately show ?thesis using h(1) by simp
qed

lemma long_no_match:
  assumes "squeeze (w @ z) = w @ z" and "18 < length w" and "match_event w = None"
  shows "match_event (w @ z) = None"
proof (rule ccontr)
  assume "match_event (w @ z) \<noteq> None"
  then obtain e r where er: "match_event (w @ z) = Some (e, r)" by fastforce
  then obtain m0 where m0: "w @ z = m0 @ r" "length w < length m0" using match_shrink assms(3) by blast
  from match_event_sound[OF er] show False
  proof (elim disjE exE conjE)
    fix m
    assume "w @ z = m @ r" "lowered m = LITERAL"
    moreover from this have "length m = 18" using lowered_length[of m] by (simp add: LITERAL_def)
    ultimately show False using m0 assms(2) by simp
  next
    fix key ds h
    assume h: "w @ z = h @ ds @ r" "count_head key h" "list_all digit ds"
    have short: "length h \<le> 14" using head_short[OF h(2), of "ds @ r"] assms(1) h(1) by simp
    have "m0 = h @ ds" using m0(1) h(1) by simp
    have "w = take (length w) (w @ z)" by simp
    then have "w = h @ take (length w - length h) ds"
      using h(1) m0(2) short assms(2) \<open>m0 = h @ ds\<close> by simp
    moreover have "take (length w - length h) ds \<noteq> []" using short assms(2) m0(2) \<open>m0 = h @ ds\<close> by auto
    moreover have "list_all digit (take (length w - length h) ds)" using h(3) by (auto simp: list_all_iff dest: in_set_takeD)
    ultimately show False using match_count_complete[OF h(2), of _ "[]"] assms(3) by (metis append_Nil2 option.distinct(1))
  qed
qed

text \<open>
  The cut: every match that starts before the boundary was found in the block that is already
  there, and stays one whatever follows; so the scan can go on with the text after the boundary.
\<close>

definition scan_cut :: "string \<Rightarrow> (nat \<times> uvm_event \<times> nat) list \<Rightarrow> (nat \<times> uvm_event \<times> nat) list \<Rightarrow> nat \<Rightarrow> bool" where
  "scan_cut t ps qs b \<longleftrightarrow> finditer 0 t = ps @ qs
    \<and> ((qs = [] \<and> b = furthest ps (length t - 128))
       \<or> (\<exists>start e rest. qs = (start, e, length t) # rest \<and> e \<noteq> Header \<and> b = min (furthest ps (length t - 128)) start))
    \<and> (\<forall>(start, e, stop) \<in> set ps. e = Header \<or> stop \<noteq> length t)"

lemma scan_cut_sides:
  assumes "scan_cut t ps qs b"
  shows "x \<in> set ps \<Longrightarrow> fst x < b" and "x \<in> set qs \<Longrightarrow> b \<le> fst x" and "b \<le> length t"
proof -
  have ms: "finditer 0 t = ps @ qs" using assms by (simp add: scan_cut_def)
  have sorted: "sorted_wrt (\<lambda>x y. fst x < fst y) (ps @ qs)" using finditer_sorted[of 0 t] ms by simp
  have far: "start < furthest ps (length t - 128)" if "(start, e, stop) \<in> set ps" for start e stop
  proof -
    have "match_event (drop start t) = Some (e, drop stop t)" "stop \<le> length t" "start < length t"
      using that in_finditer[of start e stop t] ms by auto
    then have "start < stop" using match_event_length[of "drop start t" e "drop stop t"] by simp
    with that show ?thesis by (auto simp: furthest_iff)
  qed
  show "x \<in> set ps \<Longrightarrow> fst x < b"
    using far[of "fst x" "fst (snd x)" "snd (snd x)"] assms sorted by (auto simp: scan_cut_def sorted_wrt_append)
  show "x \<in> set qs \<Longrightarrow> b \<le> fst x"
    using assms sorted unfolding scan_cut_def sorted_wrt_append by (elim conjE disjE exE) (simp, fastforce)
  have "furthest ps (length t - 128) \<le> length t"
  proof (rule ccontr)
    assume "\<not> ?thesis"
    then have "length t < furthest ps (length t - 128)" by simp
    then obtain start e stop where "(start, e, stop) \<in> set ps" "length t < stop" by (auto simp: furthest_iff)
    then show False using in_finditer[of start e stop t] ms by simp
  qed
  then show "b \<le> length t" using assms by (auto simp: scan_cut_def)
qed

lemma scan_cut_stable:
  assumes "scan_cut t ps qs b" and "squeeze (t @ z) = t @ z" and "i < b"
  shows "ev_at (drop i t @ z) = ev_at (drop i t)"
proof (cases "match_event (drop i t)")
  case (Some er)
  obtain e r where er: "er = (e, r)" by (cases er)
  have i: "i < length t" using scan_cut_sides(3)[OF assms(1)] assms(3) by simp
  obtain m where m: "drop i t = m @ r" using match_event_parts Some er by blast
  note r = suffix_drop[OF m]
  then have "(i, e, length t - length r) \<in> set (ps @ qs)"
    using in_finditer[of i e "length t - length r" t] Some er i assms(1) r by (simp add: scan_cut_def)
  then have "(i, e, length t - length r) \<in> set ps"
    using scan_cut_sides(2)[OF assms(1), of "(i, e, length t - length r)"] assms(3) by auto
  then have "\<not> touching e r" using assms(1) i r by (auto simp: scan_cut_def touching_def)
  with match_extend[of "drop i t" e r z] Some er show ?thesis by (simp add: ev_at_def)
next
  case None
  have "match_event (drop i t @ z) = None"
  proof (cases "i < length t - 128")
    case True
    have "squeeze (drop i t @ z) = drop i t @ z" using squeeze_drop[OF assms(2), of i] True by simp
    with True None show ?thesis by (intro long_no_match) simp_all
  next
    case False
    have "i < furthest ps (length t - 128)" using assms(1,3) by (auto simp: scan_cut_def)
    with False obtain start e stop where x: "(start, e, stop) \<in> set ps" "i < stop" by (auto simp: furthest_iff)
    have m: "match_event (drop start t) = Some (e, drop stop t)" "start < length t" "stop \<le> length t"
      using x(1) in_finditer[of start e stop t] assms(1) by (auto simp: scan_cut_def)
    show ?thesis
    proof (cases "start < i")
      case True
      then show ?thesis
        using no_match_inside[OF m(1), of "i - start" z] x(2) m(2,3) by simp
    next
      case False
      with None m(1) have less: "i < start" by (cases "i = start") auto
      show ?thesis
      proof (rule ccontr)
        assume "match_event (drop i t @ z) \<noteq> None"
        then obtain e' r' where e': "match_event (drop i t @ z) = Some (e', r')" by fastforce
        then obtain m' where "drop i t @ z = m' @ r'" "length (drop i t) < length m'" using match_shrink None by blast
        then have "length (drop i t) < length (drop i t @ z) - length r'" by simp
        then have "match_event (drop (start - i) (drop i t @ z)) = None"
          using no_match_inside[OF e', of "start - i" "[]"] less m(2) by simp
        moreover have "\<not> touching e (drop stop t)" using x(1) assms(1) m(3) by (auto simp: scan_cut_def touching_def)
        then have "match_event (drop start t @ z) = Some (e, drop stop t @ z)" by (rule match_extend[OF m(1)])
        ultimately show False using less m(2) by simp
      qed
    qed
  qed
  with None show ?thesis by (simp add: ev_at_def)
qed

lemma evs_cut:
  assumes "scan_cut t ps qs b" and "squeeze (t @ z) = t @ z"
  shows "evs (t @ z) = map event_of ps @ evs (drop b t @ z)"
proof -
  have ms: "finditer 0 t = ps @ qs" using assms(1) by (simp add: scan_cut_def)
  have b: "b \<le> length t" using scan_cut_sides(3)[OF assms(1)] .
  have "evs (t @ z) = concat (map (\<lambda>i. ev_at (drop i (t @ z))) [0..<b]) @ evs (drop b (t @ z))"
    using b by (intro evs_split) simp
  also have "concat (map (\<lambda>i. ev_at (drop i (t @ z))) [0..<b]) = concat (map (\<lambda>i. ev_at (drop i t)) [0..<b])"
    using scan_cut_stable[OF assms] b by (intro arg_cong[of _ _ concat] map_cong) auto
  also have "\<dots> = map event_of (concat (map (match_at 0 t) [0..<b]))"
    by (auto simp: match_at_def ev_at_def event_of_def map_concat comp_def split: option.splits intro!: arg_cong[of _ _ concat])
  also have "concat (map (match_at 0 t) [0..<b]) = filter (\<lambda>x. fst x < b) (finditer 0 t)"
  proof -
    have split: "[0..<length t] = [0..<b] @ [b..<length t]" using b by (metis le0 le_add_diff_inverse upt_add_eq_append)
    have "filter (\<lambda>x. fst x < b) (concat (map (match_at 0 t) [0..<b])) = concat (map (match_at 0 t) [0..<b])"
      by (auto simp: filter_id_conv match_at_def split: option.splits)
    moreover have "filter (\<lambda>x. fst x < b) (concat (map (match_at 0 t) [b..<length t])) = []"
      by (auto simp: filter_empty_conv match_at_def split: option.splits)
    ultimately show ?thesis unfolding finditer_positions split by simp
  qed
  also have "\<dots> = ps"
    using scan_cut_sides(1,2)[OF assms(1)] unfolding ms by (auto simp: filter_id_conv filter_empty_conv leD)
  finally show ?thesis using b by simp
qed

lemma evs_space: "evs (CHR '' '' # z) = evs z"
proof -
  have "match_event (CHR '' '' # z) = None"
    by (cases "match_event (CHR '' '' # z)") (auto dest!: match_event_uv simp: lower_char_def elim: uv.elims)
  then show ?thesis using evs_split[of 1 "CHR '' '' # z"] by (simp add: ev_at_def)
qed

lemma evs_strip: "evs (squeeze (dropWhile py_space y)) = evs (squeeze y)"
  by (cases y) (auto simp: evs_space)

lemma evs_squeeze_cut:
  assumes "scan_cut t ps qs b" and "squeeze t = t"
  shows "evs (squeeze (t @ y)) = map event_of ps @ evs (squeeze (drop b t @ y))"
proof -
  have ext: "squeeze (t @ y) = t @ squeeze_after t y" by (rule squeeze_extend[OF assms(2)])
  then have "squeeze (t @ squeeze_after t y) = t @ squeeze_after t y" using squeeze_idem[of "t @ y"] by simp
  note cut = evs_cut[OF assms(1) this]
  have "evs (drop b t @ squeeze_after t y) = evs (squeeze (drop b t @ y))"
  proof (cases "drop b t = []")
    case True
    then show ?thesis by (simp add: squeeze_after_def evs_strip)
  next
    case False
    then have "t \<noteq> []" "last (drop b t) = last t" by auto
    then have "squeeze_after (drop b t) y = squeeze_after t y" using False by (simp add: squeeze_after_def)
    then show ?thesis using squeeze_extend[OF squeeze_drop[OF assms(2), of b], of y] by simp
  qed
  then show ?thesis using cut ext by simp
qed

lemma scan_cut_rest:
  assumes "scan_cut t ps qs b"
  shows "Header \<notin> set (evs (drop b t))"
proof
  assume "Header \<in> set (evs (drop b t))"
  then obtain i where i: "i < length (drop b t)" "Header \<in> set (ev_at (drop i (drop b t)))"
    by (auto simp: evs_positions)
  then obtain r where r: "match_event (drop (b + i) t) = Some (Header, r)"
    by (cases "match_event (drop (b + i) t)") (auto simp: ev_at_def add.commute)
  obtain m where m: "drop (b + i) t = m @ r" using match_event_parts[OF r] by blast
  have "(b + i, Header, length t - length r) \<in> set (finditer 0 t)"
    unfolding in_finditer using i(1) r suffix_drop[OF m] by simp
  moreover have "finditer 0 t = ps @ qs" using assms by (simp add: scan_cut_def)
  ultimately have q: "(b + i, Header, length t - length r) \<in> set qs"
    using scan_cut_sides(1)[OF assms, of "(b + i, Header, length t - length r)"] by auto
  then obtain start e rest where st: "qs = (start, e, length t) # rest" "e \<noteq> Header"
    using assms by (auto simp: scan_cut_def)
  have e: "match_event (drop start t) = Some (e, [])" "start < length t"
    using in_finditer[of start e "length t" t] \<open>finditer 0 t = ps @ qs\<close> st(1) by auto
  have "start < b + i"
    using q st finditer_sorted[of 0 t] unfolding \<open>finditer 0 t = ps @ qs\<close> by (auto simp: sorted_wrt_append)
  then have "match_event (drop (b + i - start) (drop start t) @ []) = None"
    using e i(1) by (intro no_match_inside[OF e(1)]) auto
  with r \<open>start < b + i\<close> show False by simp
qed

lemma events_small:
  assumes "short_runs 4000 0 t"
  shows "\<forall>x \<in> set (finditer 0 t). small_event (event_of x)"
proof (clarify)
  fix i e p
  assume "(i, e, p) \<in> set (finditer 0 t)"
  then have m: "match_event (drop i t) = Some (e, drop p t)" by (simp add: in_finditer)
  show "small_event (event_of (i, e, p))"
  proof (cases e)
    case (Count key ds)
    with match_event_sound[OF m] obtain h where "drop i t = h @ ds @ drop p t" "list_all digit ds" by auto
    then have "length ds \<le> 4000" using short_runs_drop[OF assms, of i] short_runs_infix[of 4000 h ds "drop p t"] by simp
    with Count show ?thesis by (simp add: small_event_def event_of_def)
  qed (simp add: small_event_def event_of_def)
qed

lemma scan_cut_length:
  assumes "scan_cut t ps qs b" and "squeeze t = t" and "short_runs 4000 0 t"
  shows "length (drop b t) \<le> 4096"
proof -
  have far: "length t - 128 \<le> furthest ps (length t - 128)"
    using furthest_iff[of "furthest ps (length t - 128)" ps "length t - 128"] by simp
  have short: "length t - start \<le> 4096" if "(start, e, length t) \<in> set qs" "e \<noteq> Header" for start e
  proof -
    have m: "match_event (drop start t) = Some (e, [])"
      using that(1) in_finditer[of start e "length t" t] assms(1) by (auto simp: scan_cut_def)
    with that(2) match_event_sound[OF m] obtain key ds h where
      h: "drop start t = h @ ds" "count_head key h" "list_all digit ds" by auto
    have "length ds \<le> 4000" using short_runs_drop[OF assms(3), of start] short_runs_infix[of 4000 h ds "[]"] h by simp
    moreover have "length h \<le> 14" using head_short[OF h(2), of ds] squeeze_drop[OF assms(2), of start] h(1) by simp
    moreover have "length t - start = length h + length ds" using arg_cong[OF h(1), of length] by simp
    ultimately show ?thesis by simp
  qed
  consider "b = furthest ps (length t - 128)"
    | start e rest where "qs = (start, e, length t) # rest" "e \<noteq> Header" "b = start"
    using assms(1) unfolding scan_cut_def by (metis min_def)
  then show ?thesis
  proof cases
    case 1
    with far show ?thesis by simp
  next
    case (2 start e rest)
    with short[of start e] show ?thesis by simp
  qed
qed

lemma feed_block:
  assumes "short_runs 4000 0 (sc_pending sc @ y)"
  shows "\<exists>sc' cs. feed y False sc = Inr sc' \<and> squeeze (sc_pending sc') = sc_pending sc'
    \<and> sc_counts sc' = foldl add_count (sc_counts sc) cs \<and> sc_reports sc' = sc_reports sc + header_count cs
    \<and> (\<forall>w. evs (squeeze (sc_pending sc @ y @ w)) = cs @ evs (squeeze (sc_pending sc' @ w)))
    \<and> Header \<notin> set (evs (sc_pending sc'))
    \<and> (\<exists>n \<le> length (squeeze (sc_pending sc @ y)). sc_pending sc' = drop n (squeeze (sc_pending sc @ y)))"
proof -
  define t where "t = squeeze (sc_pending sc @ squeeze y)"
  have t: "t = squeeze (sc_pending sc @ y)" by (simp add: t_def squeeze_append_squeeze)
  have sq: "squeeze t = t" by (simp add: t_def)
  have runs: "short_runs 4000 0 t" using short_runs_squeeze[of 4000 0 "sc_pending sc @ y" "[]"] assms by (simp add: t)
  obtain ps qs b where fm: "feed_matches False (length t) (finditer 0 t) (length t - 128) sc = Inr (b, apply_events (map event_of ps) sc)"
    and cut: "scan_cut t ps qs b"
    using feed_matches_split[OF events_small[OF runs], of "length t" "length t - 128" sc] unfolding scan_cut_def by blast
  have "feed y False sc = Inr (apply_events (map event_of ps) sc\<lparr>sc_pending := drop b t\<rparr>)"
    using fm scan_cut_length[OF cut sq runs] unfolding feed_def t_def[symmetric] by simp
  moreover have "evs (squeeze (sc_pending sc @ y @ w)) = map event_of ps @ evs (squeeze (drop b t @ w))" for w
    using evs_squeeze_cut[OF cut sq, of w] squeeze_squeeze_append[of "sc_pending sc @ y" w] by (simp add: t)
  ultimately show ?thesis
    using squeeze_drop[OF sq] scan_cut_rest[OF cut] t scan_cut_sides(3)[OF cut]
    by (intro exI[of _ "apply_events (map event_of ps) sc\<lparr>sc_pending := drop b t\<rparr>"] exI[of _ "map event_of ps"])
      (auto simp: apply_events_def)
qed

lemma feed_end:
  assumes "short_runs 4000 0 (sc_pending sc)" and "squeeze (sc_pending sc) = sc_pending sc"
  shows "\<exists>sc'. feed [] True sc = Inr sc' \<and> sc_counts sc' = foldl add_count (sc_counts sc) (evs (sc_pending sc))
    \<and> sc_reports sc' = sc_reports sc + header_count (evs (sc_pending sc))"
proof -
  let ?t = "sc_pending sc"
  have "length ?t \<le> furthest (finditer 0 ?t) (length ?t)"
    using furthest_iff[of "furthest (finditer 0 ?t) (length ?t)" "finditer 0 ?t" "length ?t"] by simp
  then show ?thesis
    using feed_matches_final[OF events_small[OF assms(1)], of "length ?t" "length ?t" sc] assms(2)
    by (simp add: feed_def apply_events_def evs_def Let_def)
qed

section \<open>Lines\<close>

lemma squeeze_take: "squeeze t = t \<Longrightarrow> squeeze (take n t) = take n t"
proof (induction t arbitrary: n)
  case (Cons c t)
  show ?case
  proof (cases n)
    case (Suc m)
    have IH: "squeeze (take m t) = take m t" using Cons.IH[OF squeeze_tail[OF Cons.prems]] .
    show ?thesis
    proof (cases "py_space c")
      case True
      then have "c = CHR '' ''" "t = [] \<or> \<not> py_space (hd t)" using Cons.prems squeeze_fixed_space by auto
      then have "dropWhile py_space (take m t) = take m t" by (cases t; cases m) auto
      with True IH Suc \<open>c = CHR '' ''\<close> show ?thesis by simp
    qed (use IH Suc in simp)
  qed simp
qed simp

definition line_prefix :: "string \<Rightarrow> string" where
  "line_prefix line = take 128 (lstrip (squeeze line))"

lemma line_prefix_step: "take 128 (lstrip (squeeze (line_prefix line @ squeeze seg))) = line_prefix (line @ seg)"
proof -
  define s where "s = dropWhile py_space line"
  have pre: "line_prefix line = take 128 (squeeze s)" by (simp add: line_prefix_def lstrip_def dropWhile_squeeze s_def)
  have whole: "line_prefix (line @ seg) = take 128 (squeeze (dropWhile py_space (line @ seg)))"
    by (simp add: line_prefix_def lstrip_def dropWhile_squeeze)
  have join: "squeeze (line_prefix line @ squeeze seg) = squeeze (take 128 (squeeze s) @ seg)"
    by (simp add: squeeze_append_squeeze pre)
  show ?thesis
  proof (cases "s = []")
    case True
    then have "dropWhile py_space (line @ seg) = dropWhile py_space seg"
      by (simp only: dropWhile_append_if s_def[symmetric] refl if_True)
    with True show ?thesis by (simp only: join whole) (simp add: lstrip_def dropWhile_squeeze)
  next
    case False
    then have ds: "dropWhile py_space (line @ seg) = s @ seg" by (simp only: dropWhile_append_if s_def[symmetric] if_False)
    have hd: "\<not> py_space (hd (squeeze s))" "squeeze s \<noteq> []"
      using False squeeze_head[of s] hd_dropWhile[of py_space line] by (auto simp: s_def)
    define p where "p = take 128 (squeeze s)"
    have p: "squeeze p = p" unfolding p_def by (rule squeeze_take) simp
    have "p \<noteq> []" "hd p = hd (squeeze s)" using hd(2) by (cases "squeeze s"; simp add: p_def)+
    then have stay: "lstrip (squeeze (p @ seg)) = squeeze (p @ seg)"
      using hd(1) squeeze_head(2)[of "p @ seg"] unfolding lstrip_def by (intro dropWhile_idle) auto
    have "take 128 (squeeze (p @ seg)) = take 128 (squeeze (s @ seg))"
    proof (cases "length (squeeze s) \<le> 128")
      case True
      then show ?thesis by (simp add: p_def squeeze_squeeze_append)
    next
      case False
      then have "length p = 128" by (simp add: p_def)
      then have "take 128 (squeeze (p @ seg)) = p" using squeeze_extend[OF p, of seg] by simp
      moreover have "squeeze (s @ seg) = squeeze s @ squeeze_after (squeeze s) seg"
        using squeeze_extend[of "squeeze s" seg] squeeze_squeeze_append[of s seg] by simp
      ultimately show ?thesis using False by (simp add: p_def)
    qed
    with stay show ?thesis by (simp only: join whole ds p_def)
  qed
qed

lemma ci_prefix_squeeze: "list_all (\<lambda>c. \<not> py_space c) p \<Longrightarrow> ci_prefix p (squeeze s) = map_option squeeze (ci_prefix p s)"
proof (induction p s rule: ci_prefix.induct)
  case (3 p ps c s)
  have same: "lower_char c = c" if "py_space c" for c using that by (auto simp: py_space_def lower_char_def Let_def)
  show ?case
  proof (cases "py_space c")
    case True
    with 3(2) same[of c] same[of "CHR '' ''"] have "lower_char c \<noteq> p" "lower_char (CHR '' '') \<noteq> p" by auto
    with True show ?thesis by simp
  next
    case False
    then show ?thesis using 3 by auto
  qed
qed simp_all

lemma ci_prefix_take: "length p \<le> n \<Longrightarrow> ci_prefix p (take n s) = map_option (take (n - length p)) (ci_prefix p s)"
proof (induction p s arbitrary: n rule: ci_prefix.induct)
  case (3 p ps c s)
  then show ?case by (cases n) auto
qed simp_all

lemma match_separator_squeeze:
  assumes "2 \<le> k"
  shows "match_separator (take k (squeeze r)) = match_separator r"
proof -
  have colon: "match_colon s \<noteq> None \<longleftrightarrow> (\<exists>c w. dropWhile py_space s = c # w \<and> lower_char c = CHR '':'')" for s
  proof -
    have "ci_prefix '':'' d \<noteq> None \<longleftrightarrow> (\<exists>c w. d = c # w \<and> lower_char c = CHR '':'')" for d
      by (cases d) auto
    from this[of "dropWhile py_space s"] show ?thesis by (auto simp: match_colon_def split: option.splits)
  qed
  have "squeeze d = c # w \<longleftrightarrow> (\<exists>w'. d = c # w' \<and> w = squeeze w')" if "d = [] \<or> \<not> py_space (hd d)" for d c w
    using that by (cases d) auto
  from this[of "dropWhile py_space r"] have "(\<exists>c w. squeeze (dropWhile py_space r) = c # w \<and> lower_char c = CHR '':'')
      \<longleftrightarrow> (\<exists>c w. dropWhile py_space r = c # w \<and> lower_char c = CHR '':'')"
    using hd_dropWhile[of py_space r] by blast
  moreover have "starts_with (squeeze r) ''-'' = starts_with r ''-''"
    by (cases r) (auto simp: py_space_def)
  ultimately have "match_separator (squeeze r) = match_separator r"
    unfolding match_separator_def colon dropWhile_squeeze by blast
  moreover have "match_separator (take k (squeeze r)) = match_separator (squeeze r)"
  proof (cases "squeeze r")
    case (Cons c w)
    note fixed = squeeze_idem[of r, unfolded Cons]
    obtain k' where k: "k = Suc (Suc k')" using assms by (metis Suc_le_D numeral_2_eq_2 Suc_le_mono)
    show ?thesis
    proof (cases "py_space c")
      case True
      with squeeze_fixed_space[OF fixed] have "w = [] \<or> \<not> py_space (hd w)" by blast
      with True k Cons show ?thesis by (cases w) (simp_all add: match_separator_def colon del: not_None_eq)
    qed (use Cons k in \<open>simp add: match_separator_def colon del: not_None_eq\<close>)
  qed (simp add: match_separator_def colon)
  ultimately show ?thesis by simp
qed

lemma prefix_judged:
  "is_fatal (line_prefix line) = is_fatal line" "is_error (line_prefix line) = is_error line"
proof -
  define s where "s = dropWhile py_space line"
  have pre: "line_prefix line = take 128 (squeeze s)" by (simp add: line_prefix_def lstrip_def dropWhile_squeeze s_def)
  have idle: "dropWhile py_space (take 128 (squeeze s)) = take 128 (squeeze s)"
  proof (cases "s = []")
    case False
    then have "\<not> py_space (hd (squeeze s))" "squeeze s \<noteq> []"
      using squeeze_head[of s] hd_dropWhile[of py_space line] by (auto simp: s_def)
    then show ?thesis by (cases "squeeze s") auto
  qed simp
  have lit: "ci_prefix p (take 128 (squeeze s)) = map_option (\<lambda>r. take (128 - length p) (squeeze r)) (ci_prefix p s)"
    if "list_all (\<lambda>c. \<not> py_space c) p" "length p \<le> 11" for p
    using ci_prefix_take[of p 128 "squeeze s"] ci_prefix_squeeze[OF that(1), of s] that(2) by (simp add: option.map_comp comp_def)
  have free: "list_all (\<lambda>c. \<not> py_space c) ''fatal''" "list_all (\<lambda>c. \<not> py_space c) ''error''"
    "list_all (\<lambda>c. \<not> py_space c) ''error-[noa]''" "list_all (\<lambda>c. \<not> py_space c) ''*f,''" "list_all (\<lambda>c. \<not> py_space c) ''*e,''"
    by (simp_all add: py_space_def)
  show "is_fatal (line_prefix line) = is_fatal line"
    unfolding is_fatal_def Let_def pre idle s_def[symmetric] lit[OF free(1), simplified] lit[OF free(3), simplified] lit[OF free(4), simplified]
    by (auto simp: match_separator_squeeze split: option.splits)
  show "is_error (line_prefix line) = is_error line"
    unfolding is_error_def Let_def pre idle s_def[symmetric] lit[OF free(2), simplified] lit[OF free(5), simplified]
    by (auto simp: match_separator_squeeze split: option.splits)
qed

lemma report_count_evs: "report_count t = header_count (evs (squeeze t))"
  by (simp add: report_count_def uvm_events_def header_count_def evs_def event_of_def)

definition complete_lines :: "string \<Rightarrow> string list" where
  "complete_lines s = butlast (split_on NL s)"

lemma split_on_append: "NL \<notin> set a \<Longrightarrow> split_on NL (a @ NL # b) = a # split_on NL b"
  by (induction a) auto

lemma complete_lines_line: "NL \<notin> set a \<Longrightarrow> complete_lines (a @ NL # b) = a # complete_lines b"
  by (simp add: complete_lines_def split_on_append)

lemma complete_lines_text: "complete_lines (t @ [NL]) = split_on NL t"
proof (induction t rule: length_induct)
  case (1 t)
  show ?case
  proof (cases "NL \<in> set t")
    case True
    then obtain a b where t: "t = a @ NL # b" "NL \<notin> set a" using split_list_first by metis
    then show ?thesis using 1 complete_lines_line[of a "b @ [NL]"] split_on_append[of a b] by simp
  next
    case False
    have "split_on NL t = [t]" using False by (induction t) auto
    then show ?thesis using complete_lines_line[OF False, of "[]"] by (simp add: complete_lines_def)
  qed
qed

section \<open>The whole log\<close>

text \<open>
  Where the scan stands: the text is the finished lines \<open>seen\<close>, the part \<open>line\<close> of the current line, and
  the rest. The events found so far, together with those of the buffered tail, are the events of
  the text whatever follows.
\<close>

definition scan_at :: "string \<Rightarrow> nat \<times> nat \<Rightarrow> string \<Rightarrow> string \<Rightarrow> string \<Rightarrow> vcs \<Rightarrow> bool" where
  "scan_at t found seen line rest v \<longleftrightarrow>
     t = seen @ line @ rest \<and> NL \<notin> set line
     \<and> squeeze (sc_pending (vc_summary v)) = sc_pending (vc_summary v)
     \<and> short_runs 4000 0 (sc_pending (vc_summary v) @ rest)
     \<and> Header \<notin> set (evs (sc_pending (vc_summary v)))
     \<and> (\<exists>cs. sc_counts (vc_summary v) = foldl add_count [] cs \<and> sc_reports (vc_summary v) = header_count cs
          \<and> (\<forall>w. evs (squeeze (seen @ line @ w)) = cs @ evs (squeeze (sc_pending (vc_summary v) @ w))))
     \<and> vc_last_reports v = sc_reports (vc_summary v) \<and> vc_prefix v = line_prefix line
     \<and> report_count seen \<le> sc_reports (vc_summary v)
     \<and> (vc_fatal v, vc_error v) = (if sc_reports (vc_summary v) \<noteq> report_count seen then (0, 0) else found)"

lemma header_count_append [simp]: "header_count (a @ b) = header_count a + header_count b"
  by (simp add: header_count_def)

lemma header_count_none: "Header \<notin> set es \<Longrightarrow> header_count es = 0"
  by (auto simp: header_count_def filter_empty_conv)

lemma scan_at_reports:
  assumes "scan_at t found seen line rest v"
  shows "sc_reports (vc_summary v) = report_count (seen @ line)"
proof -
  obtain cs where cs: "sc_reports (vc_summary v) = header_count cs"
    "\<forall>w. evs (squeeze (seen @ line @ w)) = cs @ evs (squeeze (sc_pending (vc_summary v) @ w))"
    using assms unfolding scan_at_def by blast
  have "squeeze (sc_pending (vc_summary v)) = sc_pending (vc_summary v)" "Header \<notin> set (evs (sc_pending (vc_summary v)))"
    using assms unfolding scan_at_def by blast+
  then show ?thesis using cs(1) spec[OF cs(2), of "[]"] by (simp add: report_count_evs header_count_none)
qed

lemma scan_at_feed:
  assumes "scan_at t found seen line (x @ rest) v"
  shows "\<exists>sc. feed x False (vc_summary v) = Inr sc \<and> squeeze (sc_pending sc) = sc_pending sc
    \<and> short_runs 4000 0 (sc_pending sc @ rest) \<and> Header \<notin> set (evs (sc_pending sc))
    \<and> (\<exists>cs. sc_counts sc = foldl add_count [] cs \<and> sc_reports sc = header_count cs
          \<and> (\<forall>w. evs (squeeze (seen @ line @ x @ w)) = cs @ evs (squeeze (sc_pending sc @ w))))
    \<and> sc_reports (vc_summary v) \<le> sc_reports sc"
proof -
  let ?sc = "vc_summary v"
  obtain cs where cs: "sc_counts ?sc = foldl add_count [] cs" "sc_reports ?sc = header_count cs"
    "\<forall>w. evs (squeeze (seen @ line @ w)) = cs @ evs (squeeze (sc_pending ?sc @ w))"
    using assms unfolding scan_at_def by blast
  have runs: "short_runs 4000 0 ((sc_pending ?sc @ x) @ rest)" using assms by (simp add: scan_at_def)
  from feed_block[OF short_runs_append[OF runs]] obtain sc' ds n where f:
    "feed x False ?sc = Inr sc'" "squeeze (sc_pending sc') = sc_pending sc'"
    "sc_counts sc' = foldl add_count (sc_counts ?sc) ds" "sc_reports sc' = sc_reports ?sc + header_count ds"
    "\<forall>w. evs (squeeze (sc_pending ?sc @ x @ w)) = ds @ evs (squeeze (sc_pending sc' @ w))"
    "Header \<notin> set (evs (sc_pending sc'))"
    "n \<le> length (squeeze (sc_pending ?sc @ x))" "sc_pending sc' = drop n (squeeze (sc_pending ?sc @ x))"
    by blast
  have "short_runs 4000 0 (sc_pending sc' @ rest)"
    using short_runs_drop[OF short_runs_squeeze[OF runs], of n] f(7,8) by simp
  moreover have "sc_counts sc' = foldl add_count [] (cs @ ds)" "sc_reports sc' = header_count (cs @ ds)"
    using cs f by simp_all
  moreover have "\<forall>w. evs (squeeze (seen @ line @ x @ w)) = (cs @ ds) @ evs (squeeze (sc_pending sc' @ w))"
    using cs(3) f(5) by simp
  ultimately show ?thesis using f by (intro exI[of _ sc'] conjI) (blast | simp)+
qed

lemma consume_part:
  assumes "scan_at t found seen line (seg @ rest) v" and "NL \<notin> set seg"
  shows "\<exists>v'. consume seg False v = Inr v' \<and> scan_at t found seen (line @ seg) rest v'"
proof -
  obtain sc where sc: "feed seg False (vc_summary v) = Inr sc" "squeeze (sc_pending sc) = sc_pending sc"
    "short_runs 4000 0 (sc_pending sc @ rest)" "Header \<notin> set (evs (sc_pending sc))"
    "\<exists>cs. sc_counts sc = foldl add_count [] cs \<and> sc_reports sc = header_count cs
       \<and> (\<forall>w. evs (squeeze (seen @ line @ seg @ w)) = cs @ evs (squeeze (sc_pending sc @ w)))"
    "sc_reports (vc_summary v) \<le> sc_reports sc"
    using scan_at_feed[OF assms(1)] by blast
  define v' where "v' = (note_report (v\<lparr>vc_summary := sc\<rparr>))\<lparr>vc_prefix := line_prefix (line @ seg)\<rparr>"
  have "vc_prefix v = line_prefix line" using assms(1) by (simp add: scan_at_def)
  then have "consume seg False v = Inr v'"
    using sc(1) line_prefix_step[of line seg] by (simp add: consume_def v'_def note_report_def Let_def)
  moreover have "scan_at t found seen (line @ seg) rest v'"
    using assms sc by (auto simp: scan_at_def v'_def note_report_def split: if_splits)
  ultimately show ?thesis by blast
qed

definition next_found :: "string \<Rightarrow> string \<Rightarrow> nat \<times> nat \<Rightarrow> nat \<times> nat" where
  "next_found seen line fe =
     (let (f, e) = (if report_count (seen @ line @ [NL]) \<noteq> report_count seen then (0, 0) else fe)
      in (f + of_bool (is_fatal line), e + of_bool (is_error line)))"

lemma diagnostics_line:
  "diagnostics seen fe (line # ls) = diagnostics (seen @ line @ [NL]) (next_found seen line fe) ls"
  by (simp add: next_found_def Let_def split_def)

lemma consume_line:
  assumes "scan_at t found seen line (seg @ NL # rest) v" and "NL \<notin> set seg"
  shows "\<exists>v'. consume seg True v = Inr v' \<and> scan_at t (next_found seen (line @ seg) found) (seen @ (line @ seg) @ [NL]) [] rest v'"
proof -
  have split: "scan_at t found seen line ((seg @ [NL]) @ rest) v" using assms(1) by simp
  obtain sc where sc: "feed (seg @ [NL]) False (vc_summary v) = Inr sc" "squeeze (sc_pending sc) = sc_pending sc"
    "short_runs 4000 0 (sc_pending sc @ rest)" "Header \<notin> set (evs (sc_pending sc))"
    "\<exists>cs. sc_counts sc = foldl add_count [] cs \<and> sc_reports sc = header_count cs
       \<and> (\<forall>w. evs (squeeze (seen @ line @ (seg @ [NL]) @ w)) = cs @ evs (squeeze (sc_pending sc @ w)))"
    "sc_reports (vc_summary v) \<le> sc_reports sc"
    using scan_at_feed[OF split] by blast
  define v' where "v' = (let u = note_report (v\<lparr>vc_summary := sc\<rparr>)
    in u\<lparr>vc_fatal := vc_fatal u + of_bool (is_fatal (line @ seg)), vc_error := vc_error u + of_bool (is_error (line @ seg)), vc_prefix := []\<rparr>)"
  have "vc_prefix v = line_prefix line" using assms(1) by (simp add: scan_at_def)
  then have run: "consume seg True v = Inr v'"
    using sc(1) line_prefix_step[of line seg] prefix_judged[of "line @ seg"]
    by (simp add: consume_def v'_def note_report_def Let_def)
  let ?seen = "seen @ (line @ seg) @ [NL]"
  have reports: "sc_reports sc = report_count ?seen"
  proof -
    obtain cs where "sc_reports sc = header_count cs"
      "\<forall>w. evs (squeeze (seen @ line @ (seg @ [NL]) @ w)) = cs @ evs (squeeze (sc_pending sc @ w))" using sc(5) by blast
    then show ?thesis using sc(2,4) by (auto simp: report_count_evs header_count_none dest!: spec[of _ "[]"])
  qed
  have sum: "vc_summary v' = sc" "vc_last_reports v' = sc_reports sc" "vc_prefix v' = []"
    using assms(1) by (simp_all add: v'_def note_report_def Let_def scan_at_def)
  have "report_count seen \<le> sc_reports (vc_summary v)" "vc_last_reports v = sc_reports (vc_summary v)"
    "(vc_fatal v, vc_error v) = (if sc_reports (vc_summary v) \<noteq> report_count seen then (0, 0) else found)"
    using assms(1) by (simp_all add: scan_at_def)
  then have "(vc_fatal v', vc_error v') = next_found seen (line @ seg) found"
    using sc(6) reports by (cases found) (auto simp: v'_def note_report_def Let_def next_found_def split: if_splits)
  moreover have "line_prefix [] = []" by (simp add: line_prefix_def lstrip_def)
  ultimately have "scan_at t (next_found seen (line @ seg) found) ?seen [] rest v'"
    using assms(1) sc(2-5) reports unfolding scan_at_def sum by simp
  with run show ?thesis by blast
qed

text \<open>The same with the lines that are still to come, in the terms of the reference.\<close>

definition scan_ok :: "string \<Rightarrow> string \<Rightarrow> vcs \<Rightarrow> bool" where
  "scan_ok t rest v \<longleftrightarrow> (\<exists>found seen line. scan_at t found seen line rest v
     \<and> diagnostics seen found (complete_lines (line @ rest)) = diagnostics [] (0, 0) (complete_lines t))"

lemma scan_ok_part:
  assumes "scan_ok t (seg @ rest) v" and "NL \<notin> set seg"
  shows "\<exists>v'. consume seg False v = Inr v' \<and> scan_ok t rest v'"
proof -
  obtain found seen line where at: "scan_at t found seen line (seg @ rest) v"
    and d: "diagnostics seen found (complete_lines (line @ seg @ rest)) = diagnostics [] (0, 0) (complete_lines t)"
    using assms(1) unfolding scan_ok_def by auto
  from consume_part[OF at assms(2)] obtain v' where "consume seg False v = Inr v'" "scan_at t found seen (line @ seg) rest v'" by blast
  moreover from this have "scan_ok t rest v'" unfolding scan_ok_def using d by (intro exI conjI) (assumption, simp)
  ultimately show ?thesis by blast
qed

lemma scan_ok_line:
  assumes "scan_ok t (seg @ NL # rest) v" and "NL \<notin> set seg"
  shows "\<exists>v'. consume seg True v = Inr v' \<and> scan_ok t rest v'"
proof -
  obtain found seen line where at: "scan_at t found seen line (seg @ NL # rest) v"
    and d: "diagnostics seen found (complete_lines ((line @ seg) @ NL # rest)) = diagnostics [] (0, 0) (complete_lines t)"
    using assms(1) unfolding scan_ok_def by auto
  have "NL \<notin> set (line @ seg)" using at assms(2) by (simp add: scan_at_def)
  then have "complete_lines ((line @ seg) @ NL # rest) = (line @ seg) # complete_lines rest" by (rule complete_lines_line)
  with d have "diagnostics (seen @ (line @ seg) @ [NL]) (next_found seen (line @ seg) found) (complete_lines rest)
      = diagnostics [] (0, 0) (complete_lines t)"
    by (simp only: diagnostics_line)
  moreover from consume_line[OF at assms(2)] obtain v' where "consume seg True v = Inr v'"
    "scan_at t (next_found seen (line @ seg) found) (seen @ (line @ seg) @ [NL]) [] rest v'" by blast
  ultimately show ?thesis
    unfolding scan_ok_def by (metis append_Nil)
qed

lemma scan_ok_parts:
  assumes "parts \<noteq> []" and "\<forall>p \<in> set parts. NL \<notin> set p" and "scan_ok t (join [NL] parts @ rest) v"
  shows "\<exists>v'. bindR (foldR (\<lambda>segment. consume segment True) (butlast parts) v) (consume (last parts) False) = Inr v' \<and> scan_ok t rest v'"
  using assms
proof (induction parts arbitrary: v)
  case (Cons p parts)
  show ?case
  proof (cases "parts = []")
    case True
    with Cons.prems scan_ok_part[of t p rest v] show ?thesis by auto
  next
    case False
    then have "join [NL] (p # parts) @ rest = p @ NL # (join [NL] parts @ rest)" by (cases parts) auto
    with Cons.prems scan_ok_line[of t p "join [NL] parts @ rest" v] obtain v1 where
      v1: "consume p True v = Inr v1" "scan_ok t (join [NL] parts @ rest) v1" by auto
    with Cons.IH[OF False _ v1(2)] Cons.prems(2) False show ?thesis by auto
  qed
qed simp

lemma split_on_parts: "p \<in> set (split_on c s) \<Longrightarrow> c \<notin> set p"
  by (induction s arbitrary: p) (auto split: if_splits list.splits)

lemma scan_ok_chunk: "scan_ok t (chunk @ rest) v \<Longrightarrow> \<exists>v'. consume_chunk chunk v = Inr v' \<and> scan_ok t rest v'"
  using scan_ok_parts[of "split_on NL chunk" t rest v] by (auto simp: consume_chunk_def Let_def join_split_on dest: split_on_parts)

lemma scan_ok_chunks:
  "scan_ok t (concat chunks @ rest) v \<Longrightarrow> \<exists>v'. foldR consume_chunk chunks v = Inr v' \<and> scan_ok t rest v'"
proof (induction chunks arbitrary: v)
  case (Cons c chunks)
  from Cons.prems scan_ok_chunk[of t c "concat chunks @ rest" v] obtain v1 where
    "consume_chunk c v = Inr v1" "scan_ok t (concat chunks @ rest) v1" by auto
  with Cons.IH[of v1] show ?case by auto
qed simp

lemma short_runs_snoc: "short_runs k j s \<Longrightarrow> short_runs k j (s @ [NL])"
  by (induction k j s rule: short_runs.induct) (auto simp: digit_def NL_def split: if_splits)

lemma scan_ok_start: "short_runs 4000 0 t \<Longrightarrow> scan_ok (t @ [NL]) (t @ [NL]) new_vcs"
  unfolding scan_ok_def scan_at_def
  by (intro exI[of _ "(0, 0)"] exI[of _ "[]"])
    (auto simp: new_vcs_def new_scan_def evs_def header_count_def report_count_def uvm_events_def line_prefix_def lstrip_def
      intro!: short_runs_snoc exI[of _ "[]"])

lemma scan_ok_end:
  assumes "scan_ok (t @ [NL]) [] v"
  shows "\<exists>sc. feed [] True (vc_summary v) = Inr sc \<and> sc_counts sc = counts_of (uvm_events (t @ [NL]))
    \<and> sc_reports sc = report_count (t @ [NL]) \<and> (vc_fatal v, vc_error v) = diagnostics [] (0, 0) (split_on NL t)"
proof -
  let ?p = "sc_pending (vc_summary v)"
  obtain found seen line where at: "scan_at (t @ [NL]) found seen line [] v"
    and d: "diagnostics seen found (complete_lines line) = diagnostics [] (0, 0) (complete_lines (t @ [NL]))"
    using assms unfolding scan_ok_def by auto
  have line: "t @ [NL] = seen @ line" "NL \<notin> set line" using at by (simp_all add: scan_at_def)
  then have "line = []" by (cases line rule: rev_cases) auto
  then have seen: "t @ [NL] = seen" using line by simp
  have sq: "squeeze ?p = ?p" "short_runs 4000 0 ?p" using at by (simp_all add: scan_at_def)
  obtain cs where cs: "sc_counts (vc_summary v) = foldl add_count [] cs" "sc_reports (vc_summary v) = header_count cs"
    "\<forall>w. evs (squeeze (seen @ line @ w)) = cs @ evs (squeeze (?p @ w))"
    using at unfolding scan_at_def by blast
  have ev: "uvm_events (t @ [NL]) = cs @ evs ?p"
    using spec[OF cs(3), of "[]"] sq(1) \<open>line = []\<close> seen by (simp add: uvm_events_def evs_def event_of_def)
  from feed_end[OF sq(2,1)] obtain sc where sc: "feed [] True (vc_summary v) = Inr sc"
    "sc_counts sc = foldl add_count (sc_counts (vc_summary v)) (evs ?p)"
    "sc_reports sc = sc_reports (vc_summary v) + header_count (evs ?p)" by blast
  have "add_count = (\<lambda>d e. case e of Header \<Rightarrow> [] | Count key ds \<Rightarrow> dict_set key (digits_nat ds) d)"
    by (simp add: fun_eq_iff add_count_def)
  then have "sc_counts sc = counts_of (uvm_events (t @ [NL]))" using sc(2) cs(1) ev by (simp add: counts_of_def)
  moreover have "sc_reports sc = report_count (t @ [NL])" using sc(3) cs(2) ev by (simp add: report_count_def header_count_def)
  moreover have "(vc_fatal v, vc_error v) = diagnostics [] (0, 0) (split_on NL t)"
    using at d scan_at_reports[OF at] \<open>line = []\<close> complete_lines_text[of t]
    by (simp add: scan_at_def complete_lines_def)
  ultimately show ?thesis using sc(1) by blast
qed

text \<open>
  C27. The verdict on a log does not depend on how it is cut into blocks. Whatever blocks a log
  is read in, the scan that buffers a short tail between them, squeezes white space and keeps a
  bounded prefix of the current line returns what the definition on the whole text returns: the counts
  of the last summary report, the diagnostics from the line of its header on, and the verdict.
  Numbers of up to 4000 digits are in scope; longer ones may be refused.
\<close>

theorem scan_block_independent:
  assumes "short_runs 4000 0 (concat chunks)"
  shows "evaluate_vcs_chunks chunks = judge_log (concat chunks)"
proof -
  let ?t = "concat chunks"
  obtain v where v: "foldR consume_chunk chunks new_vcs = Inr v" "scan_ok (?t @ [NL]) [NL] v"
    using scan_ok_chunks[OF scan_ok_start[OF assms]] by blast
  then obtain v' where v': "consume [] True v = Inr v'" "scan_ok (?t @ [NL]) [] v'"
    using scan_ok_line[of "?t @ [NL]" "[]" "[]" v] by auto
  from scan_ok_end[OF v'(2)] v v'(1) show ?thesis
    by (auto simp: evaluate_vcs_chunks_def judge_log_def split: prod.splits)
qed

definition ex_chunks :: "string list" where
  "ex_chunks = [''UVM_ERR'', ''OR :  1'', ''2'' @ [NL]]"

theorem scan_block_independent_witness:
  "evaluate_vcs_chunks ex_chunks = Inr (''error'', 12)"
proof -
  have "short_runs 4000 0 (concat ex_chunks)" by code_simp
  moreover have "judge_log (concat ex_chunks) = Inr (''error'', 12)" by code_simp
  ultimately show ?thesis using scan_block_independent[of ex_chunks] by simp
qed

section \<open>All logs\<close>

definition STATUSES :: "string set" where
  "STATUSES = {''passed'', ''error'', ''fatal''}"

lemma verdict_status: "verdict counts reports fatal error = Inr (status, n) \<Longrightarrow> status \<in> STATUSES"
  by (auto simp: verdict_def STATUSES_def Let_def split: if_splits)

lemma evaluate_log_status: "evaluate_vcs_log decode lv = Inr (status, n) \<Longrightarrow> status \<in> STATUSES"
  by (auto simp: evaluate_vcs_log_def evaluate_vcs_chunks_def bindR_Inr_iff Let_def split: if_splits dest: verdict_status)

lemma severity_inj: "a \<in> STATUSES \<Longrightarrow> b \<in> STATUSES \<Longrightarrow> severity a = severity b \<longleftrightarrow> a = b"
  by (auto simp: STATUSES_def severity_def)

text \<open>A log that can be judged: its receipt does not call it incomplete, it is not empty, and it did not change.\<close>

definition trusted_log :: "log_view \<Rightarrow> bool" where
  "trusted_log lv \<longleftrightarrow> jget ''complete'' (output_integrity (lv_archive lv)) JNull \<noteq> JBool False
     \<and> jget ''reason'' (output_integrity (lv_archive lv)) JNull \<noteq> JStr ''metadata_unreadable''
     \<and> 0 < fs_size (lv_before lv) \<and> lv_after lv = lv_before lv \<and> lv_current lv = lv_before lv"

definition contribution :: "string \<Rightarrow> (string \<times> nat) result \<Rightarrow> nat" where
  "contribution status found = (case found of Inr (s, n) \<Rightarrow> if s = status then n else 0 | Inl _ \<Rightarrow> 0)"

lemma evaluate_log_trusted: "evaluate_vcs_log decode lv = Inr found \<Longrightarrow> trusted_log lv"
  by (auto simp: evaluate_vcs_log_def trusted_log_def bindR_Inr_iff Let_def split: if_splits)

lemma fold_logs:
  assumes "foldR (\<lambda>lv sofar. bindR (evaluate_vcs_log decode lv) (\<lambda>found. Inr (merge_status found sofar))) logs (s0, n0) = Inr (status, n)"
    and "s0 \<in> STATUSES"
  shows "status \<in> STATUSES \<and> severity s0 \<le> severity status \<and> (status = s0 \<or> (\<exists>lv \<in> set logs. \<exists>k. evaluate_vcs_log decode lv = Inr (status, k)))
    \<and> (\<forall>lv \<in> set logs. \<exists>s k. evaluate_vcs_log decode lv = Inr (s, k) \<and> severity s \<le> severity status)
    \<and> n = (if status = s0 then n0 else 0) + sum_list (map (\<lambda>lv. contribution status (evaluate_vcs_log decode lv)) logs)"
  using assms
proof (induction logs arbitrary: s0 n0)
  case (Cons lv logs)
  obtain s k where found: "evaluate_vcs_log decode lv = Inr (s, k)" using Cons.prems(1) by (cases "evaluate_vcs_log decode lv") auto
  obtain s1 n1 where m: "merge_status (s, k) (s0, n0) = (s1, n1)" by fastforce
  note s = evaluate_log_status[OF found]
  have s1: "s1 = (if severity s0 < severity s then s else s0)" "n1 = (if severity s0 < severity s then k else if s = s0 then n0 + k else n0)"
    using m by (auto simp: merge_status_def split: if_splits)
  then have "s1 \<in> STATUSES" using s Cons.prems(2) by simp
  moreover have "foldR (\<lambda>lv sofar. bindR (evaluate_vcs_log decode lv) (\<lambda>found. Inr (merge_status found sofar))) logs (s1, n1) = Inr (status, n)"
    using Cons.prems(1) found m by simp
  ultimately have IH: "status \<in> STATUSES" "severity s1 \<le> severity status"
    "status = s1 \<or> (\<exists>lv \<in> set logs. \<exists>k. evaluate_vcs_log decode lv = Inr (status, k))"
    "\<forall>lv \<in> set logs. \<exists>s k. evaluate_vcs_log decode lv = Inr (s, k) \<and> severity s \<le> severity status"
    "n = (if status = s1 then n1 else 0) + sum_list (map (\<lambda>lv. contribution status (evaluate_vcs_log decode lv)) logs)"
    using Cons.IH by blast+
  have "(if status = s1 then n1 else 0) = (if status = s0 then n0 else 0) + contribution status (evaluate_vcs_log decode lv)"
    using IH(2) s1 found severity_inj[OF IH(1) s] severity_inj[OF IH(1) Cons.prems(2)] severity_inj[OF s Cons.prems(2)]
    by (auto simp: contribution_def split: if_splits)
  moreover have "severity s0 \<le> severity status" "severity s \<le> severity status" using IH(2) s1 by (auto split: if_splits)
  ultimately show ?case using IH found s1 by (auto split: if_splits)
qed (simp add: STATUSES_def)

text \<open>
  The verdict over the logs of a run is exact. When it is given, every log was complete by
  its receipt, not empty and unchanged while it was read; the status is the worst status of any
  log, one of them has it unless the run passed, and the count is the sum of the counts of the logs with that
  status. One bad log is enough to refuse success.
\<close>

theorem run_verdict_exact:
  assumes "evaluate_vcs_logs decode logs = Inr (status, n)"
  shows "(\<forall>lv \<in> set logs. trusted_log lv \<and> (\<exists>s k. evaluate_vcs_log decode lv = Inr (s, k) \<and> severity s \<le> severity status))
    \<and> (status = ''passed'' \<or> (\<exists>lv \<in> set logs. \<exists>k. evaluate_vcs_log decode lv = Inr (status, k)))
    \<and> n = sum_list (map (\<lambda>lv. contribution status (evaluate_vcs_log decode lv)) logs)"
  using fold_logs[OF assms[unfolded evaluate_vcs_logs_def]] evaluate_log_trusted
  by (auto simp: STATUSES_def)

definition ex_log :: "string \<Rightarrow> log_view" where
  "ex_log text =
     (let st = \<lparr>fs_dev = 1, fs_ino = 2, fs_size = length text, fs_mtime = 3\<rparr>
      in \<lparr>lv_path = ''run.log'', lv_archive = \<lparr>ar_log = Some text, ar_receipt = No_receipt\<rparr>, lv_before = st,
          lv_content = (\<lambda>_. text), lv_after = st, lv_current = st\<rparr>)"

theorem run_verdict_exact_witness:
  "evaluate_vcs_logs id [ex_log ''done'', ex_log ''Error: x''] = Inr (''error'', 1) \<and> trusted_log (ex_log ''done'')"
proof -
  have "evaluate_vcs_log id (ex_log w) = evaluate_vcs_chunks [w]"
    if "w \<noteq> []" "length w < 50" "lastn_bytes (length OUTPUT_LIMIT_MARKER) w \<noteq> OUTPUT_LIMIT_MARKER" for w
    using that by (cases "evaluate_vcs_chunks [w]")
      (simp_all add: evaluate_vcs_log_def ex_log_def output_integrity_def integrity_def jget_def Let_def read_blocks.simps)
  moreover have "evaluate_vcs_chunks [''done''] = Inr (''passed'', 0)" "evaluate_vcs_chunks [''Error: x''] = Inr (''error'', 1)"
    "lastn_bytes (length OUTPUT_LIMIT_MARKER) ''done'' \<noteq> OUTPUT_LIMIT_MARKER"
    "lastn_bytes (length OUTPUT_LIMIT_MARKER) ''Error: x'' \<noteq> OUTPUT_LIMIT_MARKER" by code_simp+
  ultimately have "evaluate_vcs_logs id [ex_log ''done'', ex_log ''Error: x''] = Inr (''error'', 1)"
    by (simp add: evaluate_vcs_logs_def merge_status_def severity_def)
  with run_verdict_exact[OF this] show ?thesis by simp
qed

end
