(* ===== verification/LF_Verification.thy ===== *)
theory LF_Verification
  imports LF_Auth LF_Variables LF_Plugins LF_Results
begin

text \<open>
  The plugin for simulation runs, \<^verbatim>\<open>src/plugins/verification.py\<close>: its data models, the cases it
  offers, what it shows before a run, the tasks it expands a run into and its verdict afterwards.

  Values of a configuration are JSON values of any shape, since they reach the plugin without
  being validated against its model. The file tests, the login shell, the digest, the number conversions of
  the validation library and the truncation of floats are parameters.
\<close>

section \<open>Python values\<close>

record ver_env =
  ve_realpath :: "ppath \<Rightarrow> ppath"
  ve_is_dir :: "ppath \<Rightarrow> bool"
  ve_is_file :: "ppath \<Rightarrow> bool"
  ve_iterdir :: "ppath \<Rightarrow> string list"
  ve_sh :: string
  ve_sha256 :: "string \<Rightarrow> string"
  ve_trunc :: "string \<Rightarrow> int result"
  ve_lax_int :: "json \<Rightarrow> int option"
  ve_view :: "ppath \<Rightarrow> log_view"
  ve_decode :: "string list \<Rightarrow> string list"

definition py_iter :: "json \<Rightarrow> json list result" where
  "py_iter j =
     (case j of
        JList xs \<Rightarrow> Inr xs
      | JStr s \<Rightarrow> Inr (map (\<lambda>c. JStr [c]) s)
      | JObj d \<Rightarrow> Inr (map (\<lambda>(k, v). JStr k) d)
      | _ \<Rightarrow> Inl (TypeError ''object is not iterable''))"

definition int_value :: "ver_env \<Rightarrow> json \<Rightarrow> int result" where
  "int_value ve j =
     (case j of
        JInt i \<Rightarrow> Inr i
      | JBool b \<Rightarrow> Inr (of_bool b)
      | JFloat r \<Rightarrow> ve_trunc ve r
      | JStr s \<Rightarrow> (case py_int s of Some i \<Rightarrow> Inr i
                   | None \<Rightarrow> Inl (ValueError (''invalid literal for int() with base 10: '' @ repr_str s)))
      | _ \<Rightarrow> Inl (TypeError ''int() argument must be a string, a bytes-like object or a real number''))"

definition path_value :: "json \<Rightarrow> ppath result" where
  "path_value j = (case j of JStr s \<Rightarrow> Inr (parse_path s) | _ \<Rightarrow> Inl (TypeError ''argument should be a str or an os.PathLike object''))"

definition fromkeys :: "'a list \<Rightarrow> 'a list" where
  "fromkeys xs = rev (remdups (rev xs))"

definition field_of :: "string \<Rightarrow> jdict \<Rightarrow> json result" where
  "field_of key d = (case map_of d key of Some v \<Rightarrow> Inr v | None \<Rightarrow> Inl (KeyError key))"

section \<open>Data models\<close>

record verification_config =
  vg_case_directory :: "string option"
  vg_case_root :: "string option"
  vg_case_names :: "string list"
  vg_compile_logs :: "string list"
  vg_run_logs :: "string list"
  vg_custom_texts :: "string list"

definition list_field :: "string \<Rightarrow> jdict \<Rightarrow> string list option" where
  "list_field key d = (case map_of d key of None \<Rightarrow> Some [] | Some v \<Rightarrow> string_list v)"

definition normalize_case_names :: "string list \<Rightarrow> string list option" where
  "normalize_case_names vals =
     (let names = map strip vals
      in if list_ex (\<lambda>v. v = []) names then None else Some (fromkeys names))"

definition require_case_source :: "verification_config \<Rightarrow> verification_config result" where
  "require_case_source vg =
     (let directory = given (vg_case_directory vg) \<or> given (vg_case_root vg)
      in if \<not> directory \<and> vg_case_names vg = [] then Inl (ValueError ''case_directory or case_names is required'')
         else if vg_case_names vg \<noteq> [] \<and> directory
         then Inl (ValueError ''case_names and case_directory are alternative sources'')
         else Inr vg)"

definition validate_verification_config :: "jdict \<Rightarrow> verification_config result" where
  "validate_verification_config d =
     (let directory = optional_text ''case_directory'' (\<lambda>_. True) d;
          base = optional_text ''case_root'' (\<lambda>_. True) d;
          names = (case list_field ''case_names'' d of Some v \<Rightarrow> normalize_case_names v | None \<Rightarrow> None);
          compile = list_field ''compile_logs'' d;
          run = list_field ''run_logs'' d;
          texts = list_field ''custom_texts'' d
      in case (directory, base, names, compile, run, texts) of
           (Some cd, Some cr, Some ns, Some cl, Some rl, Some ct) \<Rightarrow>
             require_case_source
               \<lparr>vg_case_directory = cd, vg_case_root = cr, vg_case_names = ns, vg_compile_logs = cl, vg_run_logs = rl,
                vg_custom_texts = ct\<rparr>
         | _ \<Rightarrow> Inl (ValidationError (bad_field ''case_directory'' directory @ bad_field ''case_root'' base @ bad_field ''case_names'' names @
               bad_field ''compile_logs'' compile @ bad_field ''run_logs'' run @ bad_field ''custom_texts'' texts)))"

definition seed_field :: "ver_env \<Rightarrow> json \<Rightarrow> json option" where
  "seed_field ve j =
     (case j of
        JNull \<Rightarrow> Some JNull
      | JStr s \<Rightarrow> if s = [] then Some JNull else map_option JInt (py_int s)
      | _ \<Rightarrow> map_option JInt (ve_lax_int ve j))"

definition runs_field :: "ver_env \<Rightarrow> json \<Rightarrow> json option" where
  "runs_field ve j = (case ve_lax_int ve j of Some i \<Rightarrow> if 1 \<le> i then Some (JInt i) else None | None \<Rightarrow> None)"

fun int_items :: "ver_env \<Rightarrow> jdict \<Rightarrow> jdict option" where
  "int_items ve [] = Some []"
| "int_items ve ((k, v) # d) =
     (case (ve_lax_int ve v, int_items ve d) of (Some i, Some e) \<Rightarrow> Some ((k, JInt i) # e) | _ \<Rightarrow> None)"

definition case_runs_field :: "ver_env \<Rightarrow> json \<Rightarrow> json option" where
  "case_runs_field ve j = (case j of JObj d \<Rightarrow> map_option JObj (int_items ve d) | _ \<Rightarrow> None)"

text \<open>A field of the inputs: its validated value when it is set, and whether it was rejected.\<close>

definition input_field :: "string \<Rightarrow> (json \<Rightarrow> json option) \<Rightarrow> jdict \<Rightarrow> jdict option" where
  "input_field key f d = (case map_of d key of None \<Rightarrow> Some [] | Some v \<Rightarrow> map_option (\<lambda>w. [(key, w)]) (f v))"

definition INPUT_FIELDS :: "string list" where
  "INPUT_FIELDS = [''cases'', ''runs'', ''case_runs'', ''seed'']"

definition validate_case_runs :: "jdict \<Rightarrow> jdict result" where
  "validate_case_runs d =
     (let cases = map py_str (as_list (jget ''cases'' d (JList [])));
          unknown = filter (\<lambda>k. k \<notin> set cases) (map fst (object_of (jget ''case_runs'' d (JObj []))))
      in if unknown = [] then Inr d
         else Inl (ValueError (''case_runs names must also appear in cases: '' @ name_list unknown)))"

definition validate_verification_inputs :: "ver_env \<Rightarrow> jdict \<Rightarrow> jdict result" where
  "validate_verification_inputs ve d =
     (let cases = input_field ''cases'' (\<lambda>j. map_option (\<lambda>ss. JList (map JStr ss)) (string_list j)) d;
          runs = input_field ''runs'' (runs_field ve) d;
          case_runs = input_field ''case_runs'' (case_runs_field ve) d;
          seed = input_field ''seed'' (seed_field ve) d;
          extra = filter (\<lambda>k. k \<notin> set INPUT_FIELDS) (map fst d)
      in case (cases, runs, case_runs, seed, extra) of
           (Some a, Some b, Some c, Some s, []) \<Rightarrow> validate_case_runs (a @ b @ c @ s)
         | _ \<Rightarrow> Inl (ValidationError (bad_field ''cases'' cases @ bad_field ''runs'' runs @ bad_field ''case_runs'' case_runs @
               bad_field ''seed'' seed @ extra)))"

section \<open>Cases\<close>

definition name_stem :: "string \<Rightarrow> string" where
  "name_stem name = take (length name - length (name_suffix name)) name"

definition child :: "ppath \<Rightarrow> string \<Rightarrow> ppath" where
  "child p name = path_join p (PPath [] [name])"

definition case_names :: "ver_env \<Rightarrow> ppath \<Rightarrow> string list" where
  "case_names ve base =
     sort (remdups (map (\<lambda>name. if ve_is_dir ve (child base name) then name else name_stem name)
       (filter (\<lambda>name. \<not> starts_with name ''.'' \<and> (ve_is_dir ve (child base name) \<or> ve_is_file ve (child base name))) (ve_iterdir ve base))))"

definition ver_path :: "json \<Rightarrow> jdict \<Rightarrow> ppath result" where
  "ver_path v ctx =
     bindR (path_value v) (\<lambda>path.
       if is_absolute path then Inr path else bindR (context_root ctx) (\<lambda>base. Inr (path_join base path)))"

definition case_source :: "jdict \<Rightarrow> json" where
  "case_source vals = jget ''case_directory'' vals (jget ''case_root'' vals (JStr []))"

definition available_cases :: "ver_env \<Rightarrow> jdict \<Rightarrow> jdict \<Rightarrow> string list result" where
  "available_cases ve vals ctx =
     (let configured = jget ''case_names'' vals (JList [])
      in if truthy configured
         then if truthy (jget ''case_directory'' vals JNull) \<or> truthy (jget ''case_root'' vals JNull)
              then Inl (ValueError ''case_names and case_directory are alternative sources'')
              else bindR (py_iter configured) (\<lambda>items. Inr (sort (remdups (map (\<lambda>j. strip (py_str j)) items))))
         else bindR (ver_path (case_source vals) ctx) (\<lambda>base.
              Inr (if ve_is_dir ve base then case_names ve base else [])))"

definition ver_discover :: "ver_env \<Rightarrow> jdict \<Rightarrow> jdict \<Rightarrow> json result" where
  "ver_discover ve vals ctx = bindR (available_cases ve vals ctx) (\<lambda>names. Inr (JList (map JStr names)))"

section \<open>Inspection\<close>

definition PLUGIN_OFFERS :: string where
  "PLUGIN_OFFERS = [CHR 0xE6, CHR 0x8F, CHR 0x92, CHR 0xE4, CHR 0xBB, CHR 0xB6, CHR 0xE6, CHR 0x8F, CHR 0x90, CHR 0xE4, CHR 0xBE, CHR 0x9B] @ '' ''"

definition CASES_COUNTED :: string where
  "CASES_COUNTED = '' '' @ [CHR 0xE4, CHR 0xB8, CHR 0xAA] @ '' Case''"

definition CASES_FOUND :: string where
  "CASES_FOUND = [CHR 0xE5, CHR 0xB7, CHR 0xB2, CHR 0xE5, CHR 0x8F, CHR 0x91, CHR 0xE7, CHR 0x8E, CHR 0xB0] @ '' ''"

definition NO_CASE_IN_DIRECTORY :: string where
  "NO_CASE_IN_DIRECTORY = [CHR 0xE7, CHR 0x9B, CHR 0xAE, CHR 0xE5, CHR 0xBD, CHR 0x95, CHR 0xE5, CHR 0xAD, CHR 0x98, CHR 0xE5, CHR 0x9C, CHR 0xA8, CHR 0xEF, CHR 0xBC, CHR 0x8C, CHR 0xE4, CHR 0xBD, CHR 0x86, CHR 0xE6, CHR 0xB2, CHR 0xA1, CHR 0xE6, CHR 0x9C, CHR 0x89, CHR 0xE5, CHR 0x8F, CHR 0xAF, CHR 0xE7, CHR 0x94, CHR 0xA8] @ '' Case''"

definition NO_CASE_DIRECTORY :: string where
  "NO_CASE_DIRECTORY = [CHR 0xE6, CHR 0x89, CHR 0xBE, CHR 0xE4, CHR 0xB8, CHR 0x8D, CHR 0xE5, CHR 0x88, CHR 0xB0] @ '' Case '' @ [CHR 0xE7, CHR 0x9B, CHR 0xAE, CHR 0xE5, CHR 0xBD, CHR 0x95]"

definition CASE_DIRECTORY_LABEL :: string where
  "CASE_DIRECTORY_LABEL = ''Case '' @ [CHR 0xE7, CHR 0x9B, CHR 0xAE, CHR 0xE5, CHR 0xBD, CHR 0x95]"

definition ONLY_SHOWN :: string where
  "ONLY_SHOWN = [CHR 0xE4, CHR 0xBB, CHR 0x85, CHR 0xE5, CHR 0xB1, CHR 0x95, CHR 0xE7, CHR 0xA4, CHR 0xBA, CHR 0xE8, CHR 0xA7, CHR 0xA3, CHR 0xE6, CHR 0x9E, CHR 0x90, CHR 0xE7, CHR 0xBB, CHR 0x93, CHR 0xE6, CHR 0x9E, CHR 0x9C, CHR 0xEF, CHR 0xBC, CHR 0x9B, CHR 0xE8, CHR 0xBF, CHR 0x90, CHR 0xE8, CHR 0xA1, CHR 0x8C, CHR 0xE5, CHR 0x89, CHR 0x8D, CHR 0xE4, CHR 0xB8, CHR 0x8D, CHR 0xE6, CHR 0xA3, CHR 0x80, CHR 0xE6, CHR 0x9F, CHR 0xA5, CHR 0xE6, CHR 0x96, CHR 0x87, CHR 0xE4, CHR 0xBB, CHR 0xB6, CHR 0xE6, CHR 0x98, CHR 0xAF, CHR 0xE5, CHR 0x90, CHR 0xA6, CHR 0xE5, CHR 0xAD, CHR 0x98, CHR 0xE5, CHR 0x9C, CHR 0xA8]"

definition CUSTOM_TEXT :: string where
  "CUSTOM_TEXT = [CHR 0xE8, CHR 0x87, CHR 0xAA, CHR 0xE5, CHR 0xAE, CHR 0x9A, CHR 0xE4, CHR 0xB9, CHR 0x89, CHR 0xE6, CHR 0x96, CHR 0x87, CHR 0xE6, CHR 0x9C, CHR 0xAC]"

definition COMPILE_LOG :: string where
  "COMPILE_LOG = [CHR 0xE7, CHR 0xBC, CHR 0x96, CHR 0xE8, CHR 0xAF, CHR 0x91, CHR 0xE6, CHR 0x97, CHR 0xA5, CHR 0xE5, CHR 0xBF, CHR 0x97]"

definition RUN_LOG :: string where
  "RUN_LOG = [CHR 0xE8, CHR 0xBF, CHR 0x90, CHR 0xE8, CHR 0xA1, CHR 0x8C, CHR 0xE6, CHR 0x97, CHR 0xA5, CHR 0xE5, CHR 0xBF, CHR 0x97]"

definition LABELS :: string where
  "LABELS = [CHR 0xE6, CHR 0xA0, CHR 0x87, CHR 0xE7, CHR 0xAD, CHR 0xBE]"

definition SEED_LABEL :: string where
  "SEED_LABEL = [CHR 0xE9, CHR 0x9A, CHR 0x8F, CHR 0xE6, CHR 0x9C, CHR 0xBA, CHR 0xE7, CHR 0xA7, CHR 0x8D, CHR 0xE5, CHR 0xAD, CHR 0x90]"

definition VERIFICATION_TITLE :: string where
  "VERIFICATION_TITLE = [CHR 0xE9, CHR 0xAA, CHR 0x8C, CHR 0xE8, CHR 0xAF, CHR 0x81, CHR 0xE4, CHR 0xBB, CHR 0xBF, CHR 0xE7, CHR 0x9C, CHR 0x9F]"

definition VERIFICATION_DESCRIPTION :: string where
  "VERIFICATION_DESCRIPTION = [CHR 0xE9, CHR 0x80, CHR 0x89, CHR 0xE6, CHR 0x8B, CHR 0xA9] @ '' Case'' @ [CHR 0xE3, CHR 0x80, CHR 0x81, CHR 0xE6, CHR 0xAC, CHR 0xA1, CHR 0xE6, CHR 0x95, CHR 0xB0, CHR 0xE5, CHR 0x92, CHR 0x8C, CHR 0xE9, CHR 0x9A, CHR 0x8F, CHR 0xE6, CHR 0x9C, CHR 0xBA, CHR 0xE7, CHR 0xA7, CHR 0x8D, CHR 0xE5, CHR 0xAD, CHR 0x90]"

definition VERIFICATION_INSTRUCTIONS :: string where
  "VERIFICATION_INSTRUCTIONS = [CHR 0xE9, CHR 0x85, CHR 0x8D, CHR 0xE7, CHR 0xBD, CHR 0xAE] @ '' Case '' @ [CHR 0xE7, CHR 0x9B, CHR 0xAE, CHR 0xE5, CHR 0xBD, CHR 0x95, CHR 0xE5, CHR 0x92, CHR 0x8C, CHR 0xE4, CHR 0xBB, CHR 0xBF, CHR 0xE7, CHR 0x9C, CHR 0x9F, CHR 0xE5, CHR 0x91, CHR 0xBD, CHR 0xE4, CHR 0xBB, CHR 0xA4, CHR 0xE3, CHR 0x80, CHR 0x82, CHR 0xE4, CHR 0xBD, CHR 0xBF, CHR 0xE7, CHR 0x94, CHR 0xA8, CHR 0xE6, CHR 0x97, CHR 0xB6, CHR 0xE9, CHR 0x80, CHR 0x89, CHR 0xE6, CHR 0x8B, CHR 0xA9, CHR 0xE4, CHR 0xB8, CHR 0x80, CHR 0xE4, CHR 0xB8, CHR 0xAA, CHR 0xE6, CHR 0x88, CHR 0x96, CHR 0xE5, CHR 0xA4, CHR 0x9A, CHR 0xE4, CHR 0xB8, CHR 0xAA] @ '' Case'' @ [CHR 0xEF, CHR 0xBC, CHR 0x9B, CHR 0xE6, CHR 0xAF, CHR 0x8F, CHR 0xE4, CHR 0xB8, CHR 0xAA] @ '' Case '' @ [CHR 0xE7, CHR 0x9A, CHR 0x84, CHR 0xE6, CHR 0xAF, CHR 0x8F, CHR 0xE6, CHR 0xAC, CHR 0xA1, CHR 0xE8, CHR 0xBF, CHR 0x90, CHR 0xE8, CHR 0xA1, CHR 0x8C, CHR 0xE9, CHR 0x83, CHR 0xBD, CHR 0xE4, CHR 0xBC, CHR 0x9A, CHR 0xE6, CHR 0x88, CHR 0x90, CHR 0xE4, CHR 0xB8, CHR 0xBA, CHR 0xE7, CHR 0x8B, CHR 0xAC, CHR 0xE7, CHR 0xAB, CHR 0x8B, CHR 0xE4, CHR 0xBB, CHR 0xBB, CHR 0xE5, CHR 0x8A, CHR 0xA1, CHR 0xE3, CHR 0x80, CHR 0x82]"

definition info_item :: "string \<Rightarrow> string \<Rightarrow> json \<Rightarrow> string \<Rightarrow> json \<Rightarrow> json" where
  "info_item name label v kind message =
     JObj [(''name'', JStr name), (''label'', JStr label), (''value'', v), (''kind'', JStr kind),
       (''severity'', JStr ''info''), (''message'', message)]"

text \<open>The preview replaces both placeholders by themselves.\<close>

definition preview :: "json \<Rightarrow> string" where
  "preview v = foldl (\<lambda>s key. replace_all (reference key) (reference key) s) (py_str v) [''case'', ''seed'']"

definition case_items :: "ver_env \<Rightarrow> jdict \<Rightarrow> string list \<Rightarrow> ppath \<Rightarrow> json list" where
  "case_items ve vals cases base =
     (if truthy (jget ''case_names'' vals JNull)
      then [info_item ''case_names'' ''Case'' (JList (map JStr cases)) ''tokens''
              (JStr (PLUGIN_OFFERS @ nat_str (length cases) @ CASES_COUNTED))]
      else let (severity, message) =
             (if ve_is_dir ve base
              then if length cases = 0 then (''warning'', NO_CASE_IN_DIRECTORY)
                   else (''ok'', CASES_FOUND @ nat_str (length cases) @ CASES_COUNTED)
              else (''error'', NO_CASE_DIRECTORY))
           in [JObj [(''name'', JStr ''case_directory''), (''label'', JStr CASE_DIRECTORY_LABEL), (''value'', JStr (path_str base)),
                (''kind'', JStr ''path''), (''check'', JStr ''availability''), (''severity'', JStr severity), (''message'', JStr message)]])"

definition resolved_log :: "(ppath \<Rightarrow> ppath) \<Rightarrow> ppath \<Rightarrow> string \<Rightarrow> string" where
  "resolved_log realpath working s =
     (let path = parse_path s in path_str (if is_absolute path then path else realpath (path_join working path)))"

definition log_items :: "ver_env \<Rightarrow> ppath \<Rightarrow> jdict \<Rightarrow> string \<times> string \<Rightarrow> json list result" where
  "log_items ve working vals = (\<lambda>(name, label).
     if \<not> truthy (jget name vals (JList [])) then Inr []
     else bindR (py_iter (jget name vals (JList []))) (\<lambda>items.
       Inr [info_item name label (JList (map (\<lambda>raw. JStr (resolved_log (ve_realpath ve) working (preview raw))) items))
              ''code-list'' (JStr ONLY_SHOWN)]))"

definition text_items :: "json list \<Rightarrow> json list" where
  "text_items items =
     map (\<lambda>(index, v). info_item (''custom_text_'' @ nat_str index) CUSTOM_TEXT (JStr (py_str v)) ''text'' JNull)
       (zip [0..<length items] items)"

definition ver_inspect :: "ver_env \<Rightarrow> jdict \<Rightarrow> jdict \<Rightarrow> json result" where
  "ver_inspect ve vals ctx =
     bindR (available_cases ve vals ctx) (\<lambda>cases.
     bindR (ver_path (case_source vals) ctx) (\<lambda>base.
     bindR (field_of ''working_directory'' vals) (\<lambda>wd.
     bindR (ver_path wd ctx) (\<lambda>path.
     let working = ve_realpath ve path
     in bindR (mapR (log_items ve working vals) [(''compile_logs'', COMPILE_LOG), (''run_logs'', RUN_LOG)]) (\<lambda>logs.
     bindR (py_iter (jget ''labels'' vals (JList []))) (\<lambda>labels.
     bindR (py_iter (jget ''custom_texts'' vals (JList []))) (\<lambda>texts.
       Inr (JList (case_items ve vals cases (ve_realpath ve base) @ concat logs
         @ [info_item ''labels'' LABELS (JList (map (\<lambda>v. JStr (preview v)) labels)) ''tokens'' JNull]
         @ text_items texts)))))))))"

section \<open>The verdict\<close>

definition path_list :: "json \<Rightarrow> ppath list result" where
  "path_list j = bindR (py_iter j) (mapR path_value)"

definition runtime_details :: "jdict \<Rightarrow> jdict" where
  "runtime_details custom =
     (case map_of custom ''seed'' of Some v \<Rightarrow> [(''seed'', v)] | None \<Rightarrow> [])
     @ (if truthy (jget CUSTOM_TEXT custom JNull) then [(CUSTOM_TEXT, jget CUSTOM_TEXT custom JNull)] else [])"

definition report :: "string \<Rightarrow> jdict \<Rightarrow> json" where
  "report status custom = JObj [(''status'', JStr status), (''custom'', JObj custom)]"

definition path_strings :: "ppath list \<Rightarrow> json" where
  "path_strings ps = JList (map (\<lambda>p. JStr (path_str p)) ps)"

definition ver_evaluate_result :: "ver_env \<Rightarrow> task_row \<Rightarrow> jdict \<Rightarrow> json result" where
  "ver_evaluate_result ve task ctx =
     bindR (path_list (jget ''_compile_logs'' (r_custom task) (JList []))) (\<lambda>compile_logs.
     bindR (path_list (jget ''_run_logs'' (r_custom task) (JList []))) (\<lambda>run_logs.
     let runtime = runtime_details (r_custom task);
         existing_compile = filter (ve_is_file ve) compile_logs;
         existing_run = filter (ve_is_file ve) run_logs
     in if run_logs = []
        then Inr (report ''finished'' (runtime @ (if existing_compile = [] then [] else [(COMPILE_LOG, path_strings existing_compile)])))
        else if existing_run = []
        then if compile_logs = [] then Inr (report ''finished'' runtime)
             else Inr (report ''compile_error'' (runtime @ [(COMPILE_LOG, path_strings existing_compile)]))
        else if length existing_run \<noteq> length run_logs
        then Inl (ValueError ''one or more configured result logs are missing'')
        else bindR (evaluate_vcs_logs (ve_decode ve) (map (ve_view ve) existing_run)) (\<lambda>(status, count).
          Inr (report (if status = ''passed'' \<and> r_exit_code task \<noteq> None \<and> r_exit_code task \<noteq> Some 0 then ''crashed'' else status)
            (runtime @ [(RUN_LOG, path_strings existing_run)])))))"

section \<open>Expansion\<close>

text \<open>\<open>json.dumps\<close> of a text with \<open>ensure_ascii=False\<close>.\<close>

definition json_char :: "char \<Rightarrow> string" where
  "json_char c = (let n = of_char c :: nat in
     if c = DQ \<or> c = BACKSLASH then [BACKSLASH, c]
     else if n = 8 then [BACKSLASH, CHR ''b'']
     else if n = 9 then [BACKSLASH, CHR ''t'']
     else if n = 10 then [BACKSLASH, CHR ''n'']
     else if n = 12 then [BACKSLASH, CHR ''f'']
     else if n = 13 then [BACKSLASH, CHR ''r'']
     else if n < 32 then [BACKSLASH, CHR ''u'', CHR ''0'', CHR ''0'', hex_digit (n div 16), hex_digit (n mod 16)]
     else [c])"

definition json_text :: "string \<Rightarrow> string" where
  "json_text s = [DQ] @ concat (map json_char s) @ [DQ]"

definition queue_identity :: "string \<Rightarrow> string list \<Rightarrow> string" where
  "queue_identity case_name labels =
     ''['' @ json_text case_name @ '',['' @ join '','' (map json_text (sort labels)) @ '']]''"

definition queue_key :: "ver_env \<Rightarrow> string \<Rightarrow> string list \<Rightarrow> string" where
  "queue_key ve case_name labels = ''verification:'' @ take 24 (ve_sha256 ve (utf8 (queue_identity case_name labels)))"

definition automatic_seed :: "json \<Rightarrow> bool result" where
  "automatic_seed configured =
     (case configured of
        JNull \<Rightarrow> Inr True
      | JStr s \<Rightarrow> Inr (s = [])
      | JList _ \<Rightarrow> Inl (TypeError ''unhashable type: list'')
      | JObj _ \<Rightarrow> Inl (TypeError ''unhashable type: dict'')
      | _ \<Rightarrow> Inr False)"

definition run_seed :: "ver_env \<Rightarrow> jdict \<Rightarrow> nat \<Rightarrow> (bool \<times> json) result" where
  "run_seed ve vals index =
     (let configured = jget ''seed'' vals JNull
      in bindR (automatic_seed configured) (\<lambda>automatic.
         if automatic then Inr (True, JStr ''${seed}'')
         else bindR (int_value ve configured) (\<lambda>i. Inr (False, JInt (i + int index)))))"

definition run_resolver :: "string \<Rightarrow> bool \<times> json \<Rightarrow> resolver" where
  "run_resolver case_name = (\<lambda>(automatic, seed).
     new_resolver [(''root'', [(''case'', JStr case_name), (''seed'', seed)])] (if automatic then [''seed''] else []))"

definition resolve_strings :: "resolver \<Rightarrow> json \<Rightarrow> (jdict, string list) op" where
  "resolve_strings r v =
     bindS (resolve r v) (\<lambda>resolved. bindS (liftS (py_iter resolved)) (\<lambda>items. retS (map py_str items)))"

definition run_labels :: "resolver \<Rightarrow> jdict \<Rightarrow> string \<Rightarrow> (jdict, string list) op" where
  "run_labels r vals case_name =
     resolve_strings r (jget ''labels'' vals (JList [JStr ''verification'', JStr case_name]))"

definition run_command :: "resolver \<Rightarrow> json \<Rightarrow> string \<Rightarrow> (jdict, command_input) op" where
  "run_command r template case_name =
     (case template of
        JStr s \<Rightarrow>
          bindS (resolve r (JStr (replace_all (reference ''case'') (shlex_quote case_name) s))) (\<lambda>command.
            liftS (case command of
                     JStr t \<Rightarrow> Inr (CmdStr t)
                   | JList items \<Rightarrow> (case string_list (JList items) of Some ss \<Rightarrow> Inr (CmdList ss) | None \<Rightarrow> Inl (ValidationError [''command'']))
                   | j \<Rightarrow> if truthy j then Inl (TypeError ''object is not iterable'') else Inl (ValidationError [''command''])))
      | _ \<Rightarrow> bindS (resolve_strings r template) (\<lambda>items. retS (CmdList items)))"

definition shell_value :: "jdict \<Rightarrow> string option result" where
  "shell_value vals =
     (case jget ''shell'' vals JNull of JNull \<Rightarrow> Inr None | JStr s \<Rightarrow> Inr (Some s) | _ \<Rightarrow> Inl (ValidationError [''shell'']))"

definition resolve_logs :: "ver_env \<Rightarrow> ppath \<Rightarrow> resolver \<Rightarrow> json \<Rightarrow> (jdict, json) op" where
  "resolve_logs ve working r v =
     bindS (resolve_strings r v) (\<lambda>items. retS (JList (map (\<lambda>s. JStr (resolved_log (ve_realpath ve) working s)) items)))"

definition run_task :: "ver_env \<Rightarrow> jdict \<Rightarrow> json \<Rightarrow> ppath \<Rightarrow> string \<Rightarrow> nat \<Rightarrow> bool \<times> json \<Rightarrow> (jdict, task_draft) op" where
  "run_task ve vals template working case_name index seed =
     (let r = run_resolver case_name seed
      in bindS (run_labels r vals case_name) (\<lambda>labels.
         bindS (resolve_strings r (jget ''mutex_keys'' vals (JList []))) (\<lambda>keys.
         bindS (run_command r template case_name) (\<lambda>command.
         bindS (resolve_logs ve working r (jget ''compile_logs'' vals (JList []))) (\<lambda>compile_logs.
         bindS (resolve_logs ve working r (jget ''run_logs'' vals (JList []))) (\<lambda>run_logs.
         bindS (resolve_strings r (jget ''custom_texts'' vals (JList []))) (\<lambda>texts.
         liftS (bindR (shell_value vals) (\<lambda>shell.
           bindR (validate_task_create (ve_sh ve)
             \<lparr>tp_name = JStr case_name, tp_working_directory = JStr (path_str working), tp_shell = Some shell, tp_source = None,
              tp_command = command, tp_labels = map JStr labels,
              tp_mutex_keys = map JStr (fromkeys (keys @ [queue_key ve case_name labels])),
              tp_custom = [(''_case'', JStr case_name), (''_run'', JInt (int index + 1))]
                @ (if fst seed then [] else [(''seed'', snd seed)])
                @ [(''_compile_logs'', compile_logs), (''_run_logs'', run_logs), (CUSTOM_TEXT, JList (map JStr texts))],
              tp_template = None, tp_plugin_snapshot = [], tp_stop = None\<rparr>) (\<lambda>draft.
           Inr (draft\<lparr>td_deferred_values :=
             (if fst seed then [(''seed'', \<lparr>dv_source = ''monotonic_unix'', dv_namespace = ''verification.seed''\<rparr>)] else [])\<rparr>)))))))))))"

definition case_task :: "ver_env \<Rightarrow> jdict \<Rightarrow> json \<Rightarrow> ppath \<Rightarrow> string \<Rightarrow> nat \<Rightarrow> task_draft result" where
  "case_task ve vals template working case_name index =
     bindR (run_seed ve vals index) (\<lambda>seed. fst (run_task ve vals template working case_name index seed []))"

definition run_count :: "ver_env \<Rightarrow> jdict \<Rightarrow> string \<Rightarrow> nat result" where
  "run_count ve vals case_name =
     (case jget ''case_runs'' vals (JObj []) of
        JObj d \<Rightarrow> bindR (int_value ve (jget case_name d (jget ''runs'' vals (JInt 1)))) (\<lambda>n. Inr (nat n))
      | _ \<Rightarrow> Inl (AttributeError ''get''))"

definition case_tasks :: "ver_env \<Rightarrow> jdict \<Rightarrow> json \<Rightarrow> ppath \<Rightarrow> string list \<Rightarrow> json \<Rightarrow> task_draft list result" where
  "case_tasks ve vals template working available name =
     (case name of
        JStr case_name \<Rightarrow>
          if case_name \<in> set available
          then bindR (run_count ve vals case_name) (\<lambda>n. mapR (case_task ve vals template working case_name) [0..<n])
          else Inl (ValueError (''case not found: '' @ case_name))
      | JList _ \<Rightarrow> Inl (TypeError ''unhashable type: list'')
      | JObj _ \<Rightarrow> Inl (TypeError ''unhashable type: dict'')
      | j \<Rightarrow> Inl (ValueError (''case not found: '' @ py_str j)))"

definition ver_expand :: "ver_env \<Rightarrow> jdict \<Rightarrow> jdict \<Rightarrow> task_draft list result" where
  "ver_expand ve vals ctx =
     bindR (field_of ''command'' vals) (\<lambda>template.
     let wd = jget ''working_directory'' vals JNull
     in if \<not> truthy wd then Inl (ValueError ''working_directory is required'')
        else bindR (ver_path wd ctx) (\<lambda>path.
          bindR (available_cases ve vals ctx) (\<lambda>available.
          if \<not> truthy (jget ''cases'' vals JNull) then Inl (ValueError ''at least one case is required'')
          else bindR (py_iter (jget ''cases'' vals JNull)) (\<lambda>names.
            bindR (mapR (case_tasks ve vals template (ve_realpath ve path) available) names) (\<lambda>tasks. Inr (concat tasks))))))"

section \<open>The plugin\<close>

definition status_entry :: "string \<Rightarrow> string \<Rightarrow> bool \<Rightarrow> json" where
  "status_entry label tone ended = JObj [(''label'', JStr label), (''tone'', JStr tone), (''finished'', JBool ended)]"

definition ver_statuses :: jdict where
  "ver_statuses =
     [(''waiting'', status_entry ([CHR 0xE7, CHR 0xAD, CHR 0x89, CHR 0xE5, CHR 0xBE, CHR 0x85, CHR 0xE4, CHR 0xBB, CHR 0xBF, CHR 0xE7, CHR 0x9C, CHR 0x9F]) ''neutral'' False),
      (''starting'', status_entry ([CHR 0xE5, CHR 0x87, CHR 0x86, CHR 0xE5, CHR 0xA4, CHR 0x87, CHR 0xE4, CHR 0xBB, CHR 0xBF, CHR 0xE7, CHR 0x9C, CHR 0x9F]) ''info'' False),
      (''simulating'', status_entry ([CHR 0xE4, CHR 0xBB, CHR 0xBF, CHR 0xE7, CHR 0x9C, CHR 0x9F, CHR 0xE4, CHR 0xB8, CHR 0xAD]) ''info'' False),
      (''stopping'', status_entry ([CHR 0xE9, CHR 0x80, CHR 0x80, CHR 0xE5, CHR 0x87, CHR 0xBA, CHR 0xE4, CHR 0xB8, CHR 0xAD]) ''warning'' False),
      (''finished'', status_entry ([CHR 0xE8, CHR 0xBF, CHR 0x90, CHR 0xE8, CHR 0xA1, CHR 0x8C, CHR 0xE7, CHR 0xBB, CHR 0x93, CHR 0xE6, CHR 0x9D, CHR 0x9F]) ''neutral'' True),
      (''passed'', status_entry ([CHR 0xE9, CHR 0xAA, CHR 0x8C, CHR 0xE8, CHR 0xAF, CHR 0x81, CHR 0xE9, CHR 0x80, CHR 0x9A, CHR 0xE8, CHR 0xBF, CHR 0x87]) ''success'' True),
      (''compile_error'', status_entry ([CHR 0xE7, CHR 0xBC, CHR 0x96, CHR 0xE8, CHR 0xAF, CHR 0x91, CHR 0xE9, CHR 0x94, CHR 0x99, CHR 0xE8, CHR 0xAF, CHR 0xAF]) ''danger'' True),
      (''error'', status_entry (''ERROR'') ''danger'' True),
      (''fatal'', status_entry (''FATAL'') ''danger'' True),
      (''mismatch'', status_entry ([CHR 0xE6, CHR 0xAF, CHR 0x94, CHR 0xE5, CHR 0xAF, CHR 0xB9, CHR 0xE4, CHR 0xB8, CHR 0x8D, CHR 0xE4, CHR 0xB8, CHR 0x80, CHR 0xE8, CHR 0x87, CHR 0xB4]) ''warning'' True),
      (''crashed'', status_entry ([CHR 0xE4, CHR 0xBB, CHR 0xBF, CHR 0xE7, CHR 0x9C, CHR 0x9F, CHR 0xE5, CHR 0xBC, CHR 0x82, CHR 0xE5, CHR 0xB8, CHR 0xB8]) ''danger'' True),
      (''stopped'', status_entry ([CHR 0xE5, CHR 0xB7, CHR 0xB2, CHR 0xE5, CHR 0x81, CHR 0x9C, CHR 0xE6, CHR 0xAD, CHR 0xA2]) ''warning'' True),
      (''lost'', status_entry ([CHR 0xE7, CHR 0x8A, CHR 0xB6, CHR 0xE6, CHR 0x80, CHR 0x81, CHR 0xE4, CHR 0xB8, CHR 0xA2, CHR 0xE5, CHR 0xA4, CHR 0xB1]) ''danger'' True)]"

definition ver_run_fields :: "json list" where
  "ver_run_fields =
     [JObj [(''name'', JStr ''cases''), (''type'', JStr ''case-picker''), (''multiple'', JBool True), (''required'', JBool True),
        (''label'', JStr ''Case''), (''count_field'', JStr ''case_runs''), (''default_count_field'', JStr ''runs'')],
      JObj [(''name'', JStr ''seed''), (''type'', JStr ''seed''), (''label'', JStr SEED_LABEL)]]"

definition CONFIG_MODEL_FIELDS :: "string list" where
  "CONFIG_MODEL_FIELDS = [''case_directory'', ''case_root'', ''case_names'', ''compile_logs'', ''run_logs'', ''custom_texts'']"

text \<open>The schemas the validation library derives from the data models are parameters.\<close>

definition verification :: "ver_env \<Rightarrow> json \<Rightarrow> json \<Rightarrow> plugin_instance" where
  "verification ve config_schema inputs_schema =
     \<lparr>in_run_fields = Some (JList ver_run_fields), in_fields = None,
      in_expand = Some (ver_expand ve),
      in_required_common_fields = Some (PySet [JStr ''working_directory'', JStr ''command'']),
      in_deferred_variables = Some (PySet [JStr ''case'', JStr ''seed'']),
      in_config_model = Some (Model \<lparr>pm_fields = CONFIG_MODEL_FIELDS,
         pm_validate = (\<lambda>d. bindR (validate_verification_config d) (\<lambda>_. Inr d)), pm_schema = config_schema\<rparr>),
      in_input_model = Some (Model \<lparr>pm_fields = INPUT_FIELDS, pm_validate = validate_verification_inputs ve, pm_schema = inputs_schema\<rparr>),
      in_example = Some (JObj [(''plugin'', JStr ''verification''), (''case_names'', JList [JStr ''case-a'', JStr ''case-b'', JStr ''smoke'']),
         (''working_directory'', JStr ''.''), (''command'', JStr ''make all CASE=${case} SEED=${seed}''),
         (''mutex_keys'', JList [JStr ''simulator:demo'']), (''custom_texts'', JList [JStr ''Case: ${case}'', JStr ''Seed: ${seed}''])]),
      in_api_inputs = Some (JObj [(''cases'', JList [JStr ''case-a'']), (''case_runs'', JObj [(''case-a'', JInt 1)]), (''seed'', JNull)]),
      in_statuses = Some (JObj ver_statuses),
      in_lifecycle_statuses = [(''queued'', ''waiting''), (''starting'', ''starting''), (''running'', ''simulating''),
         (''stopping'', ''stopping''), (''lost'', ''lost'')],
      in_result_statuses = [(''0'', ''passed''), (''2'', ''mismatch''), (''default'', ''crashed'')],
      in_interrupt_status = Some ''stopped'', in_aliases = [], in_stop = None,
      in_discover = Some (ver_discover ve), in_inspect = Some (ver_inspect ve),
      in_evaluate_result = Some (ver_evaluate_result ve), in_validate_config = None,
      in_title = Some VERIFICATION_TITLE, in_description = Some VERIFICATION_DESCRIPTION, in_instructions = Some VERIFICATION_INSTRUCTIONS\<rparr>"

end
