(* ===== verification/LF_Verification_Facts.thy ===== *)
theory LF_Verification_Facts
  imports LF_Verification LF_Results_Facts
begin

text \<open>
  What the plugin for simulation runs promises: the tasks of a run, their mutual exclusion, and
  a success that rests on every log. The locale states what the registry needs of an
  evaluator; it is interpreted on the plugin.
\<close>

section \<open>Evaluators that answer declared statuses\<close>

definition shown_status :: "jdict \<Rightarrow> string \<Rightarrow> task_status" where
  "shown_status statuses key = (case map_of statuses key of
     Some (JObj d) \<Rightarrow> \<lparr>ts_key = key, ts_label = py_str (jget ''label'' d (JStr key)), ts_tone = py_str (jget ''tone'' d (JStr ''neutral'')), ts_finished = True\<rparr>
   | _ \<Rightarrow> \<lparr>ts_key = key, ts_label = key, ts_tone = ''neutral'', ts_finished = True\<rparr>)"

locale declared_verdicts =
  fixes name :: string and inst :: plugin_instance
    and judge :: "task_row \<Rightarrow> jdict \<Rightarrow> json result" and statuses :: jdict
  assumes evaluator: "in_evaluate_result inst = Some judge"
    and declared: "statuses_of inst = JObj statuses"
    and answers: "judge task ctx = Inr j \<Longrightarrow>
      \<exists>key custom d. j = JObj [(''status'', JStr key), (''custom'', JObj custom)] \<and> map_of statuses key = Some (JObj d)"
begin

lemma snapshot_facts:
  assumes "lp_instance loaded = inst"
  shows "map_of (plugin_snapshot name loaded vals) ''name'' = Some (JStr name)"
    "jget ''result_evaluator'' (plugin_snapshot name loaded vals) JNull = JBool True"
    "jget ''digest'' (plugin_snapshot name loaded vals) JNull = JStr (lp_digest loaded)"
    "jget ''statuses'' (plugin_snapshot name loaded vals) (JObj []) = JObj statuses"
  using assms evaluator declared by (simp_all add: plugin_snapshot_def jget_def)

lemma verdict_recorded:
  assumes "map_of (rg_plugins reg) name = Some loaded" and "lp_instance loaded = inst"
    and "r_plugin_snapshot task = plugin_snapshot name loaded vals"
  shows "(\<exists>err. judge task ctx = Inl err \<and> registry_evaluate_result task ctx reg = Inl err)
    \<or> (\<exists>key custom d. judge task ctx = Inr (JObj [(''status'', JStr key), (''custom'', JObj custom)])
        \<and> map_of statuses key = Some (JObj d)
        \<and> registry_evaluate_result task ctx reg = Inr (Some (shown_status statuses key, custom)))"
proof -
  have run: "registry_evaluate_result task ctx reg = apply_evaluator name judge task ctx"
    using assms evaluator snapshot_facts[OF assms(2), of vals] by (simp add: registry_evaluate_result_def)
  show ?thesis
  proof (cases "judge task ctx")
    case (Inl err)
    then show ?thesis by (simp add: run apply_evaluator_def)
  next
    case (Inr j)
    from answers[OF this] obtain key custom d where
      j: "j = JObj [(''status'', JStr key), (''custom'', JObj custom)]" "map_of statuses key = Some (JObj d)" by blast
    have "apply_evaluator name judge task ctx = Inr (Some (shown_status statuses key, custom))"
      using Inr j snapshot_facts(4)[OF assms(2), of vals] assms(3)
      by (simp add: apply_evaluator_def judge_result_def status_definition_def hashable_def jget_def[of "''status''"]
          jget_def[of "''custom''"] jget_def[of "''label''" "[(''status'', _), _]"] shown_status_def)
    with Inr j show ?thesis by (simp add: run)
  qed
qed

end

section \<open>The verdict of the plugin\<close>

definition VERDICTS :: "string list" where
  "VERDICTS = [''finished'', ''compile_error'', ''passed'', ''error'', ''fatal'', ''crashed'']"

definition is_declared :: "string \<Rightarrow> bool" where
  "is_declared key = (case map_of ver_statuses key of Some (JObj d) \<Rightarrow> True | _ \<Rightarrow> False)"

lemma all_declared: "list_all is_declared VERDICTS"
  by code_simp

lemma verdicts_declared:
  assumes "key \<in> set VERDICTS"
  shows "\<exists>d. map_of ver_statuses key = Some (JObj d)"
proof -
  have "is_declared key" using all_declared assms unfolding list_all_iff by (rule bspec)
  then show ?thesis
    unfolding is_declared_def
    by (cases "map_of ver_statuses key"; cases "the (map_of ver_statuses key)") simp_all
qed

lemma evaluate_logs_status: "evaluate_vcs_logs decode logs = Inr (status, n) \<Longrightarrow> status \<in> {''passed'', ''error'', ''fatal''}"
  using fold_logs[of decode logs "''passed''" 0 status n] by (simp add: evaluate_vcs_logs_def STATUSES_def)

definition logs_of :: "task_row \<Rightarrow> ppath list result" where
  "logs_of task = path_list (jget ''_run_logs'' (r_custom task) (JList []))"

definition failed_exit :: "task_row \<Rightarrow> bool" where
  "failed_exit task \<longleftrightarrow> r_exit_code task \<noteq> None \<and> r_exit_code task \<noteq> Some 0"

lemma ver_evaluate_cases:
  assumes "ver_evaluate_result ve task ctx = Inr j"
  shows "\<exists>key custom. j = report key custom \<and> (key = ''finished'' \<or> key = ''compile_error''
    \<or> (\<exists>logs status n. logs_of task = Inr logs \<and> logs \<noteq> [] \<and> list_all (ve_is_file ve) logs
        \<and> evaluate_vcs_logs (ve_decode ve) (map (ve_view ve) logs) = Inr (status, n)
        \<and> key = (if status = ''passed'' \<and> failed_exit task then ''crashed'' else status)))"
proof -
  obtain compile_logs logs where logs: "logs_of task = Inr logs"
    and run: "(let runtime = runtime_details (r_custom task);
         existing_compile = filter (ve_is_file ve) compile_logs;
         existing_run = filter (ve_is_file ve) logs
     in if logs = []
        then Inr (report ''finished'' (runtime @ (if existing_compile = [] then [] else [(COMPILE_LOG, path_strings existing_compile)])))
        else if existing_run = []
        then if compile_logs = [] then Inr (report ''finished'' runtime)
             else Inr (report ''compile_error'' (runtime @ [(COMPILE_LOG, path_strings existing_compile)]))
        else if length existing_run \<noteq> length logs
        then Inl (ValueError ''one or more configured result logs are missing'')
        else bindR (evaluate_vcs_logs (ve_decode ve) (map (ve_view ve) existing_run)) (\<lambda>(status, count).
          Inr (report (if status = ''passed'' \<and> failed_exit task then ''crashed'' else status)
            (runtime @ [(RUN_LOG, path_strings existing_run)])))) = Inr j"
    using assms unfolding ver_evaluate_result_def bindR_Inr_iff logs_of_def failed_exit_def by blast
  define existing where "existing = filter (ve_is_file ve) logs"
  show ?thesis
  proof (cases "logs = [] \<or> existing = []")
    case True
    then show ?thesis using run unfolding Let_def existing_def[symmetric] by (cases "logs = []"; cases "compile_logs = []") auto
  next
    case False
    then have whole: "length existing = length logs" using run unfolding Let_def existing_def[symmetric] by (cases "length existing = length logs") auto
    then have all: "list_all (ve_is_file ve) logs" "existing = logs"
      unfolding existing_def by (auto simp: list_all_iff filter_id_conv dest: length_filter_less)
    then obtain status n where "evaluate_vcs_logs (ve_decode ve) (map (ve_view ve) logs) = Inr (status, n)"
      "j = report (if status = ''passed'' \<and> failed_exit task then ''crashed'' else status) (runtime_details (r_custom task) @ [(RUN_LOG, path_strings logs)])"
      using run False unfolding Let_def existing_def[symmetric] by (auto simp: bindR_Inr_iff)
    with logs False all show ?thesis by blast
  qed
qed

lemma ver_answers:
  assumes "ver_evaluate_result ve task ctx = Inr j"
  shows "\<exists>key custom. j = JObj [(''status'', JStr key), (''custom'', JObj custom)] \<and> key \<in> set VERDICTS"
proof -
  obtain key custom where j: "j = report key custom" and k: "key = ''finished'' \<or> key = ''compile_error''
    \<or> (\<exists>logs status n. evaluate_vcs_logs (ve_decode ve) (map (ve_view ve) logs) = Inr (status, n)
        \<and> key = (if status = ''passed'' \<and> failed_exit task then ''crashed'' else status))"
    using ver_evaluate_cases[OF assms] by blast
  from k have "key \<in> set VERDICTS"
  proof (elim disjE exE conjE)
    fix logs status n
    assume e: "evaluate_vcs_logs (ve_decode ve) (map (ve_view ve) logs) = Inr (status, n)"
      and "key = (if status = ''passed'' \<and> failed_exit task then ''crashed'' else status)"
    then show ?thesis using evaluate_logs_status[OF e] by (auto simp: VERDICTS_def)
  qed (simp_all add: VERDICTS_def)
  with j show ?thesis by (auto simp: report_def)
qed

interpretation ver: declared_verdicts "''verification''" "verification ve cs ins" "ver_evaluate_result ve" ver_statuses
proof
  show "in_evaluate_result (verification ve cs ins) = Some (ver_evaluate_result ve)" by (simp add: verification_def)
  show "statuses_of (verification ve cs ins) = JObj ver_statuses" by (simp add: verification_def statuses_of_def attr_def)
  show "\<exists>key custom d. j = JObj [(''status'', JStr key), (''custom'', JObj custom)] \<and> map_of ver_statuses key = Some (JObj d)"
    if "ver_evaluate_result ve task ctx = Inr j" for task ctx j
    using ver_answers[OF that] verdicts_declared by blast
qed

lemma log_passed_count: "evaluate_vcs_log decode lv = Inr (''passed'', k) \<Longrightarrow> k = 0"
  by (auto simp: evaluate_vcs_log_def evaluate_vcs_chunks_def verdict_def bindR_Inr_iff Let_def split: if_splits)

lemma logs_passed:
  assumes "evaluate_vcs_logs decode logs = Inr (''passed'', n)" and "lv \<in> set logs"
  shows "trusted_log lv \<and> evaluate_vcs_log decode lv = Inr (''passed'', 0)"
proof -
  obtain s k where s: "evaluate_vcs_log decode lv = Inr (s, k)" "severity s \<le> severity ''passed''"
    using fold_logs[OF assms(1)[unfolded evaluate_vcs_logs_def]] assms(2) by (auto simp: STATUSES_def)
  have "s = ''passed''" using s(2) by (auto simp: severity_def split: if_splits)
  with s(1) log_passed_count[of decode lv k] evaluate_log_trusted[OF s(1)] show ?thesis by simp
qed

definition success_only_passed :: "string \<Rightarrow> bool" where
  "success_only_passed key \<longleftrightarrow> ts_tone (shown_status ver_statuses key) = ''success'' \<longrightarrow> key = ''passed''"

lemma all_success_passed: "list_all success_only_passed VERDICTS"
  by code_simp

text \<open>
  C28. A green run rests on every one of its logs. When a finished simulation task is shown with the
  tone of a success, its process did not fail, it has run logs, and each of them exists, has no
  receipt that calls it incomplete or cannot be read (a log without a receipt, as a simulator
  writes it, is accepted), was not empty, did not change while it was read, and passes on its own.
\<close>

theorem success_rests_on_every_log:
  assumes "map_of (rg_plugins reg) ''verification'' = Some loaded" and "lp_instance loaded = verification ve cs ins"
    and "r_plugin_snapshot task = plugin_snapshot ''verification'' loaded vals"
    and "registry_evaluate_result task ctx reg = Inr (Some (status, custom))" and "ts_tone status = ''success''"
  shows "\<not> failed_exit task \<and> (\<exists>logs. logs_of task = Inr logs \<and> logs \<noteq> []
    \<and> (\<forall>p \<in> set logs. ve_is_file ve p \<and> trusted_log (ve_view ve p)
         \<and> evaluate_vcs_log (ve_decode ve) (ve_view ve p) = Inr (''passed'', 0)))"
proof -
  obtain key custom' where key: "ver_evaluate_result ve task ctx = Inr (JObj [(''status'', JStr key), (''custom'', JObj custom')])"
    "status = shown_status ver_statuses key"
    using ver.verdict_recorded[OF assms(1-3), of ctx] assms(4) by auto
  from ver_answers[OF key(1)] have "key \<in> set VERDICTS" by auto
  then have "success_only_passed key" using all_success_passed unfolding list_all_iff by blast
  then have "key = ''passed''" using key(2) assms(5) by (simp add: success_only_passed_def)
  then obtain logs st n where logs: "logs_of task = Inr logs" "logs \<noteq> []" "list_all (ve_is_file ve) logs"
    "evaluate_vcs_logs (ve_decode ve) (map (ve_view ve) logs) = Inr (st, n)"
    "''passed'' = (if st = ''passed'' \<and> failed_exit task then ''crashed'' else st)"
    using ver_evaluate_cases[OF key(1)] by (auto simp: report_def)
  then have st: "st = ''passed''" "\<not> failed_exit task" by (auto split: if_splits)
  have "trusted_log (ve_view ve p) \<and> evaluate_vcs_log (ve_decode ve) (ve_view ve p) = Inr (''passed'', 0)" if "p \<in> set logs" for p
    using logs_passed[of "ve_decode ve" "map (ve_view ve) logs" n "ve_view ve p"] logs(4) st(1) that by auto
  with logs(1-3) st(2) show ?thesis by (auto simp: list_all_iff)
qed

section \<open>The tasks of a run\<close>

lemma created_keys:
  assumes "validate_task_create sh p = Inr d"
  shows "validate_names ''mutex_keys'' 32 (tp_mutex_keys p) = Inr (td_mutex_keys d)"
  using assms
  by (auto simp: validate_task_create_def Let_def validate_text_Inr bindR_Inr_iff split: sum.splits option.splits)

lemma validated_keys: "validate_names f m (map JStr ks) = Inr w \<Longrightarrow> w = map strip ks"
  by (auto simp: validate_names_def normalized_unique_def Let_def comp_def split: if_splits)

lemma set_fromkeys [simp]: "set (fromkeys xs) = set xs"
  by (simp add: fromkeys_def)

text \<open>The labels of a run before they are trimmed.\<close>

definition labels_of_run :: "ver_env \<Rightarrow> jdict \<Rightarrow> string \<Rightarrow> nat \<Rightarrow> string list result" where
  "labels_of_run ve vals case_name index =
     bindR (run_seed ve vals index) (\<lambda>seed. fst (run_labels (run_resolver case_name seed) vals case_name []))"

lemma fst_bindS_Inr: "fst (bindS f g s) = Inr b \<longleftrightarrow> (\<exists>a t. f s = (Inr a, t) \<and> fst (g a t) = Inr b)"
  by (auto simp: bindS_def split: prod.splits sum.splits)

lemma case_task_facts:
  assumes "case_task ve vals template working case_name index = Inr d"
  shows "td_name d = case_name \<and> map_of (td_custom d) ''_run'' = Some (JInt (int index + 1))
    \<and> (\<exists>labels. labels_of_run ve vals case_name index = Inr labels \<and> strip (queue_key ve case_name labels) \<in> set (td_mutex_keys d))"
proof -
  obtain seed where seed: "run_seed ve vals index = Inr seed"
    and run: "fst (run_task ve vals template working case_name index seed []) = Inr d"
    using assms by (auto simp: case_task_def bindR_Inr_iff)
  obtain labels t where labels: "run_labels (run_resolver case_name seed) vals case_name [] = (Inr labels, t)"
    and rest: "\<exists>keys p d0. validate_task_create (ve_sh ve) p = Inr d0 \<and> tp_name p = JStr case_name
      \<and> tp_mutex_keys p = map JStr (fromkeys (keys @ [queue_key ve case_name labels]))
      \<and> map_of (tp_custom p) ''_run'' = Some (JInt (int index + 1))
      \<and> d = d0\<lparr>td_deferred_values := td_deferred_values d\<rparr>"
    using run unfolding run_task_def Let_def fst_bindS_Inr liftS_def bindR_Inr_iff fst_conv
    by (elim exE conjE) (erule meta_mp | force)+
  then obtain keys p d0 where p: "validate_task_create (ve_sh ve) p = Inr d0" "tp_name p = JStr case_name"
    "tp_mutex_keys p = map JStr (fromkeys (keys @ [queue_key ve case_name labels]))"
    "map_of (tp_custom p) ''_run'' = Some (JInt (int index + 1))" "d = d0\<lparr>td_deferred_values := td_deferred_values d\<rparr>" by blast
  have d: "td_name d = td_name d0" "td_custom d = td_custom d0" "td_mutex_keys d = td_mutex_keys d0"
    by (subst p(5), simp)+
  have "td_mutex_keys d0 = map strip (fromkeys (keys @ [queue_key ve case_name labels]))"
    using created_keys[OF p(1)] validated_keys unfolding p(3) by blast
  then have "strip (queue_key ve case_name labels) \<in> set (td_mutex_keys d)" by (simp add: d)
  moreover have "labels_of_run ve vals case_name index = Inr labels" by (simp add: labels_of_run_def seed labels)
  moreover have "td_name d = case_name" "map_of (td_custom d) ''_run'' = Some (JInt (int index + 1))"
    using validate_task_create_Inr(1,3)[OF p(1)] p(2,4) d by simp_all
  ultimately show ?thesis by blast
qed

lemma case_tasks_facts:
  assumes "case_tasks ve vals template working available name = Inr ts"
  shows "\<exists>case_name n. name = JStr case_name \<and> case_name \<in> set available \<and> run_count ve vals case_name = Inr n
    \<and> map (\<lambda>d. (td_name d, map_of (td_custom d) ''_run'')) ts = map (\<lambda>i. (case_name, Some (JInt (int i + 1)))) [0..<n]"
proof -
  obtain case_name where name: "name = JStr case_name" using assms by (cases name) (auto simp: case_tasks_def)
  then obtain n where n: "case_name \<in> set available" "run_count ve vals case_name = Inr n"
    "mapR (case_task ve vals template working case_name) [0..<n] = Inr ts"
    using assms by (auto simp: case_tasks_def bindR_Inr_iff split: if_splits)
  have all: "list_all2 (\<lambda>i d. case_task ve vals template working case_name i = Inr d) [0..<n] ts"
    using n(3) by (simp add: mapR_Inr_list_all2)
  have "map (\<lambda>d. (td_name d, map_of (td_custom d) ''_run'')) ts = map (\<lambda>i. (case_name, Some (JInt (int i + 1)))) [0..<n]"
    using all case_task_facts by (intro nth_equalityI) (auto simp: list_all2_conv_all_nth)
  with name n show ?thesis by blast
qed

lemma all_case_tasks:
  assumes "mapR (case_tasks ve vals template working available) items = Inr tss"
  shows "\<exists>names counts. items = map JStr names \<and> set names \<subseteq> set available \<and> mapR (run_count ve vals) names = Inr counts
    \<and> map (\<lambda>d. (td_name d, map_of (td_custom d) ''_run'')) (concat tss)
      = concat (map2 (\<lambda>name n. map (\<lambda>i. (name, Some (JInt (int i + 1)))) [0..<n]) names counts)"
  using assms
proof (induction items arbitrary: tss)
  case (Cons name items)
  then obtain ts tss' where ts: "case_tasks ve vals template working available name = Inr ts"
    "mapR (case_tasks ve vals template working available) items = Inr tss'" "tss = ts # tss'"
    by (auto simp: bindR_Inr_iff)
  from Cons.IH[OF ts(2)] case_tasks_facts[OF ts(1)] obtain names counts case_name n where
    "items = map JStr names" "set names \<subseteq> set available" "mapR (run_count ve vals) names = Inr counts"
    "map (\<lambda>d. (td_name d, map_of (td_custom d) ''_run'')) (concat tss')
      = concat (map2 (\<lambda>name n. map (\<lambda>i. (name, Some (JInt (int i + 1)))) [0..<n]) names counts)"
    "name = JStr case_name" "case_name \<in> set available" "run_count ve vals case_name = Inr n"
    "map (\<lambda>d. (td_name d, map_of (td_custom d) ''_run'')) ts = map (\<lambda>i. (case_name, Some (JInt (int i + 1)))) [0..<n]"
    by blast
  with ts(3) show ?case by (intro exI[of _ "case_name # names"] exI[of _ "n # counts"]) simp
qed simp

text \<open>
  A run becomes exactly the tasks that were selected. When the plugin expands a run, every
  selected case is one it offers, and the tasks are, in the order of the selection, one for each
  repetition of each case, numbered from one; nothing is dropped and nothing is added.
\<close>

theorem run_expands_exactly:
  assumes "ver_expand ve vals ctx = Inr drafts"
  shows "\<exists>available names counts. available_cases ve vals ctx = Inr available
    \<and> py_iter (jget ''cases'' vals JNull) = Inr (map JStr names) \<and> names \<noteq> [] \<and> set names \<subseteq> set available
    \<and> mapR (run_count ve vals) names = Inr counts
    \<and> map (\<lambda>d. (td_name d, map_of (td_custom d) ''_run'')) drafts
      = concat (map2 (\<lambda>name n. map (\<lambda>i. (name, Some (JInt (int i + 1)))) [0..<n]) names counts)"
proof -
  obtain template working available items tss where x: "available_cases ve vals ctx = Inr available"
    "truthy (jget ''cases'' vals JNull)" "py_iter (jget ''cases'' vals JNull) = Inr items"
    "mapR (case_tasks ve vals template working available) items = Inr tss" "drafts = concat tss"
    using assms by (auto simp: ver_expand_def bindR_Inr_iff Let_def split: if_splits)
  have "items \<noteq> []" using x(2,3) by (cases "jget ''cases'' vals JNull") (auto simp: py_iter_def)
  with all_case_tasks[OF x(4)] x show ?thesis by auto
qed

text \<open>
  C29. Runs of the same case exclude each other. Two tasks the plugin makes for one case, in the
  same submission or in different ones, carry a common mutex key whenever their lists of labels, before trimming, agree;
  so the scheduler never lets them run at the same time.
\<close>

theorem same_case_runs_exclude:
  assumes "case_task ve vals template working case_name i = Inr d"
    and "case_task ve vals' template' working' case_name j = Inr d'"
    and "labels_of_run ve vals case_name i = labels_of_run ve vals' case_name j"
  shows "set (td_mutex_keys d) \<inter> set (td_mutex_keys d') \<noteq> {}"
  using case_task_facts[OF assms(1)] case_task_facts[OF assms(2)] assms(3) by auto

section \<open>A run of one case\<close>

definition ex_ve :: ver_env where
  "ex_ve = \<lparr>ve_realpath = id, ve_is_dir = (\<lambda>_. True), ve_is_file = (\<lambda>_. True), ve_iterdir = (\<lambda>_. []), ve_sh = ''/bin/sh'',
     ve_sha256 = (\<lambda>s. ''0''), ve_trunc = (\<lambda>r. Inr 0), ve_lax_int = (\<lambda>j. case j of JInt i \<Rightarrow> Some i | _ \<Rightarrow> None),
     ve_view = (\<lambda>p. ex_log ''done''), ve_decode = id\<rparr>"

definition ex_vals :: jdict where
  "ex_vals = [(''command'', JList [JStr ''make'']), (''working_directory'', JStr ''/w''), (''case_names'', JList [JStr ''a'']),
     (''cases'', JList [JStr ''a'']), (''runs'', JInt 2), (''labels'', JList [])]"

lemma ex_case_task:
  "map_option td_name (the_inr (case_task ex_ve ex_vals (JList [JStr ''make'']) (parse_path ''/w'') ''a'' 0)) = Some ''a''"
  "map_option td_name (the_inr (case_task ex_ve ex_vals (JList [JStr ''make'']) (parse_path ''/w'') ''a'' 1)) = Some ''a''"
  "labels_of_run ex_ve ex_vals ''a'' 0 = Inr []" "labels_of_run ex_ve ex_vals ''a'' 1 = Inr []"
  by code_simp+

lemma the_inr_Some: "map_option f (the_inr m) = Some y \<Longrightarrow> \<exists>x. m = Inr x \<and> f x = y"
  by (cases m) (auto simp: the_inr_def)

theorem same_case_runs_exclude_witness:
  "\<exists>d d'. case_task ex_ve ex_vals (JList [JStr ''make'']) (parse_path ''/w'') ''a'' 0 = Inr d
     \<and> case_task ex_ve ex_vals (JList [JStr ''make'']) (parse_path ''/w'') ''a'' 1 = Inr d'
     \<and> set (td_mutex_keys d) \<inter> set (td_mutex_keys d') \<noteq> {}"
proof -
  obtain d d' where "case_task ex_ve ex_vals (JList [JStr ''make'']) (parse_path ''/w'') ''a'' 0 = Inr d"
    "case_task ex_ve ex_vals (JList [JStr ''make'']) (parse_path ''/w'') ''a'' 1 = Inr d'"
    using the_inr_Some[OF ex_case_task(1)] the_inr_Some[OF ex_case_task(2)] by blast
  with same_case_runs_exclude[OF this] ex_case_task(3,4) show ?thesis by auto
qed

definition ex_context :: jdict where
  "ex_context = [(''root'', JStr ''/r'')]"

lemma ex_offers:
  "available_cases ex_ve ex_vals ex_context = Inr [''a'']" "run_count ex_ve ex_vals ''a'' = Inr 2"
  "ver_path (JStr ''/w'') ex_context = Inr (parse_path ''/w'')"
  by code_simp+

lemma ex_expanded_run: "\<exists>d d'. ver_expand ex_ve ex_vals ex_context = Inr [d, d']"
proof -
  obtain d d' where d: "case_task ex_ve ex_vals (JList [JStr ''make'']) (parse_path ''/w'') ''a'' 0 = Inr d"
    "case_task ex_ve ex_vals (JList [JStr ''make'']) (parse_path ''/w'') ''a'' 1 = Inr d'"
    using the_inr_Some[OF ex_case_task(1)] the_inr_Some[OF ex_case_task(2)] by blast
  have two: "[0..<2::nat] = [0, 1]" by (simp add: upt_rec)
  have v: "field_of ''command'' ex_vals = Inr (JList [JStr ''make''])" "jget ''working_directory'' ex_vals JNull = JStr ''/w''"
    "jget ''cases'' ex_vals JNull = JList [JStr ''a'']" by (simp_all add: field_of_def jget_def ex_vals_def)
  have "ve_realpath ex_ve (parse_path ''/w'') = parse_path ''/w''" by (simp add: ex_ve_def)
  then have "case_tasks ex_ve ex_vals (JList [JStr ''make'']) (ve_realpath ex_ve (parse_path ''/w'')) [''a''] (JStr ''a'') = Inr [d, d']"
    using d ex_offers(2) two by (simp add: case_tasks_def)
  then show ?thesis using ex_offers(1,3) v by (simp add: ver_expand_def py_iter_def)
qed

theorem run_expands_exactly_witness:
  "\<exists>drafts. ver_expand ex_ve ex_vals ex_context = Inr drafts \<and> length drafts = 2
     \<and> (\<exists>names. py_iter (jget ''cases'' ex_vals JNull) = Inr (map JStr names) \<and> set names \<subseteq> {''a''})"
proof -
  obtain d d' where d: "ver_expand ex_ve ex_vals ex_context = Inr [d, d']" using ex_expanded_run by blast
  with run_expands_exactly[OF d] ex_offers(1) show ?thesis by auto
qed

definition ver_loaded :: loaded_plugin where
  "ver_loaded = \<lparr>lp_name = ''verification'', lp_version = ''6'', lp_digest = ''d'', lp_generation = 1,
     lp_instance = verification ex_ve JNull JNull, lp_path = ''verification.py''\<rparr>"

definition ver_registry :: registry where
  "ver_registry = \<lparr>rg_generation = 1, rg_plugins = [(''verification'', ver_loaded)], rg_diagnostics = []\<rparr>"

definition ver_task :: task_row where
  "ver_task = \<lparr>r_id = ''t'', r_state = RUNNING, r_name = ''a'', r_working_directory = ''/w'', r_command = [''make''], r_labels = [],
     r_mutex_keys = [], r_custom = [(''_run_logs'', JList [JStr ''/w/run.log''])], r_template = Some ''verification'',
     r_plugin_snapshot = plugin_snapshot ''verification'' ver_loaded [], r_stop = None,
     r_created_at = ''0'', r_started_at = None, r_ended_at = None, r_exit_code = Some 0, r_pid = None, r_executor_ref = None,
     r_interrupt_stage = None, r_blocked_by = [], r_blocked_keys = [], r_log_size = 0, r_started_monotonic = None,
     r_elapsed_seconds = None, r_status = \<lparr>ts_key = ''simulating'', ts_label = ''s'', ts_tone = ''info'', ts_finished = False\<rparr>\<rparr>"

lemma ver_judged: "ver_evaluate_result ex_ve ver_task [] = Inr (report ''passed'' [(RUN_LOG, JList [JStr ''/w/run.log''])])"
proof -
  have "evaluate_vcs_log id (ex_log ''done'') = evaluate_vcs_chunks [''done'']"
  proof -
    have "lastn_bytes (length OUTPUT_LIMIT_MARKER) ''done'' \<noteq> OUTPUT_LIMIT_MARKER" by code_simp
    then show ?thesis by (cases "evaluate_vcs_chunks [''done'']")
      (simp_all add: evaluate_vcs_log_def ex_log_def output_integrity_def integrity_def jget_def Let_def read_blocks.simps)
  qed
  moreover have "evaluate_vcs_chunks [''done''] = Inr (''passed'', 0)" by code_simp
  ultimately have "evaluate_vcs_logs id [ex_log ''done''] = Inr (''passed'', 0)"
    by (simp add: evaluate_vcs_logs_def merge_status_def)
  moreover have "path_list (jget ''_compile_logs'' (r_custom ver_task) (JList [])) = Inr []" by code_simp
  moreover have "path_list (jget ''_run_logs'' (r_custom ver_task) (JList [])) = Inr [parse_path ''/w/run.log'']" by code_simp
  moreover have "runtime_details (r_custom ver_task) = []" "path_strings [parse_path ''/w/run.log''] = JList [JStr ''/w/run.log'']"
    "r_exit_code ver_task = Some 0" by code_simp+
  moreover have "ve_decode ex_ve = id" "ve_view ex_ve p = ex_log ''done''" "ve_is_file ex_ve p" for p by (simp_all add: ex_ve_def)
  ultimately show ?thesis by (simp add: ver_evaluate_result_def)
qed

theorem success_rests_on_every_log_witness:
  "\<exists>status custom. registry_evaluate_result ver_task [] ver_registry = Inr (Some (status, custom)) \<and> ts_tone status = ''success''
     \<and> trusted_log (ex_log ''done'')"
proof -
  have l: "map_of (rg_plugins ver_registry) ''verification'' = Some ver_loaded" "lp_instance ver_loaded = verification ex_ve JNull JNull"
    "r_plugin_snapshot ver_task = plugin_snapshot ''verification'' ver_loaded []"
    by (simp_all add: ver_registry_def ver_loaded_def ver_task_def)
  have r: "registry_evaluate_result ver_task [] ver_registry
      = Inr (Some (shown_status ver_statuses ''passed'', [(RUN_LOG, JList [JStr ''/w/run.log''])]))"
    using ver.verdict_recorded[OF l, of "[]"] ver_judged by (auto simp: report_def)
  have tone: "ts_tone (shown_status ver_statuses ''passed'') = ''success''" by code_simp
  have "logs_of ver_task = Inr [parse_path ''/w/run.log'']" by code_simp
  with success_rests_on_every_log[OF l r tone] have "trusted_log (ve_view ex_ve (parse_path ''/w/run.log''))" by auto
  with r tone show ?thesis by (simp add: ex_ve_def)
qed

end
