(* ===== verification/LF_Diagnostics.thy ===== *)
theory LF_Diagnostics
  imports LF_Plugins
begin

text \<open>
  The diagnosis of a configuration, \<^verbatim>\<open>src/src/localflow/config_diagnostics.py\<close>, with the fields
  every configuration shares (\<open>CommonConfigFields\<close> in \<^verbatim>\<open>models.py\<close>).

  Which documents the data model accepts is translated; the wording of its messages is the
  validation library's and a parameter.
\<close>

section \<open>Common fields\<close>

text \<open>What the surroundings provide: the stop strategies, the messages of the validation library, the configuration library.\<close>

record diag_env =
  de_stop :: "json \<Rightarrow> stop_strategy result"
  de_login_shell :: string
  de_common_errors :: "jdict \<Rightarrow> (string list \<times> string) list"
  de_model_errors :: "error \<Rightarrow> (string list \<times> string) list"
  de_lib :: "jdict \<Rightarrow> jdict result"

definition nullable :: "(json \<Rightarrow> bool) \<Rightarrow> string \<Rightarrow> jdict \<Rightarrow> bool" where
  "nullable ok key d = (case map_of d key of None \<Rightarrow> True | Some JNull \<Rightarrow> True | Some v \<Rightarrow> ok v)"

definition text_between :: "nat \<Rightarrow> nat option \<Rightarrow> json \<Rightarrow> bool" where
  "text_between lo hi j = (case j of JStr s \<Rightarrow> lo \<le> length s \<and> opt_ok (\<lambda>m. length s \<le> m) hi | _ \<Rightarrow> False)"

definition common_shell :: "json \<Rightarrow> bool" where
  "common_shell j = (case j of JStr s \<Rightarrow> 1 \<le> length s \<and> strip s \<noteq> [] \<and> NUL \<notin> set s | _ \<Rightarrow> False)"

definition common_source :: "json \<Rightarrow> bool" where
  "common_source j =
     (case string_list j of Some files \<Rightarrow> (case normalize_source_files (Some files) of Inr _ \<Rightarrow> True | Inl _ \<Rightarrow> False) | None \<Rightarrow> False)"

text \<open>\<open>info.data.get(key)\<close> of an earlier field: its value when it was given and accepted.\<close>

definition validated :: "(json \<Rightarrow> bool) \<Rightarrow> string \<Rightarrow> jdict \<Rightarrow> json option" where
  "validated ok key d = (case map_of d key of None \<Rightarrow> None | Some JNull \<Rightarrow> None | Some v \<Rightarrow> if ok v then Some v else None)"

definition common_command :: "string \<Rightarrow> jdict \<Rightarrow> json \<Rightarrow> bool" where
  "common_command login_shell d j =
     (let shell = (case validated common_shell ''shell'' d of Some (JStr s) \<Rightarrow> Some s | _ \<Rightarrow> None);
          accepted = (\<lambda>v. case normalize_command login_shell v shell of Inr _ \<Rightarrow> True | Inl _ \<Rightarrow> False)
      in case j of
           JStr s \<Rightarrow> accepted (CmdStr s)
         | JList items \<Rightarrow>
             (case string_list j of
                Some args \<Rightarrow> shell = None \<and> validated common_source ''source'' d = None \<and> accepted (CmdList args)
              | None \<Rightarrow> False)
         | _ \<Rightarrow> False)"

definition common_names :: "nat \<Rightarrow> json \<Rightarrow> bool" where
  "common_names max_items j =
     (case string_list j of
        Some items \<Rightarrow> length items \<le> max_items \<and> (case normalized_unique items of Inr _ \<Rightarrow> True | Inl _ \<Rightarrow> False)
      | None \<Rightarrow> False)"

definition is_object :: "json \<Rightarrow> bool" where
  "is_object j = (case j of JObj _ \<Rightarrow> True | _ \<Rightarrow> False)"

definition common_checks :: "diag_env \<Rightarrow> jdict \<Rightarrow> (string \<times> bool) list" where
  "common_checks de d =
     [(''plugin'', nullable (text_between 1 None) ''plugin'' d),
      (''name'', nullable (text_between 1 (Some 200)) ''name'' d),
      (''working_directory'', nullable (text_between 1 None) ''working_directory'' d),
      (''shell'', nullable common_shell ''shell'' d),
      (''source'', nullable common_source ''source'' d),
      (''command'', nullable (common_command (de_login_shell de) d) ''command'' d),
      (''labels'', nullable (common_names 64) ''labels'' d),
      (''mutex_keys'', nullable (common_names 32) ''mutex_keys'' d),
      (''custom'', nullable is_object ''custom'' d),
      (''stop'', nullable (\<lambda>j. case de_stop de j of Inr _ \<Rightarrow> True | Inl _ \<Rightarrow> False) ''stop'' d),
      (''variables'', nullable is_object ''variables'' d),
      (''project'', nullable (text_between 1 None) ''project'' d)]"

definition common_valid :: "diag_env \<Rightarrow> jdict \<Rightarrow> bool" where
  "common_valid de d = list_all snd (common_checks de d)"

section \<open>Diagnosis\<close>

record diagnosis =
  dg_kind :: string
  dg_valid :: bool
  dg_runnable :: bool
  dg_plugin :: "string option"
  dg_common_fields :: "string list"
  dg_errors :: "string list"
  dg_warnings :: "string list"

definition strip_dots :: "string \<Rightarrow> string" where
  "strip_dots s = rev (dropWhile (\<lambda>c. c = CHR ''.'') (rev s))"

definition validation_errors :: "(string list \<times> string) list \<Rightarrow> string \<Rightarrow> string list" where
  "validation_errors items prefix =
     map (\<lambda>(loc, msg).
       let location = join ''.'' loc;
           label = (if location \<noteq> [] then prefix @ location else strip_dots prefix)
       in if label \<noteq> [] then label @ '': '' @ msg else msg) items"

definition common_messages :: "diag_env \<Rightarrow> jdict \<Rightarrow> string list" where
  "common_messages de d = (if common_valid de d then [] else validation_errors (de_common_errors de d) [])"

definition caught :: "error \<Rightarrow> bool" where
  "caught err = (case err of KeyError _ \<Rightarrow> True | TypeError _ \<Rightarrow> True | ValueError _ \<Rightarrow> True | VariableError _ \<Rightarrow> True
     | ValidationError _ \<Rightarrow> True | _ \<Rightarrow> False)"

definition failed_root :: diagnosis where
  "failed_root = \<lparr>dg_kind = ''generic'', dg_valid = False, dg_runnable = False, dg_plugin = None, dg_common_fields = [],
     dg_errors = [''configuration root must be an object''], dg_warnings = []\<rparr>"

definition add_new :: "string list \<Rightarrow> string list \<Rightarrow> string list" where
  "add_new msgs errs = foldl (\<lambda>errs m. if m \<in> set errs then errs else errs @ [m]) errs msgs"

text \<open>The variables are resolved; when that fails, the document as written is checked on.\<close>

definition resolve_errors :: "diag_env \<Rightarrow> registry \<Rightarrow> jdict \<Rightarrow> string list \<Rightarrow> (jdict \<times> string list) result" where
  "resolve_errors de reg d errs =
     (case resolve_config_document (de_lib de) (JObj d) reg of
        Inl err \<Rightarrow> if caught err then Inr (d, errs @ [''variables: '' @ error_text err]) else Inl err
      | Inr r \<Rightarrow> Inr (object_of r, add_new (common_messages de (object_of r)) errs))"

definition missing_required :: "string \<Rightarrow> plugin_instance \<Rightarrow> jdict \<Rightarrow> string list" where
  "missing_required name inst d =
     map (\<lambda>field. field @ '': field required by plugin '' @ name)
       (filter (\<lambda>field. jget field d JNull = JNull)
         (sort (remdups (case string_set (attr (in_required_common_fields inst) (PySet [])) of Some names \<Rightarrow> names | None \<Rightarrow> []))))"

definition model_errors :: "diag_env \<Rightarrow> string \<Rightarrow> plugin_instance \<Rightarrow> jdict \<Rightarrow> (string list \<times> string list) result" where
  "model_errors de name inst d =
     (case in_config_model inst of
        Some (Model m) \<Rightarrow>
          (case pm_validate m (filter (\<lambda>(k, v). k \<in> set (pm_fields m)) d) of
             Inr _ \<Rightarrow> Inr ([], [])
           | Inl err \<Rightarrow>
               (case err of
                  ValidationError _ \<Rightarrow> Inr (validation_errors (de_model_errors de err) ''plugin.'', [])
                | ValueError _ \<Rightarrow> Inr (validation_errors (de_model_errors de err) ''plugin.'', [])
                | _ \<Rightarrow> Inl err))
      | _ \<Rightarrow> Inr ([], [''plugin '' @ name @ '' does not declare a plugin-field schema'']))"

definition plugin_errors :: "plugin_instance \<Rightarrow> jdict \<Rightarrow> string list result" where
  "plugin_errors inst d =
     (case in_validate_config inst of
        None \<Rightarrow> Inr []
      | Some f \<Rightarrow>
          (case bindR (f d) (\<lambda>r. case string_list r of Some msgs \<Rightarrow> Inr msgs
                              | None \<Rightarrow> Inl (TypeError ''validate_config must return a list of strings'')) of
             Inr msgs \<Rightarrow> Inr msgs
           | Inl err \<Rightarrow>
               if caught err \<and> error_class err \<noteq> ''KeyError''
               then Inr [''plugin: configuration validation failed: '' @ error_text err] else Inl err))"

definition diagnose_plugin ::
    "diag_env \<Rightarrow> registry \<Rightarrow> jdict \<Rightarrow> string \<Rightarrow> loaded_plugin \<Rightarrow> string list \<Rightarrow> (string list \<times> string list) result" where
  "diagnose_plugin de reg d name loaded errs =
     bindR (resolve_errors de reg d errs) (\<lambda>(checked, errs).
     bindR (model_errors de name (lp_instance loaded) checked) (\<lambda>(merrs, warnings).
     bindR (plugin_errors (lp_instance loaded) d) (\<lambda>perrs.
       Inr (errs @ missing_required name (lp_instance loaded) checked @ merrs @ perrs, warnings))))"

definition diagnose_task :: "diag_env \<Rightarrow> registry \<Rightarrow> jdict \<Rightarrow> string list \<Rightarrow> string \<Rightarrow> diagnosis result" where
  "diagnose_task de reg d present name =
     (let errs = common_messages de d
      in bindR (case map_of (rg_plugins reg) name of
                  None \<Rightarrow> Inr (errs @ [''plugin: plugin is not loaded: '' @ name], [])
                | Some loaded \<Rightarrow> diagnose_plugin de reg d name loaded errs) (\<lambda>(errs, warnings).
         Inr \<lparr>dg_kind = ''task'', dg_valid = (errs = []),
              dg_runnable = (map_of (rg_plugins reg) name \<noteq> None \<and> errs = []),
              dg_plugin = Some name, dg_common_fields = present, dg_errors = errs, dg_warnings = warnings\<rparr>))"

definition diagnose_config :: "diag_env \<Rightarrow> registry \<Rightarrow> json \<Rightarrow> diagnosis result" where
  "diagnose_config de reg document =
     (case document of
        JObj d \<Rightarrow>
          (let present = sort (filter (\<lambda>k. dict_has k d) COMMON_CONFIG_FIELDS);
               errs = common_messages de d
           in if present = []
              then Inr (failed_root\<lparr>dg_errors := [''plugin: field required for runnable configuration'']\<rparr>)
              else case map_of d ''plugin'' of
                None \<Rightarrow>
                  Inr (failed_root\<lparr>dg_kind := ''fragment'', dg_common_fields := present,
                       dg_errors := errs @ [''plugin: field required for runnable configuration'']\<rparr>)
              | Some j \<Rightarrow>
                  (case j of
                     JStr (c # name) \<Rightarrow> diagnose_task de reg d present (c # name)
                   | _ \<Rightarrow> Inr (failed_root\<lparr>dg_kind := ''task'', dg_common_fields := present,
                            dg_errors := (if errs = [] then [''plugin: must be a non-empty string''] else errs)\<rparr>)))
      | _ \<Rightarrow> Inr failed_root)"

text \<open>The diagnosis of a document that could not be parsed: the position the parser gave, or the first line.\<close>

datatype parse_mark = Mark int int | Line_number int "int option" | In_text "(int \<times> int) option"

record issue =
  is_message :: string
  is_line :: int
  is_column :: int
  is_end_line :: int
  is_end_column :: int

definition syntax_error_diagnosis :: "string \<Rightarrow> parse_mark \<Rightarrow> diagnosis \<times> issue" where
  "syntax_error_diagnosis detail mark =
     (let message = ''syntax or import error: '' @ detail;
          (line, column) = (case mark of
             Mark l c \<Rightarrow> (l + 1, c + 1)
           | Line_number l c \<Rightarrow> (l, case c of Some v \<Rightarrow> v | None \<Rightarrow> 1)
           | In_text found \<Rightarrow> (case found of Some lc \<Rightarrow> lc | None \<Rightarrow> (1, 1)))
      in (failed_root\<lparr>dg_errors := [message]\<rparr>,
          \<lparr>is_message = message, is_line = line, is_column = column, is_end_line = line, is_end_column = column + 1\<rparr>))"

end
