(* ===== verification/LF_Diagnostics_Facts.thy ===== *)
theory LF_Diagnostics_Facts
  imports LF_Diagnostics LF_Plugins_Facts
begin

text \<open>
  When a configuration is called runnable, and what that promises for the run: the registry finds
  values for it, except where the variables are given as null.
\<close>

section \<open>Messages\<close>

text \<open>What the diagnosis relies on: a rejected document is reported with at least one message.\<close>

definition reports_rejections :: "diag_env \<Rightarrow> bool" where
  "reports_rejections de \<longleftrightarrow> (\<forall>d. \<not> common_valid de d \<longrightarrow> de_common_errors de d \<noteq> []) \<and> (\<forall>err. de_model_errors de err \<noteq> [])"

lemma common_messages_empty: "reports_rejections de \<Longrightarrow> common_messages de d = [] \<longleftrightarrow> common_valid de d"
  by (auto simp: common_messages_def reports_rejections_def validation_errors_def)

lemma add_new_nonempty: "errs \<noteq> [] \<Longrightarrow> add_new msgs errs \<noteq> []"
  unfolding add_new_def by (induction msgs arbitrary: errs) auto

lemma add_new_empty: "add_new msgs errs = [] \<longleftrightarrow> msgs = [] \<and> errs = []"
proof (cases "errs = []")
  case True
  show ?thesis
  proof (cases msgs)
    case (Cons m ms)
    then have "add_new msgs errs = add_new ms [m]" using True by (simp add: add_new_def)
    with Cons add_new_nonempty[of "[m]" ms] show ?thesis by simp
  qed (simp add: add_new_def)
qed (simp add: add_new_nonempty)

lemma document_resolved:
  assumes "map_of d ''plugin'' = Some (JStr name)" and "map_of (rg_plugins reg) name = Some loaded"
  shows "resolve_config_document lib (JObj d) reg
    = bindR (resolve_config_tree lib d (deferred_of (lp_instance loaded)) []) (\<lambda>r. Inr (JObj r))"
  using assms by (simp add: resolve_config_document_def)

definition required_fields :: "plugin_instance \<Rightarrow> string list" where
  "required_fields inst = (case string_set (attr (in_required_common_fields inst) (PySet [])) of Some names \<Rightarrow> names | None \<Rightarrow> [])"

lemma missing_required_empty: "missing_required name inst d = [] \<longleftrightarrow> (\<forall>f \<in> set (required_fields inst). jget f d JNull \<noteq> JNull)"
  by (auto simp: missing_required_def required_fields_def filter_empty_conv)

definition model_accepts :: "plugin_instance \<Rightarrow> jdict \<Rightarrow> bool" where
  "model_accepts inst d = (case in_config_model inst of
     Some (Model m) \<Rightarrow> (case pm_validate m (filter (\<lambda>(k, v). k \<in> set (pm_fields m)) d) of Inr _ \<Rightarrow> True | Inl _ \<Rightarrow> False)
   | _ \<Rightarrow> True)"

lemma model_errors_empty:
  assumes "reports_rejections de" and "model_errors de name inst d = Inr (errs, warnings)"
  shows "errs = [] \<longleftrightarrow> model_accepts inst d"
proof -
  have "validation_errors (de_model_errors de err) p \<noteq> []" for err p
    using assms(1) by (simp add: reports_rejections_def validation_errors_def)
  then show ?thesis
    using assms(2) by (auto simp: model_errors_def model_accepts_def split: option.splits model_attr.splits sum.splits error.splits)
qed

section \<open>Runnable configurations\<close>

text \<open>All that a diagnosis asks of a configuration.\<close>

definition runs :: "diag_env \<Rightarrow> registry \<Rightarrow> jdict \<Rightarrow> string \<Rightarrow> loaded_plugin \<Rightarrow> jdict \<Rightarrow> bool" where
  "runs de reg d name loaded resolved \<longleftrightarrow>
     name \<noteq> [] \<and> map_of d ''plugin'' = Some (JStr name) \<and> map_of (rg_plugins reg) name = Some loaded
     \<and> common_valid de d \<and> resolve_config_tree (de_lib de) d (deferred_of (lp_instance loaded)) [] = Inr resolved
     \<and> common_valid de resolved \<and> (\<forall>f \<in> set (required_fields (lp_instance loaded)). jget f resolved JNull \<noteq> JNull)
     \<and> model_accepts (lp_instance loaded) resolved \<and> plugin_errors (lp_instance loaded) d = Inr []"

lemma diagnose_plugin_clean:
  assumes "reports_rejections de" and "map_of d ''plugin'' = Some (JStr name)" and "map_of (rg_plugins reg) name = Some loaded"
    and "name \<noteq> []" and "diagnose_plugin de reg d name loaded (common_messages de d) = Inr (errs, warnings)"
  shows "errs = [] \<longleftrightarrow> (\<exists>resolved. runs de reg d name loaded resolved)"
proof -
  let ?inst = "lp_instance loaded"
  obtain checked errs1 merrs perrs where
    r: "resolve_errors de reg d (common_messages de d) = Inr (checked, errs1)"
    and m: "model_errors de name ?inst checked = Inr (merrs, warnings)" and p: "plugin_errors ?inst d = Inr perrs"
    and errs: "errs = errs1 @ missing_required name ?inst checked @ merrs @ perrs"
    using assms(5) by (auto simp: diagnose_plugin_def bindR_Inr_iff)
  note doc = document_resolved[OF assms(2,3), of "de_lib de"]
  show ?thesis
  proof (cases "resolve_config_tree (de_lib de) d (deferred_of ?inst) []")
    case (Inl err)
    then have "errs1 \<noteq> []" using r doc by (auto simp: resolve_errors_def split: if_splits)
    with errs Inl show ?thesis by (simp add: runs_def)
  next
    case (Inr resolved)
    then have "checked = resolved" "errs1 = add_new (common_messages de resolved) (common_messages de d)"
      using r doc by (auto simp: resolve_errors_def object_of_def)
    with errs p m Inr assms(2-4) show ?thesis
      using model_errors_empty[OF assms(1) m]
      by (auto simp: runs_def add_new_empty common_messages_empty[OF assms(1)] missing_required_empty)
  qed
qed

lemma diagnosis_exact_aux:
  assumes "reports_rejections de" and "diagnose_config de reg document = Inr dg"
  shows "dg_runnable dg \<longleftrightarrow> (\<exists>d name loaded resolved. document = JObj d \<and> runs de reg d name loaded resolved)"
proof (cases "\<exists>d c name. document = JObj d \<and> map_of d ''plugin'' = Some (JStr (c # name))")
  case True
  then obtain d c name where doc: "document = JObj d" "map_of d ''plugin'' = Some (JStr (c # name))" by blast
  have "filter (\<lambda>k. dict_has k d) COMMON_CONFIG_FIELDS \<noteq> []"
  proof -
    have "''plugin'' \<in> fst ` set d" using doc(2) map_of_SomeD by force
    then show ?thesis by (auto simp: filter_empty_conv COMMON_CONFIG_FIELDS_def dict_has_def)
  qed
  then have "sort (filter (\<lambda>k. dict_has k d) COMMON_CONFIG_FIELDS) \<noteq> []" by (metis length_sort length_0_conv)
  then obtain present where task: "diagnose_task de reg d present (c # name) = Inr dg"
    using assms(2) doc by (auto simp: diagnose_config_def Let_def split: if_splits)
  show ?thesis
  proof (cases "map_of (rg_plugins reg) (c # name)")
    case None
    then show ?thesis using task doc by (auto simp: diagnose_task_def runs_def)
  next
    case (Some loaded)
    then obtain errs warnings where "diagnose_plugin de reg d (c # name) loaded (common_messages de d) = Inr (errs, warnings)"
      "dg_runnable dg \<longleftrightarrow> errs = []"
      using task by (auto simp: diagnose_task_def bindR_Inr_iff)
    with diagnose_plugin_clean[OF assms(1) doc(2) Some, of errs warnings] doc Some show ?thesis
      by (auto simp: runs_def)
  qed
next
  case False
  then have "\<not> dg_runnable dg"
    using assms(2) by (auto simp: diagnose_config_def failed_root_def Let_def split: json.splits if_splits option.splits list.splits)
  with False show ?thesis by (auto simp: runs_def neq_Nil_conv)
qed

text \<open>
  C30. The diagnosis is exact. A configuration is called runnable exactly when it is an object
  that names a loaded plugin, its common fields are accepted before and after its variables are
  resolved, the resolved document has every field the plugin requires and is accepted by the
  plugin's model, and the plugin's own check of the document as written has no complaint.
\<close>

theorem diagnosis_exact:
  assumes "reports_rejections de" and "diagnose_config de reg document = Inr dg"
  shows "dg_runnable dg \<longleftrightarrow> (\<exists>d name loaded resolved. document = JObj d \<and> runs de reg d name loaded resolved)"
  by (rule diagnosis_exact_aux[OF assms])

lemma runs_values:
  assumes "runs de reg d name loaded resolved"
  shows "(\<exists>vals. config_values (de_lib de) d overrides reg = Inr vals) \<longleftrightarrow> map_of d ''variables'' \<noteq> Some JNull"
proof -
  have "nullable is_object ''variables'' d" using assms by (simp add: runs_def common_valid_def common_checks_def)
  then have v: "map_of d ''variables'' = None \<or> map_of d ''variables'' = Some JNull \<or> (\<exists>e. map_of d ''variables'' = Some (JObj e))"
    by (auto simp: nullable_def is_object_def split: option.splits json.splits)
  have "get_plugin name reg = Inr loaded" using assms by (simp add: runs_def get_plugin_def)
  with assms v show ?thesis by (auto simp: config_values_def runs_def jget_def)
qed

text \<open>
  C31. A runnable configuration can be given its values. For a configuration the diagnosis calls
  runnable, the registry computes the values of a run, whatever inputs are given, except exactly
  where the document sets its variables to null, which the diagnosis accepts and the run refuses.
\<close>

theorem runnable_has_values:
  assumes "reports_rejections de" and "diagnose_config de reg (JObj d) = Inr dg" and "dg_runnable dg"
  shows "(\<exists>vals. config_values (de_lib de) d overrides reg = Inr vals) \<longleftrightarrow> map_of d ''variables'' \<noteq> Some JNull"
proof -
  obtain name loaded resolved where "runs de reg d name loaded resolved"
    using diagnosis_exact_aux[OF assms(1,2)] assms(3) by blast
  then show ?thesis by (rule runs_values)
qed

section \<open>Instances\<close>

definition ex_de :: diag_env where
  "ex_de = \<lparr>de_stop = (\<lambda>j. Inl (ValueError ''stop'')), de_login_shell = ''/bin/sh'',
     de_common_errors = (\<lambda>d. [([''field''], ''invalid'')]), de_model_errors = (\<lambda>err. [([], ''invalid'')]), de_lib = Inr\<rparr>"

lemma ex_de_reports: "reports_rejections ex_de"
  by (simp add: reports_rejections_def ex_de_def)

definition ex_null_variables :: jdict where
  "ex_null_variables = [(''plugin'', JStr ''cmd''), (''variables'', JNull)]"

lemma ex_diagnosed:
  "map_option dg_runnable (the_inr (diagnose_config ex_de
     \<lparr>rg_generation = 1, rg_plugins = [(''cmd'', ex_loaded)], rg_diagnostics = []\<rparr> (JObj ex_document))) = Some True"
  "map_option dg_runnable (the_inr (diagnose_config ex_de
     \<lparr>rg_generation = 1, rg_plugins = [(''cmd'', ex_loaded)], rg_diagnostics = []\<rparr> (JObj ex_null_variables))) = Some True"
  by code_simp+

theorem diagnosis_exact_witness:
  "\<exists>dg name loaded resolved. diagnose_config ex_de ex_registry (JObj ex_document) = Inr dg \<and> dg_runnable dg
     \<and> runs ex_de ex_registry ex_document name loaded resolved"
proof -
  obtain dg where dg: "diagnose_config ex_de ex_registry (JObj ex_document) = Inr dg" "dg_runnable dg"
    using ex_diagnosed(1) unfolding ex_registry_eq by (auto simp: the_inr_def split: sum.splits)
  with diagnosis_exact[OF ex_de_reports dg(1)] show ?thesis by blast
qed

text \<open>The configuration with null variables is called runnable, and no inputs let it run.\<close>

theorem runnable_has_values_witness:
  "(\<exists>dg. diagnose_config ex_de ex_registry (JObj ex_null_variables) = Inr dg \<and> dg_runnable dg)
     \<and> (\<nexists>vals. config_values Inr ex_null_variables [] ex_registry = Inr vals)
     \<and> (\<exists>vals. config_values Inr ex_document [] ex_registry = Inr vals)"
proof -
  obtain dg dg' where dg: "diagnose_config ex_de ex_registry (JObj ex_null_variables) = Inr dg" "dg_runnable dg"
    "diagnose_config ex_de ex_registry (JObj ex_document) = Inr dg'" "dg_runnable dg'"
    using ex_diagnosed unfolding ex_registry_eq by (auto simp: the_inr_def split: sum.splits)
  have lib: "de_lib ex_de = Inr" by (simp add: ex_de_def)
  have "map_of ex_null_variables ''variables'' = Some JNull" "map_of ex_document ''variables'' \<noteq> Some JNull"
    by (simp_all add: ex_null_variables_def ex_document_def)
  with runnable_has_values[OF ex_de_reports dg(1,2), of "[]"] runnable_has_values[OF ex_de_reports dg(3,4), of "[]"] dg(1,2)
  show ?thesis unfolding lib by blast
qed

end
