(* ===== verification/LF_Base64.thy ===== *)
theory LF_Base64
  imports LF_Prelude
begin

text \<open>
  The page cursor of the task list, \<open>_encode_cursor\<close> and \<open>_decode_cursor\<close> in
  \<^verbatim>\<open>src/src/localflow/api.py\<close>, with Python's base64 codec: encoding in groups of three bytes, and
  the decoder of \<open>binascii\<close> as it runs, one character at a time, ignoring what is outside the
  alphabet. Bytes are characters. The JSON codec is a parameter.
\<close>

section \<open>The alphabet\<close>

text \<open>The 64 characters A-Z, a-z, 0-9, plus and slash, and back.\<close>

definition b64_char :: "nat \<Rightarrow> char" where
  "b64_char n =
     (if n < 26 then char_of (n + 65)
      else if n < 52 then char_of (n + 71)
      else if n < 62 then char_of (n - 4)
      else if n = 62 then CHR ''+'' else CHR ''/'')"

definition b64_value :: "char \<Rightarrow> nat option" where
  "b64_value c =
     (let n = of_char c :: nat
      in if 65 \<le> n \<and> n \<le> 90 then Some (n - 65)
         else if 97 \<le> n \<and> n \<le> 122 then Some (n - 71)
         else if 48 \<le> n \<and> n \<le> 57 then Some (n + 4)
         else if n = 43 then Some 62
         else if n = 47 then Some 63
         else None)"

abbreviation PAD :: char where
  "PAD \<equiv> CHR ''=''"

lemma b64_alphabet:
  assumes "n < 64"
  shows "b64_value (b64_char n) = Some n" and "b64_char n \<noteq> PAD" and "b64_char n \<noteq> CHR ''-''" and "b64_char n \<noteq> CHR ''_''"
    and "(of_char (b64_char n) :: nat) < 128"
proof -
  have val: "b64_value (b64_char n) = Some n"
    using assms by (auto simp: b64_char_def b64_value_def Let_def)
  then show "b64_value (b64_char n) = Some n" .
  have "b64_value PAD = None" "b64_value (CHR ''-'') = None" "b64_value (CHR ''_'') = None"
    by (simp_all add: b64_value_def)
  with val show "b64_char n \<noteq> PAD" "b64_char n \<noteq> CHR ''-''" "b64_char n \<noteq> CHR ''_''" by fastforce+
  show "(of_char (b64_char n) :: nat) < 128" using assms by (auto simp: b64_char_def)
qed

section \<open>Encoding\<close>

fun b64encode :: "string \<Rightarrow> string" where
  "b64encode [] = []"
| "b64encode [x] = (let a = of_char x :: nat in [b64_char (a div 4), b64_char (a mod 4 * 16), PAD, PAD])"
| "b64encode [x, y] =
     (let a = of_char x :: nat; b = of_char y
      in [b64_char (a div 4), b64_char (a mod 4 * 16 + b div 16), b64_char (b mod 16 * 4), PAD])"
| "b64encode (x # y # z # s) =
     (let a = of_char x :: nat; b = of_char y; c = of_char z
      in [b64_char (a div 4), b64_char (a mod 4 * 16 + b div 16), b64_char (b mod 16 * 4 + c div 64), b64_char (c mod 64)]
         @ b64encode s)"

definition urlsafe_b64encode :: "string \<Rightarrow> string" where
  "urlsafe_b64encode s =
     map (\<lambda>c. if c = CHR ''+'' then CHR ''-'' else if c = CHR ''/'' then CHR ''_'' else c) (b64encode s)"

section \<open>Decoding\<close>

text \<open>
  \<open>a2b_base64\<close> in its lenient mode: the position in the group of four, the bits left over, and the
  number of padding characters seen since the last one of the alphabet.
\<close>

fun a2b_base64 :: "nat \<Rightarrow> nat \<Rightarrow> nat \<Rightarrow> string \<Rightarrow> string result" where
  "a2b_base64 quad_pos leftover pads [] =
     (if quad_pos = 0 then Inr [] else Inl (ValueError ''Incorrect padding''))"
| "a2b_base64 quad_pos leftover pads (c # s) =
     (if c = PAD then
        if 2 \<le> quad_pos then
          if 4 \<le> quad_pos + Suc pads then Inr [] else a2b_base64 quad_pos leftover (Suc pads) s
        else a2b_base64 quad_pos leftover pads s
      else case b64_value c of
        None \<Rightarrow> a2b_base64 quad_pos leftover pads s
      | Some v \<Rightarrow>
          if quad_pos = 0 then a2b_base64 1 v 0 s
          else if quad_pos = 1 then bindR (a2b_base64 2 (v mod 16) 0 s) (\<lambda>out. Inr (char_of (leftover * 4 + v div 16) # out))
          else if quad_pos = 2 then bindR (a2b_base64 3 (v mod 4) 0 s) (\<lambda>out. Inr (char_of (leftover * 16 + v div 4) # out))
          else bindR (a2b_base64 0 0 0 s) (\<lambda>out. Inr (char_of (leftover * 64 + v) # out)))"

definition urlsafe_b64decode :: "string \<Rightarrow> string result" where
  "urlsafe_b64decode s =
     (if list_all (\<lambda>c. (of_char c :: nat) < 128) s
      then a2b_base64 0 0 0 (map (\<lambda>c. if c = CHR ''-'' then CHR ''+'' else if c = CHR ''_'' then CHR ''/'' else c) s)
      else Inl (ValueError ''string argument should contain only ASCII characters''))"

lemma char_of_of_char_nat [simp]: "char_of (of_char c :: nat) = c"
  by simp

lemma byte_bound: "(of_char c :: nat) < 256"
  by (metis char_of_eq_iff of_char_of mod_less_divisor zero_less_numeral char_of_of_char_nat)

lemma group_bounds:
  fixes a b c :: nat
  assumes "a < 256" and "b < 256" and "c < 256"
  shows "a div 4 < 64" and "a mod 4 * 16 < 64" and "a mod 4 * 16 + b div 16 < 64" and "b mod 16 * 4 < 64"
    and "b mod 16 * 4 + c div 64 < 64" and "c mod 64 < 64"
proof -
  have "b div 16 < 16" "c div 64 < 4" "a mod 4 < 4" "b mod 16 < 16"
    using assms by (simp_all add: less_mult_imp_div_less)
  then show "a mod 4 * 16 < 64" "a mod 4 * 16 + b div 16 < 64" "b mod 16 * 4 < 64" "b mod 16 * 4 + c div 64 < 64"
    by linarith+
  show "a div 4 < 64" "c mod 64 < 64" using assms by (simp_all add: less_mult_imp_div_less)
qed

lemma byte_parts: "(of_char c :: nat) div 16 < 16" "(of_char c :: nat) div 64 < 4"
  using byte_bound[of c] by (simp_all add: less_mult_imp_div_less)

theorem b64_round_trip: "a2b_base64 0 0 0 (b64encode s) = Inr s"
proof (induction s rule: b64encode.induct)
  case (2 x)
  note bounds = group_bounds[of "of_char x" "of_char x" "of_char x", OF byte_bound byte_bound byte_bound]
  show ?case by (simp add: Let_def b64_alphabet[OF bounds(1)] b64_alphabet[OF bounds(2)] byte_parts)
next
  case (3 x y)
  note bounds = group_bounds[of "of_char x" "of_char y" "of_char y", OF byte_bound byte_bound byte_bound]
  show ?case
    by (simp add: Let_def b64_alphabet[OF bounds(1)] b64_alphabet[OF bounds(3)] b64_alphabet[OF bounds(4)] byte_parts)
next
  case (4 x y z s)
  note bounds = group_bounds[of "of_char x" "of_char y" "of_char z", OF byte_bound byte_bound byte_bound]
  show ?case
    by (simp add: Let_def b64_alphabet[OF bounds(1)] b64_alphabet[OF bounds(3)] b64_alphabet[OF bounds(5)]
        b64_alphabet[OF bounds(6)] byte_parts 4)
qed simp

section \<open>Without padding\<close>

text \<open>\<open>rstrip("=")\<close>, and the padding put back before decoding.\<close>

definition rstrip_pad :: "string \<Rightarrow> string" where
  "rstrip_pad s = rev (dropWhile (\<lambda>c. c = PAD) (rev s))"

definition padded :: "string \<Rightarrow> string" where
  "padded s = s @ replicate (nat ((- int (length s)) mod 4)) PAD"

text \<open>An encoded text is characters of the alphabet, in number not one above a multiple of four, and its padding.\<close>

definition b64_letter :: "char \<Rightarrow> bool" where
  "b64_letter c \<longleftrightarrow> b64_value c \<noteq> None \<and> c \<noteq> PAD \<and> (of_char c :: nat) < 128"

lemma b64_letter_char: "n < 64 \<Longrightarrow> b64_letter (b64_char n)"
  by (simp add: b64_letter_def b64_alphabet)

lemma b64encode_shape:
  "\<exists>cs k. b64encode s = cs @ replicate k PAD \<and> list_all b64_letter cs
     \<and> k \<le> 2 \<and> (length cs + k) mod 4 = 0"
proof (induction s rule: b64encode.induct)
  case 1
  show ?case by (intro exI[of _ "[]"] exI[of _ "0 :: nat"]) simp
next
  case (2 x)
  note bounds = group_bounds[of "of_char x" "of_char x" "of_char x", OF byte_bound byte_bound byte_bound]
  let ?cs = "[b64_char (of_char x div 4), b64_char (of_char x mod 4 * 16)]"
  show ?case
    by (intro exI[of _ ?cs] exI[of _ "2 :: nat"])
      (simp add: Let_def b64_letter_char bounds numeral_2_eq_2)
next
  case (3 x y)
  note bounds = group_bounds[of "of_char x" "of_char y" "of_char y", OF byte_bound byte_bound byte_bound]
  let ?cs = "[b64_char (of_char x div 4), b64_char (of_char x mod 4 * 16 + of_char y div 16), b64_char (of_char y mod 16 * 4)]"
  show ?case
    by (intro exI[of _ ?cs] exI[of _ "1 :: nat"])
      (simp add: Let_def b64_letter_char bounds)
next
  case (4 x y z s)
  note bounds = group_bounds[of "of_char x" "of_char y" "of_char z", OF byte_bound byte_bound byte_bound]
  obtain cs k where cs: "b64encode s = cs @ replicate k PAD"
    "list_all b64_letter cs" "k \<le> 2" "(length cs + k) mod 4 = 0"
    using 4[OF refl refl refl] by (elim exE conjE)
  let ?cs = "[b64_char (of_char x div 4), b64_char (of_char x mod 4 * 16 + of_char y div 16),
      b64_char (of_char y mod 16 * 4 + of_char z div 64), b64_char (of_char z mod 64)] @ cs"
  have "(length ?cs + k) mod 4 = (4 + (length cs + k)) mod 4" by simp
  also have "\<dots> = 0" using cs(4) by (simp only: mod_add_self1)
  finally have "(length ?cs + k) mod 4 = 0" .
  moreover have "b64encode (x # y # z # s) = ?cs @ replicate k PAD" by (simp add: Let_def cs(1))
  moreover have "list_all b64_letter ?cs" using cs(2) by (simp add: b64_letter_char bounds)
  ultimately show ?case using cs(3) by (intro exI[of _ ?cs] exI[of _ k] conjI)
qed

lemma rstrip_pad_append:
  assumes "PAD \<notin> set cs"
  shows "rstrip_pad (cs @ replicate k PAD) = cs"
proof -
  have "dropWhile (\<lambda>c. c = PAD) (rev cs) = rev cs" using assms by (cases "rev cs") (auto simp: rev_eq_Cons_iff)
  moreover have "dropWhile (\<lambda>c. c = PAD) (replicate k PAD @ xs) = dropWhile (\<lambda>c. c = PAD) xs" for xs
    by (induction k) simp_all
  ultimately show ?thesis by (simp add: rstrip_pad_def)
qed

lemma padded_strip:
  assumes "PAD \<notin> set cs" and "k \<le> 2" and "(length cs + k) mod 4 = 0"
  shows "padded cs = cs @ replicate k PAD"
proof -
  have "(int (length cs) + int k) mod 4 = 0" using assms(3) by (metis of_nat_add of_nat_mod of_nat_numeral of_nat_0)
  then have "(- int (length cs)) mod 4 = int k mod 4" by (simp add: mod_eq_dvd_iff algebra_simps mod_0_imp_dvd)
      (metis dvd_minus_iff minus_add_distrib mod_0_imp_dvd add.commute diff_conv_add_uminus)
  then show ?thesis using assms(2) by (simp add: padded_def)
qed

theorem urlsafe_round_trip: "urlsafe_b64decode (padded (rstrip_pad (urlsafe_b64encode s))) = Inr s"
proof -
  let ?safe = "\<lambda>c. if c = CHR ''+'' then CHR ''-'' else if c = CHR ''/'' then CHR ''_'' else c"
  let ?plain = "\<lambda>c. if c = CHR ''-'' then CHR ''+'' else if c = CHR ''_'' then CHR ''/'' else c"
  obtain cs k where cs: "b64encode s = cs @ replicate k PAD"
    "list_all b64_letter cs" "k \<le> 2" "(length cs + k) mod 4 = 0"
    using b64encode_shape[of s] by (elim exE conjE)
  have member: "c \<in> set cs \<Longrightarrow> b64_value c \<noteq> None \<and> c \<noteq> PAD \<and> (of_char c :: nat) < 128" for c
    using cs(2) by (simp add: list_all_iff b64_letter_def)
  have none: "b64_value (CHR ''-'') = None" "b64_value (CHR ''_'') = None" by (simp_all add: b64_value_def)
  have enc: "urlsafe_b64encode s = map ?safe cs @ replicate k PAD" by (simp add: urlsafe_b64encode_def cs(1))
  have no_pad: "PAD \<notin> set (map ?safe cs)" using member by fastforce
  have pad: "padded (rstrip_pad (urlsafe_b64encode s)) = map ?safe cs @ replicate k PAD"
    using cs(3,4) by (simp only: enc rstrip_pad_append[OF no_pad]) (rule padded_strip[OF no_pad], simp_all)
  have "?plain (?safe c) = c" if "c \<in> set cs" for c using member[OF that] none by auto
  then have "map ?plain (map ?safe cs) = cs" by (simp only: map_map) (rule map_idI, simp)
  then have plain: "map ?plain (map ?safe cs @ replicate k PAD) = b64encode s" by (simp add: cs(1))
  have ascii: "list_all (\<lambda>c. (of_char c :: nat) < 128) (map ?safe cs @ replicate k PAD)"
    using member by (auto simp: list_all_iff)
  show ?thesis unfolding pad urlsafe_b64decode_def plain using ascii by (simp add: b64_round_trip)
qed

lemma rstrip_encoded_nonempty:
  assumes "s \<noteq> []"
  shows "rstrip_pad (urlsafe_b64encode s) \<noteq> []"
proof
  assume "rstrip_pad (urlsafe_b64encode s) = []"
  with urlsafe_round_trip[of s] have "urlsafe_b64decode [] = Inr s" by (simp add: padded_def)
  with assms show False by (simp add: urlsafe_b64decode_def)
qed

end
