(* ===== verification/LF_Api.thy ===== *)
theory LF_Api
  imports LF_Scheduler LF_Auth LF_Logs LF_Diagnostics LF_Base64
begin

text \<open>
  The HTTP interface, \<^verbatim>\<open>src/src/localflow/api.py\<close>: the projections of a task, the page cursor, and
  the endpoints of tasks, runs and workspace files as functions on the state they change. The
  identity a gate returned is their argument; \<open>guarded\<close> puts a gate of \<open>LF_Auth\<close> in front.

  FastAPI parses a request into the arguments and turns the results into responses; what a
  response says is the value returned here. An exception that no handler catches is \<open>Raised\<close>, the
  status 500 of the server.
\<close>

section \<open>Handlers\<close>

type_synonym ('s, 'a) endpoint = "'s \<Rightarrow> (http + 'a) \<times> 's"

text \<open>Whether an \<open>except\<close> clause that names a class catches an error.\<close>

fun is_a :: "string \<Rightarrow> error \<Rightarrow> bool" where
  "is_a cls (ValueError _) = (cls \<in> {''ValueError'', ''Exception''})"
| "is_a cls (ValidationError _) = (cls \<in> {''ValueError'', ''Exception''})"
| "is_a cls (VariableError _) = (cls \<in> {''VariableError'', ''ValueError'', ''Exception''})"
| "is_a cls (KeyError _) = (cls \<in> {''KeyError'', ''Exception''})"
| "is_a cls (TypeError _) = (cls \<in> {''TypeError'', ''Exception''})"
| "is_a cls (AttributeError _) = (cls \<in> {''AttributeError'', ''Exception''})"
| "is_a cls (RuntimeError _) = (cls \<in> {''RuntimeError'', ''Exception''})"
| "is_a cls (IntegrityError _) = (cls \<in> {''IntegrityError'', ''Exception''})"
| "is_a cls (FileNotFoundError _) = (cls \<in> {''FileNotFoundError'', ''OSError'', ''Exception''})"
| "is_a cls (FileExistsError _) = (cls \<in> {''FileExistsError'', ''OSError'', ''Exception''})"
| "is_a cls (OSError _) = (cls \<in> {''OSError'', ''Exception''})"
| "is_a cls (TimeoutError _) = (cls \<in> {''TimeoutError'', ''OSError'', ''Exception''})"
| "is_a cls (Conflict _) = (cls \<in> {''ConfigConflict'', ''WorkspaceConflict'', ''Exception''})"

text \<open>The clauses of a \<open>try\<close>, in order; an error that none of them names escapes.\<close>

type_synonym handlers = "(string list \<times> (error \<Rightarrow> http)) list"

fun handled :: "handlers \<Rightarrow> error \<Rightarrow> http" where
  "handled [] err = Raised err"
| "handled ((classes, respond) # rest) err =
     (if list_ex (\<lambda>cls. is_a cls err) classes then respond err else handled rest err)"

definition attempt :: "handlers \<Rightarrow> 'a result \<Rightarrow> http + 'a" where
  "attempt hs r = (case r of Inl err \<Rightarrow> Inl (handled hs err) | Inr v \<Rightarrow> Inr v)"

definition trying :: "handlers \<Rightarrow> ('s, 'a) op \<Rightarrow> ('s, 'a) endpoint" where
  "trying hs f s = (case f s of (r, t) \<Rightarrow> (attempt hs r, t))"

definition bindE :: "('s, 'a) endpoint \<Rightarrow> ('a \<Rightarrow> ('s, 'b) endpoint) \<Rightarrow> ('s, 'b) endpoint" where
  "bindE m f s = (case m s of (Inl e, t) \<Rightarrow> (Inl e, t) | (Inr a, t) \<Rightarrow> f a t)"

definition retE :: "'a \<Rightarrow> ('s, 'a) endpoint" where
  "retE a s = (Inr a, s)"

definition failE :: "http \<Rightarrow> ('s, 'a) endpoint" where
  "failE e s = (Inl e, s)"

definition liftE :: "http + 'a \<Rightarrow> ('s, 'a) endpoint" where
  "liftE r s = (r, s)"

definition not_found :: "string \<Rightarrow> handlers" where
  "not_found detail = [([''KeyError''], \<lambda>_. Http 404 detail)]"

text \<open>A gate in front of an endpoint.\<close>

definition guarded ::
    "(auth \<Rightarrow> (http + string) \<times> auth) \<Rightarrow> (string \<Rightarrow> ('s, 'a) endpoint) \<Rightarrow> (auth \<times> 's, 'a) endpoint" where
  "guarded gate body st =
     (case gate (fst st) of
        (Inl e, a) \<Rightarrow> (Inl e, (a, snd st))
      | (Inr role, a) \<Rightarrow> (case body role (snd st) of (r, s) \<Rightarrow> (r, (a, s))))"

section \<open>Projections of a task\<close>

text \<open>
  What the endpoints read beside the store: the state directory, the logs with the time of their
  last change as text, and the JSON codec of the cursor.
\<close>

record site =
  si_state_root :: ppath
  si_archive :: "string \<Rightarrow> archive"
  si_mtime :: "string \<Rightarrow> string"
  si_dumps :: "string list \<Rightarrow> string"
  si_loads :: "string \<Rightarrow> json result"

definition opt_str :: "string option \<Rightarrow> json" where
  "opt_str v = (case v of None \<Rightarrow> JNull | Some s \<Rightarrow> JStr s)"

definition summary :: "task_row \<Rightarrow> jdict" where
  "summary task =
     [(''id'', JStr (r_id task)), (''name'', JStr (r_name task)), (''labels'', JList (map JStr (r_labels task))),
      (''state'', JStr (state_value (r_state task))), (''status'', status_dump (r_status task)),
      (''created_at'', JStr (r_created_at task)), (''started_at'', opt_str (r_started_at task)),
      (''ended_at'', opt_str (r_ended_at task))]"

text \<open>Iterating over a value that JSON decodes to.\<close>

fun type_name :: "json \<Rightarrow> string" where
  "type_name JNull = ''NoneType''"
| "type_name (JBool _) = ''bool''"
| "type_name (JInt _) = ''int''"
| "type_name (JFloat _) = ''float''"
| "type_name (JStr _) = ''str''"
| "type_name (JList _) = ''list''"
| "type_name (JObj _) = ''dict''"

definition py_iter :: "json \<Rightarrow> json list result" where
  "py_iter j =
     (case j of
        JList xs \<Rightarrow> Inr xs
      | JStr s \<Rightarrow> Inr (map (\<lambda>c. JStr [c]) s)
      | JObj d \<Rightarrow> Inr (map (\<lambda>(k, _). JStr k) d)
      | _ \<Rightarrow> Inl (TypeError ([SQ] @ type_name j @ [SQ] @ '' object is not iterable'')))"

definition invocation_text :: "json \<Rightarrow> string result" where
  "invocation_text invocation =
     (case invocation of
        JObj d \<Rightarrow>
          (case map_of d ''statement'' of
             Some v \<Rightarrow> Inr (py_str v)
           | None \<Rightarrow>
               (case map_of d ''path'' of
                  None \<Rightarrow> Inl (KeyError ''path'')
                | Some path \<Rightarrow>
                    bindR (py_iter (jget ''arguments'' d (JList []))) (\<lambda>items.
                      Inr (shlex_join (''source'' # py_str path # map py_str items)))))
      | JList _ \<Rightarrow> Inl (TypeError ''list indices must be integers or slices, not str'')
      | JStr _ \<Rightarrow> Inl (TypeError ''string indices must be integers'')
      | _ \<Rightarrow> Inl (TypeError (''argument of type '' @ [SQ] @ type_name invocation @ [SQ] @ '' is not iterable'')))"

record task_detail =
  dt_task :: task_row
  dt_display_command :: string
  dt_source_files :: "json list"
  dt_source_invocations :: "string list"
  dt_log_path :: string
  dt_output_integrity :: jdict
  dt_log_size :: int
  dt_log_updated_at :: "string option"

definition log_path :: "site \<Rightarrow> string \<Rightarrow> ppath" where
  "log_path site task_id =
     foldl path_join (si_state_root site) [parse_path ''logs'', parse_path task_id, parse_path ''output.log'']"

definition detail :: "site \<Rightarrow> task_row \<Rightarrow> task_detail result" where
  "detail site task =
     bindR (py_iter (jget ''_source_files'' (r_custom task) (JList []))) (\<lambda>files.
     bindR (py_iter (jget ''_source_invocations'' (r_custom task) (JList []))) (\<lambda>invocations.
     bindR (mapR invocation_text invocations) (\<lambda>texts.
       let ar = si_archive site (r_id task)
       in Inr \<lparr>dt_task = task, dt_display_command = command_for_log (r_command task) (r_working_directory task),
            dt_source_files = files, dt_source_invocations = texts,
            dt_log_path = path_str (log_path site (r_id task)), dt_output_integrity = output_integrity ar,
            dt_log_size = (case ar_log ar of Some content \<Rightarrow> int (length content) | None \<Rightarrow> 0),
            dt_log_updated_at = (case ar_log ar of Some _ \<Rightarrow> Some (si_mtime site (r_id task)) | None \<Rightarrow> None)\<rparr>)))"

datatype item = Summary jdict | Detail task_detail

definition FULL_READERS :: "string list" where
  "FULL_READERS = [''admin'', ''readonly'', ''signed-client'']"

definition show_task :: "site \<Rightarrow> string \<Rightarrow> task_row \<Rightarrow> item result" where
  "show_task site role task =
     (if role \<in> set FULL_READERS then bindR (detail site task) (\<lambda>d. Inr (Detail d)) else Inr (Summary (summary task)))"

section \<open>The page cursor\<close>

definition encode_cursor :: "(string list \<Rightarrow> string) \<Rightarrow> task_row \<Rightarrow> string" where
  "encode_cursor dumps task = rstrip_pad (urlsafe_b64encode (dumps [r_created_at task, r_id task]))"

definition decode_cursor :: "(string \<Rightarrow> json result) \<Rightarrow> string option \<Rightarrow> http + (string \<times> string) option" where
  "decode_cursor loads cursor =
     (case cursor of
        None \<Rightarrow> Inr None
      | Some [] \<Rightarrow> Inr None
      | Some c \<Rightarrow>
          (case bindR (urlsafe_b64decode (padded c)) loads of
             Inr (JList [JStr created_at, JStr task_id]) \<Rightarrow> Inr (Some (created_at, task_id))
           | Inr _ \<Rightarrow> Inl (Http 422 ''invalid task cursor'')
           | Inl err \<Rightarrow> Inl (handled [([''ValueError''], \<lambda>_. Http 422 ''invalid task cursor'')] err)))"

section \<open>Reading tasks\<close>

record page =
  pg_items :: "(item \<times> bool) list"
  pg_next_cursor :: "string option"

definition newly_completed :: "string \<Rightarrow> task_row \<Rightarrow> db \<Rightarrow> bool" where
  "newly_completed role record d \<longleftrightarrow>
     r_ended_at record \<noteq> None \<and> r_ended_at record \<noteq> Some [] \<and> role = ''admin'' \<and> \<not> is_acknowledged (r_id record) ''admin'' d"

definition list_item :: "site \<Rightarrow> string \<Rightarrow> db \<Rightarrow> task_row \<Rightarrow> (item \<times> bool) result" where
  "list_item site role d record =
     bindR (show_task site role record) (\<lambda>item. Inr (item, newly_completed role record d))"

text \<open>The query of a page: one task more than is shown, newest first, before the cursor.\<close>

definition page_request :: "task_query \<Rightarrow> int \<Rightarrow> (string \<times> string) option \<Rightarrow> task_query" where
  "page_request q limit before = q\<lparr>q_limit := limit + 1, q_before := before, q_after := None, q_ascending := False\<rparr>"

definition list_tasks_api ::
    "site \<Rightarrow> string \<Rightarrow> task_query \<Rightarrow> int \<Rightarrow> string option \<Rightarrow> (svc, page) endpoint" where
  "list_tasks_api site role q limit cursor =
     (if limit < 1 \<or> 200 < limit then failE (Http 422 ''limit'')
      else bindE (liftE (decode_cursor (si_loads site) cursor)) (\<lambda>before.
           bindE (trying [] (onDb (list_tasks (page_request q limit before)))) (\<lambda>records s.
             let has_more = limit < int (length records);
                 records = take (nat limit) records
             in bindE (liftE (attempt [] (mapR (list_item site role (sv_db s)) records))) (\<lambda>items.
                  retE \<lparr>pg_items = items,
                        pg_next_cursor = (if has_more \<and> records \<noteq> []
                          then Some (encode_cursor (si_dumps site) (last records)) else None)\<rparr>) s)))"

definition get_task_api :: "site \<Rightarrow> string \<Rightarrow> string \<Rightarrow> (svc, item) endpoint" where
  "get_task_api site task_id role =
     bindE (trying (not_found ''task not found'') (onDb (get_task task_id))) (\<lambda>record.
       liftE (attempt [] (show_task site role record)))"

definition get_batch_api :: "string \<Rightarrow> string \<Rightarrow> (svc, batch_row \<times> string list) endpoint" where
  "get_batch_api batch_id role s = (attempt (not_found ''batch not found'') (get_batch batch_id (sv_db s)), s)"

definition acknowledge_api :: "env \<Rightarrow> string \<Rightarrow> (svc, unit) endpoint" where
  "acknowledge_api e task_id =
     trying (not_found ''task not found'') (onDb (acknowledge (en_clock e) task_id ''admin''))"

definition interrupt_api :: "env \<Rightarrow> string \<Rightarrow> real \<Rightarrow> real \<Rightarrow> (svc, task_row) endpoint" where
  "interrupt_api e task_id sigint_grace sigterm_grace =
     trying (not_found ''task not found'') (interrupt e task_id sigint_grace sigterm_grace)"

section \<open>Logs\<close>

definition full_reader :: "string \<Rightarrow> (svc, unit) endpoint" where
  "full_reader role = (if role = ''summary'' then failE (Http 403 ''logs require full read access'') else retE ())"

record log_piece =
  lp_offset :: int
  lp_next_offset :: int
  lp_data :: string

definition logs_api :: "site \<Rightarrow> string \<Rightarrow> int \<Rightarrow> int \<Rightarrow> string \<Rightarrow> (svc, log_piece) endpoint" where
  "logs_api site task_id offset limit role =
     bindE (full_reader role) (\<lambda>_.
     bindE (trying (not_found ''task not found'') (onDb (get_task task_id))) (\<lambda>_.
       case read_log (si_archive site task_id) offset limit of (data, next_offset) \<Rightarrow>
         retE \<lparr>lp_offset = offset, lp_next_offset = next_offset, lp_data = b64encode data\<rparr>))"

text \<open>The stored bytes with the two headers that say whether they are all.\<close>

definition download_log :: "site \<Rightarrow> string \<Rightarrow> string \<Rightarrow> (svc, string \<times> string \<times> string) endpoint" where
  "download_log site task_id role =
     bindE (full_reader role) (\<lambda>_.
     bindE (trying (not_found ''task not found'') (onDb (get_task task_id))) (\<lambda>_.
       case ar_log (si_archive site task_id) of
         None \<Rightarrow> failE (Http 404 ''stored output is unavailable'')
       | Some content \<Rightarrow>
           let health = output_integrity (si_archive site task_id);
               reason = jget ''reason'' health JNull
           in retE (content, lower_ascii (py_str (jget ''complete'' health JNull)),
                    if truthy reason then py_str reason else [])))"

definition log_window ::
    "site \<Rightarrow> string \<Rightarrow> int \<Rightarrow> int \<Rightarrow> int \<Rightarrow> string \<Rightarrow> int option \<Rightarrow> string \<Rightarrow> (svc, int \<times> int) endpoint" where
  "log_window site task_id start stop columns direction hit role =
     (if start < 0 \<or> stop < 0 \<or> columns < 2 \<or> 1000 < columns
         \<or> direction \<notin> {''tail'', ''earlier'', ''later'', ''hit''} \<or> (case hit of Some h \<Rightarrow> h < 0 | None \<Rightarrow> False)
      then failE (Http 422 ''window'')
      else bindE (full_reader role) (\<lambda>_.
           bindE (trying (not_found ''task not found'') (onDb (get_task task_id))) (\<lambda>_.
             retE (terminal_window (si_archive site task_id) start stop columns direction hit))))"

section \<open>The terminal\<close>

datatype input_encoding = Utf_8 | Base_64

text \<open>\<open>b64decode\<close> with validation is a parameter; \<open>taken\<close> is the answer of the executor.\<close>

definition terminal_input ::
    "(string \<Rightarrow> string option) \<Rightarrow> string \<Rightarrow> string \<Rightarrow> input_encoding \<Rightarrow> bool \<Rightarrow> (svc, nat) endpoint" where
  "terminal_input b64 task_id data encoding taken =
     (case (case encoding of Base_64 \<Rightarrow> b64 data | Utf_8 \<Rightarrow> Some (utf8 data)) of
        None \<Rightarrow> failE (Http 422 ''invalid terminal input'')
      | Some bytes \<Rightarrow>
          if bytes = [] \<or> 65536 < length bytes then failE (Http 422 ''terminal input must be 1..65536 bytes'')
          else bindE (trying (not_found ''task not found'') (write_terminal task_id taken)) (\<lambda>ok.
                 if ok then retE (length bytes) else failE (Http 409 ''task terminal is not writable'')))"

datatype control_key = Ctrl_c | Ctrl_d | Enter | Escape | Tab

fun control_bytes :: "control_key \<Rightarrow> string" where
  "control_bytes Ctrl_c = [char_of (3 :: nat)]"
| "control_bytes Ctrl_d = [char_of (4 :: nat)]"
| "control_bytes Enter = [CR]"
| "control_bytes Escape = [char_of (27 :: nat)]"
| "control_bytes Tab = [char_of (9 :: nat)]"

text \<open>The executor decides on the bytes it is given.\<close>

definition terminal_control :: "string \<Rightarrow> control_key \<Rightarrow> (string \<Rightarrow> bool) \<Rightarrow> (svc, control_key) endpoint" where
  "terminal_control task_id key accepts =
     bindE (trying (not_found ''task not found'') (write_terminal task_id (accepts (control_bytes key)))) (\<lambda>ok.
       if ok then retE key else failE (Http 409 ''task terminal is not writable''))"

definition terminal_resize :: "string \<Rightarrow> int \<Rightarrow> int \<Rightarrow> bool \<Rightarrow> (svc, int \<times> int) endpoint" where
  "terminal_resize task_id rows cols taken =
     (if rows < 2 \<or> 1000 < rows \<or> cols < 2 \<or> 1000 < cols then failE (Http 422 ''size'')
      else bindE (trying (not_found ''task not found'') (resize_terminal task_id rows cols taken)) (\<lambda>ok.
             if ok then retE (rows, cols) else failE (Http 409 ''task terminal is not resizable'')))"


section \<open>Creating a task\<close>

text \<open>The body of a \<open>202\<close> response and its \<open>Location\<close>.\<close>

record receipt_of =
  rc_body :: jdict
  rc_location :: "string option"

definition task_href :: "string \<Rightarrow> string" where
  "task_href i = ''/api/v1/tasks/'' @ i"

definition task_receipt :: "task_row \<Rightarrow> json" where
  "task_receipt record = JObj [(''id'', JStr (r_id record)), (''href'', JStr (task_href (r_id record)))]"

definition TASKS_ROUTE :: string where
  "TASKS_ROUTE = ''/api/v1/tasks''"

text \<open>
  The stored answer of an earlier request, with the link older versions did not store. A link that is
  not a text cannot be sent as a header.
\<close>

definition replayed :: "jdict \<Rightarrow> receipt_of result" where
  "replayed previous =
     bindR (case jget ''task'' previous (JObj []) of
              JObj task \<Rightarrow> Inr (jget ''href'' task JNull)
            | j \<Rightarrow> Inl (AttributeError ([SQ] @ type_name j @ [SQ] @ '' object has no attribute '' @ [SQ] @ ''get'' @ [SQ]))) (\<lambda>href.
     bindR (case map_of previous ''task_id'' of Some i \<Rightarrow> Inr i | None \<Rightarrow> Inl (KeyError ''task_id'')) (\<lambda>i.
       let href = (if truthy href then href else JStr (task_href (py_str i)));
           body = (if dict_has ''task'' previous then previous
                   else previous @ [(''task'', JObj [(''id'', i), (''href'', href)])])
       in case href of
            JStr h \<Rightarrow> Inr \<lparr>rc_body = body, rc_location = Some h\<rparr>
          | j \<Rightarrow> Inl (AttributeError ([SQ] @ type_name j @ [SQ] @ '' object has no attribute '' @ [SQ] @ ''encode'' @ [SQ]))))"

definition created_body :: "task_row \<Rightarrow> jdict" where
  "created_body record =
     [(''task_id'', JStr (r_id record)), (''task'', task_receipt record),
      (''state'', JStr (state_value (r_state record))), (''created_at'', JStr (r_created_at record))]"

text \<open>The key of the header: none, or empty, means no replay.\<close>

definition given_key :: "string option \<Rightarrow> string option" where
  "given_key k = (if k = Some [] then None else k)"

definition create_task_api :: "env \<Rightarrow> string \<Rightarrow> string option \<Rightarrow> task_draft \<Rightarrow> string \<Rightarrow> (svc, receipt_of) endpoint" where
  "create_task_api e new_id idempotency_key payload actor s =
     (case (case given_key idempotency_key of
              None \<Rightarrow> None
            | Some key \<Rightarrow> idempotency_get actor TASKS_ROUTE key (sv_db s)) of
        Some (entry # rest) \<Rightarrow> (attempt [] (replayed (entry # rest)), s)
      | _ \<Rightarrow>
          bindE (trying [] (submit e new_id payload)) (\<lambda>record.
          bindE (case given_key idempotency_key of
                   None \<Rightarrow> retE ()
                 | Some key \<Rightarrow>
                     trying [] (onDb (idempotency_put (en_clock e) actor TASKS_ROUTE key (created_body record)))) (\<lambda>_.
            retE \<lparr>rc_body = created_body record, rc_location = Some (task_href (r_id record))\<rparr>)) s)"

section \<open>Runs\<close>

text \<open>
  What a run needs: the registry and its surroundings, the diagnosis, and the working root as text.
\<close>

record host =
  ho_registry :: registry
  ho_diag :: diag_env
  ho_expand :: expand_env
  ho_root :: string

record plan_item =
  pi_sequence :: nat
  pi_name :: string
  pi_working_directory :: string
  pi_command :: "string list"
  pi_labels :: "string list"
  pi_mutex_keys :: "string list"
  pi_custom :: jdict
  pi_deferred_values :: "(string, deferred_value) dict"

record run_plan =
  pl_plugin :: string
  pl_count :: nat
  pl_immutable_after_submit :: bool
  pl_items :: "plan_item list"

definition plan_item_of :: "nat \<Rightarrow> task_draft \<Rightarrow> plan_item" where
  "plan_item_of sequence draft =
     \<lparr>pi_sequence = sequence, pi_name = td_name draft, pi_working_directory = td_working_directory draft,
      pi_command = td_command draft, pi_labels = td_labels draft, pi_mutex_keys = td_mutex_keys draft,
      pi_custom = td_custom draft, pi_deferred_values = td_deferred_values draft\<rparr>"

definition plan :: "string \<Rightarrow> task_draft list \<Rightarrow> run_plan" where
  "plan plugin_name drafts =
     \<lparr>pl_plugin = plugin_name, pl_count = length drafts, pl_immutable_after_submit = True,
      pl_items = map2 plan_item_of [0..<length drafts] drafts\<rparr>"

definition batch_receipt :: "string \<Rightarrow> task_row list \<Rightarrow> receipt_of" where
  "batch_receipt batch_id records =
     (let href = ''/api/v1/batches/'' @ batch_id
      in \<lparr>rc_body =
            [(''batch_id'', JStr batch_id), (''batch'', JObj [(''id'', JStr batch_id), (''href'', JStr href)]),
             (''task_ids'', JList (map (\<lambda>r. JStr (r_id r)) records)), (''tasks'', JList (map task_receipt records)),
             (''count'', JInt (int (length records)))],
          rc_location = Some href\<rparr>)"

definition root_context :: "host \<Rightarrow> jdict" where
  "root_context h = [(''root'', JStr (ho_root h))]"

text \<open>The part that \<open>plan_run\<close> and \<open>create_run\<close> share: the drafts of an inline configuration.\<close>

definition check_plugin :: "host \<Rightarrow> jdict \<Rightarrow> http + unit" where
  "check_plugin h configuration =
     (case map_of configuration ''plugin'' of
        Some (JStr name) \<Rightarrow>
          if map_of (rg_plugins (ho_registry h)) name = None then Inl (Http 404 ''plugin not found'') else Inr ()
      | _ \<Rightarrow> Inr ())"

definition expand_inline :: "host \<Rightarrow> jdict \<Rightarrow> jdict \<Rightarrow> http + task_draft list" where
  "expand_inline h configuration inputs =
     bindR (check_plugin h configuration) (\<lambda>_.
     bindR (attempt [] (diagnose_config (ho_diag h) (ho_registry h) (JObj configuration))) (\<lambda>diagnosis.
     if \<not> dg_runnable diagnosis
     then Inl (Http_detail 422 [(''message'', JStr ''configuration is not runnable''),
                (''errors'', JList (map JStr (dg_errors diagnosis))), (''warnings'', JList (map JStr (dg_warnings diagnosis)))])
     else attempt (not_found ''plugin not found''
            @ [([''Exception''], \<lambda>err. Http 422 (''configuration expansion failed: '' @ error_text err))])
          (expand_config (de_lib (ho_diag h)) (ho_expand h) configuration inputs (root_context h) (ho_registry h))))"

definition plan_run :: "host \<Rightarrow> jdict \<Rightarrow> jdict \<Rightarrow> http + run_plan" where
  "plan_run h configuration inputs =
     bindR (expand_inline h configuration inputs) (\<lambda>drafts.
       Inr (plan (py_str (jget ''plugin'' configuration JNull)) drafts))"

text \<open>The ids of the batch and of its tasks are drawn at random: they are arguments.\<close>

definition idem_triple :: "string \<Rightarrow> string \<Rightarrow> string option \<Rightarrow> (string \<times> string \<times> string) option" where
  "idem_triple actor route key = map_option (\<lambda>k. (actor, route, k)) (given_key key)"

definition create_run ::
    "host \<Rightarrow> env \<Rightarrow> string \<Rightarrow> string list \<Rightarrow> jdict \<Rightarrow> jdict \<Rightarrow> string option \<Rightarrow> string \<Rightarrow> (svc, receipt_of) endpoint" where
  "create_run h e batch_id new_ids configuration inputs idempotency_key actor =
     bindE (liftE (expand_inline h configuration inputs)) (\<lambda>drafts.
     bindE (trying [] (submit_batch e batch_id new_ids (py_str (jget ''plugin'' configuration JNull))
              [(''configuration'', JObj configuration), (''inputs'', JObj inputs)] drafts
              (idem_triple actor ''/api/v1/runs'' idempotency_key))) (\<lambda>(batch, records).
       retE (batch_receipt batch records)))"

text \<open>
  The same for a stored configuration. \<open>load\<close> is the parser of the configuration library, as in
  \<open>config_parse\<close>; reading a file changes nothing.
\<close>

definition file_handlers :: handlers where
  "file_handlers =
     [([''KeyError''], \<lambda>_. Http 404 ''configuration plugin is not loaded''),
      ([''TypeError'', ''ValueError'', ''FileNotFoundError''], \<lambda>err. Http 422 (error_text err))]"

definition file_context :: "host \<Rightarrow> string \<Rightarrow> jdict" where
  "file_context h path = [(''root'', JStr (ho_root h)), (''config_path'', JStr path)]"

definition stored_document :: "(fs \<Rightarrow> fpath \<Rightarrow> json result) \<Rightarrow> fpath \<Rightarrow> string \<Rightarrow> fs \<Rightarrow> json result" where
  "stored_document load base path fs = fst (config_parse load [] base path None fs)"

definition runnable_document :: "host \<Rightarrow> json \<Rightarrow> jdict result" where
  "runnable_document h document =
     bindR (diagnose_config (ho_diag h) (ho_registry h) document) (\<lambda>diagnosis.
       if dg_runnable diagnosis then Inr (object_of document)
       else let message = join ''; '' (dg_errors diagnosis)
            in Inl (ValueError (if message \<noteq> [] then message else ''configuration is not runnable'')))"

definition expand_stored ::
    "host \<Rightarrow> (fs \<Rightarrow> fpath \<Rightarrow> json result) \<Rightarrow> fpath \<Rightarrow> fs \<Rightarrow> string \<Rightarrow> jdict \<Rightarrow> http + jdict \<times> task_draft list" where
  "expand_stored h load base fs path inputs =
     attempt file_handlers (
       bindR (stored_document load base path fs) (\<lambda>parsed.
       bindR (runnable_document h parsed) (\<lambda>document.
       bindR (expand_config (de_lib (ho_diag h)) (ho_expand h) document inputs (file_context h path) (ho_registry h)) (\<lambda>drafts.
         Inr (document, drafts)))))"

definition config_plan ::
    "host \<Rightarrow> (fs \<Rightarrow> fpath \<Rightarrow> json result) \<Rightarrow> fpath \<Rightarrow> fs \<Rightarrow> string \<Rightarrow> jdict \<Rightarrow> http + run_plan" where
  "config_plan h load base fs path inputs =
     bindR (expand_stored h load base fs path inputs) (\<lambda>(document, drafts).
       Inr (plan (py_str (jget ''plugin'' document JNull)) drafts))"

definition config_run ::
    "host \<Rightarrow> (fs \<Rightarrow> fpath \<Rightarrow> json result) \<Rightarrow> fpath \<Rightarrow> fs \<Rightarrow> env \<Rightarrow> string \<Rightarrow> string list \<Rightarrow> string \<Rightarrow> jdict \<Rightarrow>
     string option \<Rightarrow> string \<Rightarrow> (svc, receipt_of) endpoint" where
  "config_run h load base fs e batch_id new_ids path inputs idempotency_key actor =
     bindE (liftE (expand_stored h load base fs path inputs)) (\<lambda>(document, drafts).
     bindE (trying [] (submit_batch e batch_id new_ids (py_str (jget ''plugin'' document JNull))
              [(''configuration_path'', JStr path), (''inputs'', JObj inputs)] drafts
              (idem_triple actor (''/api/v1/config/files/'' @ path @ ''/runs'') idempotency_key))) (\<lambda>(batch, records).
       retE (batch_receipt batch records)))"

definition plugin_failures :: "string \<Rightarrow> handlers" where
  "plugin_failures what =
     [([''KeyError''], \<lambda>_. Http 404 ''configuration plugin is not loaded''),
      ([''TimeoutError''], \<lambda>_. Http 504 (''plugin '' @ what @ '' timed out'')),
      ([''TypeError'', ''ValueError'', ''FileNotFoundError'', ''OSError''],
       \<lambda>err. Http 422 (''plugin '' @ what @ '' failed: '' @ error_text err))]"

definition config_discover ::
    "host \<Rightarrow> (fs \<Rightarrow> fpath \<Rightarrow> json result) \<Rightarrow> fpath \<Rightarrow> fs \<Rightarrow> string \<Rightarrow> jdict \<Rightarrow> http + string list" where
  "config_discover h load base fs path inputs =
     attempt (plugin_failures ''discovery'') (
       bindR (stored_document load base path fs) (\<lambda>parsed.
       bindR (runnable_document h parsed) (\<lambda>document.
         discover_config (de_lib (ho_diag h)) document inputs (file_context h path) (ho_registry h))))"

text \<open>A document that is not runnable is answered with its errors.\<close>

definition config_inspection ::
    "host \<Rightarrow> probe \<Rightarrow> (fs \<Rightarrow> fpath \<Rightarrow> json result) \<Rightarrow> fpath \<Rightarrow> fs \<Rightarrow> string \<Rightarrow> http + inspection_item list \<times> string list" where
  "config_inspection h pr load base fs path =
     attempt (plugin_failures ''inspection'') (
       bindR (stored_document load base path fs) (\<lambda>parsed.
       bindR (diagnose_config (ho_diag h) (ho_registry h) parsed) (\<lambda>diagnosis.
         if \<not> dg_runnable diagnosis then Inr ([], dg_errors diagnosis)
         else bindR (inspect_config (de_lib (ho_diag h)) pr (object_of parsed) [] (file_context h path) (ho_registry h)) (\<lambda>items.
                Inr (items, [])))))"

text \<open>Runs and discovery by the name of a plugin. The tasks of a template run are submitted one by one.\<close>

definition run_template :: "host \<Rightarrow> env \<Rightarrow> string list \<Rightarrow> string \<Rightarrow> jdict \<Rightarrow> (svc, receipt_of) endpoint" where
  "run_template h e new_ids name vals =
     bindE (liftE (attempt (not_found ''template not found'')
              (expand_plugin (ho_expand h) name vals (root_context h) (ho_registry h)))) (\<lambda>drafts.
     bindE (trying [] (mapS (\<lambda>(i, draft). submit e i draft) (zip new_ids drafts))) (\<lambda>records.
       retE \<lparr>rc_body = [(''task_ids'', JList (map (\<lambda>r. JStr (r_id r)) records)), (''tasks'', JList (map task_receipt records)),
                        (''count'', JInt (int (length records)))],
             rc_location = (case records of [] \<Rightarrow> None | r # _ \<Rightarrow> Some (task_href (r_id r)))\<rparr>))"

definition discover_template :: "host \<Rightarrow> string \<Rightarrow> jdict \<Rightarrow> http + string list" where
  "discover_template h name vals =
     attempt (not_found ''template not found''
       @ [([''TimeoutError''], \<lambda>_. Http 504 ''plugin discovery timed out''),
          ([''Exception''], \<lambda>err. Http 422 (''plugin discovery failed: '' @ error_text err))])
       (discover name vals [] (ho_registry h))"

text \<open>
  The descriptions of the loaded plugins: for readers with full access, where only the administrator
  is told what failed to load, and for submitters. \<open>common\<close> is the schema of the common fields.
\<close>

definition templates :: "jdict \<Rightarrow> registry \<Rightarrow> string \<Rightarrow> http + jdict list \<times> (string, string) dict" where
  "templates common reg role =
     (if role = ''summary'' then Inl (Http 403 ''templates require full read access'')
      else bindR (attempt [] (describe common reg)) (\<lambda>items.
             Inr (items, if role = ''admin'' then rg_diagnostics reg else [])))"

definition loaded_plugins :: "jdict \<Rightarrow> registry \<Rightarrow> http + jdict list \<times> (string, string) dict" where
  "loaded_plugins common reg =
     bindR (attempt [] (describe common reg)) (\<lambda>items. Inr (items, rg_diagnostics reg))"

definition loaded_plugin_api :: "jdict \<Rightarrow> registry \<Rightarrow> string \<Rightarrow> http + jdict" where
  "loaded_plugin_api common reg name =
     bindR (attempt [] (describe common reg)) (\<lambda>items.
       case find (\<lambda>item. map_of item ''name'' = Some (JStr name)) items of
         None \<Rightarrow> Inl (Http 404 ''plugin not found'')
       | Some item \<Rightarrow> Inr item)"

text \<open>A preview of interpolation over the four layers of values.\<close>

definition resolve_variables :: "jdict \<Rightarrow> jdict \<Rightarrow> jdict \<Rightarrow> jdict \<Rightarrow> json \<Rightarrow> http + json \<times> (string, string) dict" where
  "resolve_variables global_values project_values template_values chosen v =
     attempt [([''VariableError''], \<lambda>err. Http 422 (error_text err))]
       (fst (resolution (new_resolver [(''global'', global_values), (''project'', project_values),
          (''template'', template_values), (''run'', chosen)] []) v []))"

section \<open>Workspace and configuration files\<close>

definition conflict_412 :: "string \<Rightarrow> string list \<times> (error \<Rightarrow> http)" where
  "conflict_412 cls = ([cls], \<lambda>err. Http_detail 412 [(''current_version'', JStr (error_text err))])"

definition unprocessable :: "string list \<Rightarrow> string list \<times> (error \<Rightarrow> http)" where
  "unprocessable classes = (classes, \<lambda>err. Http 422 (error_text err))"

definition workspace_write_api ::
    "(string \<Rightarrow> string) \<Rightarrow> fpath \<Rightarrow> string \<Rightarrow> string \<Rightarrow> string option \<Rightarrow> (fs, workspace_file) endpoint" where
  "workspace_write_api sha base path content if_match =
     trying [conflict_412 ''WorkspaceConflict'', unprocessable [''SyntaxError'', ''ValueError'']]
       (workspace_write sha base path content if_match)"

definition workspace_create_directory :: "fpath \<Rightarrow> string \<Rightarrow> (fs, string) endpoint" where
  "workspace_create_directory base path =
     bindE (trying [([''FileExistsError''], \<lambda>_. Http 409 ''workspace entry already exists''), unprocessable [''ValueError'']]
              (create_directory base path)) (\<lambda>_. retE path)"

definition taken_target :: "string list \<times> (error \<Rightarrow> http)" where
  "taken_target = ([''FileExistsError''], \<lambda>_. Http 409 ''workspace target already exists'')"

text \<open>A move inside the configuration directory takes the history of uses along.\<close>

definition after_slash :: "string \<Rightarrow> string" where
  "after_slash s = (case split_first ''/'' s of Some (_, rest) \<Rightarrow> rest | None \<Rightarrow> s)"

definition workspace_move_api :: "fpath \<Rightarrow> string \<Rightarrow> string \<Rightarrow> (fs \<times> db, string) endpoint" where
  "workspace_move_api base source target st =
     (case workspace_move base source target (fst st) of
        (Inl err, fs) \<Rightarrow> (Inl (handled [taken_target, unprocessable [''OSError'', ''ValueError'']] err), (fs, snd st))
      | (Inr _, fs) \<Rightarrow>
          (Inr target,
           (fs, if starts_with source ''config/'' \<and> starts_with target ''config/''
                then remap_configuration_history (after_slash source) (after_slash target) (snd st) else snd st)))"

definition workspace_copy_api :: "fpath \<Rightarrow> string \<Rightarrow> string \<Rightarrow> (fs, string) endpoint" where
  "workspace_copy_api base source target =
     bindE (trying [taken_target, unprocessable [''OSError'', ''ValueError'']] (workspace_copy base source target))
       (\<lambda>_. retE target)"

definition workspace_delete_api :: "fpath \<Rightarrow> string \<Rightarrow> (fs, unit) endpoint" where
  "workspace_delete_api base path =
     trying [([''FileNotFoundError''], \<lambda>err. Http 404 (error_text err)), unprocessable [''OSError'', ''ValueError'']]
       (workspace_delete base path)"

definition config_write_api ::
    "(string \<Rightarrow> string) \<Rightarrow> fpath \<Rightarrow> string \<Rightarrow> string \<Rightarrow> string option \<Rightarrow> (fs, config_file) endpoint" where
  "config_write_api sha base path content if_match =
     trying [conflict_412 ''ConfigConflict'', unprocessable [''ValueError'']] (config_write sha base path content if_match)"

text \<open>A new configuration is empty or the plugin's example; \<open>safe_dump\<close> of the YAML library is a parameter.\<close>

definition config_create ::
    "host \<Rightarrow> (jdict \<Rightarrow> string) \<Rightarrow> (string \<Rightarrow> string) \<Rightarrow> fpath \<Rightarrow> string \<Rightarrow> string option \<Rightarrow> (fs, config_file) endpoint" where
  "config_create h safe_dump sha base path plugin_name =
     trying [([''KeyError''], \<lambda>_. Http 404 ''configuration plugin is not loaded''),
             ([''ConfigConflict'', ''FileExistsError''], \<lambda>_. Http 409 ''configuration already exists''),
             unprocessable [''TypeError'', ''ValueError'']]
       (bindS (liftS (case plugin_name of
                 None \<Rightarrow> Inr []
               | Some name \<Rightarrow> bindR (plugin_example name (ho_registry h)) (\<lambda>example.
                   Inr (safe_dump (dict_set ''plugin'' (JStr name) example))))) (\<lambda>content.
          config_write sha base path content None))"

definition config_move_api ::
    "(string \<Rightarrow> string) \<Rightarrow> fpath \<Rightarrow> string \<Rightarrow> string \<Rightarrow> string \<Rightarrow> (fs, config_file) endpoint" where
  "config_move_api sha base path target version =
     trying [conflict_412 ''ConfigConflict'',
             ([''FileExistsError''], \<lambda>_. Http 409 ''target configuration already exists''),
             unprocessable [''TypeError'', ''ValueError'', ''FileNotFoundError'']]
       (config_move sha base path target version)"

definition config_delete_api :: "(string \<Rightarrow> string) \<Rightarrow> fpath \<Rightarrow> string \<Rightarrow> string option \<Rightarrow> (fs, unit) endpoint" where
  "config_delete_api sha base path if_match =
     (case given_key if_match of
        None \<Rightarrow> failE (Http 428 ''If-Match is required'')
      | Some version \<Rightarrow>
          trying [conflict_412 ''ConfigConflict'',
                  ([''ValueError'', ''FileNotFoundError''], \<lambda>err. Http 404 (error_text err))]
            (config_delete sha base path version))"

section \<open>Views of a configuration\<close>

text \<open>
  What the editor is told about a document: the document, its resolved form, the diagnosis of its
  syntax (with the position of an error) and the diagnosis for a run. \<open>mark\<close> is where the parser
  says an error is.
\<close>

record document_view =
  vw_document :: json
  vw_resolved_document :: json
  vw_plugin :: json
  vw_diagnosis :: diagnosis
  vw_run_diagnosis :: diagnosis
  vw_issue :: "issue option"

definition generic_valid :: diagnosis where
  "generic_valid = failed_root\<lparr>dg_valid := True, dg_errors := []\<rparr>"

definition plugin_entry :: "json \<Rightarrow> json" where
  "plugin_entry document = (case document of JObj d \<Rightarrow> jget ''plugin'' d JNull | _ \<Rightarrow> JNull)"

definition diagnosed_document :: "host \<Rightarrow> json result \<Rightarrow> (json \<times> diagnosis \<times> json) result" where
  "diagnosed_document h parsed =
     bindR parsed (\<lambda>document.
     bindR (diagnose_config (ho_diag h) (ho_registry h) document) (\<lambda>run.
       case resolve_config_document (de_lib (ho_diag h)) document (ho_registry h) of
         Inr resolved \<Rightarrow> Inr (document, run, resolved)
       | Inl err \<Rightarrow>
           if list_ex (\<lambda>cls. is_a cls err) [''KeyError'', ''TypeError'', ''ValueError'']
           then Inr (document, run, JNull) else Inl err))"

definition view_document :: "host \<Rightarrow> (error \<Rightarrow> parse_mark) \<Rightarrow> json result \<Rightarrow> document_view result" where
  "view_document h mark parsed =
     (case diagnosed_document h parsed of
        Inr (document, run, resolved) \<Rightarrow>
          Inr \<lparr>vw_document = document, vw_resolved_document = resolved, vw_plugin = plugin_entry document,
               vw_diagnosis = generic_valid, vw_run_diagnosis = run, vw_issue = None\<rparr>
      | Inl err \<Rightarrow>
          if list_ex (\<lambda>cls. is_a cls err) [''OSError'', ''TypeError'', ''ValueError'']
          then (case syntax_error_diagnosis (error_text err) (mark err) of (failed, place) \<Rightarrow>
                  Inr \<lparr>vw_document = JNull, vw_resolved_document = JNull, vw_plugin = JNull,
                       vw_diagnosis = failed, vw_run_diagnosis = failed, vw_issue = Some place\<rparr>)
          else Inl err)"

definition config_syntax_diagnosis ::
    "host \<Rightarrow> (error \<Rightarrow> parse_mark) \<Rightarrow> (fs \<Rightarrow> fpath \<Rightarrow> json result) \<Rightarrow> string \<Rightarrow> fpath \<Rightarrow> string \<Rightarrow> string \<Rightarrow> (fs, document_view) endpoint" where
  "config_syntax_diagnosis h mark load temporary base path content fs =
     (case config_parse load temporary base path (Some content) fs of
        (parsed, fs') \<Rightarrow> (attempt [] (view_document h mark parsed), fs'))"

text \<open>Membership of a JSON value in the dictionary of plugins needs a hash.\<close>

definition plugin_loaded :: "registry \<Rightarrow> json \<Rightarrow> bool result" where
  "plugin_loaded reg name =
     (if \<not> truthy name then Inr False
      else case name of
        JStr s \<Rightarrow> Inr (map_of (rg_plugins reg) s \<noteq> None)
      | JList _ \<Rightarrow> Inl (TypeError ''unhashable type: list'')
      | JObj _ \<Rightarrow> Inl (TypeError ''unhashable type: dict'')
      | _ \<Rightarrow> Inr False)"

definition absent_404 :: handlers where
  "absent_404 = [([''ValueError'', ''FileNotFoundError''], \<lambda>err. Http 404 (error_text err))]"

definition config_read_api ::
    "host \<Rightarrow> (error \<Rightarrow> parse_mark) \<Rightarrow> (fs \<Rightarrow> fpath \<Rightarrow> json result) \<Rightarrow> (string \<Rightarrow> string) \<Rightarrow> fpath \<Rightarrow> string \<Rightarrow> fs \<Rightarrow>
     http + config_file \<times> document_view \<times> bool" where
  "config_read_api h mark load sha base path fs =
     attempt absent_404 (
       bindR (config_read sha base path fs) (\<lambda>stored.
       bindR (view_document h mark (stored_document load base path fs)) (\<lambda>view.
       bindR (plugin_loaded (ho_registry h) (vw_plugin view)) (\<lambda>loaded.
         Inr (stored, view, loaded)))))"

definition workspace_read_api ::
    "host \<Rightarrow> (error \<Rightarrow> parse_mark) \<Rightarrow> (fs \<Rightarrow> fpath \<Rightarrow> json result) \<Rightarrow> (string \<Rightarrow> string) \<Rightarrow> fpath \<Rightarrow> string \<Rightarrow> fs \<Rightarrow>
     http + workspace_file \<times> document_view option" where
  "workspace_read_api h mark load sha base path fs =
     attempt absent_404 (
       bindR (workspace_read sha base path fs) (\<lambda>stored.
         if starts_with path ''config/''
         then bindR (view_document h mark (stored_document load (base @ [''config'']) (after_slash path) fs)) (\<lambda>view.
                Inr (stored, Some view))
         else Inr (stored, None)))"

text \<open>The listings mark every configuration that cannot be parsed.\<close>

definition listed_diagnosis ::
    "(error \<Rightarrow> parse_mark) \<Rightarrow> (fs \<Rightarrow> fpath \<Rightarrow> json result) \<Rightarrow> fpath \<Rightarrow> fs \<Rightarrow> string \<Rightarrow> diagnosis result" where
  "listed_diagnosis mark load base fs path =
     (case stored_document load base path fs of
        Inr _ \<Rightarrow> Inr generic_valid
      | Inl err \<Rightarrow>
          if list_ex (\<lambda>cls. is_a cls err) [''OSError'', ''TypeError'', ''ValueError'']
          then Inr (fst (syntax_error_diagnosis (error_text err) (mark err))) else Inl err)"

definition config_files ::
    "(error \<Rightarrow> parse_mark) \<Rightarrow> (fs \<Rightarrow> fpath \<Rightarrow> json result) \<Rightarrow> fpath \<Rightarrow> fs \<Rightarrow> http + string list \<times> (string, diagnosis) dict" where
  "config_files mark load base fs =
     (let items = config_list base fs
      in attempt [] (bindR (mapR (\<lambda>path. bindR (listed_diagnosis mark load base fs path) (\<lambda>dg. Inr (path, dg))) items)
           (\<lambda>diagnostics. Inr (items, diagnostics))))"

definition workspace_listing ::
    "(error \<Rightarrow> parse_mark) \<Rightarrow> (fs \<Rightarrow> fpath \<Rightarrow> json result) \<Rightarrow> fpath \<Rightarrow> fs \<Rightarrow> http + workspace_entry list \<times> (string, diagnosis) dict" where
  "workspace_listing mark load base fs =
     (let entries = workspace_entries base fs;
          files = filter (\<lambda>path. starts_with path ''config/'') (map we_path (filter (\<lambda>en. we_kind en = ''file'') entries))
      in attempt [] (bindR (mapR (\<lambda>path. bindR (listed_diagnosis mark load (base @ [''config'']) fs (after_slash path)) (\<lambda>dg. Inr (path, dg))) files)
           (\<lambda>diagnostics. Inr (entries, diagnostics))))"

text \<open>The configurations used last that are still there, with the name and the labels they give themselves.\<close>

record recent_item =
  rn_path :: string
  rn_name :: string
  rn_labels :: "string list"
  rn_last_used_at :: string

definition recent_names :: "string \<Rightarrow> json \<Rightarrow> (string \<times> string list) result" where
  "recent_names fallback document =
     (case document of
        JObj d \<Rightarrow>
          Inr (case map_of d ''name'' of Some (JStr s) \<Rightarrow> if strip s \<noteq> [] then strip s else fallback | _ \<Rightarrow> fallback,
               case map_of d ''labels'' of Some (JList items) \<Rightarrow> List.map_filter as_str items | _ \<Rightarrow> [])
      | _ \<Rightarrow> Inl (AttributeError ''get''))"

definition recent_entry ::
    "(fs \<Rightarrow> fpath \<Rightarrow> json result) \<Rightarrow> fpath \<Rightarrow> fs \<Rightarrow> string \<times> string \<Rightarrow> recent_item result" where
  "recent_entry load base fs usage =
     (case usage of (path, used) \<Rightarrow>
        let fallback = (case parts_of (parse_path path) of [] \<Rightarrow> [] | parts \<Rightarrow> last parts)
        in bindR (case bindR (stored_document load base path fs) (recent_names fallback) of
                    Inr found \<Rightarrow> Inr found
                  | Inl err \<Rightarrow>
                      if list_ex (\<lambda>cls. is_a cls err) [''OSError'', ''TypeError'', ''ValueError''] then Inr (fallback, []) else Inl err)
             (\<lambda>(name, labels). Inr \<lparr>rn_path = ''config/'' @ path, rn_name = name, rn_labels = labels, rn_last_used_at = used\<rparr>))"

definition recent_configurations ::
    "(fs \<Rightarrow> fpath \<Rightarrow> json result) \<Rightarrow> fpath \<Rightarrow> fs \<Rightarrow> db \<Rightarrow> http + recent_item list" where
  "recent_configurations load base fs d =
     attempt [] (mapR (recent_entry load base fs)
       (filter (\<lambda>(path, _). path \<in> set (config_list base fs)) (list_recent_configurations d)))"

end
