(* ===== verification/LF_Streams.thy ===== *)
theory LF_Streams
  imports LF_Api
begin

text \<open>
  The streams of the HTTP interface: events as server-sent events and over a socket, and the
  terminal socket, which sends a log in blocks and waits for the browser to acknowledge each
  (\<open>events\<close>, \<open>event_socket\<close> and \<open>terminal\<close> in \<^verbatim>\<open>src/src/localflow/api.py\<close>).

  One definition is one round of a loop: what is sent between two waits. What the database, the
  log and the browser look like in a round are its arguments.
\<close>

section \<open>Events\<close>

definition initial_event_cursor :: "nat option \<Rightarrow> string option \<Rightarrow> db \<Rightarrow> nat" where
  "initial_event_cursor since last_event_id d =
     (case since of
        Some n \<Rightarrow> n
      | None \<Rightarrow>
          (case given_key last_event_id of
             None \<Rightarrow> latest_event_id d
           | Some s \<Rightarrow> (case py_int s of Some i \<Rightarrow> nat (max 0 i) | None \<Rightarrow> latest_event_id d)))"

text \<open>Readers without full access are told the state of the task and nothing else.\<close>

definition safe_data :: "bool \<Rightarrow> string \<Rightarrow> event \<Rightarrow> (string, ev_value) dict" where
  "safe_data admin mode ev =
     (if admin \<or> mode = ''readonly'' then e_data ev
      else [(''state'', case map_of (e_data ev) ''state'' of Some v \<Rightarrow> v | None \<Rightarrow> EV JNull)])"

definition event_body :: "bool \<Rightarrow> string \<Rightarrow> event \<Rightarrow> (string, ev_value) dict" where
  "event_body admin mode ev = dict_update [(''task_id'', EV (opt_str (e_task_id ev)))] (safe_data admin mode ev)"

datatype sse = Sse (sse_id: nat) string "(string, ev_value) dict" | Keepalive

definition EVENT_LIMIT :: nat where
  "EVENT_LIMIT = 500"

definition events_round :: "bool \<Rightarrow> string \<Rightarrow> nat \<Rightarrow> db \<Rightarrow> sse list \<times> nat" where
  "events_round admin mode cursor d =
     (case events_after cursor EVENT_LIMIT d of
        [] \<Rightarrow> ([Keepalive], cursor)
      | found \<Rightarrow> (map (\<lambda>ev. Sse (e_id ev) (e_kind ev) (event_body admin mode ev)) found, e_id (last found)))"

fun events_rounds :: "bool \<Rightarrow> string \<Rightarrow> nat \<Rightarrow> db list \<Rightarrow> sse list \<times> nat" where
  "events_rounds admin mode cursor [] = ([], cursor)"
| "events_rounds admin mode cursor (d # ds) =
     (case events_round admin mode cursor d of (sent, c) \<Rightarrow>
      case events_rounds admin mode c ds of (later, c') \<Rightarrow> (sent @ later, c'))"

text \<open>
  The socket checks the identity again before every event: \<open>admin ev\<close> is what it finds before
  it sends \<open>ev\<close>.
\<close>

datatype ws_frame = Ready nat | Event nat string "(string, ev_value) dict" | Heartbeat | Close nat

definition socket_admitted :: "bool \<Rightarrow> string \<Rightarrow> bool" where
  "socket_admitted admin mode \<longleftrightarrow> admin \<or> mode \<noteq> ''disabled''"

definition event_socket_open :: "digest \<Rightarrow> string \<Rightarrow> request \<Rightarrow> string option \<Rightarrow> auth \<Rightarrow> db \<Rightarrow> (ws_frame list \<times> nat option) result" where
  "event_socket_open hmac mode rq since a d =
     (let scheme = (if rq_scheme rq = ''wss'' then ''https'' else ''http'')
      in if header ''origin'' rq \<noteq> scheme @ ''://'' @ header ''host'' rq then Inr ([Close 4403], None)
         else bindR (is_websocket_admin hmac rq a) (\<lambda>admin.
           if \<not> socket_admitted admin mode then Inr ([Close 4403], None)
           else case since of
             None \<Rightarrow> Inr ([Ready (latest_event_id d)], Some (latest_event_id d))
           | Some s \<Rightarrow>
               (case py_int s of
                  None \<Rightarrow> Inr ([Close 4400], None)
                | Some n \<Rightarrow> if n < 0 then Inr ([Close 4400], None) else Inr ([Ready (nat n)], Some (nat n)))))"

fun send_events :: "(event \<Rightarrow> bool) \<Rightarrow> string \<Rightarrow> nat \<Rightarrow> event list \<Rightarrow> ws_frame list \<times> nat option" where
  "send_events admin mode cursor [] = ([], Some cursor)"
| "send_events admin mode cursor (ev # evs) =
     (if \<not> socket_admitted (admin ev) mode then ([Close 4403], None)
      else case send_events admin mode (e_id ev) evs of
             (frames, c) \<Rightarrow> (Event (e_id ev) (e_kind ev) (event_body (admin ev) mode ev) # frames, c))"

definition socket_round :: "bool \<Rightarrow> (event \<Rightarrow> bool) \<Rightarrow> string \<Rightarrow> nat \<Rightarrow> db \<Rightarrow> ws_frame list \<times> nat option" where
  "socket_round admin0 admin mode cursor d =
     (if \<not> socket_admitted admin0 mode then ([Close 4403], None)
      else case send_events admin mode cursor (events_after cursor EVENT_LIMIT d) of
             (frames, None) \<Rightarrow> (frames, None)
           | (frames, Some c) \<Rightarrow> (frames @ [Heartbeat], Some c))"

section \<open>The terminal socket\<close>

record tsock =
  tk_offset :: int
  tk_end :: "int option"
  tk_awaiting_ack :: bool
  tk_caught_up :: bool

datatype tframe =
    T_window int int
  | T_output string int "string option"
  | T_caught_up int "string option"
  | T_error string
  | T_close nat

record terminal_query =
  tq_offset :: "string option"
  tq_end :: "string option"
  tq_window :: "string option"
  tq_columns :: "string option"
  tq_direction :: "string option"
  tq_hit :: "string option"

definition param :: "string option \<Rightarrow> string \<Rightarrow> string" where
  "param v dflt = (case v of Some s \<Rightarrow> s | None \<Rightarrow> dflt)"

definition int_param :: "string \<Rightarrow> int result" where
  "int_param s = (case py_int s of Some i \<Rightarrow> Inr i | None \<Rightarrow> Inl (ValueError ''invalid literal for int()''))"

definition opt_param :: "string option \<Rightarrow> int option result" where
  "opt_param v = (case v of None \<Rightarrow> Inr None | Some s \<Rightarrow> bindR (int_param s) (\<lambda>i. Inr (Some i)))"

definition new_tsock :: "int \<Rightarrow> int option \<Rightarrow> tsock" where
  "new_tsock offset stop = \<lparr>tk_offset = offset, tk_end = stop, tk_awaiting_ack = False, tk_caught_up = False\<rparr>"

text \<open>The offsets of the query, narrowed to a window of rows when the browser asks for one.\<close>

definition terminal_range :: "site \<Rightarrow> string \<Rightarrow> terminal_query \<Rightarrow> svc \<Rightarrow> (tframe list \<times> tsock) result" where
  "terminal_range site task_id q s =
     bindR (int_param (param (tq_offset q) ''0'')) (\<lambda>first.
     bindR (opt_param (tq_end q)) (\<lambda>last_byte.
       let offset = max 0 first;
           end_offset = map_option (max offset) last_byte
       in if tq_window q \<noteq> Some ''rows'' then Inr ([], new_tsock offset end_offset)
          else
            bindR (int_param (param (tq_columns q) ''80'')) (\<lambda>columns.
            bindR (opt_param (tq_hit q)) (\<lambda>hit.
            bindR (fst (get_task task_id (sv_db s))) (\<lambda>_.
              let ar = si_archive site task_id;
                  whole = (case ar_log ar of Some content \<Rightarrow> int (length content) | None \<Rightarrow> 0);
                  stop = (case end_offset of Some e \<Rightarrow> e | None \<Rightarrow> whole)
              in case terminal_window ar offset stop columns (param (tq_direction q) ''tail'') hit of
                   (first, bound) \<Rightarrow>
                     Inr ([T_window first bound], new_tsock first (map_option (\<lambda>_. bound) end_offset)))))))"

definition terminal_open :: "bool \<Rightarrow> string \<Rightarrow> site \<Rightarrow> string \<Rightarrow> terminal_query \<Rightarrow> svc \<Rightarrow> (tframe list \<times> tsock option) result" where
  "terminal_open admin mode site task_id q s =
     (if \<not> admin \<and> (mode = ''disabled'' \<or> mode = ''summary'') then Inr ([T_close 4403], None)
      else case terminal_range site task_id q s of
        Inr (frames, k) \<Rightarrow> Inr (frames, Some k)
      | Inl err \<Rightarrow> if is_a ''ValueError'' err then Inr ([T_close 4400], None) else Inl err)"

text \<open>
  A message of the browser: an acknowledgement, input (its decoded bytes, when they decode), a size
  (when both numbers convert), any other type, a text that is not JSON, a JSON value that is not an object, or none in time. The
  last but one has no \<open>get\<close> and ends the loop with an error that no handler catches.
\<close>

datatype message = M_ack | M_input "string option" | M_resize "(int \<times> int) option" | M_other | M_invalid | M_no_object | M_none

record round =
  rd_svc :: svc
  rd_archive :: archive
  rd_updated :: string
  rd_shutdown :: bool
  rd_message :: message
  rd_taken :: bool

definition BLOCK :: int where
  "BLOCK = 65536"

definition wants_data :: "tsock \<Rightarrow> bool" where
  "wants_data k \<longleftrightarrow> \<not> tk_awaiting_ack k \<and> (case tk_end k of None \<Rightarrow> True | Some e \<Rightarrow> tk_offset k < e)"

definition block_limit :: "tsock \<Rightarrow> int" where
  "block_limit k = (case tk_end k of None \<Rightarrow> BLOCK | Some e \<Rightarrow> min BLOCK (e - tk_offset k))"

definition terminal_send :: "archive \<Rightarrow> string \<Rightarrow> tsock \<Rightarrow> tframe list \<times> tsock" where
  "terminal_send ar updated k =
     (let (data, offset) = (if wants_data k then read_log ar (tk_offset k) (block_limit k) else ([], tk_offset k));
          k = k\<lparr>tk_offset := offset\<rparr>;
          changed = map_option (\<lambda>_. updated) (ar_log ar)
      in if data \<noteq> [] then ([T_output (b64encode data) offset changed], k\<lparr>tk_awaiting_ack := True\<rparr>)
         else if \<not> tk_caught_up k then ([T_caught_up offset changed], k\<lparr>tk_caught_up := True\<rparr>)
         else ([], k))"

definition rejected :: "bool \<Rightarrow> string \<Rightarrow> tframe list" where
  "rejected ok text = (if ok then [] else [T_error text])"

text \<open>A task that is gone ends the loop.\<close>

definition terminal_receive :: "bool \<Rightarrow> string \<Rightarrow> round \<Rightarrow> tsock \<Rightarrow> tframe list \<times> tsock option" where
  "terminal_receive admin task_id rd k =
     (case rd_message rd of
        M_none \<Rightarrow> ([], Some k)
      | M_ack \<Rightarrow> ([], Some (k\<lparr>tk_awaiting_ack := False\<rparr>))
      | M_other \<Rightarrow> ([], Some k)
      | M_invalid \<Rightarrow> ([T_error ''invalid terminal message''], Some k)
      | M_no_object \<Rightarrow> ([], None)
      | M_input data \<Rightarrow>
          if \<not> admin then ([T_error ''read-only terminal''], Some k)
          else (case data of
            None \<Rightarrow> ([T_error ''invalid terminal message''], Some k)
          | Some bytes \<Rightarrow>
              if 65536 < length bytes then ([T_error ''terminal input rejected''], Some k)
              else (case fst (write_terminal task_id (rd_taken rd) (rd_svc rd)) of
                      Inr ok \<Rightarrow> (rejected ok ''terminal input rejected'', Some k)
                    | Inl _ \<Rightarrow> ([], None)))
      | M_resize dims \<Rightarrow>
          if \<not> admin then ([T_error ''read-only terminal''], Some k)
          else (case dims of
            None \<Rightarrow> ([T_error ''invalid terminal message''], Some k)
          | Some (rows, cols) \<Rightarrow>
              (case fst (resize_terminal task_id rows cols (rd_taken rd) (rd_svc rd)) of
                 Inr ok \<Rightarrow> (rejected ok ''terminal resize rejected'', Some k)
               | Inl _ \<Rightarrow> ([], None))))"

definition terminal_round :: "bool \<Rightarrow> string \<Rightarrow> round \<Rightarrow> tsock \<Rightarrow> tframe list \<times> tsock option" where
  "terminal_round admin task_id rd k =
     (if rd_shutdown rd then ([T_close 1001], None)
      else if wants_data k \<and> isl (fst (get_task task_id (sv_db (rd_svc rd)))) then ([], None)
      else case terminal_send (rd_archive rd) (rd_updated rd) k of (sent, k) \<Rightarrow>
           case terminal_receive admin task_id rd k of (answers, k') \<Rightarrow> (sent @ answers, k'))"

fun terminal_rounds :: "bool \<Rightarrow> string \<Rightarrow> round list \<Rightarrow> tsock \<Rightarrow> tframe list \<times> tsock option" where
  "terminal_rounds admin task_id [] k = ([], Some k)"
| "terminal_rounds admin task_id (rd # rds) k =
     (case terminal_round admin task_id rd k of
        (frames, None) \<Rightarrow> (frames, None)
      | (frames, Some k') \<Rightarrow> (case terminal_rounds admin task_id rds k' of (later, k'') \<Rightarrow> (frames @ later, k'')))"

end
