(* ===== verification/LF_Api_Facts.thy ===== *)
theory LF_Api_Facts
  imports LF_Api LF_Diagnostics_Facts
begin

text \<open>
  What the HTTP interface promises: the pages of the task list, single creation under an
  idempotency key, plans that show what a run stores, what a summary reader sees, and the inputs
  that make an endpoint fail.
\<close>

section \<open>Endpoints\<close>

lemma bindE_simps [simp]:
  "bindE (retE a) f s = f a s"
  "bindE (failE e) f s = (Inl e, s)"
  "bindE (liftE (Inr a)) f s = f a s"
  "bindE (liftE (Inl e)) f s = (Inl e, s)"
  by (simp_all add: bindE_def retE_def failE_def liftE_def)

lemma endpoint_simps [simp]:
  "retE a s = (Inr a, s)" "failE e s = (Inl e, s)" "liftE r s = (r, s)"
  "attempt hs (Inr v) = Inr v" "attempt hs (Inl err) = Inl (handled hs err)"
  by (simp_all add: retE_def failE_def liftE_def attempt_def)

lemma bindE_Inr_iff:
  "bindE m f s = (Inr b, t) \<longleftrightarrow> (\<exists>a u. m s = (Inr a, u) \<and> f a u = (Inr b, t))"
  by (auto simp: bindE_def split: prod.splits sum.splits)

lemma attempt_Inr_iff [simp]: "attempt hs r = Inr v \<longleftrightarrow> r = Inr v"
  by (cases r) simp_all

lemma trying_Inr_iff: "trying hs f s = (Inr a, t) \<longleftrightarrow> f s = (Inr a, t)"
  by (cases "f s") (simp add: trying_def)

lemma trying_result: "f s = (r, t) \<Longrightarrow> trying hs f s = (attempt hs r, t)"
  by (simp add: trying_def)

section \<open>Pages of the task list\<close>

text \<open>What the endpoints rely on of the JSON library: a list of two texts is read back as written.\<close>

definition json_codec :: "site \<Rightarrow> bool" where
  "json_codec site \<longleftrightarrow> (\<forall>a b. si_dumps site [a, b] \<noteq> [] \<and> si_loads site (si_dumps site [a, b]) = Inr (JList [JStr a, JStr b]))"

lemma cursor_round_trip:
  assumes "json_codec site"
  shows "decode_cursor (si_loads site) (Some (encode_cursor (si_dumps site) r)) = Inr (Some (row_key r))"
proof -
  let ?text = "si_dumps site [r_created_at r, r_id r]"
  have ne: "encode_cursor (si_dumps site) r \<noteq> []"
    using assms by (simp add: encode_cursor_def rstrip_encoded_nonempty json_codec_def)
  have "bindR (urlsafe_b64decode (padded (encode_cursor (si_dumps site) r))) (si_loads site)
      = Inr (JList [JStr (r_created_at r), JStr (r_id r)])"
    using assms by (simp add: encode_cursor_def urlsafe_round_trip json_codec_def)
  with ne show ?thesis
    by (cases "encode_cursor (si_dumps site) r") (simp_all add: decode_cursor_def row_key_def)
qed

text \<open>The tasks that match, newest first.\<close>

definition matching :: "task_query \<Rightarrow> db \<Rightarrow> task_row list" where
  "matching q d = rev (sort_key row_key (filter (query_matches (q\<lparr>q_before := None, q_after := None\<rparr>)) (db_tasks d)))"

lemma page_request_matches:
  "query_matches (page_request q limit c) r \<longleftrightarrow>
     query_matches (q\<lparr>q_before := None, q_after := None\<rparr>) r \<and> (case c of None \<Rightarrow> True | Some k \<Rightarrow> row_key r < k)"
  by (auto simp: query_matches_def page_request_def row_key_def less_prod_def' split: option.splits)

interpretation newest: keyset_pages "(\<lambda>x y. y < x)" row_key "matching q d"
  "\<lambda>c. select_rows (page_request q limit c) d" "clamp_limit (limit + 1)" for q d limit
proof
  show "\<not> x < y" if "y < x" for x y :: "string \<times> string" using that by simp
  show "0 < clamp_limit (limit + 1)" by (simp add: clamp_limit_def)
  have flags: "q_limit (page_request q limit c) = limit + 1" "\<not> q_ascending (page_request q limit c)" for c
    by (simp_all add: page_request_def)
  show "select_rows (page_request q limit None) d = take (clamp_limit (limit + 1)) (matching q d)"
    by (simp add: select_rows_def flags matching_def page_request_matches[abs_def])
  show "select_rows (page_request q limit (Some k)) d =
      take (clamp_limit (limit + 1)) (filter (\<lambda>r. row_key r < k) (matching q d))" for k
    by (simp add: select_rows_def flags matching_def page_request_matches[abs_def] rev_filter[symmetric] filter_sort conj_commute)
qed

lemma matching_decreasing:
  assumes "db_ok d"
  shows "sorted_wrt (\<lambda>x y. y < x) (map row_key (matching q d))"
proof -
  have "distinct (map r_id (db_tasks d))" using db_ok_distinct[OF assms] .
  then have "distinct (map row_key (filter P (db_tasks d)))" for P
    by (auto simp: distinct_map row_key_def inj_on_def)
  from sort_key_strict[OF this] show ?thesis by (simp add: matching_def rev_map[symmetric] sorted_wrt_rev)
qed

text \<open>A client that asks for the first page and follows the cursors it is given.\<close>

fun follow_pages :: "nat \<Rightarrow> site \<Rightarrow> string \<Rightarrow> task_query \<Rightarrow> int \<Rightarrow> string option \<Rightarrow> svc \<Rightarrow> (item \<times> bool) list option" where
  "follow_pages 0 site role q limit cursor s = None"
| "follow_pages (Suc fuel) site role q limit cursor s =
     (case fst (list_tasks_api site role q limit cursor s) of
        Inl _ \<Rightarrow> None
      | Inr p \<Rightarrow>
          (case pg_next_cursor p of
             None \<Rightarrow> Some (pg_items p)
           | Some c \<Rightarrow> map_option ((@) (pg_items p)) (follow_pages fuel site role q limit (Some c) s)))"

lemma list_tasks_api_page:
  assumes ok: "db_ok (sv_db s)" and limit: "1 \<le> limit" "limit \<le> 200"
    and each: "\<And>r. r \<in> set (db_tasks (sv_db s)) \<Longrightarrow> list_item site role (sv_db s) (shown r) = Inr (g r)"
    and cursor: "decode_cursor (si_loads site) cursor = Inr c"
  shows "list_tasks_api site role q limit cursor s =
    (let found = select_rows (page_request q limit c) (sv_db s)
     in (Inr \<lparr>pg_items = map g (take (nat limit) found),
              pg_next_cursor = (if limit < int (length found)
                then Some (encode_cursor (si_dumps site) (shown (last (take (nat limit) found)))) else None)\<rparr>, s))"
proof -
  let ?found = "select_rows (page_request q limit c) (sv_db s)"
  have sub: "set (take n ?found) \<subseteq> set (db_tasks (sv_db s))" for n
    by (auto simp: select_rows_def Let_def dest!: in_set_takeD split: if_splits)
  have listed: "onDb (list_tasks (page_request q limit c)) s = (Inr (map shown ?found), s)"
    using list_tasks_ok[of "sv_db s"] ok by (simp add: db_ok_def shown_def[abs_def] onDb_def)
  have "mapR (list_item site role (sv_db s)) (map shown xs) = Inr (map g xs)" if "set xs \<subseteq> set (db_tasks (sv_db s))" for xs
    using that each by (induction xs) simp_all
  from this[OF sub] have items: "mapR (list_item site role (sv_db s)) (map shown (take (nat limit) ?found)) = Inr (map g (take (nat limit) ?found))" .
  have "take (nat limit) ?found \<noteq> []" if "limit < int (length ?found)" using that limit by auto
  then show ?thesis
    using limit items
    by (simp add: list_tasks_api_def cursor trying_result[where f = "onDb (list_tasks (page_request q limit c))", OF listed] Let_def take_map last_map bindE_def[of "trying _ _"])
qed

lemma follow_pages_peek:
  assumes ok: "db_ok (sv_db s)" and codec: "json_codec site" and limit: "1 \<le> limit" "limit \<le> 200"
    and each: "\<And>r. r \<in> set (db_tasks (sv_db s)) \<Longrightarrow> list_item site role (sv_db s) (shown r) = Inr (g r)"
    and cursor: "decode_cursor (si_loads site) cursor = Inr c"
  shows "follow_pages fuel site role q limit cursor s = map_option (map g) (newest.peek_all q limit (sv_db s) fuel c)"
  using cursor
proof (induction fuel arbitrary: cursor c)
  case (Suc fuel)
  let ?found = "select_rows (page_request q limit c) (sv_db s)"
  have size: "clamp_limit (limit + 1) = Suc (nat limit)" using limit by (simp add: clamp_limit_def)
  have short: "length ?found \<le> Suc (nat limit)" by (simp add: select_rows_def page_request_def size Let_def)
  note page = list_tasks_api_page[OF ok limit each Suc.prems, where q = q]
  have step: "newest.peek_all q limit (sv_db s) (Suc fuel) c =
      (if length ?found < Suc (nat limit) then Some ?found
       else map_option ((@) (butlast ?found)) (newest.peek_all q limit (sv_db s) fuel (Some (row_key (last (butlast ?found))))))"
    by (subst newest.peek_all.simps(2)) (simp only: size)
  show ?case
  proof (cases "limit < int (length ?found)")
    case False
    then have few: "length ?found < Suc (nat limit)" using limit by linarith
    then have "take (nat limit) ?found = ?found" by simp
    with False page show ?thesis unfolding step by (simp add: Let_def few)
  next
    case True
    then have long: "length ?found = Suc (nat limit)" using short limit by linarith
    then have front: "take (nat limit) ?found = butlast ?found" by (simp add: butlast_conv_take)
    have next_page: "follow_pages fuel site role q limit (Some (encode_cursor (si_dumps site) (shown (last (butlast ?found))))) s
        = map_option (map g) (newest.peek_all q limit (sv_db s) fuel (Some (row_key (last (butlast ?found)))))"
      using Suc.IH cursor_round_trip[OF codec] by simp
    show ?thesis unfolding step using page True long by (simp add: Let_def front next_page option.map_comp comp_def)
  qed
qed simp

text \<open>
  C14. The pages of the task list are complete. A client that asks for the first page and then follows
  the cursors it is given ends, within one page more than there are tasks, with every task that
  matches its filters, once and newest first, whatever page size it asks for. The hypotheses are a
  database built by the store, a JSON library that reads back what it wrote, and tasks that can be
  shown to this reader.
\<close>

theorem task_pages_complete:
  assumes "db_ok (sv_db s)" and "json_codec site" and "1 \<le> limit" and "limit \<le> 200"
    and "\<forall>r \<in> set (db_tasks (sv_db s)). \<exists>p. list_item site role (sv_db s) (shown r) = Inr p"
    and "length (db_tasks (sv_db s)) < fuel"
  shows "\<exists>items. follow_pages fuel site role q limit None s = Some items
    \<and> mapR (list_item site role (sv_db s)) (map shown (matching q (sv_db s))) = Inr items"
proof -
  obtain g where g: "\<And>r. r \<in> set (db_tasks (sv_db s)) \<Longrightarrow> list_item site role (sv_db s) (shown r) = Inr (g r)"
    using assms(5) by metis
  have "length (matching q (sv_db s)) < fuel"
    using assms(6) by (simp add: matching_def le_less_trans[OF length_filter_le])
  moreover have "1 < clamp_limit (limit + 1)" using assms(3) by (simp add: clamp_limit_def)
  ultimately have "newest.peek_all q limit (sv_db s) fuel None = Some (matching q (sv_db s))"
    using newest.peek_all_complete[OF matching_decreasing[OF assms(1)], where seen = "[]" and q = q and rest = "matching q (sv_db s)" and limit = limit]
    by (simp add: newest.cursor_def)
  moreover have "decode_cursor (si_loads site) None = Inr None" by (simp add: decode_cursor_def)
  ultimately have "follow_pages fuel site role q limit None s = Some (map g (matching q (sv_db s)))"
    using follow_pages_peek[OF assms(1-4) g] by simp
  moreover have "mapR (list_item site role (sv_db s)) (map shown xs) = Inr (map g xs)" if "set xs \<subseteq> set (db_tasks (sv_db s))" for xs
    using that g by (induction xs) simp_all
  moreover have "set (matching q (sv_db s)) \<subseteq> set (db_tasks (sv_db s))" by (auto simp: matching_def)
  ultimately show ?thesis by blast
qed

section \<open>One task per idempotency key\<close>

lemma get_task_id: "get_task i d = (Inr r, d') \<Longrightarrow> r_id r = i \<and> d' = d"
  by (auto simp: get_task_def task_of_def bindR_Inr_iff find_row_def find_Some_iff split: option.splits)

lemma create_task_effect:
  assumes "create_task sh clk i t d = (Inr task, d')"
  shows "r_id task = i \<and> db_idem d' = db_idem d \<and> (\<exists>row. db_tasks d' = db_tasks d @ [row] \<and> r_id row = i)"
proof -
  let ?tx = "bindS (materialize_draft sh clk t) (\<lambda>t.
       bindS (liftS (display_status (td_plugin_snapshot t) QUEUED None None)) (\<lambda>status.
       bindS (tick clk) (\<lambda>now.
       bindS (insert_task (new_row i t (i_iso now) status)) (\<lambda>_.
         add_event clk (Some i) ''task.queued'' [(''state'', EV (JStr ''queued''))]))))"
  obtain n d1 where tx: "transaction ?tx d = (Inr n, d1)" and rec: "get_task i d1 = (Inr task, d')"
    using assms unfolding create_task_def bindS_Inr_iff by blast
  have "?tx d = (Inr n, d1)" using tx by (auto simp: transaction_def split: prod.splits sum.splits)
  then obtain v d2 st now d3 d4 where m: "materialize_draft sh clk t d = (Inr v, d2)"
    and now: "tick clk d2 = (Inr now, d3)" and ins: "insert_task (new_row i v (i_iso now) st) d3 = (Inr (), d4)"
    and ev: "add_event clk (Some i) ''task.queued'' [(''state'', EV (JStr ''queued''))] d4 = (Inr n, d1)"
    by (auto simp: bindS_Inr_iff liftS_def)
  have "db_tasks d2 = db_tasks d" "db_idem d2 = db_idem d" using materialize_frame[OF m] by (simp_all add: same_tables_def)
  moreover have "db_tasks d3 = db_tasks d2" "db_idem d3 = db_idem d2" using now by (auto simp: tick_def)
  moreover have "db_tasks d4 = db_tasks d3 @ [new_row i v (i_iso now) st]" "db_idem d4 = db_idem d3"
    using ins by (auto simp: insert_task_def split: if_splits)
  moreover have "db_tasks d1 = db_tasks d4" "db_idem d1 = db_idem d4" using ev by (auto simp: add_event_def bindS_def tick_def)
  ultimately show ?thesis using get_task_id[OF rec] by (simp add: new_row_def)
qed

lemma submit_effect:
  assumes "submit e i t s = (Inr task, s')"
  shows "r_id task = i \<and> db_idem (sv_db s') = db_idem (sv_db s)
    \<and> (\<exists>row. db_tasks (sv_db s') = db_tasks (sv_db s) @ [row] \<and> r_id row = i)"
proof -
  obtain t' where t': "bindS (onDb (create_task (en_sh e) (en_clock e) i t')) (\<lambda>task. bindS wake (\<lambda>_. retS task)) s = (Inr task, s')"
    using assms unfolding submit_def bindS_Inr_iff liftS_def by blast
  obtain x d where d: "create_task (en_sh e) (en_clock e) i t' (sv_db s) = (x, d)" by fastforce
  with t' have "x = Inr task" "sv_db s' = d"
    by (auto simp: bindS_def onDb_def wake_def upd_def retS_def split: sum.splits)
  with d show ?thesis using create_task_effect by metis
qed

lemma idempotency_put_new:
  assumes "find_idem actor route k d = None" and "idempotency_put clk actor route k response d = (x, d')"
  shows "db_tasks d' = db_tasks d \<and> idempotency_get actor route k d' = Some response"
  using assms
  by (auto simp: idempotency_put_def bindS_def tick_def insert_idem_def find_idem_def idempotency_get_def find_append)

lemma replayed_created: "replayed (created_body task) = Inr \<lparr>rc_body = created_body task, rc_location = Some (task_href (r_id task))\<rparr>"
  by (simp add: replayed_def created_body_def task_receipt_def jget_def dict_has_def task_href_def)

text \<open>
  C13. A request with an idempotency key creates one task. The first request stores its answer with
  the task it queued; as long as the answer is kept, every further request of the same client with
  this key, whatever it asks for, gets the same answer and changes nothing.
\<close>

theorem task_created_once:
  assumes "create_task_api e i (Some k) payload actor s = (Inr r, s')" and "k \<noteq> []"
    and "idempotency_get actor TASKS_ROUTE k (sv_db s) = None"
  shows "(\<exists>row. db_tasks (sv_db s') = db_tasks (sv_db s) @ [row] \<and> r_id row = i \<and> rc_location r = Some (task_href i))
    \<and> idempotency_get actor TASKS_ROUTE k (sv_db s') = Some (rc_body r)
    \<and> (\<forall>t e' j other. idempotency_get actor TASKS_ROUTE k (sv_db t) = Some (rc_body r)
        \<longrightarrow> create_task_api e' j (Some k) other actor t = (Inr r, t))"
proof -
  have key: "given_key (Some k) = Some k" using assms(2) by (simp add: given_key_def)
  obtain task s1 x where sub: "submit e i payload s = (Inr task, s1)"
    and put: "onDb (idempotency_put (en_clock e) actor TASKS_ROUTE k (created_body task)) s1 = (Inr x, s')"
    and r: "r = \<lparr>rc_body = created_body task, rc_location = Some (task_href (r_id task))\<rparr>"
    using assms(1,3) by (auto simp: create_task_api_def key bindE_Inr_iff trying_Inr_iff)
  note effect = submit_effect[OF sub]
  have free: "find_idem actor TASKS_ROUTE k (sv_db s1) = None"
    using assms(3) effect by (simp add: idempotency_get_def find_idem_def)
  obtain d' where "idempotency_put (en_clock e) actor TASKS_ROUTE k (created_body task) (sv_db s1) = (Inr x, d')" "sv_db s' = d'"
    using put by (auto simp: onDb_def split: prod.splits)
  with idempotency_put_new[OF free] have stored: "db_tasks (sv_db s') = db_tasks (sv_db s1)"
    "idempotency_get actor TASKS_ROUTE k (sv_db s') = Some (rc_body r)" by (simp_all add: r)
  have body: "rc_body r = (''task_id'', JStr (r_id task)) # tl (created_body task)" by (simp add: r created_body_def)
  have "create_task_api e' j (Some k) other actor t = (Inr r, t)"
    if "idempotency_get actor TASKS_ROUTE k (sv_db t) = Some (rc_body r)" for t e' j other
  proof -
    have "replayed (rc_body r) = Inr r" by (simp add: r replayed_created)
    then show ?thesis using that by (simp add: create_task_api_def key body)
  qed
  with effect stored show ?thesis by (auto simp: r)
qed

section \<open>Malformed source entries\<close>

text \<open>
  The entries of \<open>custom\<close> that a projection reads: iterable values, and invocations that carry a
  statement, or a path with arguments that can be iterated over.
\<close>

definition iterable :: "json \<Rightarrow> bool" where
  "iterable j \<longleftrightarrow> (case j of JList _ \<Rightarrow> True | JStr _ \<Rightarrow> True | JObj _ \<Rightarrow> True | _ \<Rightarrow> False)"

definition invocation_ok :: "json \<Rightarrow> bool" where
  "invocation_ok j \<longleftrightarrow>
     (case j of JObj d \<Rightarrow> dict_has ''statement'' d \<or> (dict_has ''path'' d \<and> iterable (jget ''arguments'' d (JList [])))
      | _ \<Rightarrow> False)"

definition sources_ok :: "jdict \<Rightarrow> bool" where
  "sources_ok custom \<longleftrightarrow>
     iterable (jget ''_source_files'' custom (JList []))
     \<and> (case jget ''_source_invocations'' custom (JList []) of
          JList items \<Rightarrow> list_all invocation_ok items
        | JStr s \<Rightarrow> s = []
        | JObj d \<Rightarrow> d = []
        | _ \<Rightarrow> False)"

lemma py_iter_ok: "(\<exists>xs. py_iter j = Inr xs) \<longleftrightarrow> iterable j"
  by (cases j) (simp_all add: py_iter_def iterable_def)

lemma invocation_text_ok: "(\<exists>t. invocation_text j = Inr t) \<longleftrightarrow> invocation_ok j"
proof (cases j)
  case (JObj d)
  show ?thesis
    using py_iter_ok[of "jget ''arguments'' d (JList [])"]
    by (auto simp: JObj invocation_text_def invocation_ok_def dict_has_iff bindR_Inr_iff split: option.splits)
qed (simp_all add: invocation_text_def invocation_ok_def)

lemma not_invocation: "\<not> invocation_ok (JStr x)" "\<not> invocation_ok (case p of (k, v) \<Rightarrow> JStr k)"
  by (simp_all add: invocation_ok_def split: prod.split)

lemma no_pairs: "(\<forall>a b. (a, b) \<notin> set xs) \<longleftrightarrow> xs = []"
  by (cases xs) auto

lemma mapR_ok: "(\<exists>ys. mapR f xs = Inr ys) \<longleftrightarrow> (\<forall>x \<in> set xs. \<exists>y. f x = Inr y)"
  by (induction xs) (auto simp: bindR_Inr_iff)

lemma detail_ok: "(\<exists>d. detail site task = Inr d) \<longleftrightarrow> sources_ok (r_custom task)"
proof -
  let ?files = "jget ''_source_files'' (r_custom task) (JList [])"
  let ?calls = "jget ''_source_invocations'' (r_custom task) (JList [])"
  have calls: "(\<exists>xs. py_iter ?calls = Inr xs \<and> (\<exists>ts. mapR invocation_text xs = Inr ts)) \<longleftrightarrow>
      (case ?calls of JList items \<Rightarrow> list_all invocation_ok items | JStr s \<Rightarrow> s = [] | JObj d \<Rightarrow> d = [] | _ \<Rightarrow> False)"
    by (cases ?calls) (auto simp: py_iter_def mapR_ok invocation_text_ok list_all_iff not_invocation no_pairs)
  have "(\<exists>d. detail site task = Inr d) \<longleftrightarrow>
      (\<exists>xs. py_iter ?files = Inr xs) \<and> (\<exists>xs. py_iter ?calls = Inr xs \<and> (\<exists>ts. mapR invocation_text xs = Inr ts))"
    by (auto simp: detail_def bindR_Inr_iff Let_def)
  then show ?thesis by (simp only: py_iter_ok calls sources_ok_def)
qed

lemma mapR_fails: "x \<in> set xs \<Longrightarrow> (\<And>y. f x \<noteq> Inr y) \<Longrightarrow> \<exists>err. mapR f xs = Inl err"
  using mapR_ok[of f xs] by (cases "mapR f xs") auto

text \<open>
  C40. A task can be shown in full exactly when the source entries of its \<open>custom\<close> values are well
  formed. Nothing checks them on submission, and one task that is not well formed makes every page
  that contains it fail for a reader with full access.
\<close>

theorem malformed_custom_breaks_list:
  assumes "db_ok (sv_db s)" and "role \<in> set FULL_READERS" and "1 \<le> limit" and "limit \<le> 200"
    and "decode_cursor (si_loads site) cursor = Inr c"
    and "r \<in> set (take (nat limit) (select_rows (page_request q limit c) (sv_db s)))"
  shows "((\<exists>d. detail site r = Inr d) \<longleftrightarrow> sources_ok (r_custom r))
    \<and> (\<not> sources_ok (r_custom r) \<longrightarrow> (\<exists>err. list_tasks_api site role q limit cursor s = (Inl (Raised err), s)))"
proof (intro conjI impI)
  show "(\<exists>d. detail site r = Inr d) \<longleftrightarrow> sources_ok (r_custom r)" by (rule detail_ok)
  assume bad: "\<not> sources_ok (r_custom r)"
  let ?found = "select_rows (page_request q limit c) (sv_db s)"
  have listed: "onDb (list_tasks (page_request q limit c)) s = (Inr (map shown ?found), s)"
    using list_tasks_ok[of "sv_db s"] assms(1) by (simp add: db_ok_def shown_def[abs_def] onDb_def)
  have "r_custom (shown r) = r_custom r" by (simp add: shown_def)
  then have "list_item site role (sv_db s) (shown r) \<noteq> Inr y" for y
    using bad detail_ok[of site "shown r"] assms(2) by (auto simp: list_item_def show_task_def bindR_Inr_iff)
  moreover have "shown r \<in> set (take (nat limit) (map shown ?found))" using assms(6) by (auto simp: take_map)
  ultimately obtain err where "mapR (list_item site role (sv_db s)) (take (nat limit) (map shown ?found)) = Inl err"
    using mapR_fails[of "shown r" _ "list_item site role (sv_db s)"] by blast
  then have "list_tasks_api site role q limit cursor s = (Inl (Raised err), s)"
    using assms(3-5)
    by (simp add: list_tasks_api_def trying_result[where f = "onDb (list_tasks (page_request q limit c))", OF listed]
        Let_def bindE_def[of "trying _ _"])
  then show "\<exists>err. list_tasks_api site role q limit cursor s = (Inl (Raised err), s)" by blast
qed

section \<open>What a summary reader sees\<close>

definition anonymous :: "digest \<Rightarrow> (string \<Rightarrow> string) \<Rightarrow> readings \<Rightarrow> request \<Rightarrow> auth \<Rightarrow> bool" where
  "anonymous hmac sha t rq a \<longleftrightarrow>
     is_admin hmac rq a = Inr False \<and> fst (is_signed hmac sha t rq a) = Inr False
     \<and> list_all (\<lambda>name. header name rq = []) SIGNED_HEADERS"

lemma anonymous_role:
  assumes "anonymous hmac sha t rq a" and "mode \<noteq> ''disabled''"
  shows "fst (guarded (can_read hmac sha t mode rq) body (a, s)) = fst (body mode s)"
proof -
  obtain a' where "is_signed hmac sha t rq a = (Inr False, a')"
    using assms(1) by (cases "is_signed hmac sha t rq a") (simp add: anonymous_def)
  with assms have "can_read hmac sha t mode rq a = (Inr mode, a')"
    by (simp add: anonymous_def can_read_def list_all_iff list_ex_iff)
  then show ?thesis by (simp add: guarded_def split: prod.split)
qed

lemma show_summary: "show_task site ''summary'' task = Inr (Summary (summary task))"
  by (simp add: show_task_def FULL_READERS_def)

lemma summary_page:
  assumes "fst (list_tasks_api site ''summary'' q limit cursor s) = Inr p"
  shows "list_all (\<lambda>(it, newly). \<not> newly \<and> (\<exists>task. it = Summary (summary task))) (pg_items p)"
proof -
  obtain tasks where "mapR (list_item site ''summary'' (sv_db s)) tasks = Inr (pg_items p)"
  proof -
    obtain t where "list_tasks_api site ''summary'' q limit cursor s = (Inr p, t)"
      using assms by (cases "list_tasks_api site ''summary'' q limit cursor s") simp
    then obtain before tasks u where "trying [] (onDb (list_tasks (page_request q limit before))) s = (Inr tasks, u)"
      "mapR (list_item site ''summary'' (sv_db u)) (take (nat limit) tasks) = Inr (pg_items p)"
      by (auto simp: list_tasks_api_def bindE_Inr_iff Let_def split: if_splits)
    moreover from this(1) have "u = s" by (auto simp: trying_def onDb_def list_tasks_def)
    ultimately show thesis using that by simp
  qed
  then have "list_all2 (\<lambda>task p. list_item site ''summary'' (sv_db s) task = Inr p) tasks (pg_items p)"
    by (simp add: mapR_Inr_list_all2)
  then show ?thesis
    by (auto simp: list_all2_conv_all_nth list_all_length list_item_def show_summary newly_completed_def) (metis old.prod.inject)
qed

text \<open>
  C18. Without a session or a signature, and with access limited to summaries, a client sees of the
  tasks only their summaries, in the list and one by one, and is refused a log and its download. The batch endpoint is different: it answers
  such a client as anyone else, with the values the batch was submitted with.
\<close>

theorem summary_reader_sees_summaries:
  assumes "anonymous hmac sha t rq a"
  shows "(\<forall>p. fst (guarded (can_read hmac sha t ''summary'' rq) (\<lambda>role. list_tasks_api site role q limit cursor) (a, s)) = Inr p
        \<longrightarrow> list_all (\<lambda>(it, newly). \<not> newly \<and> (\<exists>task. it = Summary (summary task))) (pg_items p))
    \<and> (\<forall>it. fst (guarded (can_read hmac sha t ''summary'' rq) (get_task_api site i) (a, s)) = Inr it
        \<longrightarrow> (\<exists>task. it = Summary (summary task)))
    \<and> fst (guarded (can_read hmac sha t ''summary'' rq) (logs_api site i offset limit) (a, s))
        = Inl (Http 403 ''logs require full read access'')
    \<and> fst (guarded (can_read hmac sha t ''summary'' rq) (download_log site i) (a, s))
        = Inl (Http 403 ''logs require full read access'')
    \<and> fst (guarded (can_read hmac sha t ''summary'' rq) (get_batch_api b) (a, s))
        = attempt (not_found ''batch not found'') (get_batch b (sv_db s))"
proof -
  note role = anonymous_role[OF assms, of "''summary''"]
  have "\<exists>task. it = Summary (summary task)" if "fst (get_task_api site i ''summary'' s) = Inr it" for it
    using that by (auto simp: get_task_api_def bindE_def show_summary trying_def split: prod.splits sum.splits)
  then show ?thesis
    by (simp add: role summary_page logs_api_def download_log_def full_reader_def get_batch_api_def)
qed

section \<open>Documents that break an endpoint\<close>

text \<open>
  The view of a stored configuration fails exactly when its plugin is given as a list or an object
  that is not empty: the lookup among the loaded plugins needs a hash.
\<close>

theorem config_view_needs_text_plugin:
  assumes "config_read sha base path fs = Inr stored" and "stored_document load base path fs = Inr document"
    and "diagnosed_document h (Inr document) = Inr (document, run, resolved)"
  shows "(\<exists>answer. config_read_api h mark load sha base path fs = Inr answer) \<longleftrightarrow>
    \<not> (truthy (plugin_entry document) \<and> (case plugin_entry document of JList _ \<Rightarrow> True | JObj _ \<Rightarrow> True | _ \<Rightarrow> False))"
proof -
  obtain view where view: "view_document h mark (Inr document) = Inr view" "vw_plugin view = plugin_entry document"
    using assms(3) by (simp add: view_document_def)
  show ?thesis
    by (cases "plugin_entry document")
      (auto simp: config_read_api_def assms(1,2) view plugin_loaded_def bindR_Inr_iff)
qed

text \<open>
  The list of recent configurations fails as a whole when one of them is still there and its
  document is no object.
\<close>

theorem recent_list_fails_on_non_object:
  assumes "(path, used) \<in> set (list_recent_configurations d)" and "path \<in> set (config_list base fs)"
    and "stored_document load base path fs = Inr document" and "\<forall>entries. document \<noteq> JObj entries"
  shows "\<exists>err. recent_configurations load base fs d = Inl (Raised err)"
proof -
  have "recent_names f document = Inl (AttributeError ''get'')" for f
    using assms(4) by (cases document) (simp_all add: recent_names_def)
  then have "recent_entry load base fs (path, used) \<noteq> Inr y" for y
    by (simp add: recent_entry_def assms(3) Let_def bindR_Inr_iff)
  moreover have "(path, used) \<in> set (filter (\<lambda>(path, _). path \<in> set (config_list base fs)) (list_recent_configurations d))"
    using assms(1,2) by simp
  ultimately obtain err where "mapR (recent_entry load base fs)
      (filter (\<lambda>(path, _). path \<in> set (config_list base fs)) (list_recent_configurations d)) = Inl err"
    using mapR_fails[of "(path, used)" _ "recent_entry load base fs"] by blast
  then show ?thesis by (simp add: recent_configurations_def)
qed

section \<open>A plan shows what a run stores\<close>

text \<open>The row a draft becomes.\<close>

definition row_from :: "string \<Rightarrow> clock \<Rightarrow> string \<times> task_draft \<Rightarrow> task_row \<Rightarrow> bool" where
  "row_from sh clk p row \<longleftrightarrow>
     (\<exists>d v d' c st. materialize_draft sh clk (snd p) d = (Inr v, d') \<and> row = new_row (fst p) v c st)"

lemma create_batch_tasks_rows:
  "create_batch_tasks sh clk b c n ts d = (Inr (), d') \<Longrightarrow>
   \<exists>rs. db_tasks d' = db_tasks d @ rs \<and> list_all2 (row_from sh clk) ts rs"
proof (induction ts arbitrary: n d)
  case (Cons p ts)
  obtain i t where p: "p = (i, t)" by (cases p)
  from Cons.prems p obtain v d1 st d2 d3 d4 x where
    m: "materialize_draft sh clk t d = (Inr v, d1)" and
    ins: "insert_task (new_row i v c st) d1 = (Inr (), d2)" and
    lk: "insert_batch_task b i n d2 = (Inr (), d3)" and
    ev: "add_event clk (Some i) ''task.queued'' [(''state'', EV (JStr ''queued'')),
       (''batch_id'', EV (JStr b)), (''sequence'', EV (JInt (int n)))] d3 = (Inr x, d4)" and
    rest: "create_batch_tasks sh clk b c (Suc n) ts d4 = (Inr (), d')"
    by (auto simp: bindS_Inr_iff liftS_def)
  have "db_tasks d1 = db_tasks d" using materialize_frame[OF m] by (simp add: same_tables_def)
  moreover have "db_tasks d2 = db_tasks d1 @ [new_row i v c st]" using ins by (auto simp: insert_task_def split: if_splits)
  moreover have "db_tasks d3 = db_tasks d2" using lk by (auto simp: insert_batch_task_def split: if_splits)
  moreover have "db_tasks d4 = db_tasks d3" using ev by (auto simp: add_event_def bindS_def tick_def)
  moreover have "row_from sh clk p (new_row i v c st)" using m p by (auto simp: row_from_def)
  ultimately show ?case using Cons.IH[OF rest] by auto
qed simp

lemma create_batch_rows:
  assumes "create_batch sh clk b tmpl vals ts idem d = (Inr (tasks, previous), d')"
    and "\<And>a r k x. idem = Some (a, r, k, x) \<Longrightarrow> find_idem a r k d = None"
  shows "previous = None \<and> (\<exists>rs. db_tasks d' = db_tasks d @ rs \<and> list_all2 (row_from sh clk) ts rs)"
proof -
  let ?d = "d\<lparr>db_ticks := Suc (db_ticks d)\<rparr>"
  let ?new = "new_batch sh clk b tmpl vals ts idem (i_iso (clk (db_ticks d)))"
  have "(case idem of None \<Rightarrow> None | Some (a, r, k, _) \<Rightarrow> find_idem a r k ?d) = None"
    using assms(2) by (auto simp: find_idem_def split: option.splits)
  then obtain d2 rs where nb: "transaction ?new ?d = (Inr (), d2)" and
    got: "mapS (\<lambda>(task_id, _). get_task task_id) ts d2 = (Inr rs, d')" and prev: "previous = None"
    using assms(1) unfolding create_batch_def
    by (auto simp: bindS_Inr_iff tick_def retS_def)
  have "snd (mapS (\<lambda>(task_id, _). get_task task_id) ts d2) = d2"
    by (rule mapS_reads) (simp add: get_task_def split: prod.split)
  then have d': "d' = d2" using got by simp
  have "?new ?d = (Inr (), d2)" using nb by (auto simp: transaction_def split: prod.splits sum.splits)
  then obtain row d3 d4 d5 x where
    ib: "insert_batch row ?d = (Inr (), d3)" and ct: "create_batch_tasks sh clk b (i_iso (clk (db_ticks d))) 0 ts d3 = (Inr (), d4)" and
    ev: "add_event clk None ''batch.created''
             [(''batch_id'', EV (JStr b)), (''count'', EV (JInt (int (length ts))))] d4 = (Inr x, d5)" and
    fin: "(case idem of None \<Rightarrow> retS () | Some (a, r, k, y) \<Rightarrow> insert_idem a r k y (i_iso (clk (db_ticks d)))) d5 = (Inr (), d2)"
    by (auto simp: new_batch_def bindS_Inr_iff)
  have "db_tasks d3 = db_tasks d" using ib by (auto simp: insert_batch_def split: if_splits)
  moreover have "db_tasks d5 = db_tasks d4" using ev by (auto simp: add_event_def bindS_def tick_def)
  moreover have "db_tasks d2 = db_tasks d5" using fin by (auto simp: retS_def insert_idem_def split: option.splits if_splits)
  ultimately show ?thesis using create_batch_tasks_rows[OF ct] d' prev by auto
qed

lemma submit_batch_rows:
  assumes "submit_batch e b ids tmpl vals drafts idem s = (Inr (batch, tasks), s')"
    and "\<And>a r k. idem = Some (a, r, k) \<Longrightarrow> find_idem a r k (sv_db s) = None"
  shows "\<exists>prepared rs. mapR (prepare_draft e) drafts = Inr prepared \<and> batch = b
    \<and> db_tasks (sv_db s') = db_tasks (sv_db s) @ rs \<and> list_all2 (row_from (en_sh e) (en_clock e)) (zip ids prepared) rs"
proof -
  obtain prepared where prepared: "mapR (prepare_draft e) drafts = Inr prepared"
    using assms(1) by (auto simp: submit_batch_def bindS_Inr_iff liftS_def)
  let ?idem = "map_option (\<lambda>(actor, route, key). (actor, route, key, batch_response b (map fst (zip ids prepared)))) idem"
  obtain x d where call: "create_batch (en_sh e) (en_clock e) b tmpl vals (zip ids prepared) ?idem (sv_db s) = (x, d)" by fastforce
  have free: "\<And>a r k x. ?idem = Some (a, r, k, x) \<Longrightarrow> find_idem a r k (sv_db s) = None"
    using assms(2) by auto
  obtain found where x: "x = Inr found"
    using assms(1) call by (cases x) (auto simp: submit_batch_def prepared liftS_def bindS_def onDb_def Let_def)
  obtain rows previous where found: "found = (rows, previous)" by (cases found)
  have rs: "previous = None \<and> (\<exists>rs. db_tasks d = db_tasks (sv_db s) @ rs
      \<and> list_all2 (row_from (en_sh e) (en_clock e)) (zip ids prepared) rs)"
    by (rule create_batch_rows[OF call[unfolded x found]]) (rule free)
  have previous: "previous = None" using rs by (rule conjunct1)
  have "submit_batch e b ids tmpl vals drafts idem s = (Inr (b, rows), s\<lparr>sv_db := d, sv_wake := True\<rparr>)"
    using call by (simp add: submit_batch_def prepared liftS_def bindS_def onDb_def Let_def x found previous wake_def upd_def retS_def)
  then have "batch = b" "sv_db s' = d" using assms(1) by auto
  moreover obtain rs where "db_tasks d = db_tasks (sv_db s) @ rs" "list_all2 (row_from (en_sh e) (en_clock e)) (zip ids prepared) rs"
    using rs by (elim conjE exE)
  ultimately show ?thesis using prepared by (intro exI[of _ prepared] exI[of _ rs]) simp
qed

lemma validated_names:
  assumes "validate_task_create sh p = Inr v"
  shows "validate_names ''labels'' 64 (tp_labels p) = Inr (td_labels v)"
    and "validate_names ''mutex_keys'' 32 (tp_mutex_keys p) = Inr (td_mutex_keys v)"
  using assms by (auto simp: validate_task_create_def Let_def split: sum.splits)

lemma plain_row:
  assumes "row_from sh clk (i, t) row" and "td_deferred_values t = []"
  shows "r_id row = i \<and> r_name row = td_name t \<and> r_working_directory row = td_working_directory t \<and> r_command row = td_command t
    \<and> r_labels row = map strip (td_labels t) \<and> r_mutex_keys row = map strip (td_mutex_keys t)"
proof -
  obtain v c st where v: "validate_task_create sh (dump_payload t) = Inr v" and row: "row = new_row i v c st"
    using assms by (auto simp: row_from_def materialize_draft_def liftS_def)
  have names: "validate_names f m (map JStr xs) = Inr ys \<Longrightarrow> ys = map strip xs" for f m xs ys
    by (auto simp: validate_names_def comp_def dest: normalized_unique_Inr(1) split: if_splits)
  have "td_name v = td_name t" "td_working_directory v = td_working_directory t" "td_command v = td_command t"
    using validate_task_create_Inr(1,2,8)[OF v] by (simp_all add: dump_payload_def normalize_command_list_Inr)
  moreover have "td_labels v = map strip (td_labels t)" "td_mutex_keys v = map strip (td_mutex_keys t)"
    using validated_names[OF v] by (simp_all add: dump_payload_def names)
  ultimately show ?thesis by (simp add: row new_row_def)
qed

lemma prepare_draft_keeps:
  assumes "prepare_draft e t = Inr t'"
  shows "td_name t' = td_name t" "td_labels t' = td_labels t" "td_mutex_keys t' = td_mutex_keys t"
    "td_deferred_values t' = td_deferred_values t"
  using assms by (auto simp: prepare_draft_def Let_def bindR_Inr_iff)

text \<open>A stored task is the one a plan showed.\<close>

definition as_planned :: "plan_item \<Rightarrow> task_row \<Rightarrow> bool" where
  "as_planned it row \<longleftrightarrow>
     r_name row = pi_name it \<and> r_working_directory row = pi_working_directory it \<and> r_command row = pi_command it
     \<and> r_labels row = map strip (pi_labels it) \<and> r_mutex_keys row = map strip (pi_mutex_keys it)"

text \<open>
  A stored task is the one a plan showed with the allocated values filled in: its fields are
  what resolving the planned ones against these values gives, and the values are among its
  custom fields.
\<close>

definition planned_fields :: "plan_item \<Rightarrow> json list" where
  "planned_fields it = [JStr (pi_name it), JStr (pi_working_directory it), JList (map JStr (pi_command it)),
     JList (map JStr (pi_labels it)), JList (map JStr (pi_mutex_keys it))]"

definition deferred_scope :: "(string, int) dict \<Rightarrow> resolver" where
  "deferred_scope allocated = new_resolver [(''deferred'', map (\<lambda>(k, v). (k, JInt v)) allocated)] []"

definition filled_in :: "(string, int) dict \<Rightarrow> plan_item \<Rightarrow> task_row \<Rightarrow> bool" where
  "filled_in allocated it row \<longleftrightarrow>
     (\<exists>command labels keys custom.
        fst (mapS (resolve (deferred_scope allocated)) (planned_fields it) [])
          = Inr [JStr (r_name row), JStr (r_working_directory row), command, labels, keys]
        \<and> r_command row = map py_str (as_list command)
        \<and> validate_names ''labels'' 64 (as_list labels) = Inr (r_labels row)
        \<and> validate_names ''mutex_keys'' 32 (as_list keys) = Inr (r_mutex_keys row)
        \<and> r_custom row = dict_update custom (map (\<lambda>(k, v). (k, JInt v)) allocated))"

lemma mapS_prefix: "mapS f (xs @ ys) s = (Inr vs, t) \<Longrightarrow> \<exists>u. mapS f xs s = (Inr (take (length xs) vs), u)"
proof (induction xs arbitrary: s vs)
  case (Cons x xs)
  from Cons.prems obtain v u ws where v: "f x s = (Inr v, u)" "mapS f (xs @ ys) u = (Inr ws, t)" "vs = v # ws"
    by (auto simp: bindS_Inr_iff retS_def)
  from Cons.IH[OF v(2)] v show ?case by (auto simp: bindS_def retS_def)
qed simp

lemma mapS_length: "mapS f xs s = (Inr vs, t) \<Longrightarrow> length vs = length xs"
  by (induction xs arbitrary: s vs) (auto simp: bindS_Inr_iff retS_def)

lemma allocated_names:
  "mapS (\<lambda>(name, request). bindS (g request) (\<lambda>v. retS (name, v))) ds s = (Inr allocated, t) \<Longrightarrow> map fst allocated = map fst ds"
  by (induction ds arbitrary: s allocated) (auto simp: bindS_Inr_iff retS_def)

lemma filled_row:
  assumes "row_from sh clk (i, t) row" and "td_deferred_values t \<noteq> []"
    and "td_name t = pi_name it" "td_working_directory t = pi_working_directory it" "td_command t = pi_command it"
      "td_labels t = pi_labels it" "td_mutex_keys t = pi_mutex_keys it"
  shows "\<exists>allocated. map fst allocated = map fst (td_deferred_values t) \<and> filled_in allocated it row"
proof -
  obtain d v d' c st where m: "materialize_draft sh clk t d = (Inr v, d')" and row: "row = new_row i v c st"
    using assms(1) by (auto simp: row_from_def)
  then obtain allocated d1 p where al: "mapS (\<lambda>(name, request).
        bindS (allocate_deferred clk (dv_source request) (dv_namespace request)) (\<lambda>v. retS (name, v))) (td_deferred_values t) d
        = (Inr allocated, d1)"
      and p: "resolved_payload t allocated = Inr p" and v: "validate_task_create sh p = Inr v"
    using assms(2) by (auto simp: materialize_draft_def bindS_Inr_iff liftS_def)
  obtain vs u where vs: "resolve_fields (deferred_scope allocated) t [] = (Inr vs, u)"
    using p by (auto simp: resolved_payload_def bindR_Inr_iff deferred_scope_def)
      (metis prod.collapse)
  have fields: "mapS (resolve (deferred_scope allocated)) (planned_fields it @ [JObj (td_custom t)]) [] = (Inr vs, u)"
    using vs assms(3-7) by (simp add: resolve_fields_def planned_fields_def)
  have len5: "length (planned_fields it) = 5" by (simp add: planned_fields_def)
  obtain u' where five: "mapS (resolve (deferred_scope allocated)) (planned_fields it) [] = (Inr (take 5 vs), u')"
    using mapS_prefix[OF fields] len5 by auto
  have "length vs = 6" using mapS_length[OF fields] len5 by simp
  then have take: "take 5 vs = [vs ! 0, vs ! 1, vs ! 2, vs ! 3, vs ! 4]"
    by (simp add: numeral_nat take_Suc_conv_app_nth)
  obtain custom where pay: "tp_name p = vs ! 0" "tp_working_directory p = vs ! 1" "tp_command p = CmdList (map py_str (as_list (vs ! 2)))"
      "tp_labels p = as_list (vs ! 3)" "tp_mutex_keys p = as_list (vs ! 4)"
      "tp_custom p = dict_update custom (map (\<lambda>(k, v). (k, JInt v)) allocated)"
    using p vs by (auto simp: resolved_payload_def deferred_scope_def[symmetric] Let_def split: if_splits)
  note val = validate_task_create_Inr[OF v] validated_names[OF v]
  have "filled_in allocated it row"
    unfolding filled_in_def five fst_conv take
    using val pay by (auto simp: row new_row_def normalize_command_list_Inr)
  with allocated_names[OF al] show ?thesis by blast
qed

definition as_stored :: "plan_item \<Rightarrow> task_row \<Rightarrow> bool" where
  "as_stored it row \<longleftrightarrow>
     (if pi_deferred_values it = [] then as_planned it row
      else \<exists>allocated. map fst allocated = map fst (pi_deferred_values it) \<and> filled_in allocated it row)"

lemma expanded_as_stored:
  assumes "expand_config lib ee configuration inputs ctx reg = Inr drafts" and "draft \<in> set drafts"
    and "resolves (ee_realpath ee)" and "en_realpath e = ee_realpath ee"
    and "prepare_draft e draft = Inr prepared" and "row_from sh clk (i, prepared) row"
  shows "r_id row = i \<and> as_stored (plan_item_of n draft) row"
proof -
  have same: "td_working_directory prepared = td_working_directory draft \<and> td_command prepared = td_command draft"
    using expanded_tasks_bound_once[OF assms(1-4)] assms(5) by blast
  note keeps = prepare_draft_keeps[OF assms(5)]
  have "r_id row = i" using assms(6) by (auto simp: row_from_def new_row_def)
  moreover have "as_stored (plan_item_of n draft) row"
  proof (cases "td_deferred_values draft = []")
    case True
    with plain_row[OF assms(6)] keeps same show ?thesis by (simp add: as_stored_def as_planned_def plan_item_of_def)
  next
    case False
    with filled_row[OF assms(6), of "plan_item_of n draft"] keeps same show ?thesis
      by (simp add: as_stored_def plan_item_of_def)
  qed
  ultimately show ?thesis ..
qed

text \<open>
  C15. A plan shows what a run stores. When the plan of a configuration succeeds and the
  configuration is then submitted, not as a repetition of an earlier request, with the ids the
  service draws, one task is stored for each planned item, in order and under the id drawn for
  it. An item without deferred values is stored with the name, the directory and the command the
  plan showed and with its labels and mutex keys, stripped of surrounding blanks. For an item
  with deferred values, such as automatic seeds, one value is allocated for each planned name, and
  the task has the planned name, directory, command, labels and keys with these values filled in.
\<close>

theorem plan_is_what_runs:
  assumes "plan_run h configuration inputs = Inr p"
    and "create_run h e b ids configuration inputs key actor s = (Inr r, s')"
    and "length ids = pl_count p"
    and "\<And>k. given_key key = Some k \<Longrightarrow> find_idem actor ''/api/v1/runs'' k (sv_db s) = None"
    and "resolves (ee_realpath (ho_expand h))" and "en_realpath e = ee_realpath (ho_expand h)"
  shows "\<exists>rows. db_tasks (sv_db s') = db_tasks (sv_db s) @ rows \<and> length rows = pl_count p
    \<and> (\<forall>n < pl_count p. r_id (rows ! n) = ids ! n \<and> as_stored (pl_items p ! n) (rows ! n))"
proof -
  obtain drafts where drafts: "expand_inline h configuration inputs = Inr drafts"
    and p: "p = plan (py_str (jget ''plugin'' configuration JNull)) drafts"
    using assms(1) by (auto simp: plan_run_def bindR_Inr_iff)
  have expanded: "expand_config (de_lib (ho_diag h)) (ho_expand h) configuration inputs (root_context h) (ho_registry h) = Inr drafts"
    using drafts by (auto simp: expand_inline_def bindR_Inr_iff split: if_splits)
  obtain batch tasks where call: "submit_batch e b ids (py_str (jget ''plugin'' configuration JNull))
      [(''configuration'', JObj configuration), (''inputs'', JObj inputs)] drafts
      (idem_triple actor ''/api/v1/runs'' key) s = (Inr (batch, tasks), s')"
    using assms(2) by (auto simp: create_run_def drafts bindE_Inr_iff trying_Inr_iff)
  have "\<And>a r k. idem_triple actor ''/api/v1/runs'' key = Some (a, r, k) \<Longrightarrow> find_idem a r k (sv_db s) = None"
    using assms(4) by (auto simp: idem_triple_def)
  from submit_batch_rows[OF call this] obtain prepared rows where prepared: "mapR (prepare_draft e) drafts = Inr prepared"
    and rows: "db_tasks (sv_db s') = db_tasks (sv_db s) @ rows" "list_all2 (row_from (en_sh e) (en_clock e)) (zip ids prepared) rows"
    by blast
  have len: "length prepared = length drafts" "length ids = length drafts" "length rows = length drafts"
    using mapR_length[OF prepared] assms(3) list_all2_lengthD[OF rows(2)] by (simp_all add: p plan_def)
  have "r_id (rows ! n) = ids ! n \<and> as_stored (pl_items p ! n) (rows ! n)" if n: "n < length drafts" for n
  proof -
    have item: "pl_items p ! n = plan_item_of n (drafts ! n)" using n by (simp add: p plan_def)
    have "prepare_draft e (drafts ! n) = Inr (prepared ! n)"
      using prepared n by (simp add: mapR_Inr_list_all2 list_all2_conv_all_nth)
    moreover have "row_from (en_sh e) (en_clock e) (ids ! n, prepared ! n) (rows ! n)"
      using rows(2) n len by (simp add: list_all2_conv_all_nth)
    ultimately show ?thesis
      using expanded_as_stored[OF expanded nth_mem[OF n] assms(5,6)] by (simp add: item)
  qed
  then show ?thesis using rows(1) len by (auto simp: p plan_def)
qed

section \<open>Instances\<close>

definition ex_dumps :: "string list \<Rightarrow> string" where
  "ex_dumps xs = (case xs of [a, b] \<Rightarrow> replicate (length a) (CHR ''x'') @ ''.'' @ a @ b | _ \<Rightarrow> ''?'')"

definition ex_loads :: "string \<Rightarrow> json result" where
  "ex_loads s =
     (let n = length (takeWhile (\<lambda>c. c = CHR ''x'') s); rest = drop (Suc n) s
      in Inr (JList [JStr (take n rest), JStr (drop n rest)]))"

definition ex_reader :: site where
  "ex_reader = \<lparr>si_state_root = parse_path ''/var'', si_archive = (\<lambda>_. ex_archive ''hello''), si_mtime = (\<lambda>_. ''t''),
     si_dumps = ex_dumps, si_loads = ex_loads\<rparr>"

lemma ex_codec: "json_codec ex_reader"
proof -
  have "takeWhile (\<lambda>c. c = CHR ''x'') (replicate n (CHR ''x'') @ ''.'' @ s) = replicate n (CHR ''x'')" for n s
    by (induction n) simp_all
  then show ?thesis by (simp add: json_codec_def ex_reader_def ex_dumps_def ex_loads_def Let_def)
qed

definition ex_idle :: "db \<Rightarrow> svc" where
  "ex_idle d = \<lparr>sv_db = d, sv_starters = [], sv_waiters = [], sv_interrupts = [], sv_advances = [], sv_wake = False,
     sv_stopping = False, sv_queue_cursor = None, sv_log_dirs = [], sv_terminals = 0, sv_launched = [], sv_issued = [], sv_coros = []\<rparr>"

lemma ex_idle_db [simp]: "sv_db (ex_idle d) = d"
  by (simp add: ex_idle_def)

theorem task_pages_complete_witness:
  "\<exists>items. follow_pages 2 ex_reader ''summary'' any_query 1 None (ex_idle ex_db) = Some items \<and> length items = 1"
proof -
  have one: "length (matching any_query ex_db) = 1" "length (db_tasks ex_db) = 1" by code_simp+
  have "\<forall>r \<in> set (db_tasks ex_db). \<exists>p. list_item ex_reader ''summary'' ex_db (shown r) = Inr p"
    by (simp add: list_item_def show_summary)
  with task_pages_complete[of "ex_idle ex_db" ex_reader 1 "''summary''" 2 any_query] ex_db_ok ex_codec one(2)
  obtain items where "follow_pages 2 ex_reader ''summary'' any_query 1 None (ex_idle ex_db) = Some items"
    "mapR (list_item ex_reader ''summary'' ex_db) (map shown (matching any_query ex_db)) = Inr items"
    by (auto simp del: follow_pages.simps)
  with mapR_length[OF this(2)] one(1) show ?thesis by (auto simp del: follow_pages.simps)
qed

theorem task_created_once_witness:
  "\<exists>r s'. create_task_api ex_site ''t9'' (Some ''k'') ex_draft ''admin'' (ex_idle empty_db) = (Inr r, s')
     \<and> create_task_api ex_site ''t10'' (Some ''k'') ex_draft ''admin'' s' = (Inr r, s')"
proof -
  let ?call = "create_task_api ex_site ''t9'' (Some ''k'') ex_draft ''admin'' (ex_idle empty_db)"
  have "(case fst ?call of Inr r \<Rightarrow> rc_location r | Inl _ \<Rightarrow> None) = Some ''/api/v1/tasks/t9''" by code_simp
  then obtain r where "fst ?call = Inr r" by (cases "fst ?call") auto
  then have call: "?call = (Inr r, snd ?call)" by (metis prod.collapse)
  have "idempotency_get ''admin'' TASKS_ROUTE ''k'' (sv_db (ex_idle empty_db)) = None"
    by (simp add: idempotency_get_def find_idem_def empty_db_def)
  from task_created_once[OF call _ this] call show ?thesis by blast
qed

definition ex_poisoned_db :: db where
  "ex_poisoned_db = snd (create_task ''/bin/sh'' LF_Store_Facts.ex_clock ''t1'' (ex_draft\<lparr>td_custom := [(''_source_files'', JInt 5)]\<rparr>) empty_db)"

theorem malformed_custom_breaks_list_witness:
  "\<exists>err. list_tasks_api ex_reader ''admin'' any_query 10 None (ex_idle ex_poisoned_db) = (Inl (Raised err), ex_idle ex_poisoned_db)"
proof -
  let ?page = "take (nat 10) (select_rows (page_request any_query 10 None) ex_poisoned_db)"
  have "db_ok ex_poisoned_db"
    unfolding ex_poisoned_db_def by (rule after_ok[OF store_step_after[OF store_step.create_task db_ok_empty]])
  moreover have "map (\<lambda>r. sources_ok (r_custom r)) ?page = [False]" by code_simp
  then obtain r where "r \<in> set ?page" "\<not> sources_ok (r_custom r)" by (auto simp del: set_take_subset)
  moreover have "''admin'' \<in> set FULL_READERS" "decode_cursor (si_loads ex_reader) None = Inr None"
    by (simp_all add: FULL_READERS_def decode_cursor_def)
  ultimately show ?thesis
    using malformed_custom_breaks_list[of "ex_idle ex_poisoned_db" "''admin''" 10 ex_reader None None r any_query] by simp
qed

definition ex_visitor :: request where
  "ex_visitor = \<lparr>rq_method = ''GET'', rq_scheme = ''http'', rq_hostname = Some ''h'', rq_path = ''/'', rq_query = [],
     rq_headers = [], rq_cookies = [], rq_body = []\<rparr>"

theorem summary_reader_sees_summaries_witness:
  "fst (guarded (can_read ex_hmac (\<lambda>s. s) LF_Auth.ex_clock ''summary'' ex_visitor) (logs_api ex_reader ''t1'' 0 10) (ex_auth, ex_idle ex_batch_db))
      = Inl (Http 403 ''logs require full read access'')
   \<and> (\<exists>batch ids. fst (guarded (can_read ex_hmac (\<lambda>s. s) LF_Auth.ex_clock ''summary'' ex_visitor) (get_batch_api ''b1'') (ex_auth, ex_idle ex_batch_db))
      = Inr (batch, ids) \<and> b_template batch = ''tmpl'')"
proof -
  have "is_admin ex_hmac ex_visitor ex_auth = Inr False" by code_simp
  moreover have "fst (is_signed ex_hmac (\<lambda>s. s) LF_Auth.ex_clock ex_visitor ex_auth) = Inr False" by code_simp
  ultimately have "anonymous ex_hmac (\<lambda>s. s) LF_Auth.ex_clock ex_visitor ex_auth"
    by (simp add: anonymous_def SIGNED_HEADERS_def header_def ex_visitor_def)
  note seen = summary_reader_sees_summaries[OF this, of ex_reader any_query 10 None "ex_idle ex_batch_db" "''t1''" 0 "''b1''"]
  have "(case get_batch ''b1'' ex_batch_db of Inr (b, _) \<Rightarrow> b_template b | Inl _ \<Rightarrow> []) = ''tmpl''" by code_simp
  then obtain b ids where "get_batch ''b1'' ex_batch_db = Inr (b, ids)" "b_template b = ''tmpl''"
    by (cases "get_batch ''b1'' ex_batch_db") auto
  then show ?thesis using seen by simp
qed

definition ex_host :: host where
  "ex_host = \<lparr>ho_registry = ex_registry, ho_diag = ex_de, ho_expand = ex_expand_env, ho_root = ''/srv''\<rparr>"

lemma ex_inline: "expand_inline ex_host ex_document [(''case'', JStr ''x'')] = Inr [ex_prepared]"
proof -
  obtain dg where dg: "diagnose_config ex_de ex_registry (JObj ex_document) = Inr dg" "dg_runnable dg"
    using ex_diagnosed(1) unfolding ex_registry_eq by (auto simp: the_inr_def split: sum.splits)
  have "check_plugin ex_host ex_document = Inr ()"
    by (simp add: check_plugin_def ex_host_def ex_document_def ex_registry_eq)
  moreover have "de_lib ex_de = Inr" by (simp add: ex_de_def)
  ultimately show ?thesis using dg ex_expanded by (simp add: expand_inline_def ex_host_def root_context_def)
qed

lemma ex_prepared_again: "prepare_draft ex_site ex_prepared = Inr ex_prepared"
  using expanded_tasks_bound_once_witness by blast

definition ex_run_values :: jdict where
  "ex_run_values = [(''configuration'', JObj ex_document), (''inputs'', JObj [(''case'', JStr ''x'')])]"

lemma ex_stored:
  "(case fst (create_batch ''/bin/sh'' (en_clock ex_site) ''b'' ''cmd'' ex_run_values [(''t1'', ex_prepared)] None empty_db) of
      Inr (rows, None) \<Rightarrow> map r_id rows | _ \<Rightarrow> []) = [''t1'']"
  by code_simp

lemma ex_created: "\<exists>r s'. create_run ex_host ex_site ''b'' [''t1''] ex_document [(''case'', JStr ''x'')] None ''admin'' (ex_idle empty_db) = (Inr r, s')"
proof -
  obtain rows d where "create_batch ''/bin/sh'' (en_clock ex_site) ''b'' ''cmd'' ex_run_values [(''t1'', ex_prepared)] None empty_db
      = (Inr (rows, None), d)"
    using ex_stored
    by (cases "create_batch ''/bin/sh'' (en_clock ex_site) ''b'' ''cmd'' ex_run_values [(''t1'', ex_prepared)] None empty_db")
      (auto split: sum.splits option.splits)
  moreover have "en_sh ex_site = ''/bin/sh''" by (simp add: ex_site_def)
  moreover have "py_str (jget ''plugin'' ex_document JNull) = ''cmd''" by (simp add: ex_document_def jget_def)
  moreover have "idem_triple ''admin'' ''/api/v1/runs'' None = None" by (simp add: idem_triple_def given_key_def)
  ultimately have "\<exists>batch tasks s'. submit_batch ex_site ''b'' [''t1''] (py_str (jget ''plugin'' ex_document JNull))
      [(''configuration'', JObj ex_document), (''inputs'', JObj [(''case'', JStr ''x'')])] [ex_prepared]
      (idem_triple ''admin'' ''/api/v1/runs'' None) (ex_idle empty_db) = (Inr (batch, tasks), s')"
    by (simp add: submit_batch_def ex_prepared_again bindS_def liftS_def onDb_def Let_def wake_def upd_def retS_def
        ex_run_values_def[symmetric])
  then show ?thesis
    by (auto simp: create_run_def ex_inline bindE_def[of "trying _ _"] trying_def)
qed

theorem plan_is_what_runs_witness:
  "\<exists>r s' row. create_run ex_host ex_site ''b'' [''t1''] ex_document [(''case'', JStr ''x'')] None ''admin'' (ex_idle empty_db) = (Inr r, s')
     \<and> db_tasks (sv_db s') = [row] \<and> r_id row = ''t1'' \<and> as_planned (plan_item_of 0 ex_prepared) row"
proof -
  obtain r s' where run: "create_run ex_host ex_site ''b'' [''t1''] ex_document [(''case'', JStr ''x'')] None ''admin'' (ex_idle empty_db) = (Inr r, s')"
    using ex_created by blast
  have plan: "plan_run ex_host ex_document [(''case'', JStr ''x'')] = Inr (plan ''cmd'' [ex_prepared])"
    by (simp add: plan_run_def ex_inline) (simp add: ex_document_def jget_def)
  have "resolves (ee_realpath (ho_expand ex_host))" using ex_resolves by (simp add: ex_host_def)
  moreover have "en_realpath ex_site = ee_realpath (ho_expand ex_host)" by (simp add: ex_site_def ex_host_def)
  moreover have "given_key None \<noteq> Some k" for k by (simp add: given_key_def)
  moreover have "td_deferred_values ex_prepared = []" by (simp add: ex_prepared_def ex_expansion_def)
  ultimately obtain rows where "db_tasks (sv_db s') = rows" "length rows = 1" "r_id (rows ! 0) = ''t1''"
    "as_planned (plan_item_of 0 ex_prepared) (rows ! 0)"
    using plan_is_what_runs[OF plan run] by (auto simp: plan_def empty_db_def plan_item_of_def as_stored_def)
  moreover obtain row where "rows = [row]" using \<open>length rows = 1\<close> by (cases rows) auto
  ultimately have "db_tasks (sv_db s') = [row]" "r_id row = ''t1''" "as_planned (plan_item_of 0 ex_prepared) row" by simp_all
  with run show ?thesis by blast
qed

end
