(* ===== verification/LF_Streams_Facts.thy ===== *)
theory LF_Streams_Facts
  imports LF_Streams LF_Api_Facts
begin

text \<open>
  The streams deliver what there is, in order and once: events between two cursors, and the bytes
  of a log in acknowledged blocks. The frame that announces the end of the replay may come early.
\<close>

section \<open>Events\<close>

lemma filter_upto_last:
  fixes f :: "'a \<Rightarrow> nat"
  assumes "sorted_wrt (<) (map f (xs @ ys))" and "xs \<noteq> []"
  shows "filter (\<lambda>x. f x \<le> f (last xs)) (xs @ ys) = xs"
proof -
  obtain front x where xs: "xs = front @ [x]" using assms(2) by (cases xs rule: rev_cases) auto
  have "f y \<le> f x" if "y \<in> set xs" for y using assms(1) that by (auto simp: xs sorted_wrt_append)
  moreover have "\<not> f y \<le> f x" if "y \<in> set ys" for y using assms(1) that by (auto simp: xs sorted_wrt_append)
  ultimately show ?thesis by (simp add: xs filter_all_eq filter_empty_conv)
qed

lemma filter_between_split:
  fixes f :: "'a \<Rightarrow> nat"
  assumes "sorted_wrt (<) (map f xs)" and "a \<le> b" and "b \<le> c"
  shows "filter (\<lambda>x. a < f x \<and> f x \<le> c) xs = filter (\<lambda>x. a < f x \<and> f x \<le> b) xs @ filter (\<lambda>x. b < f x \<and> f x \<le> c) xs"
  using assms(1)
proof (induction xs)
  case (Cons x xs)
  show ?case
  proof (cases "f x \<le> b")
    case True
    with Cons assms(2,3) show ?thesis by auto
  next
    case False
    then have "\<not> f y \<le> b" if "y \<in> set xs" for y using Cons.prems that by fastforce
    then have "filter (\<lambda>x. a < f x \<and> f x \<le> b) xs = []" by (simp add: filter_empty_conv)
    with Cons False assms(2) show ?thesis by auto
  qed
qed simp

definition event_frame :: "bool \<Rightarrow> string \<Rightarrow> event \<Rightarrow> sse" where
  "event_frame admin mode ev = Sse (e_id ev) (e_kind ev) (event_body admin mode ev)"

definition proper :: "sse list \<Rightarrow> sse list" where
  "proper frames = filter (\<lambda>f. f \<noteq> Keepalive) frames"

lemma proper_simps [simp]:
  "proper [] = []" "proper (xs @ ys) = proper xs @ proper ys" "proper [Keepalive] = []"
  "proper (map (event_frame admin mode) evs) = map (event_frame admin mode) evs"
  by (simp_all add: proper_def event_frame_def filter_map comp_def)

text \<open>What a round sends are the events up to its new cursor, of any longer log as well.\<close>

lemma events_round_exact:
  assumes "evs = db_events d @ later" and "sorted_wrt (<) (map e_id evs)"
    and "events_round admin mode c d = (frames, c')"
  shows "c \<le> c' \<and> proper frames = map (event_frame admin mode) (filter (\<lambda>ev. c < e_id ev \<and> e_id ev \<le> c') evs)"
proof -
  let ?new = "filter (\<lambda>ev. c < e_id ev)"
  let ?found = "take EVENT_LIMIT (?new (db_events d))"
  have "sorted_wrt (<) (map e_id (db_events d))" using assms(1,2) by (simp add: sorted_wrt_append)
  then have "sorted (map e_id (?new (db_events d)))"
    by (simp add: strict_sorted_imp_sorted sorted_filter)
  then have found: "events_after c EVENT_LIMIT d = ?found"
    by (simp add: events_after_def sort_key_sorted_id)
  show ?thesis
  proof (cases "?found = []")
    case True
    then have "frames = [Keepalive]" "c' = c" using assms(3) by (simp_all add: events_round_def found del: take_eq_Nil)
    then show ?thesis by (auto simp: filter_empty_conv)
  next
    case False
    then have frames: "frames = map (event_frame admin mode) ?found" and c': "c' = e_id (last ?found)"
      using assms(3) by (simp_all add: events_round_def found event_frame_def[abs_def] split: list.splits)
    have split: "?new evs = ?found @ (drop EVENT_LIMIT (?new (db_events d)) @ ?new later)"
      by (simp add: assms(1) flip: append_assoc)
    have "sorted_wrt (<) (map e_id (?new evs))"
      using assms(2) by (simp add: sorted_wrt_map sorted_wrt_filter)
    then have "filter (\<lambda>ev. e_id ev \<le> c') (?new evs) = ?found"
      unfolding c' split by (intro filter_upto_last False) simp
    moreover have "last ?found \<in> set ?found" using False by (rule last_in_set)
    then have "c \<le> c'" by (auto simp: c' dest!: in_set_takeD)
    ultimately show ?thesis by (simp add: frames conj_commute)
  qed
qed

text \<open>
  C17. A stream of events loses and repeats nothing. Polling while the event log grows, a client that
  started behind an event gets exactly the events between its first and its last cursor, in order, and
  the cursor never moves back. Without full access an event carries nothing but its task and a state.
\<close>

theorem event_stream_exact:
  assumes "\<forall>d \<in> set ds. \<exists>later. evs = db_events d @ later" and "sorted_wrt (<) (map e_id evs)"
    and "events_rounds admin mode c ds = (frames, c')"
  shows "c \<le> c' \<and> proper frames = map (event_frame admin mode) (filter (\<lambda>ev. c < e_id ev \<and> e_id ev \<le> c') evs)
    \<and> (\<not> admin \<and> mode \<noteq> ''readonly'' \<longrightarrow> fst ` set (event_body admin mode ev) \<subseteq> {''task_id'', ''state''})"
proof -
  have "c \<le> c' \<and> proper frames = map (event_frame admin mode) (filter (\<lambda>ev. c < e_id ev \<and> e_id ev \<le> c') evs)"
    using assms(1,3)
  proof (induction ds arbitrary: c frames)
    case Nil
    then show ?case by (auto simp: filter_empty_conv)
  next
    case (Cons d ds)
    obtain sent c1 where first: "events_round admin mode c d = (sent, c1)" by fastforce
    obtain rest c2 where others: "events_rounds admin mode c1 ds = (rest, c2)" by fastforce
    have frames: "frames = sent @ rest" "c' = c2" using Cons.prems(2) by (simp_all add: first others)
    obtain later where "evs = db_events d @ later" using Cons.prems(1) by auto
    note one = events_round_exact[OF this assms(2) first]
    have two: "c1 \<le> c2 \<and> proper rest = map (event_frame admin mode) (filter (\<lambda>ev. c1 < e_id ev \<and> e_id ev \<le> c2) evs)"
      using Cons.IH[of c1 rest] Cons.prems(1) others frames(2) by simp
    show ?case using one two filter_between_split[OF assms(2), of c c1 c2] by (simp add: frames)
  qed
  moreover have "fst ` set (event_body admin mode ev) \<subseteq> {''task_id'', ''state''}" if "\<not> admin \<and> mode \<noteq> ''readonly''"
    using that by (auto simp: event_body_def safe_data_def dict_update_def)
  ultimately show ?thesis by blast
qed

section \<open>The terminal\<close>

text \<open>The bytes a browser gets from a frame: it decodes the text of an output frame.\<close>

fun frame_bytes :: "tframe \<Rightarrow> string" where
  "frame_bytes (T_output data _ _) = (case a2b_base64 0 0 0 data of Inr bytes \<Rightarrow> bytes | Inl _ \<Rightarrow> [])"
| "frame_bytes _ = []"

definition stream_bytes :: "tframe list \<Rightarrow> string" where
  "stream_bytes frames = concat (map frame_bytes frames)"

fun is_output :: "tframe \<Rightarrow> bool" where
  "is_output (T_output _ _ _) = True"
| "is_output _ = False"

definition outputs :: "tframe list \<Rightarrow> nat" where
  "outputs frames = length (filter is_output frames)"

definition acks :: "round list \<Rightarrow> nat" where
  "acks rds = length (filter (\<lambda>rd. rd_message rd = M_ack) rds)"

definition small_blocks :: "tframe list \<Rightarrow> bool" where
  "small_blocks frames \<longleftrightarrow> list_all (\<lambda>f. int (length (frame_bytes f)) \<le> BLOCK) frames"

lemma stream_simps [simp]:
  "stream_bytes [] = []" "stream_bytes (xs @ ys) = stream_bytes xs @ stream_bytes ys" "stream_bytes [f] = frame_bytes f"
  "outputs [] = 0" "outputs (xs @ ys) = outputs xs + outputs ys" "outputs [f] = (if is_output f then 1 else 0)"
  "small_blocks []" "small_blocks (xs @ ys) \<longleftrightarrow> small_blocks xs \<and> small_blocks ys"
  "small_blocks [f] \<longleftrightarrow> int (length (frame_bytes f)) \<le> BLOCK"
  by (simp_all add: stream_bytes_def outputs_def small_blocks_def)

text \<open>The end of the window is not passed.\<close>

definition within_end :: "tsock \<Rightarrow> int \<Rightarrow> bool" where
  "within_end k n \<longleftrightarrow> (case tk_end k of None \<Rightarrow> True | Some e \<Rightarrow> tk_offset k + n \<le> max (tk_offset k) e)"

text \<open>What happens to the bytes and to the acknowledgements between two states of the socket.\<close>

definition streamed :: "string \<Rightarrow> tsock \<Rightarrow> tframe list \<Rightarrow> bool" where
  "streamed content k frames \<longleftrightarrow>
     stream_bytes frames = take (length (stream_bytes frames)) (drop (nat (tk_offset k)) content)
     \<and> small_blocks frames \<and> within_end k (int (length (stream_bytes frames)))"

lemma read_block:
  assumes "content = log_bytes ar @ later" and "0 \<le> offset" and "1 \<le> limit" and "limit \<le> 1048576"
    and "read_log ar offset limit = (data, next_offset)"
  shows "data = take (length data) (drop (nat offset) content) \<and> next_offset = offset + int (length data) \<and> int (length data) \<le> limit"
proof (cases "ar_log ar")
  case None
  with assms show ?thesis by (simp add: read_log_def)
next
  case (Some stored)
  then have data: "data = take (nat limit) (drop (nat offset) stored)" "next_offset = offset + int (length data)"
    using assms by (auto simp: read_log_def Let_def)
  have rest: "drop (nat offset) content = drop (nat offset) stored @ drop (nat offset - length stored) later"
    using assms(1) Some by (simp add: log_bytes_def)
  have prefix: "take (length (take n xs)) (xs @ ys) = take n xs" for n and xs ys :: string
    by (simp add: min_def)
  have "take (length data) (drop (nat offset) content) = data" unfolding rest data(1) by (rule prefix)
  with data show ?thesis using assms(3) by simp
qed

lemma block_limit_range:
  assumes "wants_data k"
  shows "1 \<le> block_limit k" "block_limit k \<le> BLOCK" "block_limit k \<le> 1048576"
  using assms by (auto simp: wants_data_def block_limit_def BLOCK_def split: option.splits)

lemma terminal_send_exact:
  assumes "content = log_bytes ar @ later" and "0 \<le> tk_offset k" and "terminal_send ar updated k = (frames, k')"
  shows "streamed content k frames \<and> tk_offset k' = tk_offset k + int (length (stream_bytes frames)) \<and> tk_end k' = tk_end k
    \<and> (if tk_awaiting_ack k then outputs frames = 0 \<and> tk_awaiting_ack k'
       else outputs frames = (if tk_awaiting_ack k' then 1 else 0))"
proof (cases "wants_data k")
  case False
  then have "stream_bytes frames = []" "small_blocks frames" "outputs frames = 0" "tk_offset k' = tk_offset k"
    "tk_end k' = tk_end k" "tk_awaiting_ack k' = tk_awaiting_ack k"
    using assms(3) by (auto simp: terminal_send_def BLOCK_def split: if_splits)
  then show ?thesis by (simp add: streamed_def within_end_def split: option.splits)
next
  case True
  obtain data next_offset where r: "read_log ar (tk_offset k) (block_limit k) = (data, next_offset)" by fastforce
  note range = block_limit_range[OF True]
  have block: "data = take (length data) (drop (nat (tk_offset k)) content)"
    and offset: "next_offset = tk_offset k + int (length data)" and small: "int (length data) \<le> block_limit k"
    using read_block[OF assms(1,2) range(1,3) r] by simp_all
  have idle: "\<not> tk_awaiting_ack k" using True by (simp add: wants_data_def)
  have "within_end k (int (length data))"
    using small by (auto simp: within_end_def block_limit_def split: option.splits)
  moreover have "stream_bytes frames = data" "tk_offset k' = next_offset" "tk_end k' = tk_end k"
    "outputs frames = (if data = [] then 0 else 1)" "tk_awaiting_ack k' = (data \<noteq> [])" "small_blocks frames"
    using assms(3) True idle small range(2)
    by (auto simp: terminal_send_def r BLOCK_def Let_def b64_round_trip split: if_splits)
  ultimately show ?thesis using block offset idle by (simp add: streamed_def)
qed

lemma terminal_receive_quiet:
  assumes "terminal_receive admin i rd k = (frames, ended)"
  shows "stream_bytes frames = [] \<and> outputs frames = 0 \<and> small_blocks frames
    \<and> (\<forall>k'. ended = Some k' \<longrightarrow> tk_offset k' = tk_offset k \<and> tk_end k' = tk_end k
        \<and> tk_awaiting_ack k' = (tk_awaiting_ack k \<and> rd_message rd \<noteq> M_ack))"
proof -
  have quiet: "stream_bytes (rejected ok t) = []" "outputs (rejected ok t) = 0" "small_blocks (rejected ok t)" for ok t
    by (simp_all add: rejected_def BLOCK_def)
  show ?thesis
    using assms
    by (auto simp: terminal_receive_def quiet BLOCK_def split: message.splits option.splits if_splits sum.splits prod.splits)
qed

lemma terminal_round_exact:
  assumes "content = log_bytes (rd_archive rd) @ later" and "0 \<le> tk_offset k" and "terminal_round admin i rd k = (frames, ended)"
  shows "streamed content k frames
    \<and> outputs frames \<le> (if tk_awaiting_ack k then 0 else 1)
    \<and> (\<forall>k'. ended = Some k' \<longrightarrow> tk_offset k' = tk_offset k + int (length (stream_bytes frames)) \<and> tk_end k' = tk_end k
        \<and> outputs frames + (if tk_awaiting_ack k' then 0 else 1)
          \<le> (if tk_awaiting_ack k then 0 else 1) + (if rd_message rd = M_ack then 1 else 0))"
proof (cases "rd_shutdown rd \<or> wants_data k \<and> isl (fst (get_task i (sv_db (rd_svc rd))))")
  case True
  then have "frames = [T_close 1001] \<or> frames = []" "ended = None"
    using assms(3) by (auto simp: terminal_round_def split: if_splits)
  then show ?thesis by (auto simp: streamed_def within_end_def BLOCK_def split: option.splits)
next
  case False
  obtain sent k1 where send: "terminal_send (rd_archive rd) (rd_updated rd) k = (sent, k1)" by fastforce
  obtain answers k2 where receive: "terminal_receive admin i rd k1 = (answers, k2)" by fastforce
  have frames: "frames = sent @ answers" "ended = k2"
    using assms(3) False by (auto simp: terminal_round_def send receive)
  note s = terminal_send_exact[OF assms(1,2) send]
  note q = terminal_receive_quiet[OF receive]
  have same: "outputs frames = outputs sent" "stream_bytes frames = stream_bytes sent" "small_blocks frames = small_blocks sent"
    using q by (simp_all add: frames)
  have "streamed content k frames" using s unfolding streamed_def same by blast
  moreover have count: "outputs sent + (if tk_awaiting_ack k1 then 0 else 1) = (if tk_awaiting_ack k then 0 else 1)"
    using s by (simp split: if_splits)
  moreover have "tk_offset k' = tk_offset k + int (length (stream_bytes sent)) \<and> tk_end k' = tk_end k
      \<and> outputs sent + (if tk_awaiting_ack k' then 0 else 1) \<le> (if tk_awaiting_ack k then 0 else 1) + (if rd_message rd = M_ack then 1 else 0)"
    if "k2 = Some k'" for k'
  proof -
    have "tk_offset k' = tk_offset k1" "tk_end k' = tk_end k1" "tk_awaiting_ack k' = (tk_awaiting_ack k1 \<and> rd_message rd \<noteq> M_ack)"
      using q that by simp_all
    with s count show ?thesis by (cases "tk_awaiting_ack k1"; cases "rd_message rd = M_ack") simp_all
  qed
  moreover have "outputs sent \<le> (if tk_awaiting_ack k then 0 else 1)" using count by linarith
  ultimately show ?thesis unfolding same frames(2) by blast
qed

lemma streamed_append:
  assumes "streamed content k f" and "streamed content k' g" and "0 \<le> tk_offset k"
    and "tk_offset k' = tk_offset k + int (length (stream_bytes f))" and "tk_end k' = tk_end k"
  shows "streamed content k (f @ g)"
proof -
  let ?o = "nat (tk_offset k)"
  have "nat (tk_offset k') = ?o + length (stream_bytes f)" using assms(3,4) by simp
  then have "stream_bytes (f @ g) = take (length (stream_bytes (f @ g))) (drop ?o content)"
    using assms(1,2) by (simp add: streamed_def take_add add.commute)
  moreover have "within_end k (int (length (stream_bytes (f @ g))))"
    using assms(1,2,4,5) by (auto simp: streamed_def within_end_def split: option.splits)
  moreover have "small_blocks (f @ g)" using assms(1,2) by (simp add: streamed_def)
  ultimately show ?thesis unfolding streamed_def by (intro conjI)
qed

text \<open>
  C16. The terminal socket sends a log exactly. While the log grows and whatever the browser sends,
  the decoded output frames put together are the bytes of the log from the offset the socket was opened at,
  none left out or sent twice and none beyond the end of the window; a frame holds at most 64 KiB, and
  a further frame is sent only after the last one was acknowledged.
\<close>

theorem terminal_stream_exact:
  assumes "\<forall>rd \<in> set rds. \<exists>later. content = log_bytes (rd_archive rd) @ later" and "0 \<le> tk_offset k"
    and "terminal_rounds admin i rds k = (frames, ended)"
  shows "streamed content k frames
    \<and> outputs frames \<le> (if tk_awaiting_ack k then 0 else 1) + acks rds
    \<and> (\<forall>k'. ended = Some k' \<longrightarrow> tk_offset k' = tk_offset k + int (length (stream_bytes frames)))"
  using assms
proof (induction rds arbitrary: k frames)
  case Nil
  then show ?case by (auto simp: streamed_def within_end_def acks_def split: option.splits)
next
  case (Cons rd rds)
  obtain sent k1 where first: "terminal_round admin i rd k = (sent, k1)" by fastforce
  obtain later where grown: "content = log_bytes (rd_archive rd) @ later" using Cons.prems(1) by auto
  note one = terminal_round_exact[OF grown Cons.prems(2) first]
  show ?case
  proof (cases k1)
    case None
    then have "frames = sent" "ended = None" using Cons.prems(3) by (simp_all add: first)
    with one show ?thesis by auto
  next
    case (Some k')
    obtain rest last_state where others: "terminal_rounds admin i rds k' = (rest, last_state)" by fastforce
    have frames: "frames = sent @ rest" "ended = last_state" using Cons.prems(3) by (simp_all add: first Some others)
    have moved: "tk_offset k' = tk_offset k + int (length (stream_bytes sent))" "tk_end k' = tk_end k"
      using one Some by simp_all
    have start: "0 \<le> tk_offset k'" using moved(1) Cons.prems(2) by simp
    have logs: "\<forall>rd \<in> set rds. \<exists>later. content = log_bytes (rd_archive rd) @ later" using Cons.prems(1) by simp
    note two = Cons.IH[OF logs start others[folded frames(2)]]
    have "streamed content k (sent @ rest)"
      by (rule streamed_append[OF conjunct1[OF one] conjunct1[OF two] Cons.prems(2) moved])
    moreover have "outputs sent + outputs rest \<le> (if tk_awaiting_ack k then 0 else 1) + acks (rd # rds)"
    proof -
      have "outputs sent + (if tk_awaiting_ack k' then 0 else 1) \<le> (if tk_awaiting_ack k then 0 else 1) + (if rd_message rd = M_ack then 1 else 0)"
        using conjunct2[OF conjunct2[OF one]] Some by blast
      moreover have "acks (rd # rds) = (if rd_message rd = M_ack then 1 else 0) + acks rds" by (simp add: acks_def)
      ultimately show ?thesis using conjunct1[OF conjunct2[OF two]] by linarith
    qed
    moreover have "tk_offset k'' = tk_offset k + int (length (stream_bytes (sent @ rest)))" if "ended = Some k''" for k''
    proof -
      have "tk_offset k'' = tk_offset k' + int (length (stream_bytes rest))" using conjunct2[OF conjunct2[OF two]] that by blast
      then show ?thesis by (simp add: moved(1))
    qed
    ultimately show ?thesis unfolding frames(1) by (intro conjI allI impI) simp_all
  qed
qed

text \<open>
  The frame \<open>caught_up\<close>, documented as the end of the replay, may be sent in its middle: when the
  log holds more than one block and the browser has not acknowledged the first one within the wait of
  a round, the next round reads nothing and announces that the end is reached.
\<close>

theorem caught_up_early:
  assumes "ar_log (rd_archive rd1) = Some content" and "65536 < length content"
    and "\<not> rd_shutdown rd1" and "\<not> rd_shutdown rd2" and "rd_message rd1 = M_none" and "rd_message rd2 = M_none"
    and "fst (get_task i (sv_db (rd_svc rd1))) = Inr task"
  shows "\<exists>changed. fst (terminal_rounds admin i [rd1, rd2] (new_tsock 0 None))
    = [T_output (b64encode (take 65536 content)) 65536 (Some (rd_updated rd1)), T_caught_up 65536 changed]"
proof -
  let ?k = "\<lparr>tk_offset = 65536, tk_end = None, tk_awaiting_ack = True, tk_caught_up = False\<rparr>"
  have "wants_data (new_tsock 0 None)" "block_limit (new_tsock 0 None) = 65536"
    by (simp_all add: wants_data_def block_limit_def new_tsock_def BLOCK_def)
  moreover have "read_log (rd_archive rd1) 0 65536 = (take 65536 content, 65536)"
    using assms(1,2) by (simp add: read_log_def Let_def)
  moreover have "take 65536 content \<noteq> []" using assms(2) by auto
  ultimately have "terminal_send (rd_archive rd1) (rd_updated rd1) (new_tsock 0 None)
      = ([T_output (b64encode (take 65536 content)) 65536 (Some (rd_updated rd1))], ?k)"
    using assms(1) by (simp add: terminal_send_def new_tsock_def Let_def)
  then have one: "terminal_round admin i rd1 (new_tsock 0 None)
      = ([T_output (b64encode (take 65536 content)) 65536 (Some (rd_updated rd1))], Some ?k)"
    using assms(3,5,7) by (simp add: terminal_round_def terminal_receive_def)
  have "\<not> wants_data ?k" by (simp add: wants_data_def)
  then have "fst (terminal_round admin i rd2 ?k) = [T_caught_up 65536 (map_option (\<lambda>_. rd_updated rd2) (ar_log (rd_archive rd2)))]
      \<and> snd (terminal_round admin i rd2 ?k) \<noteq> None"
    using assms(4,6) by (simp add: terminal_round_def terminal_send_def terminal_receive_def Let_def)
  with one show ?thesis by (auto split: prod.splits option.splits)
qed

section \<open>Instances\<close>

theorem event_stream_exact_witness:
  "\<exists>frames c'. events_rounds False ''summary'' 0 [ex_db, ex_db] = (frames, c')
     \<and> proper frames = map (event_frame False ''summary'') (filter (\<lambda>ev. 0 < e_id ev \<and> e_id ev \<le> c') (db_events ex_db))
     \<and> fst ` set (event_body False ''summary'' (hd (db_events ex_db))) \<subseteq> {''task_id'', ''state''}"
proof -
  obtain frames c' where run: "events_rounds False ''summary'' 0 [ex_db, ex_db] = (frames, c')" by fastforce
  have "sorted_wrt (<) (map e_id (db_events ex_db))" using ex_db_ok by (simp add: db_ok_def events_ok_def)
  moreover have "\<forall>d \<in> set [ex_db, ex_db]. \<exists>later. db_events ex_db = db_events d @ later" by simp
  ultimately show ?thesis using event_stream_exact[OF _ _ run] run by blast
qed

definition ex_round :: "string \<Rightarrow> message \<Rightarrow> round" where
  "ex_round content m = \<lparr>rd_svc = ex_idle ex_db, rd_archive = ex_archive content, rd_updated = ''now'', rd_shutdown = False,
     rd_message = m, rd_taken = True\<rparr>"

theorem terminal_stream_exact_witness:
  "\<exists>frames ended. terminal_rounds True ''t1'' [ex_round ''hel'' M_ack, ex_round ''hello'' M_none] (new_tsock 1 None) = (frames, ended)
     \<and> streamed ''hello'' (new_tsock 1 None) frames \<and> outputs frames \<le> 2"
proof -
  let ?rds = "[ex_round ''hel'' M_ack, ex_round ''hello'' M_none]"
  obtain frames ended where run: "terminal_rounds True ''t1'' ?rds (new_tsock 1 None) = (frames, ended)" by fastforce
  have "\<forall>rd \<in> set ?rds. \<exists>later. ''hello'' = log_bytes (rd_archive rd) @ later"
    by (simp add: ex_round_def ex_archive_def log_bytes_def)
  moreover have "0 \<le> tk_offset (new_tsock 1 None)" by (simp add: new_tsock_def)
  moreover have "acks ?rds = 1" "\<not> tk_awaiting_ack (new_tsock 1 None)" by (simp_all add: acks_def ex_round_def new_tsock_def)
  ultimately show ?thesis using terminal_stream_exact[OF _ _ run] run by fastforce
qed

theorem caught_up_early_witness:
  "\<exists>changed. fst (terminal_rounds False ''t1'' [ex_round (replicate 65537 (CHR ''x'')) M_none, ex_round (replicate 65537 (CHR ''x'')) M_none]
      (new_tsock 0 None))
    = [T_output (b64encode (take 65536 (replicate 65537 (CHR ''x'')))) 65536 (Some ''now''), T_caught_up 65536 changed]"
proof -
  let ?rd = "ex_round (replicate 65537 (CHR ''x'')) M_none"
  have "task_ids ex_db = {''t1''}" using ex_db_row(1) by (metis task_ids_def list.set_map list.set(1,2))
  then obtain task where task: "fst (get_task ''t1'' (sv_db (rd_svc ?rd))) = Inr task"
    using mapS_get_task[OF ex_db_ok, of "[''t1'']"] by (auto simp: ex_round_def bindS_def retS_def split: prod.splits sum.splits)
  show ?thesis
    using caught_up_early[of ?rd "replicate 65537 (CHR ''x'')" ?rd "''t1''" task False] task
    by (simp add: ex_round_def ex_archive_def)
qed

end
