(* ===== verification/LF_Supervisor.thy ===== *)
theory LF_Supervisor
  imports LF_Api
begin

text \<open>
  Tasks in units of the service manager: \<open>SystemdExecutor\<close> of \<^verbatim>\<open>src/src/localflow/executor.py\<close>, the
  supervisor inside a unit (\<^verbatim>\<open>supervisor.py\<close>), their control socket (\<^verbatim>\<open>control.py\<close>) and the lines both
  write into the log of a task (\<open>lifecycle_line\<close> of \<^verbatim>\<open>log_files.py\<close>).

  What the service manager and the terminal answer are inputs. The digest is a parameter.
\<close>

section \<open>Lines about a process\<close>

text \<open>A field that is \<open>None\<close> is left out; the time is an argument.\<close>

definition lifecycle_line :: "string \<Rightarrow> string \<Rightarrow> jdict \<Rightarrow> string" where
  "lifecycle_line timestamp event vs =
     (let details = join '' '' (map (\<lambda>(key, v). key @ ''='' @ py_repr v) (filter (\<lambda>(_, v). v \<noteq> JNull) vs))
      in utf8 (''[LocalFlow '' @ timestamp @ ''] '' @ event @ (if details \<noteq> [] then '' '' @ details else []) @ [NL]))"

definition source_fields :: "json \<Rightarrow> jdict result" where
  "source_fields invocation =
     (case invocation of
        JObj d \<Rightarrow>
          (case map_of d ''statement'' of
             Some v \<Rightarrow> Inr [(''statement'', JStr (py_str v))]
           | None \<Rightarrow>
               (case map_of d ''path'' of
                  None \<Rightarrow> Inl (KeyError ''path'')
                | Some path \<Rightarrow>
                    bindR (py_iter (jget ''arguments'' d (JList []))) (\<lambda>items.
                      Inr [(''path'', JStr (py_str path)), (''arguments'', JList items)])))
      | JList _ \<Rightarrow> Inl (TypeError ''list indices must be integers or slices, not str'')
      | JStr _ \<Rightarrow> Inl (TypeError ''string indices must be integers'')
      | _ \<Rightarrow> Inl (TypeError (''argument of type '' @ [SQ] @ type_name invocation @ [SQ] @ '' is not iterable'')))"

text \<open>
  The lines before a command is started: the files it sources, and the command as it was written. A
  malformed entry raises after the lines of the entries before it were written.
\<close>

fun written_lines :: "('a \<Rightarrow> string result) \<Rightarrow> 'a list \<Rightarrow> string list \<times> error option" where
  "written_lines line [] = ([], None)"
| "written_lines line (x # xs) =
     (case line x of
        Inl err \<Rightarrow> ([], Some err)
      | Inr text \<Rightarrow> (case written_lines line xs of (later, err) \<Rightarrow> (text # later, err)))"

definition source_lines_of :: "string \<Rightarrow> jdict \<Rightarrow> string list \<times> error option" where
  "source_lines_of timestamp custom =
     (let invocations = jget ''_source_invocations'' custom (JList [])
      in if truthy invocations
         then (case py_iter invocations of
                 Inl err \<Rightarrow> ([], Some err)
               | Inr items \<Rightarrow>
                   written_lines (\<lambda>item. bindR (source_fields item) (\<lambda>vs. Inr (lifecycle_line timestamp ''process.source'' vs))) items)
         else (case py_iter (jget ''_source_files'' custom (JList [])) of
                 Inl err \<Rightarrow> ([], Some err)
               | Inr files \<Rightarrow>
                   (map (\<lambda>f. lifecycle_line timestamp ''process.source'' [(''path'', JStr (py_str f))]) files, None)))"

definition command_line :: "string \<Rightarrow> string list \<Rightarrow> string \<Rightarrow> string" where
  "command_line timestamp command cwd =
     lifecycle_line timestamp ''process.command'' [(''cwd'', JStr cwd), (''command'', JStr (command_for_log command cwd))]"

definition command_lines :: "string \<Rightarrow> string list \<Rightarrow> string \<Rightarrow> jdict \<Rightarrow> string list \<times> error option" where
  "command_lines timestamp command cwd custom =
     (case source_lines_of timestamp custom of
        (texts, Some err) \<Rightarrow> (texts, Some err)
      | (texts, None) \<Rightarrow> (texts @ [command_line timestamp command cwd], None))"

section \<open>The control socket\<close>

definition control_socket_path :: "(string \<Rightarrow> string) \<Rightarrow> string \<Rightarrow> string \<Rightarrow> nat \<Rightarrow> bool \<Rightarrow> ppath \<Rightarrow> ppath" where
  "control_socket_path sha home task_id user_id user_runtime temporary =
     path_join
       (if user_runtime then foldl path_join (parse_path ''/run/user'') [parse_path (nat_str user_id), parse_path ''localflow'']
        else path_join temporary (parse_path (''localflow-'' @ nat_str user_id)))
       (parse_path (take 32 (sha (home @ '':'' @ task_id)) @ ''.sock''))"

text \<open>The messages of the executor, and what the supervisor makes of the bytes it receives.\<close>

definition write_message :: "string \<Rightarrow> string" where
  "write_message data = ''I'' @ data"

definition resize_message :: "int \<Rightarrow> int \<Rightarrow> string" where
  "resize_message rows cols = ''R'' @ int_str rows @ '','' @ int_str cols"

definition RECEIVE_LIMIT :: nat where
  "RECEIVE_LIMIT = 65536"

datatype control_action = Input string | Resize int int | Ignore

text \<open>\<open>struct.pack\<close> refuses numbers that do not fit 16 bits.\<close>

definition control_action_of :: "string \<Rightarrow> control_action result" where
  "control_action_of message =
     (if take 1 message = ''I'' then Inr (Input (drop 1 message))
      else if take 1 message = ''R'' then
        (case split_first '','' (drop 1 message) of
           None \<Rightarrow> Inl (ValueError ''not enough values to unpack'')
         | Some (a, b) \<Rightarrow>
             (case (py_int a, py_int b) of
                (Some rows, Some cols) \<Rightarrow>
                  if 0 \<le> rows \<and> rows \<le> 65535 \<and> 0 \<le> cols \<and> cols \<le> 65535 then Inr (Resize rows cols)
                  else Inl (ValueError ''ushort format requires 0 <= number <= 65535'')
              | _ \<Rightarrow> Inl (ValueError ''invalid literal for int()'')))
      else Inr Ignore)"

text \<open>A datagram longer than the buffer of \<open>recv\<close> loses its end.\<close>

definition received :: "string \<Rightarrow> control_action result" where
  "received datagram = control_action_of (take RECEIVE_LIMIT datagram)"

section \<open>The supervisor\<close>

text \<open>\<open>Starting\<close> holds the lines that are still to be written and the error that ends the start.\<close>

datatype sup_phase = Starting "string list" "error option" | Polling | Checking | Returned int | Crashed error

text \<open>\<open>su_log\<close> is the log of the task, on which the supervisor has the writer \<open>SELF\<close> and the controller may have others.\<close>

record supervisor =
  su_log :: log_file
  su_input :: string
  su_window :: "(int \<times> int) option"
  su_exit_file :: "string option"
  su_phase :: sup_phase

definition SELF :: nat where
  "SELF = 0"

definition log_lines :: "write_io \<Rightarrow> string list \<Rightarrow> writer \<Rightarrow> writer" where
  "log_lines io texts w = write_logs (map (\<lambda>text. (io, text)) texts) w"

text \<open>From the fork to the loop: the lines of the start, and the error that ends it.\<close>

definition started_lines :: "string \<Rightarrow> nat \<Rightarrow> string list \<Rightarrow> string \<Rightarrow> jdict \<Rightarrow> string list \<times> error option" where
  "started_lines timestamp child command cwd custom =
     (case command_lines timestamp command cwd custom of
        (texts, Some err) \<Rightarrow> (texts, Some err)
      | (texts, None) \<Rightarrow>
          (texts @ [lifecycle_line timestamp ''process.started'' [(''pid'', JInt (int child)), (''terminal'', JStr ''pty'')]], None))"

definition supervise_start ::
    "receipt_io \<Rightarrow> int \<Rightarrow> int \<Rightarrow> string list \<times> error option \<Rightarrow> log_file \<Rightarrow> supervisor result" where
  "supervise_start io max_bytes keep_free_bytes started lf =
     bindR (open_log SELF max_bytes keep_free_bytes io lf) (\<lambda>opened.
       Inr \<lparr>su_log = opened, su_input = [], su_window = None, su_exit_file = None,
            su_phase = Starting (fst started) (snd started)\<rparr>)"

text \<open>The events of one \<open>select\<close>: a datagram, and a chunk read from the terminal (empty after an error).\<close>

datatype sup_event = Datagram string | Chunk string

definition on_event :: "write_io \<Rightarrow> sup_event \<Rightarrow> supervisor \<Rightarrow> supervisor" where
  "on_event io ev su =
     (case ev of
        Datagram d \<Rightarrow>
          (case received d of
             Inl err \<Rightarrow> su\<lparr>su_phase := Crashed err\<rparr>
           | Inr (Input bytes) \<Rightarrow> su\<lparr>su_input := su_input su @ bytes\<rparr>
           | Inr (Resize rows cols) \<Rightarrow> su\<lparr>su_window := Some (rows, cols)\<rparr>
           | Inr Ignore \<Rightarrow> su)
      | Chunk c \<Rightarrow> su\<lparr>su_log := log_write SELF io c (su_log su)\<rparr>)"

definition exit_line :: "string \<Rightarrow> int \<Rightarrow> string" where
  "exit_line timestamp code = lifecycle_line timestamp ''process.exited'' [(''exit_code'', JInt code)]"

text \<open>\<open>waitpid\<close> without waiting: the child has exited, or the loop goes on.\<close>

definition check_child :: "write_io \<Rightarrow> string \<Rightarrow> int option \<Rightarrow> supervisor \<Rightarrow> supervisor" where
  "check_child io timestamp waited su =
     (case waited of
        None \<Rightarrow> su\<lparr>su_phase := Polling\<rparr>
      | Some code \<Rightarrow>
          su\<lparr>su_log := log_write SELF io (exit_line timestamp code) (su_log su),
             su_exit_file := Some (int_str code), su_phase := Returned code\<rparr>)"

text \<open>
  The supervisor and the terminal of its child. The child writes and exits at any time; what it wrote
  waits in the terminal until it is read, at most 65536 bytes at once. The terminal is read at
  most once between two calls of \<open>waitpid\<close>. Other writers append to the log at any time; \<open>answers\<close> says how
  a rewrite of the receipt may end.
\<close>

record tty =
  tt_written :: string
  tt_pending :: string
  tt_exit :: "int option"
  tt_shown :: string

definition READ_LIMIT :: nat where
  "READ_LIMIT = 65536"

definition new_tty :: tty where
  "new_tty = \<lparr>tt_written = [], tt_pending = [], tt_exit = None, tt_shown = []\<rparr>"

definition may_answer :: "(receipt_io \<Rightarrow> archive \<Rightarrow> bool) \<Rightarrow> write_io \<Rightarrow> supervisor \<Rightarrow> bool" where
  "may_answer answers io su \<longleftrightarrow> answers (io_limit io) (lf_archive (su_log su)) \<and> answers (io_error io) (lf_archive (su_log su))"

inductive sup_step :: "(receipt_io \<Rightarrow> archive \<Rightarrow> bool) \<Rightarrow> tty \<times> supervisor \<Rightarrow> tty \<times> supervisor \<Rightarrow> bool" for answers where
  child_writes: "tt_exit t = None \<Longrightarrow>
    sup_step answers (t, su) (t\<lparr>tt_written := tt_written t @ s, tt_pending := tt_pending t @ s\<rparr>, su)"
| child_exits: "tt_exit t = None \<Longrightarrow> sup_step answers (t, su) (t\<lparr>tt_exit := Some code\<rparr>, su)"
| others: "log_step answers i (su_log su) lf' \<Longrightarrow> i \<noteq> SELF \<Longrightarrow> sup_step answers (t, su) (t, su\<lparr>su_log := lf'\<rparr>)"
| start_line: "su_phase su = Starting (line # texts) err \<Longrightarrow> may_answer answers io su \<Longrightarrow>
    sup_step answers (t, su) (t, su\<lparr>su_log := log_write SELF io line (su_log su), su_phase := Starting texts err\<rparr>)"
| started: "su_phase su = Starting [] err \<Longrightarrow>
    sup_step answers (t, su) (t, su\<lparr>su_phase := (case err of None \<Rightarrow> Polling | Some e \<Rightarrow> Crashed e)\<rparr>)"
| message: "su_phase su = Polling \<or> su_phase su = Checking \<Longrightarrow> sup_step answers (t, su) (t, on_event io (Datagram d) su)"
| chunk: "su_phase su = Polling \<Longrightarrow> n \<le> READ_LIMIT \<Longrightarrow> may_answer answers io su \<Longrightarrow>
    sup_step answers (t, su)
      (t\<lparr>tt_pending := drop n (tt_pending t), tt_shown := tt_shown t @ take n (tt_pending t)\<rparr>,
       (on_event io (Chunk (take n (tt_pending t))) su)\<lparr>su_phase := Checking\<rparr>)"
| nothing_ready: "su_phase su = Polling \<Longrightarrow> sup_step answers (t, su) (t, su\<lparr>su_phase := Checking\<rparr>)"
| check: "su_phase su = Checking \<Longrightarrow> may_answer answers io su \<Longrightarrow>
    sup_step answers (t, su) (t, check_child io timestamp (tt_exit t) su)"

section \<open>The executor\<close>

definition unit_name :: "(string \<Rightarrow> string) \<Rightarrow> string \<Rightarrow> string \<Rightarrow> string" where
  "unit_name sha home task_id = ''localflow-'' @ take 12 (sha home) @ ''-task-'' @ task_id @ ''.service''"

text \<open>The unit named in the descriptor of a task; \<open>stored\<close> is what reading and decoding it gives.\<close>

definition recorded_unit :: "json result \<Rightarrow> string \<Rightarrow> string result" where
  "recorded_unit stored task_id =
     (let legacy = ''localflow-task-'' @ task_id @ ''.service''
      in case stored of
           Inl err \<Rightarrow> if list_ex (\<lambda>cls. is_a cls err) [''OSError'', ''ValueError'', ''TypeError''] then Inr legacy else Inl err
         | Inr (JObj payload) \<Rightarrow>
             (case jget ''_localflow'' payload (JObj []) of
                JObj own \<Rightarrow>
                  Inr (case map_of own ''unit'' of Some (JStr u) \<Rightarrow> if u \<noteq> [] then u else legacy | _ \<Rightarrow> legacy)
              | _ \<Rightarrow> Inl (AttributeError ''get''))
         | Inr _ \<Rightarrow> Inl (AttributeError ''get''))"

definition descriptor_of :: "jdict \<Rightarrow> int \<Rightarrow> int \<Rightarrow> string \<Rightarrow> jdict" where
  "descriptor_of dump max_bytes keep_free_bytes unit =
     dict_set ''_localflow''
       (JObj [(''task_log_max_bytes'', JInt max_bytes), (''keep_free_bytes'', JInt keep_free_bytes), (''unit'', JStr unit)]) dump"

text \<open>The version of the service manager: the number after its name, zero when it is unknown.\<close>

definition byte_space :: "char \<Rightarrow> bool" where
  "byte_space c \<longleftrightarrow> (let n = of_char c :: nat in 9 \<le> n \<and> n \<le> 13 \<or> n = 32)"

definition byte_word :: "char \<Rightarrow> bool" where
  "byte_word c \<longleftrightarrow> (let n = of_char c :: nat in is_digit c \<or> 65 \<le> n \<and> n \<le> 90 \<or> n = 95 \<or> 97 \<le> n \<and> n \<le> 122)"

definition systemd_version :: "string \<Rightarrow> int \<Rightarrow> int" where
  "systemd_version stdout code =
     (let rest = drop 7 stdout;
          number = dropWhile byte_space rest;
          digits = takeWhile is_digit number;
          behind = dropWhile is_digit number
      in if take 7 stdout = ''systemd'' \<and> rest \<noteq> [] \<and> byte_space (hd rest) \<and> digits \<noteq> []
            \<and> (behind = [] \<or> \<not> byte_word (hd behind)) \<and> code = 0
         then foldl (\<lambda>n c. 10 * n + (int (of_char c) - 48)) 0 digits else 0)"

record launch =
  la_frozen :: bool
  la_executable :: string
  la_root :: string

definition start_command :: "launch \<Rightarrow> int \<Rightarrow> string \<Rightarrow> string \<Rightarrow> string \<Rightarrow> string list" where
  "start_command la version unit working_directory task_id =
     [''systemd-run'', ''--user'', ''--unit'', unit, ''--quiet'', ''--property'', ''WorkingDirectory='' @ working_directory,
      ''--property'', ''KillMode=control-group'', ''--property'', ''SendSIGKILL=yes'', ''--property'',
      if version \<ge> 240 then ''Type=exec'' else ''Type=simple'']
     @ (if version \<ge> 236 then [''--collect''] else [])
     @ (if la_frozen la
        then [''--setenv=LOCALFLOW_INTERNAL_MODE=supervisor'', ''--setenv=LOCALFLOW_INTERNAL_ROOT='' @ la_root la,
              ''--setenv=LOCALFLOW_INTERNAL_TASK='' @ task_id, la_executable la]
        else [la_executable la, ''-m'', ''localflow.supervisor'', ''--root'', la_root la, ''--task'', task_id])"

text \<open>
  The end of a call of the service manager: its code and the stripped text of its error output. An
  error of the launch itself is \<open>Inl\<close>.
\<close>

type_synonym called = "error + (int \<times> string)"

definition launch_result :: "called \<Rightarrow> unit result" where
  "launch_result answer =
     (case answer of
        Inl err \<Rightarrow> Inl err
      | Inr (code, stderr) \<Rightarrow>
          if code \<noteq> 0 then Inl (RuntimeError (if stderr \<noteq> [] then stderr else ''systemd-run failed'')) else Inr ())"

text \<open>The log of a start, and the reference of the started task.\<close>

definition systemd_start :: "write_io \<Rightarrow> string \<Rightarrow> (error \<Rightarrow> string) \<Rightarrow> string \<Rightarrow> called \<Rightarrow> writer \<Rightarrow> string result \<times> writer" where
  "systemd_start io timestamp described unit answer w =
     (let w = snd (write_log io (lifecycle_line timestamp ''executor.starting''
            [(''backend'', JStr ''systemd''), (''unit'', JStr unit)]) w)
      in case launch_result answer of
           Inl err \<Rightarrow>
             (Inl err, snd (write_log io (lifecycle_line timestamp ''executor.start_failed'' [(''error'', JStr (described err))]) w))
         | Inr _ \<Rightarrow>
             (Inr unit, snd (write_log io (lifecycle_line timestamp ''executor.accepted'' [(''unit'', JStr unit)]) w)))"

text \<open>Every state of a unit that is not final owns its processes.\<close>

definition unit_values :: "string \<Rightarrow> (string, string) dict" where
  "unit_values stdout = dict_update [] (List.map_filter (split_first ''='') (split_on NL stdout))"

definition unit_owns_process_tree :: "string \<Rightarrow> int \<Rightarrow> string \<Rightarrow> string \<Rightarrow> bool result" where
  "unit_owns_process_tree unit code stdout stderr =
     (if code \<noteq> 0
      then Inl (RuntimeError (if stderr \<noteq> [] then stderr else ''could not inspect systemd unit '' @ unit))
      else case (map_of (unit_values stdout) ''LoadState'', map_of (unit_values stdout) ''ActiveState'') of
             (Some load_state, Some active_state) \<Rightarrow>
               Inr (strip load_state \<noteq> ''not-found'' \<and> strip active_state \<notin> {''inactive'', ''failed''})
           | _ \<Rightarrow> Inl (RuntimeError (''incomplete systemd state for '' @ unit)))"

text \<open>
  The loop of \<open>wait\<close>: in each round the unit is asked first and the exit file is read after that.
  \<open>None\<close> means that it still waits after these rounds.
\<close>

definition exit_code_of :: "string \<Rightarrow> int result" where
  "exit_code_of content =
     (case py_int (strip content) of Some code \<Rightarrow> Inr code | None \<Rightarrow> Inl (ValueError ''invalid literal for int()''))"

fun systemd_wait :: "(bool result \<times> string option) list \<Rightarrow> int result option" where
  "systemd_wait [] = None"
| "systemd_wait ((owns, exit_file) # rounds) =
     (case owns of
        Inl err \<Rightarrow> Some (Inl err)
      | Inr True \<Rightarrow> systemd_wait rounds
      | Inr False \<Rightarrow> Some (case exit_file of Some content \<Rightarrow> exit_code_of content | None \<Rightarrow> Inr 137))"

definition completed_code :: "string option \<Rightarrow> int option result" where
  "completed_code exit_file =
     (case exit_file of None \<Rightarrow> Inr None | Some content \<Rightarrow> bindR (exit_code_of content) (\<lambda>code. Inr (Some code)))"

definition stage_signal :: "string \<Rightarrow> string option" where
  "stage_signal step = map_of [(''sigint'', ''SIGINT''), (''sigterm'', ''SIGTERM''), (''sigkill'', ''SIGKILL'')] step"

definition kill_command :: "string \<Rightarrow> string \<Rightarrow> string list option" where
  "kill_command step unit =
     map_option (\<lambda>signal_name.
       [''systemctl'', ''--user'', ''kill'', ''--kill-who='' @ (if step = ''sigkill'' then ''all'' else ''main''),
        ''--signal='' @ signal_name, unit]) (stage_signal step)"

definition systemd_interrupt :: "string \<Rightarrow> string \<Rightarrow> called \<Rightarrow> bool result \<Rightarrow> bool result" where
  "systemd_interrupt step unit answer owns =
     (case stage_signal step of
        None \<Rightarrow> Inl (KeyError step)
      | Some signal_name \<Rightarrow>
          bindR answer (\<lambda>(code, stderr).
            if code = 0 then Inr True
            else bindR owns (\<lambda>owned.
              if \<not> owned then Inr False
              else Inl (RuntimeError (''systemctl kill failed for '' @ unit @ '' ('' @ (if step = ''sigkill'' then ''all'' else ''main'')
                     @ '', '' @ signal_name @ ''): '' @ stderr)))))"

definition systemd_is_running :: "string option \<Rightarrow> (string \<Rightarrow> bool result) \<Rightarrow> bool result" where
  "systemd_is_running executor_ref owns =
     (case given_key executor_ref of None \<Rightarrow> Inr False | Some unit \<Rightarrow> owns unit)"

text \<open>\<open>_control\<close>: the message is sent, or there is nobody to take it.\<close>

definition systemd_write :: "(string \<Rightarrow> bool) \<Rightarrow> string \<Rightarrow> bool" where
  "systemd_write sends data = sends (write_message data)"

definition systemd_resize :: "(string \<Rightarrow> bool) \<Rightarrow> int \<Rightarrow> int \<Rightarrow> bool" where
  "systemd_resize sends rows cols = sends (resize_message rows cols)"

end
