(* ===== verification/LF_Owner.thy ===== *)
theory LF_Owner
  imports LF_Prelude
begin

text \<open>
  The owner of a task's processes, \<^verbatim>\<open>src/src/localflow/process_owner.py\<close>: the search for descendants,
  the delivery of a signal to all of them, and the loop that reaps children until none is left.

  What \<^verbatim>\<open>/proc\<close> and the kernel answer are inputs. The processes below the owner are a table in the
  order they were created; the step relation lets them fork, exit and reap their own children in
  any order between the steps of the owner.
\<close>

section \<open>Descendants\<close>

text \<open>The \<open>children\<close> files of the threads of a process; \<open>None\<close> is one that could not be read.\<close>

type_synonym children_files = "nat \<Rightarrow> nat list option list"

fun read_entries :: "nat list option list \<Rightarrow> nat list \<times> nat list \<Rightarrow> nat list \<times> nat list" where
  "read_entries [] st = st"
| "read_entries (None # entries) st = read_entries entries st"
| "read_entries (Some values # entries) (pending, found) =
     (let fresh = filter (\<lambda>c. c \<notin> set found) (remdups values)
      in read_entries entries (pending @ fresh, found @ fresh))"

fun descend :: "nat \<Rightarrow> children_files \<Rightarrow> nat list \<Rightarrow> nat list \<Rightarrow> nat list option" where
  "descend 0 files pending found = None"
| "descend (Suc fuel) files pending found =
     (if pending = [] then Some found
      else case read_entries (files (last pending)) (butlast pending, found) of
             (pending', found') \<Rightarrow> descend fuel files pending' found')"

definition descendants :: "nat \<Rightarrow> children_files \<Rightarrow> nat \<Rightarrow> nat list option" where
  "descendants fuel files pid = descend fuel files [pid] []"

section \<open>Signals\<close>

definition SIGHUP :: nat where "SIGHUP = 1"

definition SIGINT :: nat where "SIGINT = 2"

definition SIGKILL :: nat where "SIGKILL = 9"

definition SIGTERM :: nat where "SIGTERM = 15"

definition SIGCONT :: nat where "SIGCONT = 18"

text \<open>
  \<open>pidfd_open\<close> gives a descriptor or fails with an error; \<open>sg_alive\<close> says whether the process is there
  when the signal is sent, \<open>sg_direct\<close> are the children of the owner as the fallback reads them.
\<close>

datatype pidfd = Descriptor | Errno string

record signal_io =
  sg_open :: "nat \<Rightarrow> pidfd"
  sg_alive :: "nat \<Rightarrow> bool"
  sg_direct :: "nat list"

definition deliver :: "nat \<Rightarrow> nat \<Rightarrow> (nat \<times> nat) list" where
  "deliver sig pid = (pid, sig) # (if sig \<noteq> SIGKILL then [(pid, SIGCONT)] else [])"

definition signal_one :: "signal_io \<Rightarrow> nat \<Rightarrow> nat \<Rightarrow> (nat \<times> nat) list result" where
  "signal_one io sig pid =
     (case sg_open io pid of
        Descriptor \<Rightarrow> Inr (if sg_alive io pid then deliver sig pid else [])
      | Errno e \<Rightarrow>
          if e = ''ESRCH'' then Inr []
          else if e \<notin> {''ENOSYS'', ''EINVAL''} then Inl (OSError e)
          else Inr (if pid \<in> set (sg_direct io) \<and> sg_alive io pid then deliver sig pid else []))"

text \<open>The signals sent, and the error that ended the loop.\<close>

fun signal_all :: "signal_io \<Rightarrow> nat \<Rightarrow> nat list \<Rightarrow> (nat \<times> nat) list \<times> error option" where
  "signal_all io sig [] = ([], None)"
| "signal_all io sig (pid # pids) =
     (case signal_one io sig pid of
        Inl err \<Rightarrow> ([], Some err)
      | Inr sent \<Rightarrow> (case signal_all io sig pids of (later, err) \<Rightarrow> (sent @ later, err)))"

section \<open>The owner\<close>

text \<open>\<open>Lost\<close> is the end by an error inside the \<open>finally\<close> clause itself.\<close>

datatype phase = Reaping | Control | Draining error | Ended "error option" | Lost error

text \<open>\<open>requested\<close> is zero when no signal is requested. \<open>ow_sent\<close> and \<open>ow_reaped\<close> record what the owner did.\<close>

record owner =
  ow_status :: "int option"
  ow_force :: bool
  ow_requested :: nat
  ow_phase :: phase
  ow_sent :: "(nat \<times> nat) list"
  ow_reaped :: "(nat \<times> int) list"

definition new_owner :: "error option \<Rightarrow> owner" where
  "new_owner receipt_error =
     \<lparr>ow_status = None, ow_force = False, ow_requested = 0,
      ow_phase = (case receipt_error of None \<Rightarrow> Reaping | Some err \<Rightarrow> Draining err), ow_sent = [], ow_reaped = []\<rparr>"

text \<open>A child was reaped in the loop.\<close>

definition reaped :: "nat \<Rightarrow> nat \<Rightarrow> int \<Rightarrow> owner \<Rightarrow> owner" where
  "reaped primary pid code ow =
     ow\<lparr>ow_status := (if pid = primary then Some code else ow_status ow), ow_reaped := ow_reaped ow @ [(pid, code)]\<rparr>"

definition asked :: "string option \<Rightarrow> nat \<Rightarrow> nat" where
  "asked message requested =
     (case message of
        None \<Rightarrow> requested
      | Some m \<Rightarrow>
          if m = ''sigint'' then SIGINT else if m = ''sigterm'' then SIGTERM
          else if m = ''sigkill'' then SIGKILL else requested)"

text \<open>One call of \<open>_signal_family\<close>: \<open>pids\<close> are the descendants it finds. An error leaves the loop.\<close>

definition signal_family :: "signal_io \<Rightarrow> nat \<Rightarrow> nat list \<Rightarrow> owner \<Rightarrow> owner \<times> error option" where
  "signal_family io sig pids ow =
     (case signal_all io sig pids of (sent, err) \<Rightarrow> (ow\<lparr>ow_sent := ow_sent ow @ sent\<rparr>, err))"

definition failed :: "owner \<times> error option \<Rightarrow> (owner \<Rightarrow> owner) \<Rightarrow> owner" where
  "failed r next_part =
     (case r of (ow, None) \<Rightarrow> next_part ow | (ow, Some err) \<Rightarrow> ow\<lparr>ow_phase := Draining err\<rparr>)"

definition control_round :: "signal_io \<Rightarrow> signal_io \<Rightarrow> nat list \<Rightarrow> nat list \<Rightarrow> string option \<Rightarrow> owner \<Rightarrow> owner" where
  "control_round io io' pids pids' message ow =
     (let ow = ow\<lparr>ow_requested := asked message (ow_requested ow)\<rparr>;
          sig = ow_requested ow;
          r = (if sig \<noteq> 0
               then (case signal_family io sig pids (ow\<lparr>ow_force := ow_force ow \<or> sig = SIGKILL\<rparr>) of
                       (ow, None) \<Rightarrow> (ow\<lparr>ow_requested := 0\<rparr>, None)
                     | (ow, Some err) \<Rightarrow> (ow, Some err))
               else (ow, None))
      in failed r (\<lambda>ow.
           failed (if ow_force ow then signal_family io' SIGKILL pids' ow else (ow, None)) (\<lambda>ow.
             ow\<lparr>ow_phase := Reaping\<rparr>)))"

definition drain_round :: "signal_io \<Rightarrow> nat list \<Rightarrow> owner \<Rightarrow> owner" where
  "drain_round io found ow =
     (case signal_family io SIGKILL found ow of
        (ow, None) \<Rightarrow> ow
      | (ow, Some err) \<Rightarrow> ow\<lparr>ow_phase := Lost err\<rparr>)"

text \<open>How the process of the owner ends: with a code, or by the signal its leader died of.\<close>

datatype process_end = Exited int | Killed nat

definition own_result :: "owner \<Rightarrow> process_end" where
  "own_result ow =
     (let code = (case ow_status ow of Some c \<Rightarrow> c | None \<Rightarrow> 127)
      in if code < 0 then Killed (nat (- code)) else Exited code)"

text \<open>The return code \<open>subprocess\<close> gives the controller for it.\<close>

fun returncode :: "process_end \<Rightarrow> int" where
  "returncode (Exited c) = c mod 256"
| "returncode (Killed sig) = - int sig"

section \<open>Processes\<close>

text \<open>A process with its parent and, when it has exited, its exit code.\<close>

type_synonym family = "(nat \<times> nat \<times> int option) list"

definition pids :: "family \<Rightarrow> nat list" where
  "pids fam = map fst fam"

definition live :: "family \<Rightarrow> nat set" where
  "live fam = {q. \<exists>p. (q, p, None) \<in> set fam}"

definition reparent :: "nat \<Rightarrow> nat \<Rightarrow> nat \<times> nat \<times> int option \<Rightarrow> nat \<times> nat \<times> int option" where
  "reparent p r = (\<lambda>(q, parent, st). (q, if parent = p then r else parent, st))"

definition exits :: "nat \<Rightarrow> int \<Rightarrow> nat \<Rightarrow> family \<Rightarrow> family" where
  "exits p code r fam =
     map (\<lambda>(q, parent, st). (q, parent, if q = p then Some code else st)) (map (reparent p r) fam)"

definition unlisted :: "nat \<Rightarrow> family \<Rightarrow> family" where
  "unlisted q fam = filter (\<lambda>(q', _). q' \<noteq> q) fam"

text \<open>
  A step of the family: a process forks a child with an unused id; a process exits and its children
  move to another live process that was there before it, or to the owner, the subreaper; a process
  reaps a child that has exited.
\<close>

inductive family_step :: "nat \<Rightarrow> family \<Rightarrow> family \<Rightarrow> bool" for self where
  forks: "p \<in> live fam \<Longrightarrow> c \<notin> set (pids fam) \<Longrightarrow> c \<noteq> self \<Longrightarrow>
    family_step self fam (fam @ [(c, p, None)])"
| exits: "fam = older @ (p, parent, None) # younger \<Longrightarrow> r = self \<or> r \<in> live older \<Longrightarrow>
    family_step self fam (exits p code r fam)"
| reaps: "(q, p, Some code) \<in> set fam \<Longrightarrow> p \<noteq> self \<Longrightarrow>
    family_step self fam (unlisted q fam)"

text \<open>
  The owner between the calls that can wait: \<open>waitpid\<close> reports a child that has exited, that none
  has, or that there are none; a signal handler sets the requested signal at any time. After an
  error the loop of the \<open>finally\<close> clause signals and reaps until there are no children.
\<close>

definition has_children :: "nat \<Rightarrow> family \<Rightarrow> bool" where
  "has_children self fam \<longleftrightarrow> list_ex (\<lambda>(_, p, _). p = self) fam"

definition has_zombies :: "nat \<Rightarrow> family \<Rightarrow> bool" where
  "has_zombies self fam \<longleftrightarrow> list_ex (\<lambda>(_, p, st). p = self \<and> st \<noteq> None) fam"

inductive own_step :: "nat \<Rightarrow> nat \<Rightarrow> family \<times> owner \<Rightarrow> family \<times> owner \<Rightarrow> bool" for self primary where
  world: "family_step self fam fam' \<Longrightarrow> own_step self primary (fam, ow) (fam', ow)"
| handler: "sig \<in> {SIGINT, SIGTERM, SIGHUP} \<Longrightarrow>
    own_step self primary (fam, ow) (fam, ow\<lparr>ow_requested := sig\<rparr>)"
| reap: "ow_phase ow = Reaping \<Longrightarrow> (q, self, Some code) \<in> set fam \<Longrightarrow>
    own_step self primary (fam, ow) (unlisted q fam, reaped primary q code ow)"
| none_exited: "ow_phase ow = Reaping \<Longrightarrow> has_children self fam \<Longrightarrow> \<not> has_zombies self fam \<Longrightarrow>
    own_step self primary (fam, ow) (fam, ow\<lparr>ow_phase := Control\<rparr>)"
| drained: "ow_phase ow = Reaping \<Longrightarrow> \<not> has_children self fam \<Longrightarrow>
    own_step self primary (fam, ow) (fam, ow\<lparr>ow_phase := Ended None\<rparr>)"
| control: "ow_phase ow = Control \<Longrightarrow>
    own_step self primary (fam, ow) (fam, control_round io io' found found' message ow)"
| recv_fails: "ow_phase ow = Control \<Longrightarrow>
    own_step self primary (fam, ow) (fam, ow\<lparr>ow_phase := Draining err\<rparr>)"
| drain_signal: "ow_phase ow = Draining err \<Longrightarrow>
    own_step self primary (fam, ow) (fam, drain_round io found ow)"
| drain_reap: "ow_phase ow = Draining err \<Longrightarrow> (q, self, Some code) \<in> set fam \<Longrightarrow>
    own_step self primary (fam, ow) (unlisted q fam, ow)"
| drain_end: "ow_phase ow = Draining err \<Longrightarrow> \<not> has_children self fam \<Longrightarrow>
    own_step self primary (fam, ow) (fam, ow\<lparr>ow_phase := Ended (Some err)\<rparr>)"

definition own_runs :: "nat \<Rightarrow> nat \<Rightarrow> error option \<Rightarrow> family \<times> owner \<Rightarrow> bool" where
  "own_runs self primary receipt_error st \<longleftrightarrow>
     (own_step self primary)\<^sup>*\<^sup>* ([(primary, self, None)], new_owner receipt_error) st"

end
