(* ===== verification/LF_Executor.thy ===== *)
theory LF_Executor
  imports LF_Supervisor LF_Owner
begin

text \<open>
  Tasks as child processes: \<open>SubprocessExecutor\<close> of \<^verbatim>\<open>src/src/localflow/executor.py\<close>. Its tables are the
  state; a start is cut at its awaits into the part that opens the log, the spawn and the receipt
  of the owner, with what the coroutine holds in between kept beside the tables. What the
  operating system answers are arguments.
\<close>

datatype platform = Linux | Windows | Posix

record process =
  ps_pid :: int
  ps_returncode :: "int option"
  ps_stdin :: "string option"

text \<open>
  \<open>sx_starting\<close> are the starts that hold an open log, and on Linux the directory of the owner, and
  have no process yet. \<open>sx_open\<close> are the open logs, \<open>sx_closed\<close> the writers that were closed, in order,
  and \<open>sx_dirs\<close> the directories that exist. \<open>sx_dropped\<close> are the starts that ended without closing their log.
\<close>

record sub_exec =
  sx_processes :: "(string, process) dict"
  sx_pumps :: "(string, unit) dict"
  sx_writers :: "(string, writer) dict"
  sx_owners :: "(string, string) dict"
  sx_starting :: "(string, writer \<times> string option) dict"
  sx_open :: "string list"
  sx_closed :: "(string \<times> writer) list"
  sx_dirs :: "string list"
  sx_dropped :: "string list"

definition new_executor :: sub_exec where
  "new_executor = \<lparr>sx_processes = [], sx_pumps = [], sx_writers = [], sx_owners = [], sx_starting = [], sx_open = [], sx_closed = [], sx_dirs = [], sx_dropped = []\<rparr>"

definition close_log :: "string \<Rightarrow> writer \<Rightarrow> sub_exec \<Rightarrow> sub_exec" where
  "close_log task_id sink sx =
     sx\<lparr>sx_open := remove1 task_id (sx_open sx), sx_closed := sx_closed sx @ [(task_id, sink)]\<rparr>"

definition failed_line :: "write_io \<Rightarrow> string \<Rightarrow> string \<Rightarrow> writer \<Rightarrow> writer" where
  "failed_line io timestamp text sink =
     snd (write_log io (lifecycle_line timestamp ''executor.start_failed'' [(''error'', JStr text)]) sink)"

definition cleanup :: "string option \<Rightarrow> sub_exec \<Rightarrow> sub_exec" where
  "cleanup owner_dir sx = (case owner_dir of None \<Rightarrow> sx | Some dir \<Rightarrow> sx\<lparr>sx_dirs := remove1 dir (sx_dirs sx)\<rparr>)"

section \<open>Starting a task\<close>

text \<open>
  The log is opened (which may raise), the working directory is checked, and on Linux a directory
  for the owner is made. An error of the latter is raised outside of the \<open>try\<close> statement, with the log open.
\<close>

definition start_open ::
    "platform \<Rightarrow> write_io \<Rightarrow> string \<Rightarrow> writer result \<Rightarrow> bool \<Rightarrow> string \<Rightarrow> string result \<Rightarrow> string \<Rightarrow> (sub_exec, unit) op" where
  "start_open platform io timestamp opened is_dir workdir owner_dir task_id sx =
     (case opened of
        Inl err \<Rightarrow> (Inl err, sx)
      | Inr w \<Rightarrow>
          let sink = snd (write_log io (lifecycle_line timestamp ''executor.starting'' [(''backend'', JStr ''subprocess'')]) w);
              sx = sx\<lparr>sx_open := sx_open sx @ [task_id]\<rparr>
          in if \<not> is_dir
             then let text = ''working directory does not exist: '' @ workdir
                  in (Inl (FileNotFoundError text), close_log task_id (failed_line io timestamp text sink) sx)
             else if platform \<noteq> Linux
             then (Inr (), sx\<lparr>sx_starting := dict_set task_id (sink, None) (sx_starting sx)\<rparr>)
             else (case owner_dir of
                     Inl err \<Rightarrow> (Inl err, sx\<lparr>sx_dropped := sx_dropped sx @ [task_id]\<rparr>)
                   | Inr dir \<Rightarrow>
                       (Inr (), sx\<lparr>sx_starting := dict_set task_id (sink, Some dir) (sx_starting sx), sx_dirs := sx_dirs sx @ [dir]\<rparr>)))"

definition owner_command :: "platform \<Rightarrow> bool \<Rightarrow> string \<Rightarrow> string list \<Rightarrow> string list" where
  "owner_command platform frozen executable command =
     (if platform \<noteq> Linux then command
      else if frozen then executable # command
      else [executable, ''-m'', ''localflow.process_owner''] @ command)"

text \<open>
  The lines about the command are written (\<open>command_lines\<close>) and the process is created. An error of
  either releases the directory and the log; otherwise the task is registered and its output is
  pumped into the log.
\<close>

definition start_spawn ::
    "write_io \<Rightarrow> string \<Rightarrow> (error \<Rightarrow> string) \<Rightarrow> string list \<times> error option \<Rightarrow> int result \<Rightarrow> string \<Rightarrow> (sub_exec, unit) op" where
  "start_spawn io timestamp described texts spawned task_id sx =
     (case map_of (sx_starting sx) task_id of
        None \<Rightarrow> (Inr (), sx)
      | Some (opened, owner) \<Rightarrow>
          let sx = sx\<lparr>sx_starting := dict_pop task_id (sx_starting sx)\<rparr>;
              sink = log_lines io (fst texts) opened
          in (case (case snd texts of Some err \<Rightarrow> Inl err | None \<Rightarrow> spawned) of
               Inl err \<Rightarrow> (Inl err, close_log task_id (failed_line io timestamp (described err) sink) (cleanup owner sx))
             | Inr pid \<Rightarrow>
                 let sink = snd (write_log io (lifecycle_line timestamp ''process.started'' [(''pid'', JInt pid)]) sink)
                 in (Inr (), sx\<lparr>
                       sx_owners := (case owner of Some dir \<Rightarrow> dict_set task_id dir (sx_owners sx) | None \<Rightarrow> sx_owners sx),
                       sx_processes := dict_set task_id \<lparr>ps_pid = pid, ps_returncode = None, ps_stdin = Some []\<rparr> (sx_processes sx),
                       sx_writers := dict_set task_id sink (sx_writers sx),
                       sx_pumps := dict_set task_id () (sx_pumps sx)\<rparr>)))"

section \<open>A registered task\<close>

text \<open>A chunk of output, and the end of the process.\<close>

definition pump :: "write_io \<Rightarrow> string \<Rightarrow> string \<Rightarrow> sub_exec \<Rightarrow> sub_exec" where
  "pump io task_id chunk sx =
     (case map_of (sx_writers sx) task_id of
        None \<Rightarrow> sx
      | Some sink \<Rightarrow> sx\<lparr>sx_writers := dict_set task_id (snd (write_log io chunk sink)) (sx_writers sx)\<rparr>)"

definition process_exits :: "string \<Rightarrow> int \<Rightarrow> sub_exec \<Rightarrow> sub_exec" where
  "process_exits task_id code sx =
     (case map_of (sx_processes sx) task_id of
        None \<Rightarrow> sx
      | Some ps \<Rightarrow> sx\<lparr>sx_processes := dict_set task_id (ps\<lparr>ps_returncode := Some code\<rparr>) (sx_processes sx)\<rparr>)"

text \<open>The \<open>finally\<close> clause of \<open>wait\<close>: nothing is released while the process runs.\<close>

definition release :: "string \<Rightarrow> sub_exec \<Rightarrow> sub_exec" where
  "release task_id sx =
     (case map_of (sx_processes sx) task_id of
        None \<Rightarrow> sx
      | Some ps \<Rightarrow>
          if ps_returncode ps = None then sx
          else
            let opened = map_of (sx_writers sx) task_id;
                owner = map_of (sx_owners sx) task_id;
                sx = sx\<lparr>sx_pumps := dict_pop task_id (sx_pumps sx), sx_writers := dict_pop task_id (sx_writers sx),
                        sx_processes := dict_pop task_id (sx_processes sx), sx_owners := dict_pop task_id (sx_owners sx)\<rparr>
            in cleanup owner (case opened of Some sink \<Rightarrow> close_log task_id sink sx | None \<Rightarrow> sx))"

text \<open>A wait may be cancelled, before the process has exited or while the rest of its output is pumped.\<close>

definition sub_wait :: "write_io \<Rightarrow> string \<Rightarrow> bool \<Rightarrow> string \<Rightarrow> (sub_exec, int) op" where
  "sub_wait io timestamp cancelled task_id sx =
     (case map_of (sx_processes sx) task_id of
        None \<Rightarrow> (Inl (KeyError task_id), sx)
      | Some ps \<Rightarrow>
          (case ps_returncode ps of
             None \<Rightarrow> (Inl (RuntimeError ''cancelled''), release task_id sx)
           | Some code \<Rightarrow>
               if cancelled then (Inl (RuntimeError ''cancelled''), release task_id sx)
               else (Inr code, release task_id (pump io task_id (exit_line timestamp code) sx))))"

text \<open>What an interrupt does, and how waiting for the channel of the owner ends.\<close>

datatype effect = To_owner string string | To_stdin string | Close_stdin | Terminate | Kill | Kill_group int string

datatype channel = Channel_ready | Exited_meanwhile | Deadline

definition sub_interrupt :: "platform \<Rightarrow> channel \<Rightarrow> string \<Rightarrow> string \<Rightarrow> sub_exec \<Rightarrow> (bool \<times> effect list) result" where
  "sub_interrupt platform channel task_id step sx =
     (case map_of (sx_processes sx) task_id of
        None \<Rightarrow> Inr (False, [])
      | Some ps \<Rightarrow>
          if ps_returncode ps \<noteq> None then Inr (False, [])
          else (case map_of (sx_owners sx) task_id of
                 Some dir \<Rightarrow>
                   (case channel of
                      Channel_ready \<Rightarrow> Inr (True, [To_owner dir step])
                    | Exited_meanwhile \<Rightarrow> Inr (False, [])
                    | Deadline \<Rightarrow> Inl (RuntimeError ''task-family control channel did not become ready''))
               | None \<Rightarrow>
                   if platform = Windows
                   then Inr (True, [if step = ''sigint'' then To_stdin [char_of (3 :: nat)]
                                    else if step = ''sigterm'' then Terminate else Kill])
                   else (case stage_signal step of
                           None \<Rightarrow> Inl (KeyError step)
                         | Some sig \<Rightarrow> Inr (True, [Kill_group (ps_pid ps) sig]))))"

definition sub_is_running :: "string \<Rightarrow> sub_exec \<Rightarrow> bool" where
  "sub_is_running task_id sx =
     (case map_of (sx_processes sx) task_id of None \<Rightarrow> False | Some ps \<Rightarrow> ps_returncode ps = None)"

definition sub_write :: "platform \<Rightarrow> channel \<Rightarrow> string \<Rightarrow> string \<Rightarrow> sub_exec \<Rightarrow> (bool \<times> effect list) result" where
  "sub_write platform channel task_id data sx =
     (if \<not> sub_is_running task_id sx then Inr (False, [])
      else if data = [char_of (3 :: nat)]
      then (if platform \<noteq> Windows then sub_interrupt platform channel task_id ''sigint'' sx else Inr (True, [To_stdin data]))
      else if data = [char_of (4 :: nat)] then Inr (True, [Close_stdin])
      else Inr (True, [To_stdin data]))"

definition sub_resize :: "string \<Rightarrow> int \<Rightarrow> int \<Rightarrow> sub_exec \<Rightarrow> bool" where
  "sub_resize task_id rows cols sx = sub_is_running task_id sx"

definition sub_completed_code :: "string \<Rightarrow> sub_exec \<Rightarrow> int option" where
  "sub_completed_code task_id sx = Option.bind (map_of (sx_processes sx) task_id) ps_returncode"

section \<open>The receipt of the owner\<close>

text \<open>
  On Linux a start waits for the receipt of the owner: the id of the command, the error of its
  launch, or a failure of the wait itself (a timeout, an owner that is gone, a cancellation).
\<close>

datatype receipt_of_owner = Command_pid int | Launch_error string | No_answer error

definition abort_start :: "channel \<Rightarrow> string \<Rightarrow> sub_exec \<Rightarrow> effect list result" where
  "abort_start channel task_id sx =
     (if \<not> dict_has task_id (sx_processes sx) then Inr []
      else bindR (sub_interrupt Linux channel task_id ''sigkill'' sx) (\<lambda>(_, effects). Inr effects))"

text \<open>
  The result of a start, and what is done before it is returned: after a failure the owner is
  asked to kill the family and the process is waited for (\<open>sub_wait\<close>).
\<close>

definition start_ready :: "channel \<Rightarrow> receipt_of_owner \<Rightarrow> string \<Rightarrow> sub_exec \<Rightarrow> (int \<times> string) result \<times> effect list" where
  "start_ready channel answer task_id sx =
     (case map_of (sx_processes sx) task_id of
        None \<Rightarrow> (Inl (KeyError task_id), [])
      | Some ps \<Rightarrow>
          (case answer of
             Command_pid pid \<Rightarrow> (Inr (pid, ''process:'' @ int_str (ps_pid ps)), [])
           | Launch_error text \<Rightarrow> (Inl (OSError text), [])
           | No_answer err \<Rightarrow>
               (case abort_start channel task_id sx of
                  Inl failure \<Rightarrow> (Inl failure, [])
                | Inr effects \<Rightarrow> (Inl err, effects))))"

text \<open>
  The steps of an executor. The service starts a task only once.
\<close>

inductive sub_step :: "platform \<Rightarrow> sub_exec \<Rightarrow> sub_exec \<Rightarrow> bool" for platform where
  opens: "\<not> dict_has i (sx_processes sx) \<Longrightarrow> \<not> dict_has i (sx_starting sx) \<Longrightarrow>
    start_open platform io timestamp opened is_dir workdir dir i sx = (r, sx') \<Longrightarrow> sub_step platform sx sx'"
| spawns: "start_spawn io timestamp described texts spawned i sx = (r, sx') \<Longrightarrow> sub_step platform sx sx'"
| pumps: "sub_step platform sx (pump io i bytes sx)"
| exits: "sub_step platform sx (process_exits i code sx)"
| waits: "sub_wait io timestamp cancelled i sx = (r, sx') \<Longrightarrow> sub_step platform sx sx'"

end
