(* ===== verification/LF_Owner_Facts.thy ===== *)
theory LF_Owner_Facts
  imports LF_Owner
begin

text \<open>
  The owner finds every descendant that \<^verbatim>\<open>/proc\<close> shows, and it ends only when the whole family is gone,
  with the status of its leader.
\<close>

section \<open>Descendants\<close>

definition child_of :: "children_files \<Rightarrow> (nat \<times> nat) set" where
  "child_of files = {(p, c). \<exists>vs. Some vs \<in> set (files p) \<and> c \<in> set vs}"

definition named_children :: "nat list option list \<Rightarrow> nat set" where
  "named_children entries = {c. \<exists>vs. Some vs \<in> set entries \<and> c \<in> set vs}"

lemma named_children_simps [simp]:
  "named_children [] = {}" "named_children (None # es) = named_children es" "named_children (Some vs # es) = set vs \<union> named_children es"
  by (auto simp: named_children_def)

lemma child_of_named: "(p, c) \<in> child_of files \<longleftrightarrow> c \<in> named_children (files p)"
  by (auto simp: child_of_def named_children_def)

text \<open>Reading the files of one process adds its new children, each once, to both lists.\<close>

lemma read_entries_adds:
  assumes "read_entries entries (pending, found) = (pending', found')" and "distinct found"
  shows "\<exists>fresh. pending' = pending @ fresh \<and> found' = found @ fresh \<and> distinct found'
    \<and> set found' = set found \<union> named_children entries"
  using assms
proof (induction entries "(pending, found)" arbitrary: pending found rule: read_entries.induct)
  case (3 vs entries pending found)
  let ?new = "filter (\<lambda>c. c \<notin> set found) (remdups vs)"
  have "distinct (found @ ?new)" using 3(3) by auto
  then obtain fresh where "pending' = (pending @ ?new) @ fresh" "found' = (found @ ?new) @ fresh" "distinct found'"
    "set found' = set (found @ ?new) \<union> named_children entries"
    using 3(1)[OF refl] 3(2) by (auto simp: Let_def)
  then show ?case by (intro exI[of _ "?new @ fresh"]) auto
qed auto

text \<open>
  The invariant of the search: what is found is reachable and, apart from the pending processes,
  closed under children. Every process is pending at most once.
\<close>

definition search_ok :: "children_files \<Rightarrow> nat \<Rightarrow> nat list \<Rightarrow> nat list \<Rightarrow> bool" where
  "search_ok files pid pending found \<longleftrightarrow>
     distinct found \<and> set found \<subseteq> (child_of files)\<^sup>+ `` {pid}
     \<and> set pending \<subseteq> insert pid (set found)
     \<and> child_of files `` (insert pid (set found) - set pending) \<subseteq> set found"

lemma search_ok_step:
  assumes "search_ok files pid pending found" and "pending \<noteq> []"
    and "read_entries (files (last pending)) (butlast pending, found) = (pending', found')"
  shows "search_ok files pid pending' found'"
proof -
  let ?p = "last pending"
  obtain fresh where new: "pending' = butlast pending @ fresh" "found' = found @ fresh" "distinct found'"
    "set found' = set found \<union> named_children (files ?p)"
    using read_entries_adds[OF assms(3)] assms(1) by (auto simp: search_ok_def)
  have split: "set pending = insert ?p (set (butlast pending))"
    using assms(2) by (metis append_butlast_last_id set_append list.set(1,2) Un_insert_right sup_bot_right)
  have "?p = pid \<or> (pid, ?p) \<in> (child_of files)\<^sup>+"
    using assms(1) split by (auto simp: search_ok_def)
  then have below: "(pid, c) \<in> (child_of files)\<^sup>+" if "c \<in> named_children (files ?p)" for c
    using that by (auto simp: child_of_named[symmetric] intro: trancl_into_trancl)
  have "child_of files `` (insert pid (set found') - set pending') \<subseteq> set found'"
  proof
    fix c assume "c \<in> child_of files `` (insert pid (set found') - set pending')"
    then obtain q where q: "q \<in> insert pid (set found')" "q \<notin> set pending'" "(q, c) \<in> child_of files" by auto
    then have "q \<in> insert pid (set found)" by (auto simp: new(1,2))
    show "c \<in> set found'"
    proof (cases "q = ?p")
      case True
      with q(3) show ?thesis by (simp add: new(4) child_of_named)
    next
      case False
      then have "q \<notin> set pending" using q(2) by (simp add: new(1) split)
      then show ?thesis using assms(1) q(3) \<open>q \<in> insert pid (set found)\<close> by (auto simp: search_ok_def new(4))
    qed
  qed
  moreover have "set found' \<subseteq> (child_of files)\<^sup>+ `` {pid}"
    using assms(1) below by (auto simp: search_ok_def new(4))
  moreover have "set pending' \<subseteq> insert pid (set found')"
    using assms(1) split by (auto simp: search_ok_def new(1,2))
  ultimately show ?thesis using new(3) by (simp add: search_ok_def)
qed

lemma closed_reaches_all:
  assumes "r `` insert x S \<subseteq> S" shows "r\<^sup>+ `` {x} \<subseteq> S"
proof -
  have "(x, y) \<in> r\<^sup>+ \<Longrightarrow> y \<in> S" for y
    by (induction rule: trancl_induct) (use assms in auto)
  then show ?thesis by auto
qed

text \<open>
  A process that is found becomes pending once, so the number of rounds is bounded by the number of
  processes the files name.
\<close>

lemma descend_total:
  assumes "search_ok files pid pending found" and "finite U" and "(child_of files)\<^sup>+ `` {pid} \<subseteq> U"
    and "length pending + (card U - length found) < fuel"
  shows "\<exists>all. descend fuel files pending found = Some all \<and> distinct all \<and> set all = (child_of files)\<^sup>+ `` {pid}"
  using assms(1,4)
proof (induction fuel arbitrary: pending found)
  case (Suc fuel)
  show ?case
  proof (cases "pending = []")
    case True
    then have "set found = (child_of files)\<^sup>+ `` {pid}" "distinct found"
      using Suc.prems(1) closed_reaches_all[of "child_of files" pid "set found"] by (auto simp: search_ok_def)
    with True show ?thesis by simp
  next
    case False
    obtain pending' found' where read: "read_entries (files (last pending)) (butlast pending, found) = (pending', found')"
      by fastforce
    note ok = search_ok_step[OF Suc.prems(1) False read]
    obtain fresh where "pending' = butlast pending @ fresh" "found' = found @ fresh"
      using read_entries_adds[OF read] Suc.prems(1) by (auto simp: search_ok_def)
    moreover have "length found' \<le> card U"
      using ok assms(2,3) by (metis search_ok_def distinct_card card_mono subset_trans)
    moreover have "length (butlast pending) < length pending" using False by simp
    ultimately have "length pending' + (card U - length found') < fuel" using Suc.prems(2) by simp
    from Suc.IH[OF ok this] False show ?thesis by (simp add: read)
  qed
qed simp

text \<open>
  C20. The search for descendants ends, and it finds exactly the processes below the given one: every
  process that the files of \<^verbatim>\<open>/proc\<close> connect to it through children, each once, cycles and threads
  that list the same child included. Two rounds more than there are such processes are enough.
\<close>

theorem descendants_exact:
  assumes "finite ((child_of files)\<^sup>+ `` {pid})" and "card ((child_of files)\<^sup>+ `` {pid}) + 1 < fuel"
  shows "\<exists>found. descendants fuel files pid = Some found \<and> distinct found
    \<and> set found = (child_of files)\<^sup>+ `` {pid}"
proof -
  have "search_ok files pid [pid] []" by (auto simp: search_ok_def)
  from descend_total[OF this assms(1) subset_refl] assms(2) show ?thesis by (simp add: descendants_def)
qed

section \<open>The family is a tree below the owner\<close>

text \<open>
  The parent of a process is the owner or a live process that is older. So the oldest process is a
  child of the owner.
\<close>

fun tree_ok :: "nat set \<Rightarrow> family \<Rightarrow> bool" where
  "tree_ok anc [] \<longleftrightarrow> True"
| "tree_ok anc ((q, p, st) # fam) \<longleftrightarrow> p \<in> anc \<and> tree_ok (if st = None then insert q anc else anc) fam"

lemma live_simps [simp]:
  "live [] = {}" "live ((q, p, st) # fam) = (if st = None then insert q (live fam) else live fam)"
  "live (xs @ ys) = live xs \<union> live ys"
  by (auto simp: live_def)

lemma pids_simps [simp]: "pids [] = []" "pids (e # fam) = fst e # pids fam" "pids (xs @ ys) = pids xs @ pids ys"
  by (simp_all add: pids_def)

lemma live_pids: "live fam \<subseteq> set (pids fam)"
  by (force simp: live_def pids_def)

lemma tree_ok_append: "tree_ok anc (xs @ ys) \<longleftrightarrow> tree_ok anc xs \<and> tree_ok (anc \<union> live xs) ys"
  by (induction anc xs rule: tree_ok.induct) auto

lemma tree_ok_reparent:
  assumes "tree_ok (insert p anc) fam" and "r \<in> anc" and "p \<notin> set (pids fam)"
  shows "tree_ok anc (map (reparent p r) fam)"
  using assms
proof (induction fam arbitrary: anc)
  case (Cons e fam)
  obtain q parent st where e: "e = (q, parent, st)" by (cases e)
  have "tree_ok (insert p (if st = None then insert q anc else anc)) fam"
    using Cons.prems(1) by (auto simp: e insert_commute)
  then have "tree_ok (if st = None then insert q anc else anc) (map (reparent p r) fam)"
    using Cons.prems(2,3) by (intro Cons.IH) auto
  with Cons.prems show ?case by (auto simp: e reparent_def)
qed simp

lemma tree_ok_no_child:
  assumes "tree_ok anc fam" and "p \<notin> anc" and "p \<notin> set (pids fam)"
  shows "map (reparent p r) fam = fam"
  using assms by (induction anc fam rule: tree_ok.induct) (auto simp: reparent_def split: if_splits)

lemma reparent_entry: "reparent p r (q, parent, st) = (q, if parent = p then r else parent, st)"
  by (simp add: reparent_def)

lemma pids_reparent [simp]: "pids (map (reparent p r) fam) = pids fam"
  by (auto simp: pids_def reparent_def)

lemma live_reparent [simp]: "live (map (reparent p r) fam) = live fam"
  by (induction fam) (auto simp: reparent_def)

definition family_ok :: "nat \<Rightarrow> family \<Rightarrow> bool" where
  "family_ok self fam \<longleftrightarrow> tree_ok {self} fam \<and> distinct (pids fam) \<and> self \<notin> set (pids fam)"

lemma exits_at:
  assumes "family_ok self (older @ (p, parent, None) # younger)"
  shows "exits p code r (older @ (p, parent, None) # younger)
    = older @ (p, parent, Some code) # map (reparent p r) younger"
proof -
  have p: "p \<notin> set (pids older)" "p \<notin> set (pids younger)" "p \<noteq> self" "tree_ok {self} older"
    using assms by (auto simp: family_ok_def tree_ok_append)
  have other: "map (\<lambda>(q, parent, st). (q, parent, if q = p then Some code else st)) fam = fam" if "p \<notin> set (pids fam)" for fam
    using that by (induction fam) auto
  have "parent \<noteq> p" using assms p live_pids[of older] by (auto simp: family_ok_def tree_ok_append)
  then show ?thesis
    using p tree_ok_no_child[OF p(4)] other[OF p(1)] other[of "map (reparent p r) younger"]
    by (simp add: exits_def reparent_entry del: map_map)
qed

lemma unlisted_at:
  assumes "distinct (pids fam)" and "(q, p, st) \<in> set fam"
  shows "\<exists>older younger. fam = older @ (q, p, st) # younger \<and> unlisted q fam = older @ younger"
proof -
  obtain older younger where fam: "fam = older @ (q, p, st) # younger" using split_list[OF assms(2)] by auto
  have same: "unlisted q xs = xs" if "q \<notin> set (pids xs)" for xs
    using that by (force simp: unlisted_def pids_def filter_id_conv)
  have "unlisted q older = older" "unlisted q younger = younger" using assms(1) by (auto simp: fam intro!: same)
  then show ?thesis using fam by (auto simp: unlisted_def)
qed

lemma family_ok_unlisted:
  assumes "family_ok self fam" and "(q, p, Some code) \<in> set fam"
  shows "family_ok self (unlisted q fam)"
proof -
  obtain older younger where "fam = older @ (q, p, Some code) # younger" "unlisted q fam = older @ younger"
    using unlisted_at assms by (metis family_ok_def)
  with assms(1) show ?thesis by (auto simp: family_ok_def tree_ok_append)
qed

lemma family_step_ok:
  assumes "family_step self fam fam'" and "family_ok self fam"
  shows "family_ok self fam'"
  using assms
proof cases
  case (forks p c)
  with assms(2) show ?thesis by (auto simp: family_ok_def tree_ok_append)
next
  case (exits older p parent younger r code)
  have "family_ok self (older @ (p, parent, Some code) # map (reparent p r) younger)"
    using assms(2) exits(2,3) tree_ok_reparent[of p "insert self (live older)" younger r]
    by (auto simp: family_ok_def tree_ok_append insert_commute)
  then show ?thesis using exits_at assms(2) exits(1,2) by metis
next
  case (reaps q p code)
  with assms(2) show ?thesis by (auto intro: family_ok_unlisted)
qed

lemma no_children_no_family:
  assumes "family_ok self fam" and "\<not> has_children self fam"
  shows "fam = []"
  using assms by (cases fam) (auto simp: family_ok_def has_children_def)

section \<open>Runs of the owner\<close>

lemma exits_keeps_parent:
  assumes "(q, self, st) \<in> set fam" and "family_step self fam fam'" and "family_ok self fam"
  shows "\<exists>st'. (q, self, st') \<in> set fam'"
  using assms(2)
proof cases
  case (forks p c)
  with assms(1) show ?thesis by auto
next
  case (exits older p parent younger r code)
  have "p \<noteq> self" using assms(3) exits(2) by (auto simp: family_ok_def)
  then have "(q, self, if q = p then Some code else st) \<in> set fam'"
    using assms(1) by (force simp: exits(1) LF_Owner.exits_def reparent_def)
  then show ?thesis by blast
next
  case (reaps c p code)
  have "c \<noteq> q"
  proof
    assume "c = q"
    then have "(q, p, Some code) = (q, self, st)"
      using assms(1,3) reaps(2) eq_key_imp_eq_value[of fam q] by (auto simp: family_ok_def pids_def)
    with reaps(3) show False by simp
  qed
  with assms(1) show ?thesis by (auto simp: reaps(1) unlisted_def)
qed

text \<open>
  What every step keeps: the family is a tree; the leader is still a child of the owner or was
  reaped by it; its status is that of the last process with its id; and the owner has ended only
  when the family is gone.
\<close>

definition latest :: "nat \<Rightarrow> (nat \<times> int) list \<Rightarrow> int option" where
  "latest pid earlier = map_of (rev earlier) pid"

lemma latest_snoc: "latest pid (earlier @ [(q, code)]) = (if q = pid then Some code else latest pid earlier)"
  by (simp add: latest_def)

definition draining :: "owner \<Rightarrow> bool" where
  "draining ow \<longleftrightarrow> (case ow_phase ow of Draining _ \<Rightarrow> True | Ended (Some _) \<Rightarrow> True | Lost _ \<Rightarrow> True | _ \<Rightarrow> False)"

definition own_ok :: "nat \<Rightarrow> nat \<Rightarrow> family \<times> owner \<Rightarrow> bool" where
  "own_ok self primary st \<longleftrightarrow>
     family_ok self (fst st)
     \<and> ow_status (snd st) = latest primary (ow_reaped (snd st))
     \<and> (draining (snd st) \<or> (\<exists>x. (primary, self, x) \<in> set (fst st)) \<or> ow_status (snd st) \<noteq> None)
     \<and> (\<forall>err. ow_phase (snd st) = Ended err \<longrightarrow> fst st = [])"

lemma control_round_keeps:
  "ow_status (control_round io io' found found' m ow) = ow_status ow
   \<and> ow_reaped (control_round io io' found found' m ow) = ow_reaped ow
   \<and> (ow_phase (control_round io io' found found' m ow) = Reaping
      \<or> draining (control_round io io' found found' m ow) \<and> (\<forall>err. ow_phase (control_round io io' found found' m ow) \<noteq> Ended err))"
  by (auto simp: control_round_def failed_def signal_family_def Let_def draining_def split: prod.splits option.splits)

lemma own_step_ok:
  assumes "own_step self primary st st'" and "own_ok self primary st"
  shows "own_ok self primary st'"
  using assms
proof cases
  case (world fam fam' ow)
  have "fam = [] \<Longrightarrow> fam' = []" using world(3) by cases auto
  then show ?thesis using assms(2) family_step_ok[OF world(3)] exits_keeps_parent[OF _ world(3)]
    by (auto simp: own_ok_def world(1,2))
next
  case (handler sig fam ow)
  with assms(2) show ?thesis by (auto simp: own_ok_def draining_def)
next
  case (reap ow q code fam)
  have "(primary, self, x) \<in> set (unlisted q fam)" if "(primary, self, x) \<in> set fam" "q \<noteq> primary" for x
    using that by (auto simp: unlisted_def)
  moreover have "family_ok self (unlisted q fam)" using assms(2) family_ok_unlisted[OF _ reap(4)] by (simp add: own_ok_def reap(1))
  ultimately show ?thesis using assms(2) by (auto simp: own_ok_def reap(1-3) reaped_def latest_snoc draining_def)
next
  case (none_exited ow fam)
  with assms(2) show ?thesis by (auto simp: own_ok_def draining_def)
next
  case (drained ow fam)
  then have "fam = []" using assms(2) no_children_no_family by (auto simp: own_ok_def)
  with assms(2) show ?thesis by (simp add: own_ok_def drained draining_def) metis
next
  case (control ow fam io io' found found' message)
  with assms(2) control_round_keeps[of io io' found found' message ow] show ?thesis
    by (auto simp: own_ok_def draining_def)
next
  case (recv_fails ow fam err)
  with assms(2) show ?thesis by (auto simp: own_ok_def draining_def)
next
  case (drain_signal ow err fam io found)
  with assms(2) show ?thesis
    by (auto simp: own_ok_def drain_round_def signal_family_def draining_def split: prod.splits option.splits)
next
  case (drain_reap ow err q code fam)
  with assms(2) show ?thesis by (auto simp: own_ok_def draining_def intro: family_ok_unlisted[OF _ drain_reap(4)])
next
  case (drain_end ow err fam)
  then have "fam = []" using assms(2) no_children_no_family by (auto simp: own_ok_def)
  with assms(2) show ?thesis by (auto simp: own_ok_def drain_end draining_def)
qed

lemma own_runs_ok:
  assumes "own_runs self primary receipt_error st" and "primary \<noteq> self"
  shows "own_ok self primary st"
  using assms(1) unfolding own_runs_def
proof (induction rule: rtranclp_induct)
  case base
  show ?case
    using assms(2) by (auto simp: own_ok_def family_ok_def new_owner_def latest_def draining_def split: option.splits)
next
  case (step st st')
  then show ?case by (blast intro: own_step_ok)
qed

text \<open>
  C19. The owner of a task outlives its family. However the processes of the task fork, detach, exit
  and reap each other while the owner works, its loop ends only when none of them is left, after an
  error in the loop as well; and then the controller gets as return code the status of the
  leader: the code of the last child the owner reaped under the leader's id.
\<close>

theorem owner_leaves_no_family:
  assumes "own_runs self primary receipt_error (fam, ow)" and "primary \<noteq> self" and "ow_phase ow = Ended err"
  shows "fam = []
    \<and> (err = None \<longrightarrow> (\<exists>code. latest primary (ow_reaped ow) = Some code
         \<and> (code < 256 \<longrightarrow> returncode (own_result ow) = code)))"
proof -
  note ok = own_runs_ok[OF assms(1,2)]
  have empty: "fam = []" using ok assms(3) by (simp add: own_ok_def)
  have "\<exists>code. latest primary (ow_reaped ow) = Some code \<and> ow_status ow = Some code" if "err = None"
    using ok that assms(3) empty by (simp add: own_ok_def draining_def) metis
  moreover have "returncode (own_result ow) = code" if "ow_status ow = Some code" "code < 256" for code
    using that by (simp add: own_result_def Let_def)
  ultimately show ?thesis using empty by blast
qed

text \<open>What \<^verbatim>\<open>/proc\<close> shows of a family that does not change meanwhile.\<close>

definition shown_children :: "family \<Rightarrow> children_files" where
  "shown_children fam p = [Some (map fst (filter (\<lambda>(_, parent, _). parent = p) fam))]"

lemma child_of_shown: "(p, q) \<in> child_of (shown_children fam) \<longleftrightarrow> (\<exists>st. (q, p, st) \<in> set fam)"
  by (force simp: child_of_def shown_children_def)

lemma tree_below:
  assumes "tree_ok anc fam" and "set fam \<subseteq> set whole" and "\<forall>a \<in> anc. a = self \<or> (self, a) \<in> (child_of (shown_children whole))\<^sup>+"
  shows "\<forall>q \<in> set (pids fam). (self, q) \<in> (child_of (shown_children whole))\<^sup>+"
  using assms
proof (induction anc fam rule: tree_ok.induct)
  case (2 anc q p st fam)
  have "(p, q) \<in> child_of (shown_children whole)" using 2(3) by (auto simp: child_of_shown)
  then have below: "(self, q) \<in> (child_of (shown_children whole))\<^sup>+"
    using 2(2,4) by (auto intro: trancl_into_trancl)
  then have "\<forall>q \<in> set (pids fam). (self, q) \<in> (child_of (shown_children whole))\<^sup>+"
    using 2(2-4) by (intro 2(1)) (auto split: if_splits)
  with below show ?case by simp
qed simp

lemma shown_descendants:
  assumes "family_ok self fam"
  shows "(child_of (shown_children fam))\<^sup>+ `` {self} = set (pids fam)"
proof
  show "(child_of (shown_children fam))\<^sup>+ `` {self} \<subseteq> set (pids fam)"
    by (force simp: pids_def child_of_shown dest: tranclD2)
  show "set (pids fam) \<subseteq> (child_of (shown_children fam))\<^sup>+ `` {self}"
    using tree_below[of "{self}" fam fam self] assms by (auto simp: family_ok_def)
qed

lemma signal_all_reaches:
  assumes "\<forall>pid \<in> set found. sg_open io pid = Descriptor" and "\<forall>pid \<in> set found. P pid \<longrightarrow> sg_alive io pid"
  shows "snd (signal_all io sig found) = None \<and> (\<forall>pid \<in> set found. P pid \<longrightarrow> (pid, sig) \<in> set (fst (signal_all io sig found)))"
  using assms by (induction found) (auto simp: signal_one_def deliver_def split: prod.splits)

text \<open>
  C21. A forced stop reaches the whole family. In a round of the owner after \<open>sigkill\<close> was requested,
  now or in any earlier round, every live process of the family is sent \<open>SIGKILL\<close>, detached ones
  included; the round assumes that \<^verbatim>\<open>/proc\<close> is readable and shows the family as it is, and that the
  processes can be opened. The request is never forgotten.
\<close>

theorem forced_round_signals_family:
  assumes "own_runs self primary receipt_error (fam, ow)" and "primary \<noteq> self" and "ow_phase ow = Control"
    and "ow_force ow \<or> message = Some ''sigkill''"
    and "descendants (length fam + 2) (shown_children fam) self = Some found"
    and "\<forall>pid \<in> set found. sg_open io pid = Descriptor" and "\<forall>pid \<in> live fam. sg_alive io pid"
  shows "ow_phase (control_round io io found found message ow) = Reaping
    \<and> ow_force (control_round io io found found message ow)
    \<and> (\<forall>pid \<in> live fam. (pid, SIGKILL) \<in> set (ow_sent (control_round io io found found message ow)))"
proof -
  have ok: "family_ok self fam" using own_runs_ok[OF assms(1,2)] by (simp add: own_ok_def)
  have "search_ok (shown_children fam) self [self] []" by (auto simp: search_ok_def)
  moreover have "card (set (pids fam)) \<le> length fam" using card_length[of "pids fam"] by (simp add: pids_def)
  ultimately obtain all where "descend (length fam + 2) (shown_children fam) [self] [] = Some all"
    "set all = set (pids fam)"
    using descend_total[of "shown_children fam" self "[self]" "[]" "set (pids fam)" "length fam + 2"]
      shown_descendants[OF ok] by auto
  then have found: "set found = set (pids fam)" using assms(5) by (simp add: descendants_def)
  note reach = signal_all_reaches[of found io "\<lambda>pid. pid \<in> live fam", OF assms(6)]
  have all: "snd (signal_all io sig found) = None" for sig using reach assms(7) found by blast
  have kill: "\<forall>pid \<in> live fam. (pid, SIGKILL) \<in> set (fst (signal_all io SIGKILL found))"
    using reach assms(7) found live_pids[of fam] by blast
  have force: "ow_force ow \<or> asked message (ow_requested ow) = SIGKILL"
    using assms(4) by (auto simp: asked_def)
  have "SIGKILL \<noteq> 0" by (simp add: SIGKILL_def)
  with force kill all show ?thesis
    by (auto simp: control_round_def failed_def signal_family_def Let_def split: prod.splits option.splits)
      (metis fst_conv snd_conv option.distinct(1))+
qed

section \<open>The id of the leader is used again\<close>

lemma own_runs_more: "own_runs self primary e st \<Longrightarrow> own_step self primary st st' \<Longrightarrow> own_runs self primary e st'"
  by (auto simp: own_runs_def)

lemma own_runs_start: "own_runs self primary e ([(primary, self, None)], new_owner e)"
  by (simp add: own_runs_def)

text \<open>
  The leader of process 2 forks 3 and exits with 0; the owner reaps it. Then 3 gets a child that the
  kernel gives the id 2 again, and exits, so that this child moves to the owner. When it fails with
  code 7, the owner takes its status for the status of the leader.
\<close>

theorem reused_id_replaces_status:
  "\<exists>ow. own_runs 1 2 None ([], ow) \<and> ow_phase ow = Ended None
     \<and> ow_reaped ow = [(2, 0), (3, 0), (2, 7)] \<and> own_result ow = Exited 7"
proof -
  let ?o = "new_owner None"
  let ?r1 = "reaped 2 2 0 ?o"
  let ?r2 = "reaped 2 3 0 ?r1"
  let ?r3 = "reaped 2 2 7 ?r2"
  let ?go = "\<lambda>st. own_runs 1 2 None st"
  note defs = exits_def reparent_def unlisted_def live_def pids_def
  have "?go ([(2, 1, None)], ?o)" by (rule own_runs_start)
  then have "?go ([(2, 1, None), (3, 2, None)], ?o)"
    by (rule own_runs_more) (use own_step.world[OF family_step.forks[of 2 "[(2, 1, None)]" 3 1]] in \<open>simp add: defs\<close>)
  then have "?go ([(2, 1, Some 0), (3, 1, None)], ?o)"
    by (rule own_runs_more)
      (use own_step.world[OF family_step.exits[of "[(2, 1, None), (3, 2, None)]" "[]" 2 1 "[(3, 2, None)]" 1 1 0]] in \<open>simp add: defs\<close>)
  then have "?go ([(3, 1, None)], ?r1)"
    by (rule own_runs_more) (use own_step.reap[of ?o 2 1 0 "[(2, 1, Some 0), (3, 1, None)]" 2] in \<open>simp add: defs new_owner_def\<close>)
  then have "?go ([(3, 1, None), (2, 3, None)], ?r1)"
    by (rule own_runs_more) (use own_step.world[OF family_step.forks[of 3 "[(3, 1, None)]" 2 1]] in \<open>simp add: defs\<close>)
  then have "?go ([(3, 1, Some 0), (2, 1, None)], ?r1)"
    by (rule own_runs_more)
      (use own_step.world[OF family_step.exits[of "[(3, 1, None), (2, 3, None)]" "[]" 3 1 "[(2, 3, None)]" 1 1 0]] in \<open>simp add: defs\<close>)
  then have "?go ([(2, 1, None)], ?r2)"
    by (rule own_runs_more) (use own_step.reap[of ?r1 3 1 0 "[(3, 1, Some 0), (2, 1, None)]" 2] in \<open>simp add: defs new_owner_def reaped_def\<close>)
  then have "?go ([(2, 1, Some 7)], ?r2)"
    by (rule own_runs_more) (use own_step.world[OF family_step.exits[of "[(2, 1, None)]" "[]" 2 1 "[]" 1 1 7]] in \<open>simp add: defs\<close>)
  then have "?go ([], ?r3)"
    by (rule own_runs_more) (use own_step.reap[of ?r2 2 1 7 "[(2, 1, Some 7)]" 2] in \<open>simp add: defs new_owner_def reaped_def\<close>)
  then have "?go ([], ?r3\<lparr>ow_phase := Ended None\<rparr>)"
    by (rule own_runs_more) (rule own_step.drained, simp_all add: new_owner_def reaped_def has_children_def)
  then show ?thesis by (intro exI conjI) (auto simp: reaped_def new_owner_def own_result_def)
qed

section \<open>Instances\<close>

definition ex_files :: children_files where
  "ex_files p = (if p = 1 then [Some [2, 3], None] else if p = 2 then [Some [3]] else if p = 3 then [None, Some [2]] else [])"

theorem descendants_exact_witness:
  "\<exists>found. descendants 4 ex_files 1 = Some found \<and> distinct found \<and> set found = (child_of ex_files)\<^sup>+ `` {1}"
proof -
  have "(child_of ex_files)\<^sup>+ `` {1} \<subseteq> {2, 3}"
    by (rule closed_reaches_all) (auto simp: child_of_def ex_files_def split: if_splits)
  then have "finite ((child_of ex_files)\<^sup>+ `` {1})" "card ((child_of ex_files)\<^sup>+ `` {1}) \<le> card {2 :: nat, 3}"
    by (rule finite_subset, simp) (rule card_mono[OF _ \<open>_ \<subseteq> {2, 3}\<close>], simp)
  then show ?thesis by (intro descendants_exact) simp_all
qed

theorem owner_leaves_no_family_witness:
  "\<exists>ow. own_runs 1 2 None ([], ow) \<and> ow_phase ow = Ended None \<and> latest 2 (ow_reaped ow) \<noteq> None
     \<and> returncode (own_result ow) = 7"
proof -
  obtain ow where run: "own_runs 1 2 None ([], ow)" and ended: "ow_phase ow = Ended None"
    and log: "ow_reaped ow = [(2, 0), (3, 0), (2, 7)]"
    using reused_id_replaces_status by blast
  have "latest 2 (ow_reaped ow) = Some 7" by (simp add: log latest_def)
  with owner_leaves_no_family[OF run _ ended] run ended show ?thesis by auto
qed

theorem forced_round_signals_family_witness:
  "\<exists>ow. own_runs 1 2 None ([(2, 1, None)], ow)
     \<and> (2, SIGKILL) \<in> set (ow_sent (control_round \<lparr>sg_open = \<lambda>_. Descriptor, sg_alive = \<lambda>_. True, sg_direct = []\<rparr>
          \<lparr>sg_open = \<lambda>_. Descriptor, sg_alive = \<lambda>_. True, sg_direct = []\<rparr> [2] [2] (Some ''sigkill'') ow))"
proof -
  let ?io = "\<lparr>sg_open = \<lambda>_. Descriptor, sg_alive = \<lambda>_. True, sg_direct = []\<rparr>"
  let ?fam = "[(2, 1, None)] :: family"
  let ?ow = "(new_owner None)\<lparr>ow_phase := Control\<rparr>"
  have run: "own_runs 1 2 None (?fam, ?ow)"
    by (rule own_runs_more[OF own_runs_start], rule own_step.none_exited)
      (simp_all add: new_owner_def has_children_def has_zombies_def)
  have "descendants (length ?fam + 2) (shown_children ?fam) 1 = Some [2]"
    by (simp add: descendants_def shown_children_def eval_nat_numeral Let_def)
  from forced_round_signals_family[OF run _ _ _ this, of "Some ''sigkill''" ?io] run
  show ?thesis by (intro exI[of _ ?ow]) simp
qed

end
