(* ===== verification/LF_Supervisor_Facts.thy ===== *)
theory LF_Supervisor_Facts
  imports LF_Supervisor
begin

text \<open>
  What passes between the controller and a supervisor: the messages to a terminal, the exit code
  and the output of the task.
\<close>

section \<open>Numbers as text\<close>

lemma nat_str_is_digit: "c \<in> set (nat_str n) \<Longrightarrow> is_digit c"
  using nat_str_digits by (simp add: is_digit_def)

lemma digit_groups_digits: "s \<noteq> [] \<Longrightarrow> \<forall>c \<in> set s. is_digit c \<Longrightarrow> digit_groups s"
proof (induction s rule: digit_groups.induct)
  case (3 c d s)
  have "d \<noteq> CHR ''_''" using 3(4) by (auto simp: is_digit_def)
  with 3 show ?case by simp
qed simp_all

lemma nat_str_value: "foldl (\<lambda>n c. 10 * n + (int (of_char c) - 48)) 0 (nat_str n) = int n"
proof (induction n rule: nat_str.induct)
  case (1 n)
  have digit: "int (of_char (char_of (48 + k :: nat) :: char)) - 48 = int k" if "k < 10" for k
    using that by simp
  show ?case
  proof (cases "n < 10")
    case True
    then show ?thesis using digit[of n] by (simp add: nat_str.simps)
  next
    case False
    have "int n = 10 * int (n div 10) + int (n mod 10)" by presburger
    with False 1 digit[of "n mod 10"] show ?thesis by (simp add: nat_str.simps[of n])
  qed
qed

lemma int_str_stripped: "strip (int_str i) = int_str i"
proof -
  have no_space: "\<not> py_space c" if "c \<in> set (int_str i)" for c
    using that nat_str_digits[of c "nat (- i)"] nat_str_digits[of c "nat i"]
    by (auto simp: int_str_def py_space_def Let_def split: if_splits)
  then show ?thesis using hd_in_set last_in_set int_str_clean(1)[of i] by (intro strip_fixed) blast+
qed

lemma py_int_int_str [simp]: "py_int (int_str i) = Some i"
proof -
  have digits: "\<forall>c \<in> set (nat_str n). is_digit c" for n by (simp add: nat_str_is_digit)
  have nosign: "hd (nat_str n) \<noteq> CHR ''+''" "hd (nat_str n) \<noteq> CHR ''-''" for n
    using nat_str_is_digit[OF hd_in_set[OF nat_str_nonempty[of n]]] by (auto simp: is_digit_def)
  have groups: "digit_groups (nat_str n)" "filter is_digit (nat_str n) = nat_str n" for n
    using digits[of n] digit_groups_digits[OF nat_str_nonempty] by (simp_all add: filter_id_conv)
  show ?thesis
  proof (cases "i < 0")
    case True
    then have "int_str i = CHR ''-'' # nat_str (nat (- i))" by (simp add: int_str_def)
    with True show ?thesis
      using int_str_stripped[of i] groups[of "nat (- i)"] nat_str_value[of "nat (- i)"] by (simp add: py_int_def Let_def)
  next
    case False
    then have "int_str i = nat_str (nat i)" by (simp add: int_str_def)
    with False show ?thesis
      using int_str_stripped[of i] groups[of "nat i"] nat_str_value[of "nat i"] nosign[of "nat i"]
      by (simp add: py_int_def Let_def)
  qed
qed

lemma int_str_no_comma: "CHR '','' \<notin> set (int_str i)"
  using nat_str_digits[of "CHR '',''" "nat (- i)"] nat_str_digits[of "CHR '',''" "nat i"] by (auto simp: int_str_def)

lemma split_first_char: "c \<notin> set a \<Longrightarrow> split_first [c] (a @ c # b) = Some (a, b)"
  by (induction a) auto

lemma length_nat_str: "n < 10 ^ Suc k \<Longrightarrow> length (nat_str n) \<le> Suc k"
proof (induction k arbitrary: n)
  case 0
  then show ?case by (simp add: nat_str.simps)
next
  case (Suc k)
  have "n div 10 < 10 ^ Suc k" using Suc.prems by (simp add: less_mult_imp_div_less mult.commute)
  from Suc.IH[OF this] show ?case by (simp add: nat_str.simps[of n])
qed

section \<open>Messages to the terminal\<close>

text \<open>
  C24. What the executor sends to the control socket of a task arrives, except for one byte. A size
  inside the range the service accepts is the size the terminal gets. Input arrives up to 65535
  bytes; the interface also accepts 65536 bytes, and of these the last one is dropped, because the
  message is one byte longer than the buffer of the supervisor.
\<close>

theorem terminal_messages_delivered:
  "received (write_message data) = Inr (Input (take 65535 data))
   \<and> (0 \<le> rows \<and> rows \<le> 1000 \<and> 0 \<le> cols \<and> cols \<le> 1000 \<longrightarrow> received (resize_message rows cols) = Inr (Resize rows cols))"
proof (intro conjI impI)
  show "received (write_message data) = Inr (Input (take 65535 data))"
    by (simp add: received_def write_message_def control_action_of_def RECEIVE_LIMIT_def take_Cons' del: take_Cons_numeral)
next
  assume range: "0 \<le> rows \<and> rows \<le> 1000 \<and> 0 \<le> cols \<and> cols \<le> 1000"
  have short: "length (int_str n) \<le> 4" if "0 \<le> n" "n \<le> 1000" for n
    using length_nat_str[of "nat n" 3] that by (simp add: int_str_def)
  let ?body = "int_str rows @ CHR '','' # int_str cols"
  have "resize_message rows cols = CHR ''R'' # ?body" by (simp add: resize_message_def)
  moreover have "length (CHR ''R'' # ?body) \<le> RECEIVE_LIMIT"
    using short[of rows] short[of cols] range by (simp add: RECEIVE_LIMIT_def)
  ultimately have "received (resize_message rows cols) = control_action_of (CHR ''R'' # ?body)"
    by (simp only: received_def take_all)
  also have "\<dots> = Inr (Resize rows cols)"
    using range split_first_char[OF int_str_no_comma, of rows "int_str cols"] by (simp add: control_action_of_def)
  finally show "received (resize_message rows cols) = Inr (Resize rows cols)" .
qed

section \<open>The exit code\<close>

text \<open>
  The code a supervisor stores is the one the controller reads. When the unit of a task is found
  inactive in a later round and the supervisor had stored its code by then, \<open>wait\<close> returns this code,
  however often it found the unit active before.
\<close>

lemma exit_code_round_trip: "exit_code_of (int_str code) = Inr code"
  by (simp add: exit_code_of_def int_str_stripped)

theorem wait_returns_stored_code:
  assumes "\<forall>r \<in> set rounds. fst r = Inr True"
  shows "systemd_wait (rounds @ (Inr False, Some (int_str code)) # later) = Some (Inr code)
    \<and> systemd_wait (rounds @ (Inr False, None) # later) = Some (Inr 137)
    \<and> completed_code (Some (int_str code)) = Inr (Some code)"
  using assms by (induction rounds) (auto simp: exit_code_round_trip completed_code_def)

section \<open>The output\<close>

text \<open>What a writer of a log was given.\<close>

definition given_by :: "nat \<Rightarrow> log_file \<Rightarrow> string" where
  "given_by i lf = concat (map snd (filter (\<lambda>(j, _). j = i) (lf_written lf)))"

definition opened_by :: "nat \<Rightarrow> log_file \<Rightarrow> bool" where
  "opened_by i lf \<longleftrightarrow> dict_has i (lf_writers lf)"

lemma given_by_write [simp]:
  "given_by i (log_write j io payload lf) = given_by i lf @ (if i = j \<and> opened_by j lf then payload else [])"
  by (auto simp: given_by_def opened_by_def log_write_def dict_has_iff Let_def split: option.splits)

lemma opened_by_write [simp]: "opened_by i (log_write j io payload lf) \<longleftrightarrow> opened_by i lf"
  by (auto simp: opened_by_def log_write_def dict_has_iff map_of_dict_set Let_def split: option.splits)

lemma log_step_other:
  assumes "log_step answers j lf lf'" and "j \<noteq> i"
  shows "given_by i lf' = given_by i lf \<and> (opened_by i lf' \<longleftrightarrow> opened_by i lf)"
  using assms
proof cases
  case (opens io max_bytes keep)
  with assms(2) show ?thesis
    by (auto simp: open_log_def bindR_Inr_iff given_by_def opened_by_def dict_has_iff map_of_dict_set)
next
  case closes
  with assms(2) show ?thesis by (simp add: close_writer_def given_by_def opened_by_def dict_has_iff map_of_dict_pop)
qed (use assms(2) in simp)

text \<open>What the supervisor has written so far, in each phase.\<close>

definition sup_ok :: "string list \<Rightarrow> tty \<times> supervisor \<Rightarrow> bool" where
  "sup_ok texts = (\<lambda>(t, su).
     log_ok (su_log su) \<and> opened_by SELF (su_log su) \<and> tt_written t = tt_shown t @ tt_pending t
     \<and> (case su_phase su of
          Starting rest err \<Rightarrow> given_by SELF (su_log su) @ concat rest = concat texts \<and> tt_shown t = []
        | Returned code \<Rightarrow>
            (\<exists>timestamp. given_by SELF (su_log su) = concat texts @ tt_shown t @ exit_line timestamp code)
            \<and> tt_exit t = Some code \<and> su_exit_file su = Some (int_str code)
        | Crashed err \<Rightarrow> True
        | _ \<Rightarrow> given_by SELF (su_log su) = concat texts @ tt_shown t))"

lemma on_message_keeps:
  "su_log (on_event io (Datagram d) su) = su_log su
   \<and> (su_phase (on_event io (Datagram d) su) = su_phase su \<or> (\<exists>err. su_phase (on_event io (Datagram d) su) = Crashed err))"
  by (auto simp: on_event_def split: sum.splits control_action.splits)

lemma sup_step_ok:
  assumes "sup_step receipt_kept st st'" and "sup_ok texts st"
  shows "sup_ok texts st'"
  using assms
proof cases
  case (child_writes t su s)
  with assms(2) show ?thesis by (auto simp: sup_ok_def split: sup_phase.splits)
next
  case (child_exits t su code)
  with assms(2) show ?thesis by (auto simp: sup_ok_def split: sup_phase.splits)
next
  case (others i su lf' t)
  then show ?thesis
    using assms(2) log_step_other[OF others(3), of SELF] log_step_ok[OF others(3)] by (auto simp: sup_ok_def split: sup_phase.splits)
next
  case (start_line su line rest err io t)
  with assms(2) log_write_ok[of "su_log su" io SELF line] show ?thesis by (auto simp: sup_ok_def may_answer_def)
next
  case (started su err t)
  with assms(2) show ?thesis by (auto simp: sup_ok_def split: option.splits)
next
  case (message su t io d)
  with assms(2) on_message_keeps[of io d su] show ?thesis by (auto simp: sup_ok_def split: sup_phase.splits)
next
  case (chunk su n io t)
  with assms(2) log_write_ok[of "su_log su" io SELF "take n (tt_pending t)"] show ?thesis
    by (auto simp: sup_ok_def on_event_def may_answer_def)
next
  case (nothing_ready su t)
  with assms(2) show ?thesis by (auto simp: sup_ok_def)
next
  case (check su io t timestamp)
  with assms(2) log_write_ok[of "su_log su" io SELF] show ?thesis
    by (auto simp: sup_ok_def check_child_def may_answer_def split: option.splits)
qed

lemma supervise_start_ok:
  assumes "log_ok lf" and "receipt_kept opened (lf_archive lf)" and "\<not> opened_by SELF lf" and "given_by SELF lf = []"
    and "supervise_start opened max_bytes keep (texts, err) lf = Inr su"
  shows "sup_ok texts (new_tty, su)"
proof -
  obtain lf' where lf': "open_log SELF max_bytes keep opened lf = Inr lf'" "su_log su = lf'" "su_phase su = Starting texts err"
    using assms(5) by (auto simp: supervise_start_def bindR_Inr_iff)
  have "given_by SELF lf' = []" "opened_by SELF lf'"
    using lf'(1) assms(4) by (auto simp: open_log_def bindR_Inr_iff given_by_def opened_by_def dict_has_iff map_of_dict_set)
  with open_log_ok[OF assms(1,2) lf'(1)] lf'(2,3) show ?thesis by (simp add: sup_ok_def new_tty_def)
qed

lemma sup_steps_ok:
  assumes "(sup_step receipt_kept)\<^sup>*\<^sup>* st st'" and "sup_ok texts st"
  shows "sup_ok texts st'"
  using assms by (induction rule: rtranclp_induct) (auto intro: sup_step_ok)

text \<open>
  C23. The log of a supervised task holds the first part of what its command wrote. The supervisor
  shares the log with other writers, which append their lines at any time. When it returns and the
  receipt says the log is complete, the log is what the writers were given, in the order of
  their calls, and what the supervisor gave is the lines of the start, a prefix of the output of the
  command, byte by byte, and the line of the exit; the code it returns is the one the controller reads
  from the exit file. Receipts can be marked, as for the log itself: every rewrite is stored, or the
  receipt is removed while the log holds something.
\<close>

theorem supervised_log_is_prefix:
  assumes "log_runs receipt_kept lf" and "\<not> opened_by SELF lf" and "given_by SELF lf = []"
    and "receipt_kept opened (lf_archive lf)" and "supervise_start opened max_bytes keep (texts, err) lf = Inr su0"
    and "(sup_step receipt_kept)\<^sup>*\<^sup>* (new_tty, su0) (t, su)"
    and "su_phase su = Returned code" and "claims_complete (lf_archive (su_log su))"
  shows "log_bytes (lf_archive (su_log su)) = concat (map snd (lf_written (su_log su)))
    \<and> (\<exists>timestamp. given_by SELF (su_log su) = concat texts @ tt_shown t @ exit_line timestamp code)
    \<and> (\<exists>lost. tt_written t = tt_shown t @ lost)
    \<and> (\<exists>content. su_exit_file su = Some content \<and> exit_code_of content = Inr code) \<and> tt_exit t = Some code"
proof -
  have "sup_ok texts (t, su)"
    by (rule sup_steps_ok[OF assms(6) supervise_start_ok[OF log_runs_ok[OF assms(1)] assms(4,2,3,5)]])
  with assms(7) log_ok_complete[OF _ assms(8)] show ?thesis by (auto simp: sup_ok_def exit_code_round_trip)
qed

section \<open>The end of the output may be lost\<close>

definition clean_io :: write_io where
  "clean_io = \<lparr>io_free = 0, io_payload = [], io_marker = [], io_limit = Rewritten, io_error = Rewritten\<rparr>"

lemma clean_answers: "may_answer receipt_kept clean_io su"
  by (simp add: may_answer_def receipt_kept_def clean_io_def)

text \<open>A log the supervisor writes without limits.\<close>

definition unlimited :: "log_file \<Rightarrow> bool" where
  "unlimited lf \<longleftrightarrow> ar_receipt (lf_archive lf) = COMPLETE \<and> ar_log (lf_archive lf) \<noteq> None
     \<and> (\<exists>w. map_of (lf_writers lf) SELF = Some w \<and> w_max w = 0 \<and> w_keep_free w = 0 \<and> \<not> w_stopped w)"

lemma unlimited_write: "unlimited lf \<Longrightarrow> unlimited (log_write SELF clean_io payload lf)"
  by (cases payload)
    (auto simp: unlimited_def log_write_def write_log_def write_bytes_def append_bytes_def clean_io_def Let_def map_of_dict_set split: prod.splits)

lemma unlimited_complete: "unlimited lf \<Longrightarrow> claims_complete (lf_archive lf)"
  by (auto simp: unlimited_def claims_complete_def output_integrity_def COMPLETE_def integrity_def jget_def split: option.splits)

lemma start_lines_run:
  assumes "su_phase su = Starting texts None" and "unlimited (su_log su)"
  shows "\<exists>su'. (sup_step receipt_kept)\<^sup>*\<^sup>* (t, su) (t, su') \<and> su_phase su' = Polling \<and> unlimited (su_log su')"
  using assms
proof (induction texts arbitrary: su)
  case Nil
  have "sup_step receipt_kept (t, su) (t, su\<lparr>su_phase := Polling\<rparr>)"
    using sup_step.started[of su None receipt_kept t] Nil by simp
  with Nil show ?case by (intro exI[of _ "su\<lparr>su_phase := Polling\<rparr>"]) auto
next
  case (Cons line texts)
  let ?su = "su\<lparr>su_log := log_write SELF clean_io line (su_log su), su_phase := Starting texts None\<rparr>"
  have "sup_step receipt_kept (t, su) (t, ?su)"
    by (rule sup_step.start_line[OF Cons.prems(1) clean_answers])
  moreover obtain su' where "(sup_step receipt_kept)\<^sup>*\<^sup>* (t, ?su) (t, su')" "su_phase su' = Polling" "unlimited (su_log su')"
    using Cons.IH[of ?su] unlimited_write[OF Cons.prems(2)] by auto
  ultimately show ?case by (blast intro: converse_rtranclp_into_rtranclp)
qed

lemma unlimited_start:
  obtains su where "supervise_start Rewritten 0 0 (texts, None) new_log = Inr su" "su_phase su = Starting texts None" "unlimited (su_log su)"
  by (auto simp: supervise_start_def open_log_def new_writer_def unlimited_def new_log_def open_archive_def log_bytes_def
      COMPLETE_def output_integrity_def integrity_def jget_def STOP_REASONS_def map_of_dict_set Let_def)

lemma tail_lost_run:
  assumes "length first \<le> READ_LIMIT"
  shows "\<exists>su0 t su. supervise_start Rewritten 0 0 (texts, None) new_log = Inr su0
    \<and> (sup_step receipt_kept)\<^sup>*\<^sup>* (new_tty, su0) (t, su) \<and> su_phase su = Returned code
    \<and> tt_written t = first @ rest \<and> tt_shown t = first \<and> claims_complete (lf_archive (su_log su))"
proof -
  obtain su0 where start: "supervise_start Rewritten 0 0 (texts, None) new_log = Inr su0"
    "su_phase su0 = Starting texts None" "unlimited (su_log su0)" by (rule unlimited_start)
  obtain s1 where lines: "(sup_step receipt_kept)\<^sup>*\<^sup>* (new_tty, su0) (new_tty, s1)" "su_phase s1 = Polling" "unlimited (su_log s1)"
    using start_lines_run[OF start(2,3)] by blast
  let ?t1 = "new_tty\<lparr>tt_written := first @ rest, tt_pending := first @ rest\<rparr>"
  let ?t2 = "?t1\<lparr>tt_pending := rest, tt_shown := first\<rparr>"
  let ?s2 = "(on_event clean_io (Chunk first) s1)\<lparr>su_phase := Checking\<rparr>"
  let ?t3 = "?t2\<lparr>tt_exit := Some code\<rparr>"
  let ?s3 = "check_child clean_io ''now'' (Some code) ?s2"
  have "sup_step receipt_kept (new_tty, s1) (?t1, s1)"
    using sup_step.child_writes[of new_tty receipt_kept s1 "first @ rest"] by (simp add: new_tty_def)
  moreover have "sup_step receipt_kept (?t1, s1) (?t2, ?s2)"
    using sup_step.chunk[OF lines(2) assms clean_answers, of ?t1] by (simp add: new_tty_def)
  moreover have "sup_step receipt_kept (?t2, ?s2) (?t3, ?s2)"
    using sup_step.child_exits[of ?t2 receipt_kept ?s2 code] by (simp add: new_tty_def)
  moreover have "sup_step receipt_kept (?t3, ?s2) (?t3, ?s3)"
    using sup_step.check[OF _ clean_answers, of ?s2 ?t3 "''now''"] by simp
  ultimately have "(sup_step receipt_kept)\<^sup>*\<^sup>* (new_tty, su0) (?t3, ?s3)"
    using lines(1) by (meson rtranclp.rtrancl_into_rtrancl)
  moreover have "unlimited (su_log ?s3)"
    using unlimited_write[OF unlimited_write[OF lines(3)]] by (simp add: check_child_def on_event_def)
  ultimately show ?thesis using start(1) unlimited_complete[of "su_log ?s3"]
    by (intro exI[of _ su0] exI[of _ ?t3] exI[of _ ?s3]) (simp add: check_child_def)
qed

text \<open>
  A supervised task can lose the end of its output, and its receipt does not say so. Between two
  calls of \<open>waitpid\<close> the terminal is read once; whatever a command still writes after that read and
  before it exits is never read. For every output there is a run in which any first part of it that
  fits one read is stored, the rest is dropped, and the receipt of the log says it is complete.
\<close>

theorem output_tail_lost:
  assumes "length first \<le> READ_LIMIT"
  shows "\<exists>su0 t su. supervise_start Rewritten 0 0 (texts, None) new_log = Inr su0
    \<and> (sup_step receipt_kept)\<^sup>*\<^sup>* (new_tty, su0) (t, su) \<and> su_phase su = Returned code
    \<and> tt_written t = first @ rest \<and> tt_shown t = first \<and> claims_complete (lf_archive (su_log su))"
  by (rule tail_lost_run[OF assms])

section \<open>Instances\<close>

theorem terminal_messages_delivered_witness:
  "received (write_message ''ls'') = Inr (Input ''ls'') \<and> received (resize_message 24 80) = Inr (Resize 24 80)"
  using terminal_messages_delivered[of "''ls''" 24 80] by simp

theorem supervised_log_is_prefix_witness:
  "\<exists>su0 t su timestamp. supervise_start Rewritten 0 0 ([''start''], None) new_log = Inr su0
    \<and> (sup_step receipt_kept)\<^sup>*\<^sup>* (new_tty, su0) (t, su) \<and> su_phase su = Returned 0 \<and> tt_shown t = ''first''
    \<and> given_by SELF (su_log su) = ''start'' @ ''first'' @ exit_line timestamp 0
    \<and> log_bytes (lf_archive (su_log su)) = concat (map snd (lf_written (su_log su)))"
proof -
  obtain su0 t su where run: "supervise_start Rewritten 0 0 ([''start''], None) new_log = Inr su0"
    "(sup_step receipt_kept)\<^sup>*\<^sup>* (new_tty, su0) (t, su)" "su_phase su = Returned 0" "tt_shown t = ''first''"
    "claims_complete (lf_archive (su_log su))"
    using tail_lost_run[of "''first''" "[''start'']" 0 "''rest''"] by (auto simp: READ_LIMIT_def)
  have "log_runs receipt_kept new_log" "\<not> opened_by SELF new_log" "given_by SELF new_log = []" "receipt_kept Rewritten (lf_archive new_log)"
    by (simp_all add: log_runs_def opened_by_def dict_has_def given_by_def new_log_def receipt_kept_def)
  from supervised_log_is_prefix[OF this run(1,2,3,5)] run(1-4) show ?thesis by auto
qed

end
