(* ===== verification/LF_Executor_Facts.thy ===== *)
theory LF_Executor_Facts
  imports LF_Executor LF_Owner_Facts LF_Supervisor_Facts "HOL-Library.Multiset"
begin

text \<open>
  The tables of the subprocess executor agree, and what a start acquired, a log and the directory of
  an owner, is released exactly once.
\<close>

section \<open>Dictionaries\<close>

lemma dict_set_new: "\<not> dict_has k d \<Longrightarrow> dict_set k v d = d @ [(k, v)]"
  by (induction k v d rule: dict_set.induct) (auto simp: dict_has_def split: if_splits)

lemma dict_set_fst: "dict_has k d \<Longrightarrow> map fst (dict_set k v d) = map fst d"
  by (induction k v d rule: dict_set.induct) (auto simp: dict_has_def split: if_splits)

lemma dict_has_map: "dict_has k d \<longleftrightarrow> k \<in> set (map fst d)"
  by (simp add: dict_has_def)

lemma dict_has_Some: "map_of d k = Some v \<Longrightarrow> dict_has k d"
  by (simp add: dict_has_iff)

lemma pop_keys: "map fst (dict_pop k d) = filter (\<lambda>x. x \<noteq> k) (map fst d)"
  by (induction d) (auto simp: dict_pop_def)

lemma pop_values:
  assumes "distinct (map fst d)" and "map_of d k = Some v"
  shows "mset (map f (dict_pop k d)) + {#f (k, v)#} = mset (map f d)"
  using assms
proof (induction d)
  case (Cons e d)
  obtain x y where e: "e = (x, y)" by (cases e)
  show ?case
  proof (cases "x = k")
    case True
    then have "dict_pop k (e # d) = d" "v = y"
      using Cons.prems by (auto simp: e dict_pop_def filter_id_conv image_iff)
    then show ?thesis by (simp add: e True)
  next
    case False
    then have "dict_pop k (e # d) = e # dict_pop k d" by (simp add: e dict_pop_def)
    with Cons False show ?thesis by (simp add: e)
  qed
qed simp

lemma pop_absent: "\<not> dict_has k d \<Longrightarrow> dict_pop k d = d"
  by (auto simp: dict_pop_def dict_has_def filter_id_conv)

section \<open>The tables\<close>

definition starting_dirs :: "(string, writer \<times> string option) dict \<Rightarrow> string multiset" where
  "starting_dirs d = mset (List.map_filter (\<lambda>(_, _, dir). dir) d)"

lemma starting_dirs_simps [simp]:
  "starting_dirs [] = {#}"
  "starting_dirs (xs @ ys) = starting_dirs xs + starting_dirs ys"
  "starting_dirs [(i, w, dir)] = (case dir of Some d \<Rightarrow> {#d#} | None \<Rightarrow> {#})"
  by (auto simp: starting_dirs_def List.map_filter_def split: option.splits)

lemma starting_dirs_pop:
  assumes "distinct (map fst d)" and "map_of d k = Some (w, dir)"
  shows "starting_dirs (dict_pop k d) + (case dir of Some x \<Rightarrow> {#x#} | None \<Rightarrow> {#}) = starting_dirs d"
  using assms
proof (induction d)
  case (Cons e d)
  obtain x w' y where e: "e = (x, w', y)" by (cases e)
  have split: "starting_dirs (e # d) = starting_dirs [e] + starting_dirs d" for e and d :: "(string, writer \<times> string option) dict"
    using starting_dirs_simps(2)[of "[e]" d] by simp
  show ?case
  proof (cases "x = k")
    case True
    then have "dict_pop k (e # d) = d" "dir = y"
      using Cons.prems by (auto simp: e dict_pop_def filter_id_conv image_iff)
    then show ?thesis by (simp add: e split[of _ d])
  next
    case False
    then have "dict_pop k (e # d) = e # dict_pop k d" by (simp add: e dict_pop_def)
    with Cons False show ?thesis by (simp add: e split[of _ d] split[of _ "dict_pop k d"] add.assoc)
  qed
qed simp

definition exec_ok :: "platform \<Rightarrow> sub_exec \<Rightarrow> bool" where
  "exec_ok platform sx \<longleftrightarrow>
     distinct (map fst (sx_starting sx) @ map fst (sx_processes sx))
     \<and> map fst (sx_writers sx) = map fst (sx_processes sx)
     \<and> map fst (sx_pumps sx) = map fst (sx_processes sx)
     \<and> map fst (sx_owners sx) = (if platform = Linux then map fst (sx_processes sx) else [])
     \<and> (\<forall>(i, w, dir) \<in> set (sx_starting sx). dir = None \<longleftrightarrow> platform \<noteq> Linux)
     \<and> mset (sx_open sx) = mset (map fst (sx_starting sx)) + mset (map fst (sx_processes sx)) + mset (sx_dropped sx)
     \<and> mset (sx_dirs sx) = starting_dirs (sx_starting sx) + mset (map snd (sx_owners sx))"

lemma start_open_ok:
  assumes "exec_ok platform sx" and "\<not> dict_has i (sx_processes sx)" and "\<not> dict_has i (sx_starting sx)"
    and "start_open platform io timestamp opened is_dir workdir dir i sx = (r, sx')"
  shows "exec_ok platform sx'"
proof (cases "\<exists>w. opened = Inr w \<and> is_dir")
  case False
  then have "mset (sx_open sx') = mset (sx_open sx)" "sx_dropped sx' = sx_dropped sx"
    and "sx_processes sx' = sx_processes sx" "sx_pumps sx' = sx_pumps sx" "sx_writers sx' = sx_writers sx"
    "sx_owners sx' = sx_owners sx" "sx_starting sx' = sx_starting sx" "sx_dirs sx' = sx_dirs sx"
    using assms(4) by (auto simp: start_open_def close_log_def Let_def split: sum.splits if_splits)
  with assms(1) show ?thesis by (simp add: exec_ok_def)
next
  case True
  have same: "sx_open sx' = sx_open sx @ [i]" "sx_processes sx' = sx_processes sx" "sx_pumps sx' = sx_pumps sx"
    "sx_writers sx' = sx_writers sx" "sx_owners sx' = sx_owners sx"
    using assms(4) True by (auto simp: start_open_def Let_def split: if_splits sum.splits)
  consider (held) w d where "sx_starting sx' = sx_starting sx @ [(i, w, d)]" "d = None \<longleftrightarrow> platform \<noteq> Linux"
      "sx_dirs sx' = sx_dirs sx @ (case d of Some x \<Rightarrow> [x] | None \<Rightarrow> [])" "sx_dropped sx' = sx_dropped sx"
    | (dropped) "sx_starting sx' = sx_starting sx" "sx_dirs sx' = sx_dirs sx" "sx_dropped sx' = sx_dropped sx @ [i]"
    using assms(4) True by (auto simp: start_open_def Let_def dict_set_new[OF assms(3)] split: if_splits sum.splits)
  then show ?thesis
  proof cases
    case held
    with same assms(1-3) show ?thesis by (cases d) (simp_all add: exec_ok_def dict_has_def)
  next
    case dropped
    with same assms(1) show ?thesis by (simp add: exec_ok_def)
  qed
qed

lemma start_spawn_ok:
  assumes "exec_ok platform sx" and "start_spawn io timestamp described texts spawned i sx = (r, sx')"
  shows "exec_ok platform sx'"
proof (cases "map_of (sx_starting sx) i")
  case None
  with assms show ?thesis by (simp add: start_spawn_def)
next
  case (Some entry)
  obtain w dir where entry: "map_of (sx_starting sx) i = Some (w, dir)" using Some by (cases entry) auto
  let ?rest = "dict_pop i (sx_starting sx)"
  have distinct: "distinct (map fst (sx_starting sx))" using assms(1) by (simp add: exec_ok_def)
  have here: "(i, w, dir) \<in> set (sx_starting sx)" using entry by (rule map_of_SomeD)
  then have fresh: "i \<notin> fst ` set (sx_processes sx)" and linux: "dir = None \<longleftrightarrow> platform \<noteq> Linux"
    using assms(1) by (force simp: exec_ok_def)+
  have ids: "image_mset fst (mset (sx_starting sx)) = add_mset i (image_mset fst (mset ?rest))"
    using pop_values[OF distinct entry, of fst] by simp
  have dirs: "starting_dirs (sx_starting sx) = starting_dirs ?rest + (case dir of Some d \<Rightarrow> {#d#} | None \<Rightarrow> {#})"
    by (rule starting_dirs_pop[OF distinct entry, symmetric])
  have rest: "set ?rest \<subseteq> set (sx_starting sx)" "i \<notin> set (map fst ?rest)" "distinct (map fst ?rest)"
    using distinct by (auto simp: pop_keys distinct_filter) (auto simp: dict_pop_def)
  have ok: "distinct (map fst ?rest @ map fst (sx_processes sx))"
    "\<forall>(i, w, dir) \<in> set ?rest. dir = None \<longleftrightarrow> platform \<noteq> Linux"
    using assms(1) rest by (auto simp: exec_ok_def)
  show ?thesis
  proof (cases "case snd texts of Some err \<Rightarrow> Inl err | None \<Rightarrow> spawned")
    case (Inl err)
    have fields: "sx_starting sx' = ?rest" "sx_open sx' = remove1 i (sx_open sx)" "sx_dropped sx' = sx_dropped sx"
      "sx_dirs sx' = (case dir of Some d \<Rightarrow> remove1 d (sx_dirs sx) | None \<Rightarrow> sx_dirs sx)"
      "sx_processes sx' = sx_processes sx" "sx_pumps sx' = sx_pumps sx" "sx_writers sx' = sx_writers sx" "sx_owners sx' = sx_owners sx"
      using assms(2) by (auto simp: start_spawn_def entry Inl close_log_def cleanup_def Let_def split: option.splits)
    have "mset (sx_open sx') = mset (map fst ?rest) + mset (map fst (sx_processes sx)) + mset (sx_dropped sx)"
      using assms(1) by (simp add: exec_ok_def fields ids)
    moreover have "mset (sx_dirs sx') = starting_dirs ?rest + mset (map snd (sx_owners sx))"
      using assms(1) by (cases dir) (simp_all add: exec_ok_def fields dirs)
    ultimately show ?thesis using assms(1) ok by (simp add: exec_ok_def fields)
  next
    case (Inr pid)
    have absent: "\<not> dict_has i (sx_processes sx)" "\<not> dict_has i (sx_writers sx)" "\<not> dict_has i (sx_pumps sx)" "\<not> dict_has i (sx_owners sx)"
      using fresh assms(1) unfolding exec_ok_def dict_has_map by simp_all
    have dropped: "sx_dropped sx' = sx_dropped sx"
      using assms(2) by (auto simp: start_spawn_def entry Inr Let_def split: option.splits)
    have fields: "sx_starting sx' = ?rest" "sx_open sx' = sx_open sx" "sx_dirs sx' = sx_dirs sx"
      "sx_owners sx' = sx_owners sx @ (case dir of Some d \<Rightarrow> [(i, d)] | None \<Rightarrow> [])"
      "map fst (sx_processes sx') = map fst (sx_processes sx) @ [i]" "map fst (sx_pumps sx') = map fst (sx_pumps sx) @ [i]"
      "map fst (sx_writers sx') = map fst (sx_writers sx) @ [i]"
      using assms(2) by (auto simp: start_spawn_def entry Inr Let_def dict_set_new absent split: option.splits)
    have "mset (sx_open sx') = mset (map fst (sx_starting sx')) + mset (map fst (sx_processes sx')) + mset (sx_dropped sx')"
      using assms(1) by (simp add: exec_ok_def fields ids dropped)
    moreover have "mset (sx_dirs sx') = starting_dirs (sx_starting sx') + mset (map snd (sx_owners sx'))"
      using assms(1) by (cases dir) (simp_all add: exec_ok_def fields dirs)
    moreover have "distinct (map fst (sx_starting sx') @ map fst (sx_processes sx'))"
      using ok(1) rest(2) fresh by (auto simp: fields(1,5))
    moreover have "map fst (sx_owners sx') = (if platform = Linux then map fst (sx_processes sx') else [])"
      using assms(1) linux by (cases dir) (auto simp: exec_ok_def fields(4,5))
    ultimately show ?thesis using assms(1) ok(2) unfolding exec_ok_def fields(1,5-7) by simp
  qed
qed

lemma update_keeps_ok:
  assumes "exec_ok platform sx" and "map fst (sx_processes sx') = map fst (sx_processes sx)"
    and "map fst (sx_writers sx') = map fst (sx_writers sx)" and "sx_pumps sx' = sx_pumps sx" and "sx_owners sx' = sx_owners sx"
    and "sx_starting sx' = sx_starting sx" and "sx_open sx' = sx_open sx" and "sx_dirs sx' = sx_dirs sx"
    and "sx_dropped sx' = sx_dropped sx"
  shows "exec_ok platform sx'"
  using assms(1) unfolding exec_ok_def assms(2-) by blast

lemma pump_ok: "exec_ok platform sx \<Longrightarrow> exec_ok platform (pump io i bytes sx)"
  by (rule update_keeps_ok[of platform sx]) (auto simp: pump_def dict_set_fst dict_has_Some split: option.splits)

lemma process_exits_ok: "exec_ok platform sx \<Longrightarrow> exec_ok platform (process_exits i code sx)"
  by (rule update_keeps_ok[of platform sx]) (auto simp: process_exits_def dict_set_fst dict_has_Some split: option.splits)

text \<open>A task that has exited is released from every table, and its log and its directory with it.\<close>

lemma release_ok:
  assumes "exec_ok platform sx"
  shows "exec_ok platform (release i sx)"
    and "map_of (sx_processes sx) i = Some ps \<Longrightarrow> ps_returncode ps \<noteq> None \<Longrightarrow>
      (i \<notin> set (sx_dropped sx) \<longrightarrow> i \<notin> set (sx_open (release i sx))) \<and> \<not> dict_has i (sx_processes (release i sx))
      \<and> length (sx_closed (release i sx)) = Suc (length (sx_closed sx))"
proof -
  have "exec_ok platform (release i sx) \<and> (i \<notin> set (sx_dropped sx) \<longrightarrow> i \<notin> set (sx_open (release i sx))) \<and> \<not> dict_has i (sx_processes (release i sx))
      \<and> length (sx_closed (release i sx)) = Suc (length (sx_closed sx))"
    if ps: "map_of (sx_processes sx) i = Some ps" "ps_returncode ps \<noteq> None" for ps
  proof -
    have keys: "map fst (sx_writers sx) = map fst (sx_processes sx)" "distinct (map fst (sx_processes sx))"
      "map fst (sx_pumps sx) = map fst (sx_processes sx)"
      "map fst (sx_owners sx) = (if platform = Linux then map fst (sx_processes sx) else [])"
      "i \<notin> set (map fst (sx_starting sx))"
      using assms dict_has_Some[OF ps(1)] by (auto simp: exec_ok_def dict_has_def)
    have "dict_has i (sx_writers sx)" using dict_has_Some[OF ps(1)] by (simp only: dict_has_map keys(1))
    then obtain w where w: "map_of (sx_writers sx) i = Some w" by (auto simp: dict_has_iff)
    let ?sx = "release i sx"
    have fields: "sx_processes ?sx = dict_pop i (sx_processes sx)" "sx_writers ?sx = dict_pop i (sx_writers sx)"
      "sx_pumps ?sx = dict_pop i (sx_pumps sx)" "sx_owners ?sx = dict_pop i (sx_owners sx)" "sx_starting ?sx = sx_starting sx"
      "sx_open ?sx = remove1 i (sx_open sx)" "length (sx_closed ?sx) = Suc (length (sx_closed sx))"
      "sx_dropped ?sx = sx_dropped sx" "sx_dirs ?sx = (case map_of (sx_owners sx) i of Some d \<Rightarrow> remove1 d (sx_dirs sx) | None \<Rightarrow> sx_dirs sx)"
      using ps by (auto simp: release_def w close_log_def cleanup_def Let_def split: option.splits)
    have ids: "image_mset fst (mset (sx_processes sx)) = add_mset i (image_mset fst (mset (dict_pop i (sx_processes sx))))"
      using pop_values[OF keys(2) ps(1), of fst] by simp
    have opened: "mset (sx_open ?sx) = mset (map fst (sx_starting sx)) + mset (map fst (dict_pop i (sx_processes sx))) + mset (sx_dropped sx)"
      using assms by (simp add: exec_ok_def fields(6) ids)
    have "mset (sx_dirs ?sx) = starting_dirs (sx_starting sx) + mset (map snd (dict_pop i (sx_owners sx)))"
    proof (cases "map_of (sx_owners sx) i")
      case None
      then have "\<not> dict_has i (sx_owners sx)" by (simp add: dict_has_iff)
      with None assms show ?thesis by (simp add: exec_ok_def fields(9) pop_absent)
    next
      case (Some d)
      have "distinct (map fst (sx_owners sx))" using keys(2,4) by simp
      then have "image_mset snd (mset (sx_owners sx)) = add_mset d (image_mset snd (mset (dict_pop i (sx_owners sx))))"
        using pop_values[OF _ Some, of snd] by simp
      with assms show ?thesis by (simp add: exec_ok_def fields(9) Some)
    qed
    with opened assms keys have "exec_ok platform ?sx"
      by (simp add: exec_ok_def fields(1-5,8) pop_keys distinct_filter) blast
    moreover have "i \<notin> set (sx_open ?sx)" if "i \<notin> set (sx_dropped sx)"
    proof -
      have "i \<notin># mset (sx_open ?sx)" using keys(5) that by (simp add: opened pop_keys)
      then show ?thesis by simp
    qed
    moreover have "\<not> dict_has i (sx_processes ?sx)" by (simp add: fields(1) dict_has_map pop_keys)
    ultimately show ?thesis using fields(7) by blast
  qed
  note released = this
  show "map_of (sx_processes sx) i = Some ps \<Longrightarrow> ps_returncode ps \<noteq> None \<Longrightarrow>
      (i \<notin> set (sx_dropped sx) \<longrightarrow> i \<notin> set (sx_open (release i sx))) \<and> \<not> dict_has i (sx_processes (release i sx))
      \<and> length (sx_closed (release i sx)) = Suc (length (sx_closed sx))"
    using released by blast
  show "exec_ok platform (release i sx)"
  proof (cases "\<exists>ps. map_of (sx_processes sx) i = Some ps \<and> ps_returncode ps \<noteq> None")
    case True
    with released show ?thesis by blast
  next
    case False
    then have "release i sx = sx" by (auto simp: release_def split: option.splits)
    with assms show ?thesis by simp
  qed
qed

lemma sub_step_ok:
  assumes "sub_step platform sx sx'" and "exec_ok platform sx"
  shows "exec_ok platform sx'"
  using assms
proof cases
  case (opens i io timestamp opened is_dir workdir dir r)
  then show ?thesis using start_open_ok[OF assms(2)] by blast
next
  case (spawns io timestamp described texts spawned i r)
  then show ?thesis using start_spawn_ok[OF assms(2)] by blast
next
  case (pumps io i bytes)
  then show ?thesis using pump_ok[OF assms(2)] by simp
next
  case (exits i code)
  then show ?thesis using process_exits_ok[OF assms(2)] by simp
next
  case (waits io timestamp cancelled i r)
  then show ?thesis
    using assms(2) release_ok(1)[OF assms(2)] release_ok(1)[OF pump_ok[OF assms(2)]]
    by (auto simp: sub_wait_def split: option.splits if_splits)
qed

lemma sub_steps_ok:
  assumes "(sub_step platform)\<^sup>*\<^sup>* new_executor sx"
  shows "exec_ok platform sx"
  using assms
proof (induction rule: rtranclp_induct)
  case base
  show ?case by (simp add: exec_ok_def new_executor_def)
next
  case (step sx sx')
  then show ?case by (blast intro: sub_step_ok)
qed

text \<open>
  C22. The subprocess executor releases what it acquired, with one exception. In every state it can
  reach, the open logs are those of the tasks that are starting or registered and those of the starts
  whose owner directory could not be made, which are left open; every registered task has a process,
  a log and a pump, and the directories that exist are those of the starting and registered tasks. A wait
  that returns a code, or is cancelled after the exit, has closed the log of its task once and removed
  the task; an executor without tasks and without such a failed start holds nothing.
\<close>

theorem executor_releases_resources:
  assumes "(sub_step platform)\<^sup>*\<^sup>* new_executor sx"
  shows "mset (sx_open sx) = mset (map fst (sx_starting sx)) + mset (map fst (sx_processes sx)) + mset (sx_dropped sx)
    \<and> map fst (sx_writers sx) = map fst (sx_processes sx) \<and> map fst (sx_pumps sx) = map fst (sx_processes sx)
    \<and> mset (sx_dirs sx) = starting_dirs (sx_starting sx) + mset (map snd (sx_owners sx))
    \<and> (sx_dropped sx = [] \<longrightarrow> distinct (sx_open sx))
    \<and> (sx_starting sx = [] \<and> sx_processes sx = [] \<longrightarrow> mset (sx_open sx) = mset (sx_dropped sx) \<and> sx_dirs sx = [])
    \<and> (\<forall>io timestamp cancelled i r sx'. sub_wait io timestamp cancelled i sx = (r, sx') \<and> sub_completed_code i sx \<noteq> None \<longrightarrow>
        (i \<notin> set (sx_dropped sx) \<longrightarrow> i \<notin> set (sx_open sx')) \<and> \<not> dict_has i (sx_processes sx')
        \<and> length (sx_closed sx') = Suc (length (sx_closed sx)))"
proof -
  have ok: "exec_ok platform sx" using assms by (rule sub_steps_ok)
  then have tables: "mset (sx_open sx) = mset (map fst (sx_starting sx)) + mset (map fst (sx_processes sx)) + mset (sx_dropped sx)"
    "map fst (sx_writers sx) = map fst (sx_processes sx)" "map fst (sx_pumps sx) = map fst (sx_processes sx)"
    "mset (sx_dirs sx) = starting_dirs (sx_starting sx) + mset (map snd (sx_owners sx))"
    by (simp_all add: exec_ok_def)
  have "distinct (sx_open sx)" if "sx_dropped sx = []"
  proof -
    have "mset (sx_open sx) = mset (map fst (sx_starting sx) @ map fst (sx_processes sx))" using tables(1) that by simp
    then show ?thesis using ok mset_eq_imp_distinct_iff by (metis exec_ok_def)
  qed
  moreover have "mset (sx_open sx) = mset (sx_dropped sx) \<and> sx_dirs sx = []" if "sx_starting sx = []" "sx_processes sx = []"
    using ok that by (auto simp: exec_ok_def split: if_splits)
  moreover have "(i \<notin> set (sx_dropped sx) \<longrightarrow> i \<notin> set (sx_open sx')) \<and> \<not> dict_has i (sx_processes sx')
      \<and> length (sx_closed sx') = Suc (length (sx_closed sx))"
    if wait: "sub_wait io timestamp cancelled i sx = (r, sx')" "sub_completed_code i sx \<noteq> None" for io timestamp cancelled i r sx'
  proof -
    obtain ps code where ps: "map_of (sx_processes sx) i = Some ps" "ps_returncode ps = Some code"
      using wait(2) by (auto simp: sub_completed_code_def split: bind_splits)
    let ?line = "pump io i (exit_line timestamp code) sx"
    have same: "sx_processes ?line = sx_processes sx" "sx_closed ?line = sx_closed sx" "sx_dropped ?line = sx_dropped sx"
      by (simp_all add: pump_def split: option.splits)
    have "sx' = (if cancelled then release i sx else release i ?line)" using wait(1) ps by (auto simp: sub_wait_def split: if_splits)
    moreover have "exec_ok platform ?line" using ok by (rule pump_ok)
    ultimately show ?thesis
      using release_ok(2)[OF ok ps(1)] release_ok(2)[of platform ?line i ps] ps same by (auto split: if_splits)
  qed
  ultimately show ?thesis using tables by blast
qed

text \<open>A start whose directory cannot be made leaves its log open, and nothing refers to it any more.\<close>

theorem dropped_start_keeps_log_open:
  assumes "start_open Linux io timestamp (Inr w) True workdir (Inl err) i sx = (r, sx')"
  shows "r = Inl err \<and> i \<in> set (sx_open sx') \<and> sx_writers sx' = sx_writers sx \<and> sx_starting sx' = sx_starting sx \<and> sx_closed sx' = sx_closed sx"
  using assms by (auto simp: start_open_def Let_def)

text \<open>
  A start whose owner gave no answer is reported as failed although its process is still registered
  and nothing asked it to stop, when the channel of the owner is not there either: the abort raises
  before it waits.
\<close>

theorem abort_leaves_process:
  assumes "map_of (sx_processes sx) i = Some ps" and "ps_returncode ps = None" and "map_of (sx_owners sx) i = Some dir"
  shows "start_ready Deadline (No_answer err) i sx
      = (Inl (RuntimeError ''task-family control channel did not become ready''), [])
    \<and> sub_is_running i sx"
  using assms by (simp add: start_ready_def abort_start_def sub_interrupt_def sub_is_running_def dict_has_iff)

section \<open>Instances\<close>

definition ex_sink :: writer where
  "ex_sink = \<lparr>w_max = 0, w_keep_free = 0, w_size = 0, w_stopped = False, w_since = MIB,
     w_archive = \<lparr>ar_log = Some [], ar_receipt = COMPLETE\<rparr>\<rparr>"

theorem executor_releases_resources_witness:
  "\<exists>sx. (sub_step Linux)\<^sup>*\<^sup>* new_executor sx \<and> sx_open sx = [''t1''] \<and> map fst (sx_writers sx) = map fst (sx_processes sx)"
proof -
  let ?sx = "snd (start_open Linux clean_io ''now'' (Inr ex_sink) True ''/w'' (Inr ''d'') ''t1'' new_executor)"
  have "sub_step Linux new_executor ?sx"
    by (rule sub_step.opens[where io = clean_io and timestamp = "''now''" and opened = "Inr ex_sink" and is_dir = True
          and workdir = "''/w''" and dir = "Inr ''d''" and i = "''t1''" and r = "Inr ()"])
      (simp_all add: new_executor_def dict_has_def start_open_def Let_def)
  then have run: "(sub_step Linux)\<^sup>*\<^sup>* new_executor ?sx" by simp
  moreover have "sx_open ?sx = [''t1'']" by (simp add: new_executor_def start_open_def Let_def)
  ultimately show ?thesis using executor_releases_resources[OF run] by blast
qed

end
