(* ===== verification/LF_Settings.thy ===== *)
theory LF_Settings
  imports LF_Files
begin

text \<open>
  Settings and the initial files, \<^verbatim>\<open>src/src/localflow/settings.py\<close>: the checks of the settings, the
  deployment, and \<open>initialize_config_root\<close>, which creates missing directories and files, takes over
  the settings of earlier versions and upgrades the plugins that are part of the program.

  The values pydantic reads from the file are the fields of the records; their constraints are
  checked here. The initialization works on a file system with the modes that were set on its
  entries. The digest, the test for an address and the files of the package are parameters.
\<close>

section \<open>Settings\<close>

datatype access = Disabled | Summary_only | Readonly

datatype concurrency = Auto | Unlimited | Limit int

record server_settings =
  ss_bind :: string
  ss_port :: int
  ss_anonymous_access :: access
  ss_tls_certfile :: "string option"
  ss_tls_keyfile :: "string option"
  ss_trusted_proxies :: "string list"
  ss_session_cookie_domain :: "string option"

datatype backend = Backend_auto | Systemd | Subprocess

record execution_settings =
  xs_backend :: backend
  xs_max_concurrency :: concurrency
  xs_sigint_grace_seconds :: real
  xs_sigterm_grace_seconds :: real

record retention_settings =
  rs_task_days :: int
  rs_log_days :: "int option"
  rs_event_days :: "int option"
  rs_cleanup_interval_seconds :: int

datatype level = Debug | Info | Warning | Error

record logging_settings =
  lg_level :: level
  lg_service_file_mb :: int
  lg_service_files :: int
  lg_task_file_mb :: int
  lg_task_total_mb :: int
  lg_keep_free_mb :: int
  lg_database_mb :: int
  lg_wal_mb :: int

record time_settings =
  tm_display_timezone :: string
  tm_privileged_helper :: "string list"

record settings =
  st_server :: server_settings
  st_execution :: execution_settings
  st_retention :: retention_settings
  st_logging :: logging_settings
  st_time :: time_settings

definition between :: "int \<Rightarrow> int \<Rightarrow> int \<Rightarrow> bool" where
  "between lo hi n \<longleftrightarrow> lo \<le> n \<and> n \<le> hi"

definition label_char :: "char \<Rightarrow> bool" where
  "label_char c \<longleftrightarrow> (let n = of_char c :: nat in 97 \<le> n \<and> n \<le> 122 \<or> 48 \<le> n \<and> n \<le> 57)"

text \<open>\<open>[a-z0-9](?:[a-z0-9-]{0,61}[a-z0-9])?\<close> on the whole label.\<close>

definition dns_label :: "string \<Rightarrow> bool" where
  "dns_label s \<longleftrightarrow> s \<noteq> [] \<and> length s \<le> 63 \<and> label_char (hd s) \<and> label_char (last s)
     \<and> list_all (\<lambda>c. label_char c \<or> c = CHR ''-'') s"

definition valid_session_cookie_domain :: "(string \<Rightarrow> bool) \<Rightarrow> string option \<Rightarrow> string option result" where
  "valid_session_cookie_domain is_ip v =
     (case v of
        None \<Rightarrow> Inr None
      | Some text \<Rightarrow>
          let normalized = dropWhile (\<lambda>c. c = CHR ''.'') (py_lower (strip text));
              labels = split_on (CHR ''.'') normalized
          in if is_ip normalized then Inl (ValueError ''session_cookie_domain must be a DNS parent domain, not an IP'')
             else if length labels < 2 \<or> \<not> list_all dns_label labels
             then Inl (ValueError ''session_cookie_domain must be a plain multi-label DNS domain'')
             else Inr (Some normalized))"

definition valid_concurrency :: "concurrency \<Rightarrow> concurrency result" where
  "valid_concurrency v =
     (case v of
        Limit n \<Rightarrow>
          if between 1 4096 n then Inr v
          else Inl (ValueError (''max_concurrency must be '' @ [SQ] @ ''unlimited'' @ [SQ] @ '', '' @ [SQ] @ ''auto'' @ [SQ]
                 @ '', or an integer from 1 to 4096''))
      | _ \<Rightarrow> Inr v)"

definition effective_max_concurrency :: "execution_settings \<Rightarrow> int option" where
  "effective_max_concurrency xs = (case xs_max_concurrency xs of Limit n \<Rightarrow> Some n | _ \<Rightarrow> None)"

definition normalize_legacy_durations :: "retention_settings \<Rightarrow> retention_settings result" where
  "normalize_legacy_durations rs =
     (if list_ex (\<lambda>v. v \<noteq> None \<and> v \<noteq> Some (rs_task_days rs)) [rs_log_days rs, rs_event_days rs]
      then Inl (ValueError ''retention uses one task_days duration for task data and terminal output'')
      else Inr rs)"

definition check :: "bool \<Rightarrow> string \<Rightarrow> unit result" where
  "check ok name = (if ok then Inr () else Inl (ValueError name))"

definition opt_between :: "int \<Rightarrow> int \<Rightarrow> int option \<Rightarrow> bool" where
  "opt_between lo hi v \<longleftrightarrow> (case v of None \<Rightarrow> True | Some n \<Rightarrow> between lo hi n)"

definition retention_ranges :: "retention_settings \<Rightarrow> bool" where
  "retention_ranges rs \<longleftrightarrow> between 1 36500 (rs_task_days rs) \<and> opt_between 1 36500 (rs_log_days rs)
     \<and> opt_between 1 36500 (rs_event_days rs) \<and> between 10 86400 (rs_cleanup_interval_seconds rs)"

definition logging_ranges :: "logging_settings \<Rightarrow> bool" where
  "logging_ranges lg \<longleftrightarrow> between 1 1024 (lg_service_file_mb lg) \<and> between 1 100 (lg_service_files lg)
     \<and> between 0 102400 (lg_task_file_mb lg) \<and> between 1 1048576 (lg_task_total_mb lg)
     \<and> between 0 1048576 (lg_keep_free_mb lg) \<and> between 16 1048576 (lg_database_mb lg) \<and> between 1 1024 (lg_wal_mb lg)"

definition grace_ranges :: "execution_settings \<Rightarrow> bool" where
  "grace_ranges xs \<longleftrightarrow> 0 \<le> xs_sigint_grace_seconds xs \<and> xs_sigint_grace_seconds xs \<le> 3600
     \<and> 0 \<le> xs_sigterm_grace_seconds xs \<and> xs_sigterm_grace_seconds xs \<le> 3600"

definition validate_settings :: "(string \<Rightarrow> bool) \<Rightarrow> settings \<Rightarrow> settings result" where
  "validate_settings is_ip st =
     bindR (check (between 0 65535 (ss_port (st_server st))) ''port'') (\<lambda>_.
     bindR (valid_session_cookie_domain is_ip (ss_session_cookie_domain (st_server st))) (\<lambda>domain.
     bindR (valid_concurrency (xs_max_concurrency (st_execution st))) (\<lambda>_.
     bindR (check (grace_ranges (st_execution st)) ''execution'') (\<lambda>_.
     bindR (check (retention_ranges (st_retention st)) ''retention'') (\<lambda>_.
     bindR (normalize_legacy_durations (st_retention st)) (\<lambda>_.
     bindR (check (logging_ranges (st_logging st)) ''logging'') (\<lambda>_.
       Inr (st\<lparr>st_server := (st_server st)\<lparr>ss_session_cookie_domain := domain\<rparr>\<rparr>))))))))"

definition DEFAULT_SETTINGS :: settings where
  "DEFAULT_SETTINGS =
     \<lparr>st_server = \<lparr>ss_bind = ''0.0.0.0'', ss_port = 0, ss_anonymous_access = Summary_only, ss_tls_certfile = None,
        ss_tls_keyfile = None, ss_trusted_proxies = [], ss_session_cookie_domain = None\<rparr>,
      st_execution = \<lparr>xs_backend = Backend_auto, xs_max_concurrency = Unlimited, xs_sigint_grace_seconds = 20, xs_sigterm_grace_seconds = 10\<rparr>,
      st_retention = \<lparr>rs_task_days = 3, rs_log_days = None, rs_event_days = None, rs_cleanup_interval_seconds = 3600\<rparr>,
      st_logging = \<lparr>lg_level = Info, lg_service_file_mb = 10, lg_service_files = 5, lg_task_file_mb = 0, lg_task_total_mb = 4096,
        lg_keep_free_mb = 512, lg_database_mb = 512, lg_wal_mb = 16\<rparr>,
      st_time = \<lparr>tm_display_timezone = ''UTC'', tm_privileged_helper = []\<rparr>\<rparr>"

text \<open>The settings of a root; \<open>parse\<close> stands for the YAML library and the coercions of pydantic.\<close>

definition load_settings :: "(string \<Rightarrow> bool) \<Rightarrow> (string \<Rightarrow> settings result) \<Rightarrow> fpath \<Rightarrow> fs \<Rightarrow> settings result" where
  "load_settings is_ip parse home fs =
     (let path = home @ [''config.yaml'']
      in if \<not> path_exists fs path then Inr DEFAULT_SETTINGS
         else bindR (read_text fs path) (\<lambda>content. bindR (parse content) (validate_settings is_ip)))"

text \<open>TLS needs both files, absolute and there; the networks are checked before the files are reported.\<close>

definition given_text :: "string option \<Rightarrow> bool" where
  "given_text v \<longleftrightarrow> v \<noteq> None \<and> v \<noteq> Some []"

definition tls_file_ok :: "fs \<Rightarrow> string option \<Rightarrow> bool" where
  "tls_file_ok fs v =
     (case v of None \<Rightarrow> False
      | Some s \<Rightarrow> s \<noteq> [] \<and> is_absolute (parse_path s) \<and> path_is_file fs (parts_of (parse_path s)))"

definition validate_deployment :: "(string \<Rightarrow> bool) \<Rightarrow> fs \<Rightarrow> server_settings \<Rightarrow> unit result" where
  "validate_deployment is_network fs ss =
     (let files = [(ss_tls_certfile ss, ''tls_certfile''), (ss_tls_keyfile ss, ''tls_keyfile'')];
          missing = (if list_ex (\<lambda>(v, _). given_text v) files
                     then map snd (filter (\<lambda>(v, _). \<not> tls_file_ok fs v) files) else [])
      in if \<not> list_all is_network (ss_trusted_proxies ss) then Inl (ValueError ''invalid trusted proxy network'')
         else if missing \<noteq> []
         then Inl (ValueError (''configured TLS requires existing absolute certificate and key files: '' @ join '', '' missing))
         else Inr ())"

section \<open>Files of an installation\<close>

definition KNOWN_BUNDLED_PLUGIN_DIGESTS :: "(string, string list) dict" where
  "KNOWN_BUNDLED_PLUGIN_DIGESTS =
     [(''verification.py'',
      [''d2218dbb4f6dab678629cc9941000f0960c3c5f41b99c9b22074f91929986111'',
       ''feefbb2dc3de11ab4eb9779b363a0d273d0ccad50ded0ee327d87dd3a90010aa'',
       ''130aa8f639de371deac43dfb1aae6c0518b57bf6f7fbbdc1a7881cfddce8d239'',
       ''7fe5ffde7af4efd2c8157c33a127a24763f899d9243dfca8ab7837d9d8f58dc8'',
       ''49b5e857c257efb1de3af37e4674c80fa35ce268b06906f7cc92ad0b4b4a2ffd'',
       ''995bbe2050d0c5c16cc0c336e9927b7d077d8ded09a06ccb01429494f23f2975'',
       ''f7b013dfea1c62f2d37577c4f5425aa91e99c83eb320a40da7a9ab4f120f9b6d'',
       ''3d88a1c66203733a44934b74651b918142a1718b592d23844365cb359e860856'',
       ''e521bd377614f9b9a330829726b65b2cf37f5f0a59b033a094a536179319139a'',
       ''354cdb8005c131eb8c3d8db4677784be32e6850d27fb0e1d96748f8303956005'',
       ''4fc099555f0f03457ffd670cdf10f36c0b714b20fe13795fcfa3c02fa02464e9'',
       ''9a4030d32622c0a7ba69c1b6d990cfa588235be2f65d699bff23fbc8ed5178e7'']),
      (''command.py'',
      [''e73ad6a653f86af6bc3c9e55d0588cfda18f74b870978c226ad3dc0d39fc79a9'',
       ''0a80e82a3178b4271127b818ee551221398df3c2d63f04aaca7a30203c101ee6'',
       ''b0708115a37c6f00b766cac504e1199ea619eb2221146de5f15d9885721b9d43''])]"

definition bundled :: "string \<Rightarrow> string \<Rightarrow> bool" where
  "bundled name digest \<longleftrightarrow> (case map_of KNOWN_BUNDLED_PLUGIN_DIGESTS name of Some ds \<Rightarrow> digest \<in> set ds | None \<Rightarrow> False)"

definition normalized_text_digest :: "(string \<Rightarrow> string) \<Rightarrow> string \<Rightarrow> string" where
  "normalized_text_digest sha text = sha (utf8 (rev (dropWhile (\<lambda>c. c = NL) (rev (universal_newlines text))) @ [NL]))"

text \<open>
  A file system and the modes that \<open>os.chmod\<close> has set; an entry without one has the mode it was
  created with. \<open>posix\<close> stands for \<open>os.name != "nt"\<close>: elsewhere no mode is set.
\<close>

record disk =
  dk_fs :: fs
  dk_modes :: "(fpath, nat) dict"

definition onFs :: "(fs, 'a) op \<Rightarrow> (disk, 'a) op" where
  "onFs f dk = (case f (dk_fs dk) of (r, fs) \<Rightarrow> (r, dk\<lparr>dk_fs := fs\<rparr>))"

text \<open>\<open>os.chmod\<close> follows links; \<open>owned\<close> tells which entries belong to the user of the program.\<close>

definition chmod :: "(fpath \<Rightarrow> bool) \<Rightarrow> fpath \<Rightarrow> nat \<Rightarrow> (disk, unit) op" where
  "chmod owned p mode dk =
     (case resolve_path (dk_fs dk) p of
        Inl err \<Rightarrow> (Inl err, dk)
      | Inr q \<Rightarrow>
          if node_at (dk_fs dk) q = None then (Inl (FileNotFoundError ''No such file or directory''), dk)
          else if \<not> owned q then (Inl (OSError ''Operation not permitted''), dk)
          else (Inr (), dk\<lparr>dk_modes := dict_set q mode (dk_modes dk)\<rparr>))"

text \<open>An entry becomes a file that was written and given its mode under a temporary name.\<close>

definition put_file :: "bool \<Rightarrow> nat \<Rightarrow> fpath \<Rightarrow> string \<Rightarrow> disk \<Rightarrow> disk" where
  "put_file posix mode q content dk =
     \<lparr>dk_fs = dict_set q (NFile content) (dk_fs dk),
      dk_modes = (if posix then dict_set q mode (dk_modes dk) else dict_pop q (dk_modes dk))\<rparr>"

text \<open>A new file is written beside its name and linked to it; a name that was taken meanwhile is kept.\<close>

definition link_new :: "bool \<Rightarrow> nat \<Rightarrow> fpath \<Rightarrow> string \<Rightarrow> (disk, unit) op" where
  "link_new posix mode destination text dk =
     (if \<not> path_is_dir (dk_fs dk) (butlast destination) then (Inl (FileNotFoundError ''No such file or directory''), dk)
      else case entry_of (dk_fs dk) destination of
             Inl err \<Rightarrow> (Inl err, dk)
           | Inr q \<Rightarrow> (Inr (), if node_at (dk_fs dk) q = None then put_file posix mode q text dk else dk))"

definition FILE_MODE :: nat where
  "FILE_MODE = 416"

definition SCRIPT_MODE :: nat where
  "SCRIPT_MODE = 488"

definition DIRECTORY_MODE :: nat where
  "DIRECTORY_MODE = 488"

definition SECRETS_MODE :: nat where
  "SECRETS_MODE = 448"

definition write_text_if_missing :: "bool \<Rightarrow> nat \<Rightarrow> fpath \<Rightarrow> string \<Rightarrow> (disk, unit) op" where
  "write_text_if_missing posix mode destination text dk =
     (if path_exists (dk_fs dk) destination \<or> path_is_symlink (dk_fs dk) destination then (Inr (), dk)
      else link_new posix mode destination text dk)"

text \<open>
  The replacement of a bundled plugin: each denied attempt sees the text that is there by then, and
  the tenth denial is raised.
\<close>

fun replace_attempts :: "(string \<Rightarrow> string) \<Rightarrow> nat \<Rightarrow> string option list \<Rightarrow> string \<Rightarrow> bool result" where
  "replace_attempts sha n [] source_text = Inr True"
| "replace_attempts sha n (there # denials) source_text =
     (if (case there of Some t \<Rightarrow> normalized_text_digest sha t = normalized_text_digest sha source_text | None \<Rightarrow> False)
      then Inr False
      else if n \<le> 1 then Inl (OSError ''Permission denied'')
      else replace_attempts sha (n - 1) denials source_text)"

definition install_or_upgrade_builtin_plugin ::
    "(string \<Rightarrow> string) \<Rightarrow> bool \<Rightarrow> string option list \<Rightarrow> fpath \<Rightarrow> string \<Rightarrow> (disk, unit) op" where
  "install_or_upgrade_builtin_plugin sha posix denials destination source_text dk =
     (if path_is_symlink (dk_fs dk) destination then (Inr (), dk)
      else if \<not> path_exists (dk_fs dk) destination then link_new posix FILE_MODE destination source_text dk
      else case read_text (dk_fs dk) destination of
             Inl err \<Rightarrow> (Inl err, dk)
           | Inr existing \<Rightarrow>
               let digest = normalized_text_digest sha existing
               in if digest = normalized_text_digest sha source_text then (Inr (), dk)
                  else if map_of KNOWN_BUNDLED_PLUGIN_DIGESTS (last destination) = None then (Inl (KeyError (last destination)), dk)
                  else if \<not> bundled (last destination) digest then (Inr (), dk)
                  else case (replace_attempts sha 10 denials source_text, entry_of (dk_fs dk) destination) of
                         (Inl err, _) \<Rightarrow> (Inl err, dk)
                       | (Inr True, Inr q) \<Rightarrow> (Inr (), put_file posix FILE_MODE q source_text dk)
                       | (Inr True, Inl err) \<Rightarrow> (Inl err, dk)
                       | (Inr False, _) \<Rightarrow> (Inr (), dk))"

definition INITIAL_CONFIG :: string where
  "INITIAL_CONFIG =
     ''# LocalFlow reads this file only when it starts. Restart after editing.'' @ [NL] @
     ''server:'' @ [NL] @
     ''  # 0 asks Ubuntu for an available port; use 1-65535 for a fixed port.'' @ [NL] @
     ''  port: 0'' @ [NL] @
     ''execution:'' @ [NL] @
     ''  # auto uses systemd when its user manager is available, otherwise subprocess.'' @ [NL] @
     ''  backend: auto'' @ [NL] @
     ''  # unlimited adds no task-slot limit; legacy auto has the same behavior.'' @ [NL] @
     ''  max_concurrency: unlimited'' @ [NL] @
     ''retention:'' @ [NL] @
     ''  # One duration covers task details and terminal output.'' @ [NL] @
     ''  task_days: 3'' @ [NL]"

definition DIRECTORIES :: "(fpath \<times> nat) list" where
  "DIRECTORIES =
     [([''config''], DIRECTORY_MODE), ([''config'', ''command''], DIRECTORY_MODE), ([''config'', ''verification''], DIRECTORY_MODE),
      ([''scripts''], DIRECTORY_MODE), ([''plugins''], DIRECTORY_MODE), ([''secrets''], SECRETS_MODE)]"

definition STARTERS :: "fpath list" where
  "STARTERS = [[''config'', ''command'', ''hello-world.yaml''], [''config'', ''verification'', ''demo.yaml''], [''Makefile''],
     [''scripts'', ''simulate.py'']]"

definition make_directory :: "fpath \<Rightarrow> (disk, unit) op" where
  "make_directory p = onFs (\<lambda>fs. case mkdir_parents p fs of Inl err \<Rightarrow> (Inl err, fs) | Inr fs' \<Rightarrow> (Inr (), fs'))"

text \<open>The mode of an existing \<open>secrets\<close> directory is left alone; the others get theirs every time.\<close>

definition ensure_directory :: "bool \<Rightarrow> (fpath \<Rightarrow> bool) \<Rightarrow> fpath \<Rightarrow> fpath \<times> nat \<Rightarrow> (disk, unit) op" where
  "ensure_directory posix owned home entry dk =
     (let path = home @ fst entry;
          created = \<not> path_exists (dk_fs dk) path
      in bindS (make_directory path) (\<lambda>_.
           if posix \<and> (created \<or> fst entry \<noteq> [''secrets'']) then chmod owned path (snd entry) else retS ()) dk)"

text \<open>\<open>Path.replace\<close> of a settings file, inside the same root: the file keeps its mode.\<close>

definition move_file :: "fpath \<Rightarrow> fpath \<Rightarrow> (disk, unit) op" where
  "move_file old new dk =
     (case (entry_of (dk_fs dk) old, entry_of (dk_fs dk) new) of
        (Inr p, Inr q) \<Rightarrow>
          (case node_at (dk_fs dk) p of
             None \<Rightarrow> (Inr (), dk)
           | Some n \<Rightarrow>
               (Inr (), \<lparr>dk_fs = dict_set q n (dict_pop p (dk_fs dk)),
                         dk_modes = (case map_of (dk_modes dk) p of
                                       None \<Rightarrow> dict_pop q (dk_modes dk)
                                     | Some mode \<Rightarrow> dict_set q mode (dict_pop p (dk_modes dk)))\<rparr>))
      | (Inl err, _) \<Rightarrow> (Inl err, dk)
      | (_, Inl err) \<Rightarrow> (Inl err, dk))"

definition take_over_settings :: "fpath \<Rightarrow> (disk, unit) op" where
  "take_over_settings home dk =
     (let config = home @ [''config.yaml''];
          previous = home @ [''localflow.yaml''];
          legacy = home @ [''config'', ''server.yaml'']
      in if path_is_file (dk_fs dk) previous \<and> \<not> path_exists (dk_fs dk) config then move_file previous config dk
         else if path_is_file (dk_fs dk) legacy \<and> \<not> path_exists (dk_fs dk) config then move_file legacy config dk
         else (Inr (), dk))"

definition initial_config :: "bool \<Rightarrow> fpath \<Rightarrow> (disk, unit) op" where
  "initial_config posix home dk =
     (if path_exists (dk_fs dk) (home @ [''config.yaml'']) then (Inr (), dk)
      else write_text_if_missing posix FILE_MODE (home @ [''config.yaml'']) INITIAL_CONFIG dk)"

definition install_starter :: "bool \<Rightarrow> (fpath \<Rightarrow> string) \<Rightarrow> fpath \<Rightarrow> fpath \<Rightarrow> (disk, unit) op" where
  "install_starter posix resource home relative dk =
     (let destination = home @ relative
      in if path_exists (dk_fs dk) destination \<or> path_is_symlink (dk_fs dk) destination then (Inr (), dk)
         else bindS (make_directory (butlast destination)) (\<lambda>_.
                write_text_if_missing posix (if hd relative = ''scripts'' then SCRIPT_MODE else FILE_MODE)
                  destination (resource relative)) dk)"

definition install_readme :: "bool \<Rightarrow> (fpath \<Rightarrow> string) \<Rightarrow> fpath \<Rightarrow> (disk, unit) op" where
  "install_readme posix resource home dk =
     (let destination = home @ [''plugins'', ''README.md'']
      in if path_exists (dk_fs dk) destination then (Inr (), dk)
         else write_text_if_missing posix FILE_MODE destination (resource [''plugins'', ''README.md'']) dk)"

definition initialize_config_root ::
    "(string \<Rightarrow> string) \<Rightarrow> bool \<Rightarrow> (fpath \<Rightarrow> bool) \<Rightarrow> string option list \<Rightarrow> (fpath \<Rightarrow> string) \<Rightarrow> fpath \<Rightarrow> (disk, unit) op" where
  "initialize_config_root sha posix owned denials resource home =
     bindS (mapS (ensure_directory posix owned home) DIRECTORIES) (\<lambda>_.
     bindS (take_over_settings home) (\<lambda>_.
     bindS (initial_config posix home) (\<lambda>_.
     bindS (mapS (install_starter posix resource home) STARTERS) (\<lambda>_.
     bindS (mapS (\<lambda>name. install_or_upgrade_builtin_plugin sha posix denials (home @ [''plugins'', name])
              (resource [''plugins'', name])) [''verification.py'', ''command.py'']) (\<lambda>_.
       install_readme posix resource home)))))"

text \<open>The parser that belongs to the suffix of a file.\<close>

datatype file_format = Yaml | Json_format | Toml

definition parse_config :: "(file_format \<Rightarrow> string \<Rightarrow> json result) \<Rightarrow> fpath \<Rightarrow> string \<Rightarrow> json result" where
  "parse_config parse path content =
     (if path_suffix path \<in> {''.yaml'', ''.yml''} then parse Yaml content
      else if path_suffix path = ''.json'' then parse Json_format content
      else if path_suffix path = ''.toml'' then parse Toml content
      else Inl (ValueError ''supported formats are YAML, TOML, and JSON''))"

end
