(* ===== verification/LF_Settings_Facts.thy ===== *)
theory LF_Settings_Facts
  imports LF_Settings LF_Files_Facts
begin

text \<open>
  Initializing a root keeps every file the operator has, except for settings that are taken over from
  an earlier version and plugins that are an unchanged earlier version of the bundled ones, and
  the mode of every entry but the directories it manages.
\<close>

section \<open>Changes that keep what is there\<close>

definition ordinary :: "fpath \<Rightarrow> bool" where
  "ordinary p \<longleftrightarrow> list_all (\<lambda>x. x \<notin> {[], ''.'', ''..''}) p"

definition link_free :: "fpath \<Rightarrow> fs \<Rightarrow> bool" where
  "link_free home fs \<longleftrightarrow> (\<forall>p. ordinary p \<longrightarrow> LF_Files_Facts.clean fs (home @ p))"

text \<open>Nothing outside \<open>except\<close> was changed or removed, and no link was added.\<close>

definition extends :: "fpath set \<Rightarrow> fs \<Rightarrow> fs \<Rightarrow> bool" where
  "extends except fs fs' \<longleftrightarrow>
     (\<forall>p n. map_of fs p = Some n \<and> p \<notin> except \<longrightarrow> map_of fs' p = Some n)
     \<and> (\<forall>p. is_link (node_at fs' p) \<longrightarrow> is_link (node_at fs p))"

lemma extends_refl [simp]: "extends except fs fs"
  by (simp add: extends_def)

lemma extends_trans: "extends except fs fs1 \<Longrightarrow> extends except fs1 fs2 \<Longrightarrow> extends except fs fs2"
  unfolding extends_def by blast

lemma extends_clean: "extends except fs fs' \<Longrightarrow> LF_Files_Facts.clean fs p \<Longrightarrow> LF_Files_Facts.clean fs' p"
  unfolding extends_def LF_Files_Facts.clean_def by blast

lemma extends_link_free: "extends except fs fs' \<Longrightarrow> link_free home fs \<Longrightarrow> link_free home fs'"
  unfolding link_free_def using extends_clean by blast

lemma not_link_simps [simp]: "\<not> is_link (Some (NFile c))" "\<not> is_link (Some NDir)" "\<not> is_link None"
  by (simp_all add: is_link_def)

lemma node_at_set: "p \<noteq> [] \<Longrightarrow> node_at (dict_set p n fs) q = (if q = p then Some n else node_at fs q)"
  by (simp add: node_at_def map_of_dict_set)

lemma node_at_pop: "p \<noteq> [] \<Longrightarrow> node_at (dict_pop p fs) q = (if q = p then None else node_at fs q)"
  by (simp add: node_at_def map_of_dict_pop)

text \<open>One name gets a new file or directory that had none, or may lose what it had.\<close>

lemma extends_set:
  assumes "map_of fs p = None \<or> p \<in> except" and "p \<noteq> []" and "\<not> is_link (Some n)"
  shows "extends except fs (dict_set p n fs)"
  using assms by (auto simp: extends_def map_of_dict_set node_at_def)

lemma mkdir_extends:
  assumes "mkdir_parents p fs = Inr fs'" and "LF_Files_Facts.clean fs p"
  shows "extends except fs fs'"
  using assms
proof (induction p fs arbitrary: fs' rule: mkdir_parents.induct)
  case (1 p fs)
  note stat = stat_clean[OF 1(3)]
  show ?case
  proof (cases "node_at fs p")
    case (Some n)
    with 1(2) show ?thesis by (cases n) (simp_all add: mkdir_parents.simps[of p] stat)
  next
    case None
    then have p: "p \<noteq> []" "map_of fs p = None" by (auto simp: node_at_def split: if_splits)
    have notfile: "\<not> path_is_symlink fs p" "\<not> path_is_file fs (butlast p)"
      using 1(2) p by (auto simp: mkdir_parents.simps[of p] stat None split: if_splits)
    obtain fs1 where fs1: "mkdir_parents (butlast p) fs = Inr fs1" "bindR (entry_of fs1 p) (\<lambda>q. Inr (dict_set q NDir fs1)) = Inr fs'"
      using 1(2) p notfile by (auto simp: mkdir_parents.simps[of p] stat None bindR_Inr_iff)
    have up: "extends except fs fs1"
      using 1(1)[OF _ p(1) notfile fs1(1)] None clean_butlast[OF 1(3)] by (simp add: stat)
    have "entry_of fs1 p = Inr p" using extends_clean[OF up 1(3)] by (rule entry_clean)
    then have "fs' = dict_set p NDir fs1" using fs1(2) by simp
    with up p show ?thesis by (auto simp: extends_def map_of_dict_set node_at_set)
  qed
qed

section \<open>Modes\<close>

text \<open>The directories whose mode is set whether they existed or not.\<close>

definition managed_directories :: "fpath \<Rightarrow> fpath set" where
  "managed_directories home =
     (\<lambda>d. home @ d) ` {[''config''], [''config'', ''command''], [''config'', ''verification''], [''scripts''], [''plugins'']}"

text \<open>Nothing that was there and is outside \<open>except\<close> changed, and of the modes only those of the managed directories.\<close>

definition grows :: "fpath \<Rightarrow> fpath set \<Rightarrow> disk \<Rightarrow> disk \<Rightarrow> bool" where
  "grows home except dk dk' \<longleftrightarrow>
     extends except (dk_fs dk) (dk_fs dk')
     \<and> (\<forall>p n. map_of (dk_fs dk) p = Some n \<and> p \<notin> except \<longrightarrow>
          map_of (dk_modes dk') p = map_of (dk_modes dk) p
          \<or> p \<in> managed_directories home \<and> map_of (dk_modes dk') p = Some DIRECTORY_MODE)"

lemma grows_refl [simp]: "grows home except dk dk"
  by (simp add: grows_def)

lemma growsD:
  assumes "grows home except dk dk'" and "map_of (dk_fs dk) p = Some n" and "p \<notin> except"
  shows "map_of (dk_fs dk') p = Some n"
    and "map_of (dk_modes dk') p = map_of (dk_modes dk) p
      \<or> p \<in> managed_directories home \<and> map_of (dk_modes dk') p = Some DIRECTORY_MODE"
  using assms by (simp_all add: grows_def extends_def)

lemma grows_extends: "grows home except dk dk' \<Longrightarrow> extends except (dk_fs dk) (dk_fs dk')"
  by (simp add: grows_def)

lemma grows_mono: "grows home A dk dk' \<Longrightarrow> A \<subseteq> B \<Longrightarrow> grows home B dk dk'"
  unfolding grows_def extends_def by blast

lemma grows_trans:
  assumes "grows home except dk dk1" and "grows home except dk1 dk2"
  shows "grows home except dk dk2"
proof -
  have "extends except (dk_fs dk) (dk_fs dk2)"
    using extends_trans assms[THEN grows_extends] by blast
  moreover have "map_of (dk_modes dk2) p = map_of (dk_modes dk) p
      \<or> p \<in> managed_directories home \<and> map_of (dk_modes dk2) p = Some DIRECTORY_MODE"
    if p: "map_of (dk_fs dk) p = Some n" "p \<notin> except" for p n
    using growsD(2)[OF assms(1) p] growsD(2)[OF assms(2) growsD(1)[OF assms(1) p] p(2)] by auto
  ultimately show ?thesis by (simp add: grows_def)
qed

lemma onFs_grows: "extends except (dk_fs dk) (snd (f (dk_fs dk))) \<Longrightarrow> grows home except dk (snd (onFs f dk))"
  by (auto simp: onFs_def grows_def split: prod.splits)

lemma put_file_grows:
  assumes "map_of (dk_fs dk) q = None \<or> q \<in> except" and "q \<noteq> []"
  shows "grows home except dk (put_file posix mode q content dk)"
  using assms extends_set[OF assms] by (auto simp: grows_def put_file_def map_of_dict_set map_of_dict_pop)

section \<open>The steps of the initialization\<close>

text \<open>
  The files that may change: the settings of earlier versions, and a plugin whose text is one of the
  bundled versions.
\<close>

definition replaceable :: "(string \<Rightarrow> string) \<Rightarrow> fpath \<Rightarrow> fs \<Rightarrow> fpath set" where
  "replaceable sha home fs =
     {home @ [''localflow.yaml''], home @ [''config'', ''server.yaml'']}
     \<union> {home @ [''plugins'', name] | name c. node_at fs (home @ [''plugins'', name]) = Some (NFile c)
          \<and> bundled name (normalized_text_digest sha (universal_newlines c))}"

definition keeps_user_files :: "(string \<Rightarrow> string) \<Rightarrow> fpath \<Rightarrow> disk \<Rightarrow> disk \<Rightarrow> bool" where
  "keeps_user_files sha home dk0 dk \<longleftrightarrow>
     link_free home (dk_fs dk) \<and> grows home (replaceable sha home (dk_fs dk0)) dk0 dk"

lemma link_free_clean: "link_free home fs \<Longrightarrow> ordinary p \<Longrightarrow> LF_Files_Facts.clean fs (home @ p)"
  by (simp add: link_free_def)

lemma keeps_grows:
  assumes "\<And>dk. keeps_user_files sha home dk0 dk \<Longrightarrow> \<exists>E. grows home E dk (snd (f dk)) \<and>
      (\<forall>p \<in> E. map_of (dk_fs dk0) p = None \<or> p \<in> replaceable sha home (dk_fs dk0))"
  shows "hoare (keeps_user_files sha home dk0) f (\<lambda>_. keeps_user_files sha home dk0) (keeps_user_files sha home dk0)"
proof -
  have "keeps_user_files sha home dk0 (snd (f dk))" if k: "keeps_user_files sha home dk0 dk" for dk
  proof -
    let ?R = "replaceable sha home (dk_fs dk0)"
    obtain E where E: "grows home E dk (snd (f dk))" "\<forall>p \<in> E. map_of (dk_fs dk0) p = None \<or> p \<in> ?R"
      using assms[OF k] by blast
    have g: "grows home ?R dk0 dk" using k by (simp add: keeps_user_files_def)
    have "map_of (dk_fs (snd (f dk))) p = Some n \<and> (map_of (dk_modes (snd (f dk))) p = map_of (dk_modes dk0) p
        \<or> p \<in> managed_directories home \<and> map_of (dk_modes (snd (f dk))) p = Some DIRECTORY_MODE)"
      if p: "map_of (dk_fs dk0) p = Some n" "p \<notin> ?R" for p n
    proof -
      have "p \<notin> E" using E(2) p by auto
      note step = growsD[OF E(1) growsD(1)[OF g p] this]
      with growsD(2)[OF g p] show ?thesis by auto
    qed
    moreover have "is_link (node_at (dk_fs (snd (f dk))) p) \<Longrightarrow> is_link (node_at (dk_fs dk0) p)" for p
      using grows_extends[OF E(1)] grows_extends[OF g] unfolding extends_def by blast
    ultimately have "grows home ?R dk0 (snd (f dk))" by (auto simp: grows_def extends_def)
    moreover have "link_free home (dk_fs (snd (f dk)))"
      using extends_link_free[OF grows_extends[OF E(1)]] k by (simp add: keeps_user_files_def)
    ultimately show ?thesis by (simp add: keeps_user_files_def)
  qed
  then show ?thesis by (intro hoareI) (metis snd_conv)+
qed

lemma keeps_add:
  assumes "\<And>dk. keeps_user_files sha home dk0 dk \<Longrightarrow> grows home {} dk (snd (f dk))"
  shows "hoare (keeps_user_files sha home dk0) f (\<lambda>_. keeps_user_files sha home dk0) (keeps_user_files sha home dk0)"
  using assms by (intro keeps_grows exI[of _ "{}"]) simp

lemma make_directory_grows:
  "LF_Files_Facts.clean (dk_fs dk) p \<Longrightarrow> grows home {} dk (snd (make_directory p dk))"
  unfolding make_directory_def by (rule onFs_grows) (auto dest: mkdir_extends split: sum.splits)

lemma ensure_directory_grows:
  assumes "LF_Files_Facts.clean (dk_fs dk) (home @ fst d)" and "d \<in> set DIRECTORIES"
  shows "grows home {} dk (snd (ensure_directory posix owned home d dk))"
proof -
  let ?p = "home @ fst d"
  obtain r dk1 where made: "make_directory ?p dk = (r, dk1)" by fastforce
  have one: "grows home {} dk dk1" using make_directory_grows[OF assms(1), of home] made by (metis snd_conv)
  have clean1: "LF_Files_Facts.clean (dk_fs dk1) ?p" by (rule extends_clean[OF grows_extends[OF one] assms(1)])
  have new: "map_of (dk_fs dk) ?p = None" if "\<not> path_exists (dk_fs dk) ?p"
    using that stat_clean[OF assms(1)] by (auto simp: path_exists_def node_at_def split: if_splits)
  have known: "fst d = [''secrets''] \<or> ?p \<in> managed_directories home \<and> snd d = DIRECTORY_MODE"
    using assms(2) by (auto simp: DIRECTORIES_def managed_directories_def)
  have "grows home {} dk (snd (chmod owned ?p (snd d) dk1))" if "\<not> path_exists (dk_fs dk) ?p \<or> fst d \<noteq> [''secrets'']"
    using one new that known resolve_of_clean[OF clean1]
    by (auto simp: grows_def chmod_def map_of_dict_set split: option.splits)
  with one show ?thesis
    by (auto simp: ensure_directory_def Let_def bindS_def made retS_def split: sum.splits)
qed

lemma link_new_grows:
  "LF_Files_Facts.clean (dk_fs dk) p \<Longrightarrow> p \<noteq> [] \<Longrightarrow> grows home {} dk (snd (link_new posix mode p text dk))"
  by (auto simp: link_new_def entry_clean node_at_def intro!: put_file_grows)

lemma write_grows:
  "LF_Files_Facts.clean (dk_fs dk) p \<Longrightarrow> p \<noteq> [] \<Longrightarrow> grows home {} dk (snd (write_text_if_missing posix mode p text dk))"
  using link_new_grows by (simp add: write_text_if_missing_def)

lemma starter_grows:
  assumes "LF_Files_Facts.clean (dk_fs dk) (home @ r)" and "r \<noteq> []"
  shows "grows home {} dk (snd (install_starter posix resource home r dk))"
proof -
  obtain x dk1 where dir: "make_directory (butlast (home @ r)) dk = (x, dk1)" by fastforce
  have first: "grows home {} dk dk1"
    using make_directory_grows[OF clean_butlast[OF assms(1)], of home] dir by (metis snd_conv)
  have "grows home {} dk1 (snd (write_text_if_missing posix mode (home @ r) (resource r) dk1))" for mode
    using extends_clean[OF grows_extends[OF first] assms(1)] assms(2) by (intro write_grows) simp_all
  with first have "grows home {} dk (snd (write_text_if_missing posix mode (home @ r) (resource r) dk1))" for mode
    by (blast intro: grows_trans)
  with first show ?thesis
    by (auto simp: install_starter_def Let_def bindS_def dir split: sum.splits)
qed

text \<open>The settings file gets its new name only while that name is free.\<close>

lemma move_file_grows:
  assumes "LF_Files_Facts.clean (dk_fs dk) old" and "LF_Files_Facts.clean (dk_fs dk) new"
    and "path_is_file (dk_fs dk) old" and "\<not> path_exists (dk_fs dk) new" and "old \<noteq> []" and "new \<noteq> []"
  shows "grows home {old} dk (snd (move_file old new dk))"
proof -
  obtain c where old: "node_at (dk_fs dk) old = Some (NFile c)"
    using assms(1,3) by (auto simp: path_is_file_def stat_clean split: option.splits node.splits)
  have new: "node_at (dk_fs dk) new = None" using assms(2,4) by (simp add: path_exists_def stat_clean)
  then have free: "map_of (dk_fs dk) new = None" using assms(6) by (simp add: node_at_def)
  have fs: "dk_fs (snd (move_file old new dk)) = dict_set new (NFile c) (dict_pop old (dk_fs dk))"
    and modes: "p \<notin> {old, new} \<Longrightarrow> map_of (dk_modes (snd (move_file old new dk))) p = map_of (dk_modes dk) p" for p
    using assms(1,2) by (simp_all add: move_file_def entry_clean old map_of_dict_set map_of_dict_pop split: option.splits)
  have "extends {old} (dk_fs dk) (dk_fs (snd (move_file old new dk)))"
    using free assms(5,6) unfolding fs
    by (auto simp: extends_def map_of_dict_set map_of_dict_pop node_at_set node_at_pop)
  moreover have "map_of (dk_modes (snd (move_file old new dk))) p = map_of (dk_modes dk) p"
    if "map_of (dk_fs dk) p = Some n" "p \<noteq> old" for p n
    using that free by (intro modes) auto
  ultimately show ?thesis by (simp add: grows_def)
qed

lemma take_over_keeps:
  "hoare (keeps_user_files sha home dk0) (take_over_settings home) (\<lambda>_. keeps_user_files sha home dk0) (keeps_user_files sha home dk0)"
proof (rule keeps_grows)
  fix dk assume k: "keeps_user_files sha home dk0 dk"
  have clean: "LF_Files_Facts.clean (dk_fs dk) (home @ [''config.yaml''])" "LF_Files_Facts.clean (dk_fs dk) (home @ [''localflow.yaml''])"
    "LF_Files_Facts.clean (dk_fs dk) (home @ [''config'', ''server.yaml''])"
    using k by (auto simp: keeps_user_files_def ordinary_def intro!: link_free_clean)
  have "\<exists>old \<in> replaceable sha home (dk_fs dk0). grows home {old} dk (snd (take_over_settings home dk))"
    using move_file_grows[OF clean(2,1)] move_file_grows[OF clean(3,1)]
    by (auto simp: take_over_settings_def Let_def replaceable_def)
  then show "\<exists>E. grows home E dk (snd (take_over_settings home dk)) \<and>
      (\<forall>p \<in> E. map_of (dk_fs dk0) p = None \<or> p \<in> replaceable sha home (dk_fs dk0))" by blast
qed

text \<open>A plugin is replaced only when its text is a bundled version.\<close>

lemma install_change:
  assumes "LF_Files_Facts.clean (dk_fs dk) p" and "p \<noteq> []"
  shows "snd (install_or_upgrade_builtin_plugin sha posix denials p source dk) = dk
    \<or> (node_at (dk_fs dk) p = None \<or> (\<exists>c. node_at (dk_fs dk) p = Some (NFile c)
          \<and> bundled (last p) (normalized_text_digest sha (universal_newlines c))))
      \<and> snd (install_or_upgrade_builtin_plugin sha posix denials p source dk) = put_file posix FILE_MODE p source dk"
proof (cases "node_at (dk_fs dk) p")
  case None
  then show ?thesis
    using assms by (auto simp: install_or_upgrade_builtin_plugin_def symlink_clean path_exists_def stat_clean link_new_def entry_clean)
next
  case (Some n)
  show ?thesis
  proof (cases n)
    case (NFile c)
    then show ?thesis
      using assms Some
      by (auto simp: install_or_upgrade_builtin_plugin_def symlink_clean path_exists_def stat_clean read_text_def entry_clean Let_def
          split: sum.splits bool.splits)
  qed (use assms Some in \<open>auto simp: install_or_upgrade_builtin_plugin_def symlink_clean path_exists_def stat_clean read_text_def\<close>)
qed

lemma install_keeps:
  assumes "name \<notin> {[], ''.'', ''..''}"
  shows "hoare (keeps_user_files sha home dk0) (install_or_upgrade_builtin_plugin sha posix denials (home @ [''plugins'', name]) source)
    (\<lambda>_. keeps_user_files sha home dk0) (keeps_user_files sha home dk0)"
proof (rule keeps_grows)
  fix dk assume k: "keeps_user_files sha home dk0 dk"
  let ?p = "home @ [''plugins'', name]" and ?R = "replaceable sha home (dk_fs dk0)"
  let ?dk = "snd (install_or_upgrade_builtin_plugin sha posix denials ?p source dk)"
  have "LF_Files_Facts.clean (dk_fs dk) ?p" using k assms by (auto simp: keeps_user_files_def ordinary_def intro!: link_free_clean)
  note change = install_change[OF this, of sha posix denials source]
  have g: "grows home ?R dk0 dk" using k by (simp add: keeps_user_files_def)
  have "map_of (dk_fs dk0) ?p = None \<or> ?p \<in> ?R" if "?dk \<noteq> dk"
  proof (rule ccontr)
    assume "\<not> (map_of (dk_fs dk0) ?p = None \<or> ?p \<in> ?R)"
    then obtain n where n: "map_of (dk_fs dk0) ?p = Some n" "?p \<notin> ?R" by auto
    then have "node_at (dk_fs dk) ?p = Some n" using growsD(1)[OF g] by (simp add: node_at_def)
    moreover have "node_at (dk_fs dk0) ?p = Some n" using n(1) by (simp add: node_at_def)
    ultimately show False using change that n(2) by (auto simp: replaceable_def)
  qed
  moreover have "grows home {?p} dk ?dk" using change put_file_grows[of dk ?p "{?p}" home posix FILE_MODE source] by auto
  ultimately show "\<exists>E. grows home E dk ?dk \<and> (\<forall>p \<in> E. map_of (dk_fs dk0) p = None \<or> p \<in> ?R)"
    by (cases "?dk = dk") (auto intro: exI[of _ "{}"] exI[of _ "{?p}"])
qed

lemma initialize_keeps:
  "hoare (keeps_user_files sha home dk0) (initialize_config_root sha posix owned denials resource home)
     (\<lambda>_. keeps_user_files sha home dk0) (keeps_user_files sha home dk0)"
proof -
  let ?I = "keeps_user_files sha home dk0"
  have clean: "LF_Files_Facts.clean (dk_fs dk) (home @ p)" if "?I dk" "ordinary p" for dk p
    using that by (simp add: keeps_user_files_def link_free_clean)
  have ord: "d \<in> set DIRECTORIES \<Longrightarrow> ordinary (fst d)" for d
    by (auto simp: DIRECTORIES_def ordinary_def)
  have dirs: "hoare ?I (mapS (ensure_directory posix owned home) DIRECTORIES) (\<lambda>_. ?I) ?I"
    by (rule hoare_mapS, rule keeps_add, rule ensure_directory_grows) (use clean ord in blast)+
  have config: "hoare ?I (initial_config posix home) (\<lambda>_. ?I) ?I"
    by (rule keeps_add) (auto simp: initial_config_def ordinary_def intro!: write_grows clean)
  have starters: "hoare ?I (mapS (install_starter posix resource home) STARTERS) (\<lambda>_. ?I) ?I"
    by (rule hoare_mapS, rule keeps_add, rule starter_grows, erule clean) (auto simp: STARTERS_def ordinary_def)
  have readme: "hoare ?I (install_readme posix resource home) (\<lambda>_. ?I) ?I"
    by (rule keeps_add) (auto simp: install_readme_def Let_def ordinary_def intro!: write_grows clean)
  have plugins: "hoare ?I (mapS (\<lambda>name. install_or_upgrade_builtin_plugin sha posix denials (home @ [''plugins'', name])
      (resource [''plugins'', name])) [''verification.py'', ''command.py'']) (\<lambda>_. ?I) ?I"
    by (rule hoare_mapS, rule install_keeps) auto
  show ?thesis
    unfolding initialize_config_root_def by (intro hoare_bindS[OF dirs] hoare_bindS[OF take_over_keeps] hoare_bindS[OF config] hoare_bindS[OF starters] hoare_bindS[OF plugins] readme)
qed

text \<open>
  C25. Initializing a root never overwrites or removes what the operator has. The root and what is
  below it are free of symbolic links. Whether the initialization succeeds or fails on the way, a
  denied \<open>chmod\<close> included, every file and directory that existed is there with the same contents,
  except for the settings files of earlier versions and a plugin whose text is one of the versions
  shipped with the program; a plugin the operator edited stays. The modes stay as well, except
  that the existing directories \<open>config\<close>, \<open>config/command\<close>, \<open>config/verification\<close>, \<open>scripts\<close> and
  \<open>plugins\<close> may be given the mode \<open>0o750\<close>; the mode of an existing \<open>secrets\<close> directory is kept.
\<close>

theorem initialization_keeps_user_files:
  assumes "link_free home (dk_fs dk)" and "map_of (dk_fs dk) p = Some n" and "p \<notin> replaceable sha home (dk_fs dk)"
  shows "map_of (dk_fs (snd (initialize_config_root sha posix owned denials resource home dk))) p = Some n
    \<and> (map_of (dk_modes (snd (initialize_config_root sha posix owned denials resource home dk))) p = map_of (dk_modes dk) p
       \<or> p \<in> managed_directories home
         \<and> map_of (dk_modes (snd (initialize_config_root sha posix owned denials resource home dk))) p = Some DIRECTORY_MODE)"
proof -
  have "keeps_user_files sha home dk (snd (initialize_config_root sha posix owned denials resource home dk))"
    by (rule hoare_inv[OF initialize_keeps]) (simp add: keeps_user_files_def assms(1))
  then have "grows home (replaceable sha home (dk_fs dk)) dk (snd (initialize_config_root sha posix owned denials resource home dk))"
    by (simp add: keeps_user_files_def)
  then show ?thesis using growsD[OF _ assms(2,3)] by blast
qed

section \<open>Instances\<close>

definition ex_root_fs :: fs where
  "ex_root_fs = [([''r''], NDir), ([''r'', ''plugins''], NDir), ([''r'', ''plugins'', ''verification.py''], NFile ''mine'')]"

lemma ex_root_link_free: "link_free [''r''] ex_root_fs"
proof -
  have "\<not> is_link (node_at ex_root_fs q)" for q by (simp add: node_at_def ex_root_fs_def)
  then show ?thesis
    by (auto simp: link_free_def LF_Files_Facts.clean_def ordinary_def list_all_length nth_Cons split: nat.splits)
qed

definition ex_disk :: disk where
  "ex_disk = \<lparr>dk_fs = ex_root_fs, dk_modes = [([''r'', ''plugins'', ''verification.py''], 384)]\<rparr>"

theorem initialization_keeps_user_files_witness:
  "map_of (dk_fs (snd (initialize_config_root (\<lambda>s. s) True (\<lambda>_. True) [] (\<lambda>_. ''bundled'') [''r''] ex_disk)))
       [''r'', ''plugins'', ''verification.py''] = Some (NFile ''mine'')
   \<and> map_of (dk_modes (snd (initialize_config_root (\<lambda>s. s) True (\<lambda>_. True) [] (\<lambda>_. ''bundled'') [''r''] ex_disk)))
       [''r'', ''plugins'', ''verification.py''] = Some 384"
proof -
  let ?p = "[''r'', ''plugins'', ''verification.py'']"
  have "\<not> bundled ''verification.py'' (normalized_text_digest (\<lambda>s. s) (universal_newlines ''mine''))" by code_simp
  then have "?p \<notin> replaceable (\<lambda>s. s) [''r''] (dk_fs ex_disk)"
    by (auto simp: replaceable_def node_at_def ex_disk_def ex_root_fs_def split: if_splits)
  moreover have "link_free [''r''] (dk_fs ex_disk)" using ex_root_link_free by (simp add: ex_disk_def)
  moreover have "map_of (dk_fs ex_disk) ?p = Some (NFile ''mine'')" "map_of (dk_modes ex_disk) ?p = Some 384"
    by (simp_all add: ex_disk_def ex_root_fs_def)
  moreover have "?p \<notin> managed_directories [''r'']" by (simp add: managed_directories_def)
  ultimately show ?thesis
    using initialization_keeps_user_files[of "[''r'']" ex_disk ?p "NFile ''mine''" "\<lambda>s. s" True "\<lambda>_. True" "[]" "\<lambda>_. ''bundled''"]
    by auto
qed

text \<open>A directory the operator closed to the group is opened again.\<close>

lemma initialization_resets_directory_mode:
  "map_of (dk_modes (snd (initialize_config_root (\<lambda>s. s) True (\<lambda>_. True) [] (\<lambda>_. ''bundled'') [''r'']
     (ex_disk\<lparr>dk_modes := [([''r'', ''plugins''], 448)]\<rparr>)))) [''r'', ''plugins''] = Some DIRECTORY_MODE"
  by code_simp

end
