(* ===== verification/LF_Search.thy ===== *)
theory LF_Search
  imports LF_Api
begin

text \<open>
  The search in the log of a task: \<open>search_log\<close> of \<^verbatim>\<open>src/src/localflow/service.py\<close> and its endpoint in
  \<^verbatim>\<open>api.py\<close>. The log is read in blocks; the end of what was read is kept and put in front of the
  next block, so that a hit across the boundary is found.

  A decoded text is the list of its characters, each given by the bytes it is encoded with.
  Decoding and the case folding of the regular expressions are parameters. \<open>late n k\<close> says whether the
  deadline has passed at the check number \<open>k\<close> of block \<open>n\<close>.
\<close>

type_synonym chars = "string list"

record codec =
  co_decode :: "string \<Rightarrow> chars"
  co_replaced :: "string \<Rightarrow> chars"
  co_fold :: "string \<Rightarrow> string"

text \<open>\<open>finditer\<close> for a literal pattern: the matches from the left, none overlapping the one before it.\<close>

function literal_matches :: "(string \<Rightarrow> string) \<Rightarrow> chars \<Rightarrow> nat \<Rightarrow> chars \<Rightarrow> nat list" where
  "literal_matches canon query i text =
     (if query = [] \<or> length text < length query then []
      else if map canon (take (length query) text) = map canon query
      then i # literal_matches canon query (i + length query) (drop (length query) text)
      else literal_matches canon query (Suc i) (tl text))"
  by pat_completeness auto

termination
  by (relation "measure (\<lambda>(_, _, _, text). length text)") (auto simp: neq_Nil_conv)

declare literal_matches.simps [simp del]

record hit =
  hi_offset :: int
  hi_line :: int
  hi_preview :: chars

text \<open>The line around a match, at most 160 characters before it and 240 after it, without a final carriage return.\<close>

definition hit_preview :: "codec \<Rightarrow> chars \<Rightarrow> nat \<Rightarrow> nat \<Rightarrow> chars" where
  "hit_preview co text start stop =
     (let same_line = takeWhile (\<lambda>c. c \<noteq> [NL]);
          left = max (start - length (same_line (rev (take start text)))) (start - 160);
          right = min (stop + length (same_line (drop stop text))) (stop + 240);
          shown = co_replaced co (concat (take (right - left) (drop left text)))
      in take 400 (rev (dropWhile (\<lambda>c. c = [CR]) (rev shown))))"

definition hit_of :: "codec \<Rightarrow> string \<Rightarrow> chars \<Rightarrow> int \<Rightarrow> int \<Rightarrow> nat \<Rightarrow> nat \<Rightarrow> hit" where
  "hit_of co overlap text absolute lines_seen start stop =
     (let before = take start text;
          relative = int (length (concat before)) - int (length overlap)
      in \<lparr>hi_offset = max 0 (absolute + relative),
          hi_line = lines_seen - int (count_list overlap NL) + int (count_list before [NL]) + 1,
          hi_preview = hit_preview co text start stop\<rparr>)"

text \<open>The matches in one block. A match that ends inside the part kept from before was reported already.\<close>

fun block_hits ::
    "codec \<Rightarrow> (nat \<Rightarrow> bool) \<Rightarrow> nat \<Rightarrow> nat \<Rightarrow> string \<Rightarrow> chars \<Rightarrow> int \<Rightarrow> int \<Rightarrow> nat \<Rightarrow> nat list \<Rightarrow> hit list \<Rightarrow> (hit list \<times> bool) result" where
  "block_hits co late max_results width overlap text absolute lines_seen k [] items = Inr (items, False)"
| "block_hits co late max_results width overlap text absolute lines_seen k (start # starts) items =
     (if late k then Inl (TimeoutError ''log search timed out'')
      else if length (concat (take (start + width) text)) \<le> length overlap
      then block_hits co late max_results width overlap text absolute lines_seen (Suc k) starts items
      else if length items \<ge> max_results then Inr (items, True)
      else block_hits co late max_results width overlap text absolute lines_seen (Suc k) starts
             (items @ [hit_of co overlap text absolute lines_seen start (start + width)]))"

definition OVERLAP :: nat where
  "OVERLAP = 4096"

fun search_blocks ::
    "codec \<Rightarrow> (nat \<Rightarrow> nat \<Rightarrow> bool) \<Rightarrow> nat \<Rightarrow> chars \<Rightarrow> nat \<Rightarrow> string \<Rightarrow> int \<Rightarrow> int \<Rightarrow> string list \<Rightarrow> hit list \<Rightarrow> (hit list \<times> bool) result" where
  "search_blocks co late max_results query n overlap absolute lines_seen [] items = Inr (items, False)"
| "search_blocks co late max_results query n overlap absolute lines_seen (raw # blocks) items =
     (if late n 0 then Inl (TimeoutError ''log search timed out'')
      else
        let combined = overlap @ raw;
            text = co_decode co combined
        in case block_hits co (late n) max_results (length query) overlap text absolute lines_seen 1
                  (literal_matches (co_fold co) query 0 text) items of
             Inl err \<Rightarrow> Inl err
           | Inr (items, True) \<Rightarrow> Inr (items, True)
           | Inr (items, False) \<Rightarrow>
               search_blocks co late max_results query (Suc n) (drop (length combined - OVERLAP) combined)
                 (absolute + int (length raw)) (lines_seen + int (count_list raw NL)) blocks items)"

definition SEARCH_BLOCK :: nat where
  "SEARCH_BLOCK = 1048576"

text \<open>The blocks of the bytes that were there when the log was opened.\<close>

function log_blocks :: "string \<Rightarrow> string list" where
  "log_blocks bytes = (if bytes = [] then [] else take SEARCH_BLOCK bytes # log_blocks (drop SEARCH_BLOCK bytes))"
  by pat_completeness auto

termination
  by (relation "measure length") (auto simp: SEARCH_BLOCK_def)

declare log_blocks.simps [simp del]

definition MAX_RESULTS :: nat where
  "MAX_RESULTS = 200"

definition search_log ::
    "codec \<Rightarrow> (nat \<Rightarrow> nat \<Rightarrow> bool) \<Rightarrow> archive \<Rightarrow> string \<Rightarrow> chars \<Rightarrow> nat \<Rightarrow> (svc, hit list \<times> bool) op" where
  "search_log co late ar task_id query max_results =
     bindS (onDb (get_task task_id)) (\<lambda>_.
       if query = [] then retS ([], False)
       else case ar_log ar of
              None \<Rightarrow> retS ([], False)
            | Some content \<Rightarrow> liftS (search_blocks co late max_results query 0 [] 0 0 (log_blocks content) []))"

text \<open>The endpoint; \<open>overdue\<close> says whether it stopped waiting for the search.\<close>

definition search_logs ::
    "site \<Rightarrow> codec \<Rightarrow> (nat \<Rightarrow> nat \<Rightarrow> bool) \<Rightarrow> bool \<Rightarrow> string \<Rightarrow> chars \<Rightarrow> string \<Rightarrow> (svc, hit list \<times> bool) endpoint" where
  "search_logs site co late overdue task_id query role =
     (if query = [] \<or> 512 < length query then failE (Http 422 ''query'')
      else bindE (full_reader role) (\<lambda>_.
           trying [([''TimeoutError''], \<lambda>_. Http 504 ''log search timed out''), ([''KeyError''], \<lambda>_. Http 404 ''task not found'')]
             (if overdue then failS (TimeoutError []) else search_log co late (si_archive site task_id) task_id query MAX_RESULTS)))"

end
