(* ===== verification/LF_Search_Facts.thy ===== *)
theory LF_Search_Facts
  imports LF_Search LF_Api_Facts
begin

text \<open>
  The search in blocks finds what a search in the whole log finds.
\<close>

section \<open>Occurrences\<close>

definition occurs :: "(string \<Rightarrow> string) \<Rightarrow> chars \<Rightarrow> chars \<Rightarrow> nat \<Rightarrow> bool" where
  "occurs canon query text i \<longleftrightarrow>
     i + length query \<le> length text \<and> map canon (take (length query) (drop i text)) = map canon query"

text \<open>No proper end of the query is one of its beginnings, so two occurrences never overlap.\<close>

definition unbordered :: "(string \<Rightarrow> string) \<Rightarrow> chars \<Rightarrow> bool" where
  "unbordered canon query \<longleftrightarrow>
     query \<noteq> [] \<and> (\<forall>k \<in> {0<..<length query}. map canon (drop k query) \<noteq> map canon (take (length query - k) query))"

lemma unbordered_apart:
  assumes "unbordered canon query" and "occurs canon query text 0" and "0 < k" and "k < length query"
  shows "\<not> occurs canon query text k"
proof
  let ?n = "length query"
  assume k: "occurs canon query text k"
  have "map canon (drop k query) = drop k (map canon (take ?n text))"
    using assms(2) by (simp add: occurs_def drop_map)
  also have "\<dots> = take (?n - k) (map canon (take ?n (drop k text)))"
    by (simp add: drop_map take_map drop_take)
  also have "\<dots> = map canon (take (?n - k) query)" using k by (simp add: occurs_def take_map)
  finally show False using assms(1,3,4) by (simp add: unbordered_def)
qed

lemma occurs_drop:
  assumes "d \<le> length t"
  shows "occurs canon query (drop d t) = (\<lambda>i. occurs canon query t (d + i))"
  using assms by (auto simp: occurs_def add.commute fun_eq_iff)

lemma filter_shift: "filter P [d..<d + n] = map ((+) d) (filter (\<lambda>i. P (d + i)) [0..<n])"
  by (induction n) auto

lemma literal_matches_occurs:
  assumes "unbordered canon query"
  shows "literal_matches canon query i t = map ((+) i) (filter (occurs canon query t) [0..<length t])"
  using assms
proof (induction canon query i t rule: literal_matches.induct)
  case (1 canon query i t)
  let ?n = "length query"
  have n: "0 < ?n" using 1(3) by (simp add: unbordered_def)
  consider (short) "length t < ?n" | (here) "occurs canon query t 0" | (later) "?n \<le> length t" "\<not> occurs canon query t 0"
    by linarith
  then show ?case
  proof cases
    case short
    then have "filter (occurs canon query t) [0..<length t] = []" by (auto simp: occurs_def filter_empty_conv)
    with short show ?thesis by (simp add: literal_matches.simps)
  next
    case here
    then have len: "?n \<le> length t" and found: "map canon (take ?n t) = map canon query" "\<not> (query = [] \<or> length t < ?n)"
      using n by (auto simp: occurs_def)
    have "filter (occurs canon query t) [1..<?n] = []"
      using unbordered_apart[OF 1(3) here] by (auto simp: filter_empty_conv)
    then have first: "filter (occurs canon query t) [0..<?n] = [0]"
      using here n by (simp add: upt_conv_Cons)
    have "filter (occurs canon query t) [?n..<?n + (length t - ?n)]
        = map ((+) ?n) (filter (occurs canon query (drop ?n t)) [0..<length t - ?n])"
      by (simp only: filter_shift occurs_drop[OF len])
    moreover have "[0..<length t] = [0..<?n] @ [?n..<?n + (length t - ?n)]"
      using upt_add_eq_append[of 0 ?n "length t - ?n"] len by simp
    ultimately have "filter (occurs canon query t) [0..<length t]
        = 0 # map ((+) ?n) (filter (occurs canon query (drop ?n t)) [0..<length t - ?n])"
      using first by simp
    moreover have "literal_matches canon query i t = i # literal_matches canon query (i + ?n) (drop ?n t)"
      using here n by (subst literal_matches.simps) (auto simp: occurs_def)
    moreover have "literal_matches canon query (i + ?n) (drop ?n t)
        = map ((+) (i + ?n)) (filter (occurs canon query (drop ?n t)) [0..<length t - ?n])"
      using 1(1)[OF found(2,1) 1(3)] by simp
    ultimately show ?thesis by (simp add: add.assoc comp_def)
  next
    case later
    have t: "t \<noteq> []" and missed: "map canon (take ?n t) \<noteq> map canon query" "\<not> (query = [] \<or> length t < ?n)"
      using later n by (auto simp: occurs_def)
    have "literal_matches canon query i t = literal_matches canon query (Suc i) (drop 1 t)"
      using later n by (subst literal_matches.simps) (auto simp: occurs_def drop_Suc)
    moreover have "literal_matches canon query (Suc i) (drop 1 t)
        = map ((+) (Suc i)) (filter (occurs canon query (drop 1 t)) [0..<length t - 1])"
      using 1(2)[OF missed(2,1) 1(3)] by (simp add: drop_Suc)
    moreover have "filter (occurs canon query t) [0..<length t] = filter (occurs canon query t) [1..<1 + (length t - 1)]"
      using t later(2) by (simp add: upt_conv_Cons)
    moreover have "\<dots> = map ((+) 1) (filter (occurs canon query (drop 1 t)) [0..<length t - 1])"
      using t occurs_drop[of 1 t canon query] by (simp only: filter_shift) (simp add: Suc_le_eq)
    ultimately show ?thesis by (simp add: comp_def)
  qed
qed

section \<open>All hits of a search\<close>

fun all_hits :: "codec \<Rightarrow> chars \<Rightarrow> string \<Rightarrow> int \<Rightarrow> int \<Rightarrow> string list \<Rightarrow> hit list" where
  "all_hits co query overlap absolute lines_seen [] = []"
| "all_hits co query overlap absolute lines_seen (raw # blocks) =
     (let combined = overlap @ raw; content = co_decode co combined
      in map (\<lambda>start. hit_of co overlap content absolute lines_seen start (start + length query))
           (filter (\<lambda>start. length overlap < length (concat (take (start + length query) content)))
             (literal_matches (co_fold co) query 0 content))
         @ all_hits co query (drop (length combined - OVERLAP) combined) (absolute + int (length raw))
             (lines_seen + int (count_list raw NL)) blocks)"

lemma block_hits_run:
  assumes "\<forall>k. \<not> late k" and "length items \<le> limit"
  shows "block_hits co late limit width overlap content absolute lines_seen k starts items =
    (let hits = items @ map (\<lambda>start. hit_of co overlap content absolute lines_seen start (start + width))
           (filter (\<lambda>start. length overlap < length (concat (take (start + width) content))) starts)
     in Inr (take limit hits, limit < length hits))"
  using assms(2)
proof (induction starts arbitrary: k items)
  case Nil
  then show ?case by simp
next
  case (Cons start starts)
  let ?hit = "hit_of co overlap content absolute lines_seen start (start + width)"
  consider (seen) "length (concat (take (start + width) content)) \<le> length overlap"
    | (full) "length overlap < length (concat (take (start + width) content))" "length items = limit"
    | (new) "length overlap < length (concat (take (start + width) content))" "length (items @ [?hit]) \<le> limit"
    using Cons.prems by fastforce
  then show ?case
  proof cases
    case seen
    with Cons assms(1) show ?thesis by (simp add: Let_def)
  next
    case full
    with assms(1) show ?thesis by (simp add: Let_def)
  next
    case new
    with Cons.IH[OF new(2)] assms(1) show ?thesis by (simp add: Let_def)
  qed
qed

lemma search_blocks_run:
  assumes "\<forall>n k. \<not> late n k" and "length items \<le> limit"
  shows "search_blocks co late limit query n overlap absolute lines_seen blocks items =
    (let hits = items @ all_hits co query overlap absolute lines_seen blocks in Inr (take limit hits, limit < length hits))"
  using assms(2)
proof (induction blocks arbitrary: n overlap absolute lines_seen items)
  case Nil
  then show ?case by simp
next
  case (Cons raw blocks)
  let ?content = "co_decode co (overlap @ raw)"
  define new where "new = map (\<lambda>start. hit_of co overlap ?content absolute lines_seen start (start + length query))
    (filter (\<lambda>start. length overlap < length (concat (take (start + length query) ?content))) (literal_matches (co_fold co) query 0 ?content))"
  have block: "block_hits co (late n) limit (length query) overlap ?content absolute lines_seen 1
      (literal_matches (co_fold co) query 0 ?content) items = Inr (take limit (items @ new), limit < length (items @ new))"
    using block_hits_run[of "late n" items limit] assms(1) Cons.prems by (simp add: new_def Let_def)
  have no: "\<not> late n 0" using assms(1) by simp
  show ?case
  proof (cases "limit < length (items @ new)")
    case True
    with block no show ?thesis by (simp add: Let_def new_def[symmetric])
  next
    case False
    then have "take limit (items @ new) = items @ new" "length (items @ new) \<le> limit" by simp_all
    with block False no show ?thesis
      using Cons.IH[of "items @ new"] by (simp add: Let_def new_def[symmetric])
  qed
qed

section \<open>Logs of ASCII text\<close>

definition plain :: "string \<Rightarrow> bool" where
  "plain bytes \<longleftrightarrow> list_all (\<lambda>c. of_char c < (128 :: nat)) bytes"

definition single :: "string \<Rightarrow> chars" where
  "single bytes = map (\<lambda>c. [c]) bytes"

text \<open>Where a reader finds a position of the log: its offset and its line.\<close>

definition place :: "string \<Rightarrow> nat \<Rightarrow> int \<times> int" where
  "place content j = (int j, int (count_list (take j content) NL) + 1)"

definition place_of :: "hit \<Rightarrow> int \<times> int" where
  "place_of h = (hi_offset h, hi_line h)"

lemma single_simps [simp]:
  "length (single bytes) = length bytes" "concat (single bytes) = bytes"
  "take n (single bytes) = single (take n bytes)" "drop n (single bytes) = single (drop n bytes)"
  "count_list (single bytes) [c] = count_list bytes c"
  by (auto simp: single_def take_map drop_map comp_def) (induction bytes, auto)+

lemma hit_of_place:
  assumes "d + length overlap = length seen" and "overlap = drop d seen" and "start \<le> length (overlap @ raw)"
  shows "place_of (hit_of co overlap (single (overlap @ raw)) (int (length seen)) (int (count_list seen NL)) start stop)
    = place (seen @ raw @ rest) (d + start)"
proof -
  have "take (d + start) (seen @ raw @ rest) = take d seen @ take start (overlap @ raw)"
    using assms by (simp add: take_add add.commute)
  then have "count_list (take (d + start) (seen @ raw @ rest)) NL = count_list (take d seen) NL + count_list (take start (overlap @ raw)) NL"
    by (simp only: count_list_append)
  moreover have "count_list seen NL = count_list (take d seen) NL + count_list overlap NL"
    unfolding assms(2) by (simp flip: count_list_append)
  moreover have "length (take start (overlap @ raw)) = start" using assms(3) by simp
  moreover have "int d = int (length seen) - int (length overlap)" using assms(1) by simp
  ultimately show ?thesis
    unfolding place_of_def place_def hit_of_def Let_def hit.simps single_simps by simp
qed

text \<open>The matches in a text of single bytes that end behind its first part.\<close>

lemma new_starts:
  assumes "unbordered canon query"
  shows "filter (\<lambda>start. m < length (concat (take (start + length query) (single c)))) (literal_matches canon query 0 (single c))
    = filter (\<lambda>start. m < start + length query) (filter (occurs canon query (single c)) [0..<length c])"
proof -
  have "literal_matches canon query 0 (single c) = filter (occurs canon query (single c)) [0..<length c]"
    by (simp add: literal_matches_occurs[OF assms] plus_nat.add_0 map_idI)
  then show ?thesis by (auto simp: occurs_def intro!: filter_cong)
qed

lemma filter_between:
  assumes "sorted xs" and "a \<le> b"
  shows "filter (\<lambda>j. a < j + n) xs = filter (\<lambda>j. a < j + n \<and> j + n \<le> b) xs @ filter (\<lambda>j. b < j + (n :: nat)) xs"
  using assms(1)
proof (induction xs)
  case (Cons x xs)
  show ?case
  proof (cases "b < x + n")
    case True
    with Cons.prems have "filter (\<lambda>j. a < j + n \<and> j + n \<le> b) (x # xs) = []" by (auto simp: filter_empty_conv)
    moreover have "filter (\<lambda>j. b < j + n) (x # xs) = x # xs" "filter (\<lambda>j. a < j + n) (x # xs) = x # xs"
      using True Cons.prems assms(2) by (auto simp: filter_id_conv)
    ultimately show ?thesis by simp
  next
    case False
    with Cons assms(2) show ?thesis by simp
  qed
qed simp

text \<open>The hits of one block are the occurrences that end in it, placed in the whole log.\<close>

lemma new_hits_place:
  assumes "unbordered canon query" and "length query \<le> Suc OVERLAP"
    and "overlap = drop (length seen - OVERLAP) seen" and "d = length seen - length overlap"
  shows "map ((+) d) (filter (\<lambda>start. length overlap < start + length query)
        (filter (occurs canon query (single (overlap @ raw))) [0..<length (overlap @ raw)]))
    = filter (\<lambda>j. length seen < j + length query \<and> j + length query \<le> length (seen @ raw))
        (filter (occurs canon query (single (seen @ raw @ rest))) [0..<length (seen @ raw @ rest)])"
    (is "?new = ?old")
proof (rule sorted_distinct_set_unique)
  let ?n = "length query"
  have n: "0 < ?n" using assms(1) by (simp add: unbordered_def)
  have d: "d + length overlap = length seen" "overlap = drop d seen" using assms(3,4) by auto
  have "single (overlap @ raw) = drop d (single (seen @ raw))" using d by simp
  then have occ: "occurs canon query (single (overlap @ raw)) = (\<lambda>i. occurs canon query (single (seen @ raw)) (d + i))"
    using occurs_drop[of d "single (seen @ raw)"] d by simp
  have whole: "occurs canon query (single (seen @ raw @ rest)) j \<longleftrightarrow> occurs canon query (single (seen @ raw)) j"
    if "j + ?n \<le> length (seen @ raw)" for j
  proof -
    have "take ?n (drop j (single (seen @ raw @ rest))) = take ?n (drop j (single (seen @ raw)))"
      using that by (simp add: single_def)
    then show ?thesis using that by (simp add: occurs_def del: single_simps(3,4))
  qed
  show "set ?new = set ?old"
  proof (intro set_eqI iffI)
    fix j
    assume "j \<in> set ?new"
    then obtain i where i: "j = d + i" "length overlap < i + ?n" "occurs canon query (single (seen @ raw)) (d + i)"
      by (auto simp: occ)
    then have le: "j + ?n \<le> length (seen @ raw)" by (simp add: occurs_def)
    then have "j < length (seen @ raw @ rest)" using n by (simp del: length_greater_0_conv)
    with i whole[OF le] le d show "j \<in> set ?old" by auto
  next
    fix j
    assume j: "j \<in> set ?old"
    then have dj: "d \<le> j" using assms(2,3,4) by (auto simp: min_def split: if_splits)
    have range: "length seen < j + ?n" "j + ?n \<le> length (seen @ raw)" and here: "occurs canon query (single (seen @ raw)) j"
      using j whole[of j] by auto
    have "length overlap < (j - d) + ?n" using range(1) dj d(1) by linarith
    moreover have "j - d < length (overlap @ raw)" using range(2) dj d(1) n by (simp del: length_greater_0_conv)
    moreover have "occurs canon query (single (overlap @ raw)) (j - d)" using here dj by (simp add: occ)
    ultimately have "j - d \<in> set (filter (\<lambda>start. length overlap < start + ?n)
        (filter (occurs canon query (single (overlap @ raw))) [0..<length (overlap @ raw)]))" by simp
    then show "j \<in> set ?new" unfolding set_map by (rule rev_image_eqI) (simp add: dj)
  qed
qed (auto simp: sorted_map distinct_map inj_on_def intro: sorted_wrt_filter)

lemma all_hits_place:
  assumes "\<And>b. plain b \<Longrightarrow> co_decode co b = single b" and "unbordered (co_fold co) query" and "length query \<le> Suc OVERLAP"
    and "plain (seen @ concat blocks)"
  shows "map place_of (all_hits co query (drop (length seen - OVERLAP) seen) (int (length seen)) (int (count_list seen NL)) blocks)
    = map (place (seen @ concat blocks)) (filter (\<lambda>j. length seen < j + length query)
        (filter (occurs (co_fold co) query (single (seen @ concat blocks))) [0..<length (seen @ concat blocks)]))"
  using assms(4)
proof (induction blocks arbitrary: seen)
  case Nil
  then show ?case by (auto simp: occurs_def filter_empty_conv)
next
  case (Cons raw blocks)
  let ?n = "length query" and ?rest = "concat blocks"
  let ?content = "seen @ raw @ ?rest"
  define overlap where "overlap = drop (length seen - OVERLAP) seen"
  define d where "d = length seen - length overlap"
  have ov: "d + length overlap = length seen" "overlap = drop d seen" by (auto simp: d_def overlap_def)
  let ?starts = "filter (\<lambda>start. length overlap < start + ?n)
    (filter (occurs (co_fold co) query (single (overlap @ raw))) [0..<length (overlap @ raw)])"
  let ?hit = "\<lambda>start. hit_of co overlap (single (overlap @ raw)) (int (length seen)) (int (count_list seen NL)) start (start + ?n)"
  have plain: "plain (overlap @ raw)" "plain ((seen @ raw) @ ?rest)"
    using Cons.prems by (auto simp: overlap_def plain_def list_all_iff dest: in_set_dropD)
  have kept: "drop (length (overlap @ raw) - OVERLAP) (overlap @ raw) = drop (length (seen @ raw) - OVERLAP) (seen @ raw)"
    unfolding overlap_def by (cases "length seen \<le> OVERLAP") (simp_all add: add.commute)
  note starts = new_starts[OF assms(2), of "length overlap" "overlap @ raw"]
  let ?all = "filter (occurs (co_fold co) query (single ?content)) [0..<length ?content]"
  have hits: "all_hits co query overlap (int (length seen)) (int (count_list seen NL)) (raw # blocks) = map ?hit ?starts
      @ all_hits co query (drop (length (seen @ raw) - OVERLAP) (seen @ raw)) (int (length (seen @ raw))) (int (count_list (seen @ raw) NL)) blocks"
    unfolding all_hits.simps Let_def assms(1)[OF plain(1)] starts kept by simp
  have "map place_of (map ?hit ?starts) = map (place ?content) (map ((+) d) ?starts)"
    unfolding map_map comp_def by (intro map_cong[OF refl] hit_of_place[OF ov]) auto
  also have "\<dots> = map (place ?content) (filter (\<lambda>j. length seen < j + ?n \<and> j + ?n \<le> length (seen @ raw)) ?all)"
    by (rule arg_cong[OF new_hits_place[OF assms(2,3) overlap_def d_def]])
  finally have "map place_of (all_hits co query overlap (int (length seen)) (int (count_list seen NL)) (raw # blocks))
      = map (place ?content) (filter (\<lambda>j. length seen < j + ?n \<and> j + ?n \<le> length (seen @ raw)) ?all
          @ filter (\<lambda>j. length (seen @ raw) < j + ?n) ?all)"
    unfolding hits map_append Cons.IH[OF plain(2)] by (simp only: append_assoc)
  also have "\<dots> = map (place ?content) (filter (\<lambda>j. length seen < j + ?n) ?all)"
    by (subst filter_between[of _ "length seen" "length (seen @ raw)"]) (simp_all only: sorted_wrt_filter sorted_upt, simp)
  finally show ?case by (simp only: overlap_def concat.simps)
qed

section \<open>The search in the whole log\<close>

lemma concat_read_blocks [simp]: "concat (log_blocks bytes) = bytes"
proof (induction bytes rule: log_blocks.induct)
  case (1 bytes)
  then show ?case by (subst log_blocks.simps) simp
qed

text \<open>
  C26. The search in a log reports what a search in the whole text would. For a log of ASCII text and a
  query of at most 512 characters that does not overlap itself, the endpoint returns the offset and
  the line of every place where the query occurs, up to case, in order and each once, however the
  occurrences lie across the blocks of 1 MiB; of more than 200 occurrences it returns the first 200
  and says so. Decoding is assumed to leave ASCII as it is.
\<close>

theorem search_finds_exactly:
  assumes "\<And>b. plain b \<Longrightarrow> co_decode co b = single b" and "plain content" and "ar_log (si_archive site task_id) = Some content"
    and "unbordered (co_fold co) query" and "length query \<le> 512" and "\<forall>n k. \<not> late n k"
    and "onDb (get_task task_id) s = (Inr task, s)" and "role \<noteq> ''summary''"
  shows "\<exists>hits. search_logs site co late False task_id query role s
      = (Inr (hits, 200 < length (filter (occurs (co_fold co) query (single content)) [0..<length content])), s)
    \<and> map place_of hits = map (place content) (take 200 (filter (occurs (co_fold co) query (single content)) [0..<length content]))"
proof -
  let ?occ = "filter (occurs (co_fold co) query (single content)) [0..<length content]"
  let ?hits = "all_hits co query [] 0 0 (log_blocks content)"
  have q: "query \<noteq> []" using assms(4) by (simp add: unbordered_def)
  have "map place_of ?hits = map (place content) (filter (\<lambda>j. 0 < j + length query) ?occ)"
    using all_hits_place[OF assms(1,4), of "[]" "log_blocks content"] assms(2,5) by (simp add: OVERLAP_def)
  also have "filter (\<lambda>j. 0 < j + length query) ?occ = ?occ" using q by (auto simp: filter_id_conv)
  finally have places: "map place_of ?hits = map (place content) ?occ" .
  then have "length ?hits = length ?occ" by (metis length_map)
  moreover have "search_blocks co late MAX_RESULTS query 0 [] 0 0 (log_blocks content) [] = Inr (take 200 ?hits, 200 < length ?hits)"
    using search_blocks_run[OF assms(6), of "[]" MAX_RESULTS] by (simp add: MAX_RESULTS_def Let_def)
  ultimately have "search_logs site co late False task_id query role s = (Inr (take 200 ?hits, 200 < length ?occ), s)"
    using assms(3,5,7,8) q
    by (simp add: search_logs_def search_log_def full_reader_def bindE_def retE_def trying_def bindS_def liftS_def attempt_def)
  moreover have "map place_of (take 200 ?hits) = map (place content) (take 200 ?occ)"
    using places by (simp flip: take_map)
  ultimately show ?thesis by blast
qed

section \<open>Instance\<close>

definition ex_text :: codec where
  "ex_text = \<lparr>co_decode = single, co_replaced = single, co_fold = py_lower\<rparr>"

theorem search_finds_exactly_witness:
  "\<exists>hits. search_logs ex_reader ex_text (\<lambda>_ _. False) False ''t1'' [''L''] ''admin'' (ex_idle ex_db) = (Inr (hits, False), ex_idle ex_db)
    \<and> map place_of hits = [(2, 1), (3, 1)]"
proof -
  have found: "filter (occurs (co_fold ex_text) [''L''] (single ''hello'')) [0..<length ''hello''] = [2, 3]" by code_simp
  have places: "place ''hello'' 2 = (2, 1)" "place ''hello'' 3 = (3, 1)" by code_simp+
  obtain task d where "get_task ''t1'' ex_db = (Inr task, d)" using stored_tasks_readable_witness by (metis prod.collapse)
  moreover from this have "d = ex_db" using get_task_id by blast
  ultimately have "onDb (get_task ''t1'') (ex_idle ex_db) = (Inr task, ex_idle ex_db)" by (simp add: onDb_def ex_idle_def)
  moreover have "plain ''hello''" by code_simp
  ultimately show ?thesis
    using search_finds_exactly[of ex_text "''hello''" ex_reader "''t1''" "[''L'']" "\<lambda>_ _. False" "ex_idle ex_db" task "''admin''"]
    unfolding found by (simp add: ex_text_def ex_reader_def ex_archive_def unbordered_def places)
qed

end
