(* ===== verification/Spec2Isabelle.thy ===== *)
theory Spec2Isabelle
  imports LF_Variables LF_Guarantees LF_Logs LF_Auth LF_Files_Facts LF_Plugins_Facts
    LF_Results_Facts LF_Verification_Facts LF_Diagnostics_Facts LF_Streams_Facts LF_Executor_Facts LF_Settings_Facts
    LF_Search_Facts
begin

text \<open>
  LocalFlow is a controller for long-running command line tasks: a task is submitted through an
  HTTP interface or expanded from a configuration by a plugin, stored in a SQLite database,
  admitted by a scheduler under mutex keys and a concurrency limit, run by an executor, watched,
  interrupted by a stop strategy, and recovered when the controller is restarted. This
  development models the core of \<^verbatim>\<open>src/src/localflow\<close> and proves the properties the parts
  promise to each other and to the operator.

  \<^bold>\<open>Theories.\<close>

  \<^descr> \<open>LF_Prelude\<close>: Python's strings, dictionaries, exceptions and paths as far as the sources
  use them; computations on a state that may raise (\<open>op\<close>, with a small Hoare calculus); the locale
  \<open>keyset_pages\<close> of listings read page by page.

  \<^descr> \<open>LF_Models\<close> (\<^verbatim>\<open>models.py\<close>): task states, stop strategies, the validation of a task, and
  the text that binds a command to a working directory and its source files
  (\<open>freeze_command_working_directory\<close>) with its inverse for display (\<open>command_for_log\<close>).

  \<^descr> \<open>LF_Variables\<close> (\<^verbatim>\<open>variables.py\<close>): \<open>VariableResolver\<close> with its memo table, against a
  reference definition without one. The walk along references is bounded by the number of
  variables, which is enough because a repeated name is reported as a cycle.

  \<^descr> \<open>LF_Store\<close>, \<open>LF_Store_Facts\<close> (\<^verbatim>\<open>storage.py\<close>): the tables as lists of rows in a record,
  each method as an operation on it. A transaction that fails leaves the tables as they were.
  The facts are collected in the locale \<open>db_write\<close> (what every writer does to a row) and
  interpreted on the operations.

  \<^descr> \<open>LF_Service\<close>, \<open>LF_Service_Facts\<close>, \<open>LF_Scheduler\<close>, \<open>LF_Guarantees\<close> (\<^verbatim>\<open>service.py\<close>): the
  event loop. A coroutine runs without interruption between two awaits; each such segment is one
  definition and a suspended coroutine is a value in the state. \<open>svc_step\<close> is the relation of all
  steps: API calls, scheduler passes, maintenance, restarts, recovery, shutdown and the
  continuation of any coroutine with any answer of the executor, the clock or the evaluator.
  \<open>svc_invariant\<close> states what a predicate on the state has to satisfy to be kept by every step;
  its interpretations give the guarantees. The listing of all tasks and the drain of a shutdown
  take fuel: for the listing one more than the number of tasks is proved to be enough.

  \<^descr> \<open>LF_Logs\<close> (\<^verbatim>\<open>log_files.py\<close>, \<^verbatim>\<open>terminal_windows.py\<close>, \<open>read_log\<close>): the bounded log
  writer with partial and failing writes, its integrity receipt, several writers that share a log
  (\<open>log_step\<close>), and the byte windows shown in the terminal. The claims about complete logs state
  the condition they need: a receipt that is marked is stored, or it is removed while the log holds
  something; what happens otherwise is shown beside them.

  \<^descr> \<open>LF_Auth\<close> (\<^verbatim>\<open>auth.py\<close> and the gates of \<^verbatim>\<open>api.py\<close>): administrator sessions, request
  tokens, signed clients with challenges and key rotation. The digests are parameters.

  \<^descr> \<open>LF_Files\<close>, \<open>LF_Files_Facts\<close> (\<^verbatim>\<open>config_repository.py\<close>, \<^verbatim>\<open>workspace_repository.py\<close>):
  configuration files on a file system with directories and symbolic links; versions, includes
  and their dependencies, moving, copying and deleting. The nesting of includes is bounded by the
  number of entries, which is proved to be enough.

  \<^descr> \<open>LF_Plugins\<close>, \<open>LF_Plugins_Facts\<close> (\<^verbatim>\<open>plugins.py\<close>, \<open>resolve_config_tree\<close>): loading plugin
  files with diagnostics, the checks of their metadata, the schemas and descriptions they are
  published with, the values of a run, its expansion into tasks, discovery, inspection and the
  evaluation of results. A plugin is a record of its attributes and methods.

  \<^descr> \<open>LF_Results\<close>, \<open>LF_Results_Facts\<close> (\<^verbatim>\<open>results.py\<close>): the scan of simulator logs in blocks, with a
  reference on the whole text, and the verdict over all logs of a run.

  \<^descr> \<open>LF_Verification\<close>, \<open>LF_Verification_Facts\<close> (\<^verbatim>\<open>src/plugins/verification.py\<close>): the plugin for
  simulation runs. The locale \<open>declared_verdicts\<close> states what the registry needs of an evaluator
  and is interpreted on the plugin.

  \<^descr> \<open>LF_Diagnostics\<close>, \<open>LF_Diagnostics_Facts\<close> (\<^verbatim>\<open>config_diagnostics.py\<close>, \<open>CommonConfigFields\<close>): which
  configurations are called runnable.

  \<^descr> \<open>LF_Base64\<close>, \<open>LF_Api\<close>, \<open>LF_Api_Facts\<close> (\<^verbatim>\<open>api.py\<close>): the endpoints as functions on the states
  of the components they call, with the handlers that turn an exception into a status. Base 64
  is defined as the standard library computes it, because the page cursor and the terminal use it.
  The pages of the task list instantiate \<open>keyset_pages\<close>.

  \<^descr> \<open>LF_Streams\<close>, \<open>LF_Streams_Facts\<close> (\<open>events\<close>, \<open>event_socket\<close>, \<open>terminal\<close> in \<^verbatim>\<open>api.py\<close>): one
  definition for a round of each loop, and the rounds in a row while the database and the log grow.

  \<^descr> \<open>LF_Search\<close>, \<open>LF_Search_Facts\<close> (\<open>search_log\<close> in \<^verbatim>\<open>service.py\<close>, \<open>search_logs\<close> in \<^verbatim>\<open>api.py\<close>): the search in
  the blocks of a log with the overlap kept between them, against all occurrences in the whole log.

  \<^descr> \<open>LF_Owner\<close>, \<open>LF_Owner_Facts\<close> (\<^verbatim>\<open>process_owner.py\<close>): the process that owns the family of a
  command. \<open>own_step\<close> interleaves its loop with the forks, exits and reaping of the family. The
  search for descendants takes fuel: two more than the number of processes is proved to be enough.

  \<^descr> \<open>LF_Supervisor\<close>, \<open>LF_Supervisor_Facts\<close> (\<open>SystemdExecutor\<close>, \<^verbatim>\<open>supervisor.py\<close>, \<^verbatim>\<open>control.py\<close>,
  \<open>lifecycle_line\<close>): the commands given to the service manager and the reading of its answers, the
  messages of the control socket and the loop that copies a terminal into the log, which other writers
  use at the same time.

  \<^descr> \<open>LF_Executor\<close>, \<open>LF_Executor_Facts\<close> (\<open>SubprocessExecutor\<close>): the tables of the executor; a start is
  cut at its awaits as the coroutines of the service are.

  \<^descr> \<open>LF_Settings\<close>, \<open>LF_Settings_Facts\<close> (\<^verbatim>\<open>settings.py\<close>): the settings with their checks and the
  initialization of a root on the file system of \<open>LF_Files\<close>, with the modes that are set on it.

  \<^bold>\<open>What is shown.\<close> Tasks: mutual exclusion by keys, the concurrency limit, at most one launch,
  a lifecycle that only moves forward, an end time exactly in final states, and a scheduler pass
  that leaves no admissible task behind. Store: referential consistency, compare-and-set
  transitions, atomic and idempotent batches, monotone deferred values, an append-only event log,
  exact retention. Models and variables: validation accepts its own output, the wrapped command
  is shown as it was written, memoisation is transparent, cycles are reported. Logs: the size
  bound, truthful receipts as long as they can be marked, reading in pieces, windows that fit. Authentication: exactly the
  signed tokens are sessions, the exact condition for a signed request, no replay, and the
  conditions of a state-changing request. Files: the repository refines a versioned store, through links as well, no
  update is lost, operations stay inside the configuration directory, dependencies are exact. Plugins: the
  registry only offers valid plugins, inputs and their schema agree, tasks are bound to a
  directory once, a reported status is declared, a failed process is no success unless its plugin declares it one. Results:
  the verdict on a log does not depend on the blocks it is read in, and a run is exactly as bad as
  its worst log. Simulation runs: one task per case and repetition, runs of one case exclude each
  other, a success rests on every log. Diagnosis: runnable means exactly that every check accepts.
  Interface: pages of tasks that are complete, one task per idempotency key, a plan that shows what
  is stored, what a summary reader is told, event and terminal streams without loss or repetition, a log search that misses nothing across its blocks. Processes: an owner that ends leaves
  nothing behind, the search for descendants is exact, the executor releases what it acquired but the log
  of a start that gets no owner directory, and
  what reaches the log and the terminal of a supervised task. Settings: initialization keeps what
  the operator has, and the modes of all but five directories.

  \<^bold>\<open>Assumptions.\<close> Text is modelled with code points below 256. SQLite executes the statements
  the store issues as the model states them. Task ids drawn at random are fresh. A status
  returned by a result evaluator has a non-empty key. Digests are non-empty ASCII texts.

  \<^bold>\<open>Granularity.\<close> A step of the service is the code between two awaits; one call of a log writer, one
  round of the owner (a message, the forced flag and the signals it sends) and one statement of the
  store are single steps, so a signal handler between the receipt of a stop message and the
  assignment of the flag is not modelled, nor are partial writes of two log writers in turns. The await of the
  request body in \<open>is_signed\<close> is part of its step. The fallback read in \<open>signal_one\<close> succeeds and a
  signal fails only for a process that is gone. Boot ids, the concurrency limit and the access of a
  client along an event stream do not change.

  \<^bold>\<open>Not modelled.\<close> Processes, terminals, sockets and the service manager as the operating system
  implements them: their answers are inputs of the executors. The fork of a supervisor and the
  signals it forwards, timeouts of calls, process environments, and file modes outside of the initialization. HTTP routing and
  parsing, the middleware, \<^verbatim>\<open>POST /batches\<close> (it copies untyped values into a task), installation
  directories, logging set-up, file watching, the command line, the separate script runner
  \<^verbatim>\<open>app_main\<close> and its plugins, which rest on libraries outside the repository, the
  frontend and the release tools.
\<close>

end
